(* ===== verification/Prelude.thy ===== *)
theory Prelude
  imports Main "HOL-Library.Char_ord" "HOL-Library.List_Lexorder"
    "HOL-Library.AList" "HOL-Library.Multiset"
begin

text \<open>
  Shared vocabulary of the development: errors as values of a sum type, the constructor
  checks of the frozen dataclasses as a list of guarded errors, the regular expressions of
  the source as executable predicates on text, Python's dictionaries as association lists,
  and the contract of an object whose methods may raise (a \<open>machine\<close>).

  Text.  A Python \<open>str\<close> is a HOL \<open>string\<close>, each character standing for the code point with
  its number, so the text of the model ranges over the code points U+0000 to U+00FF.  Every
  text field the program accepts is ASCII (each one passes an ASCII-only regular expression
  or an \<open>isascii\<close> test), and text beyond U+00FF is rejected by the same tests.
  Integers are unbounded, as Python's are: the type \<open>int\<close>.
\<close>

section \<open>Errors as values\<close>

text \<open>
  A Python function that may raise is a function into \<open>'e + 'a\<close>: \<open>Inl e\<close> for the
  exception, \<open>Inr x\<close> for the returned value.  \<open>bindE\<close> is sequential composition.
\<close>

fun bindE :: "'e + 'a \<Rightarrow> ('a \<Rightarrow> 'e + 'b) \<Rightarrow> 'e + 'b" where
  "bindE (Inl e) f = Inl e"
| "bindE (Inr x) f = f x"

text \<open>
  Evaluation: as a \<open>case\<close> expression the continuation of a composition is only evaluated
  once its first part has returned.
\<close>

lemma bindE_case [code_unfold]: "bindE m f = (case m of Inl e \<Rightarrow> Inl e | Inr x \<Rightarrow> f x)"
  by (cases m) simp_all

fun mapE :: "('a \<Rightarrow> 'e + 'b) \<Rightarrow> 'a list \<Rightarrow> 'e + 'b list" where
  "mapE f [] = Inr []"
| "mapE f (x # xs) =
     bindE (f x) (\<lambda>y. bindE (mapE f xs) (\<lambda>ys. Inr (y # ys)))"

fun map_error :: "('e \<Rightarrow> 'f) \<Rightarrow> 'e + 'a \<Rightarrow> 'f + 'a" where
  "map_error f (Inl e) = Inl (f e)"
| "map_error f (Inr x) = Inr x"

text \<open>
  A constructor check \<open>__post_init__\<close> is a list of conditions, each with the error raised
  when it fails; the first failing condition decides.
\<close>

fun checks :: "(bool \<times> 'e) list \<Rightarrow> 'e + unit" where
  "checks [] = Inr ()"
| "checks ((ok, e) # cs) = (if ok then checks cs else Inl e)"

definition guarded :: "(bool \<times> 'e) list \<Rightarrow> 'a \<Rightarrow> 'e + 'a" where
  "guarded cs x = bindE (checks cs) (\<lambda>_. Inr x)"

definition is_ok :: "'e + 'a \<Rightarrow> bool" where
  "is_ok r = (case r of Inl _ \<Rightarrow> False | Inr _ \<Rightarrow> True)"

lemma is_ok_simps [simp]: "is_ok (Inl e) = False" "is_ok (Inr x) = True"
  by (simp_all add: is_ok_def)

lemma is_okE: "is_ok r \<Longrightarrow> (\<And>x. r = Inr x \<Longrightarrow> P) \<Longrightarrow> P"
  by (cases r) auto

lemma bindE_Inr_iff [simp]: "bindE m f = Inr y \<longleftrightarrow> (\<exists>x. m = Inr x \<and> f x = Inr y)"
  by (cases m) auto

lemma bindE_cong [fundef_cong]:
  "m = m' \<Longrightarrow> (\<And>x. m' = Inr x \<Longrightarrow> f x = g x) \<Longrightarrow> bindE m f = bindE m' g"
  by (cases m) auto

lemma bindE_Inl_iff:
  "bindE m f = Inl e \<longleftrightarrow> m = Inl e \<or> (\<exists>x. m = Inr x \<and> f x = Inl e)"
  by (cases m) auto

lemma map_error_Inr_iff [simp]: "map_error f m = Inr y \<longleftrightarrow> m = Inr y"
  by (cases m) auto

lemma checks_ok [simp]: "checks cs = Inr u \<longleftrightarrow> (\<forall>(ok, e) \<in> set cs. ok)"
  by (induction cs rule: checks.induct) auto

lemma checks_error: "checks cs = Inl e \<Longrightarrow> (False, e) \<in> set cs"
  by (induction cs rule: checks.induct) (auto split: if_splits)

lemma guarded_Inr [simp]: "guarded cs x = Inr y \<longleftrightarrow> (\<forall>(ok, e) \<in> set cs. ok) \<and> y = x"
  by (auto simp: guarded_def)

lemma guarded_is_ok: "guarded cs x = Inr y \<longleftrightarrow> y = x \<and> is_ok (guarded cs x)"
  by (cases "checks cs") (auto simp: guarded_def simp del: checks_ok)

lemma guarded_error: "guarded cs x = Inl e \<Longrightarrow> (False, e) \<in> set cs"
  by (auto simp: guarded_def bindE_Inl_iff dest: checks_error)

lemma mapE_ok_map: "(\<And>x. x \<in> set xs \<Longrightarrow> f (g x) = Inr x) \<Longrightarrow> mapE f (map g xs) = Inr xs"
  by (induction xs) auto

lemma mapE_Inr_list_all2: "mapE f xs = Inr ys \<longleftrightarrow> list_all2 (\<lambda>x y. f x = Inr y) xs ys"
  by (induction xs arbitrary: ys) (auto simp: list_all2_Cons1)

lemma mapE_length: "mapE f xs = Inr ys \<Longrightarrow> length ys = length xs"
  by (auto simp: mapE_Inr_list_all2 dest: list_all2_lengthD)

section \<open>Regular expressions of the source\<close>

text \<open>
  The program matches text only with \<open>fullmatch\<close>, and only against expressions of the
  forms \<open>[..]{m,n}\<close> and \<open>[..][..]{0,n}\<close>; a character class is a predicate.
\<close>

definition is_digit :: "char \<Rightarrow> bool" where
  "is_digit c \<longleftrightarrow> CHR ''0'' \<le> c \<and> c \<le> CHR ''9''"

definition is_lower :: "char \<Rightarrow> bool" where
  "is_lower c \<longleftrightarrow> CHR ''a'' \<le> c \<and> c \<le> CHR ''z''"

definition is_upper :: "char \<Rightarrow> bool" where
  "is_upper c \<longleftrightarrow> CHR ''A'' \<le> c \<and> c \<le> CHR ''Z''"

definition is_alnum :: "char \<Rightarrow> bool" where
  "is_alnum c \<longleftrightarrow> is_digit c \<or> is_lower c \<or> is_upper c"

definition is_lower_hex :: "char \<Rightarrow> bool" where
  "is_lower_hex c \<longleftrightarrow> is_digit c \<or> CHR ''a'' \<le> c \<and> c \<le> CHR ''f''"

lemmas char_class_defs =
  is_digit_def is_lower_def is_upper_def is_alnum_def is_lower_hex_def

definition match_class :: "(char \<Rightarrow> bool) \<Rightarrow> nat \<Rightarrow> nat \<Rightarrow> string \<Rightarrow> bool" where
  "match_class P m n s \<longleftrightarrow> m \<le> length s \<and> length s \<le> n \<and> list_all P s"

fun match_head :: "(char \<Rightarrow> bool) \<Rightarrow> (char \<Rightarrow> bool) \<Rightarrow> nat \<Rightarrow> string \<Rightarrow> bool" where
  "match_head P Q n [] = False"
| "match_head P Q n (c # cs) = (P c \<and> length cs \<le> n \<and> list_all Q cs)"

text \<open>A SHA-256 identity is the text \<open>sha256:\<close> and 64 lower-case hexadecimal digits.\<close>

definition digest_text :: "string \<Rightarrow> string" where
  "digest_text h = ''sha256:'' @ h"

definition digest_hex :: "string \<Rightarrow> string" where
  "digest_hex s = drop 7 s"

definition is_hex64 :: "string \<Rightarrow> bool" where
  "is_hex64 s \<longleftrightarrow> match_class is_lower_hex 64 64 s"

definition is_digest :: "string \<Rightarrow> bool" where
  "is_digest s \<longleftrightarrow> take 7 s = ''sha256:'' \<and> is_hex64 (drop 7 s)"

text \<open>The stable codes \<open>[a-z0-9][a-z0-9_]{0,63}\<close>.\<close>

definition is_code :: "string \<Rightarrow> bool" where
  "is_code s \<longleftrightarrow>
     match_head (\<lambda>c. is_lower c \<or> is_digit c) (\<lambda>c. is_lower c \<or> is_digit c \<or> c = CHR ''_'') 63 s"

lemma list_all_replicate [simp]: "list_all P (replicate n x) \<longleftrightarrow> n = 0 \<or> P x"
  by (auto simp: list_all_iff)

lemma match_class_replicate [simp]:
  "match_class P m n (replicate k c) \<longleftrightarrow> m \<le> k \<and> k \<le> n \<and> (k = 0 \<or> P c)"
  by (auto simp: match_class_def)

lemma is_digest_text [simp]: "is_digest (digest_text h) \<longleftrightarrow> is_hex64 h"
  by (simp add: is_digest_def digest_text_def)

lemma digest_text_inject [simp]: "digest_text h = digest_text h' \<longleftrightarrow> h = h'"
  by (simp add: digest_text_def)

lemma digest_hex_text [simp]: "digest_hex (digest_text h) = h"
  by (simp add: digest_hex_def digest_text_def)

lemma is_digest_text_hex: "is_digest s \<Longrightarrow> digest_text (digest_hex s) = s"
  by (metis append_take_drop_id digest_hex_def digest_text_def is_digest_def)

lemma is_digest_hex64: "is_digest s \<Longrightarrow> is_hex64 (digest_hex s)"
  by (simp add: is_digest_def digest_hex_def)

lemma is_hex64_replicate [simp]: "is_hex64 (replicate n c) \<longleftrightarrow> n = 64 \<and> is_lower_hex c"
  by (auto simp: is_hex64_def)

lemma is_lower_hex_samples [simp]:
  "is_lower_hex CHR ''0''" "is_lower_hex CHR ''1''" "is_lower_hex CHR ''a''"
  "is_lower_hex CHR ''b''" "is_lower_hex CHR ''c''" "is_lower_hex CHR ''d''"
  by (simp_all add: char_class_defs)

section \<open>Bounds\<close>

abbreviation max_int64 :: int where
  "max_int64 \<equiv> 9223372036854775807"

lemma max_int64_eq: "max_int64 = 2 ^ 63 - 1"
  by simp

definition in_range :: "int \<Rightarrow> int \<Rightarrow> int \<Rightarrow> bool" where
  "in_range lo hi n \<longleftrightarrow> lo \<le> n \<and> n \<le> hi"

lemma in_rangeD: "in_range lo hi n \<Longrightarrow> lo \<le> n" "in_range lo hi n \<Longrightarrow> n \<le> hi"
  by (simp_all add: in_range_def)

section \<open>Dictionaries as association lists\<close>

text \<open>
  \<open>AList.update\<close> replaces the value of a present key in place and appends an absent one,
  which is the order a Python \<open>dict\<close> keeps; \<open>map_of\<close> is \<open>dict.get\<close>.
\<close>

lemma map_of_sort_key_fst:
  assumes "distinct (map fst kvs)"
  shows "map_of (sort_key fst kvs) = map_of kvs"
proof (rule map_of_inject_set [THEN iffD2])
  have mset: "mset (map fst (sort_key fst kvs)) = mset (map fst kvs)" by simp
  show "distinct (map fst (sort_key fst kvs))"
    using assms mset by (metis mset_eq_imp_distinct_iff)
qed (use assms in auto)

lemma distinct_map_fst_sort_key [simp]:
  "distinct (map fst (sort_key fst kvs)) \<longleftrightarrow> distinct (map fst kvs)"
  by (rule mset_eq_imp_distinct_iff) simp

lemma set_update_distinct:
  "distinct (map fst al) \<Longrightarrow>
     set (AList.update k v al) = insert (k, v) (set al - {(k, w) | w. True})"
  by (induction al) (auto simp: image_iff)

lemma length_update:
  "length (AList.update k v al) = (if k \<in> fst ` set al then length al else Suc (length al))"
  by (induction al) auto

lemma AList_update_id: "map_of al k = Some v \<Longrightarrow> AList.update k v al = al"
  by (induction al) (auto split: if_splits)

section \<open>Objects with operations that may raise\<close>

text \<open>
  An object is a state and a step function: an operation yields the state the object is
  left in and its outcome, the state after an exception included.  \<open>run\<close> performs a
  sequence of calls; a caller that catches an exception goes on with the state it finds.
\<close>

type_synonym ('s, 'o, 'r) stepper = "'s \<Rightarrow> 'o \<Rightarrow> 's \<times> 'r"

fun run :: "('s, 'o, 'r) stepper \<Rightarrow> 's \<Rightarrow> 'o list \<Rightarrow> 's" where
  "run step s [] = s"
| "run step s (x # xs) = run step (fst (step s x)) xs"

lemma run_append: "run step s (xs @ ys) = run step (run step s xs) ys"
  by (induction xs arbitrary: s) auto

text \<open>The contract of such an object: every operation keeps its invariant.\<close>

locale machine =
  fixes step :: "'s \<Rightarrow> 'o \<Rightarrow> 's \<times> 'r"
    and inv :: "'s \<Rightarrow> bool"
  assumes step_inv: "inv s \<Longrightarrow> inv (fst (step s x))"
begin

lemma run_inv: "inv s \<Longrightarrow> inv (run step s xs)"
  by (induction xs arbitrary: s) (auto intro: step_inv)

text \<open>What every call of some kind keeps, any calls of that kind keep.\<close>

lemma run_keeps:
  assumes "\<And>s x. inv s \<Longrightarrow> Q s \<Longrightarrow> P x \<Longrightarrow> Q (fst (step s x))"
  shows "inv s \<Longrightarrow> Q s \<Longrightarrow> \<forall>x \<in> set xs. P x \<Longrightarrow> Q (run step s xs)"
  by (induction xs arbitrary: s) (auto intro: step_inv assms)

end

text \<open>
  A machine whose states only move forward in a preorder (a revision that grows, a marker
  that stays set): what holds of one step holds of any sequence of calls.
\<close>

locale progressing_machine = machine +
  fixes before :: "'s \<Rightarrow> 's \<Rightarrow> bool"
  assumes before_refl: "before s s"
    and before_trans: "before s t \<Longrightarrow> before t u \<Longrightarrow> before s u"
    and step_before: "inv s \<Longrightarrow> before s (fst (step s x))"
begin

lemma run_before: "inv s \<Longrightarrow> before s (run step s xs)"
proof (induction xs arbitrary: s)
  case Nil
  then show ?case by (simp add: before_refl)
next
  case (Cons x xs)
  then show ?case
    by (auto intro: before_trans [OF step_before] step_inv)
qed

end

text \<open>
  \<open>fired P step s xs\<close> counts the calls of a run whose call and outcome satisfy \<open>P\<close>.  An event
  is one-shot when it can only happen while some marker is unset, sets the marker, and no
  operation unsets it; then it happens at most once in any run.
\<close>

fun fired :: "('o \<Rightarrow> 'r \<Rightarrow> bool) \<Rightarrow> ('s, 'o, 'r) stepper \<Rightarrow> 's \<Rightarrow> 'o list \<Rightarrow> nat" where
  "fired P step s [] = 0"
| "fired P step s (x # xs) =
     (if P x (snd (step s x)) then 1 else 0) + fired P step (fst (step s x)) xs"

locale one_shot = machine +
  fixes event :: "'b \<Rightarrow> 'c \<Rightarrow> bool"
    and spent :: "'a \<Rightarrow> bool"
  assumes event_unspent: "inv s \<Longrightarrow> event x (snd (step s x)) \<Longrightarrow> \<not> spent s"
    and event_spends: "inv s \<Longrightarrow> event x (snd (step s x)) \<Longrightarrow> spent (fst (step s x))"
    and spent_stays: "inv s \<Longrightarrow> spent s \<Longrightarrow> spent (fst (step s x))"
begin

lemma spent_never_fires: "inv s \<Longrightarrow> spent s \<Longrightarrow> fired event step s xs = 0"
  by (induction xs arbitrary: s) (auto dest: event_unspent intro: step_inv spent_stays)

lemma fires_at_most_once: "inv s \<Longrightarrow> fired event step s xs \<le> 1"
proof (induction xs arbitrary: s)
  case (Cons x xs)
  have inv: "inv (fst (step s x))" by (rule step_inv [OF Cons.prems])
  show ?case
  proof (cases "event x (snd (step s x))")
    case True
    then have "fired event step (fst (step s x)) xs = 0"
      by (intro spent_never_fires inv event_spends Cons.prems)
    then show ?thesis by simp
  next
    case False
    with Cons.IH [OF inv] show ?thesis by simp
  qed
qed simp

end

text \<open>
  When nothing else sets the marker, the marker records exactly whether the event happened.
\<close>

locale marked_event = one_shot +
  assumes only_event_spends: "inv s \<Longrightarrow> \<not> spent s \<Longrightarrow> spent (fst (step s x)) \<Longrightarrow> event x (snd (step s x))"
begin

lemma fired_iff_spent:
  "inv s \<Longrightarrow> \<not> spent s \<Longrightarrow> fired event step s xs = (if spent (run step s xs) then 1 else 0)"
proof (induction xs arbitrary: s)
  case (Cons x xs)
  have inv: "inv (fst (step s x))" by (rule step_inv [OF Cons.prems(1)])
  show ?case
  proof (cases "spent (fst (step s x))")
    case True
    have "spent (run step t ys)" if "inv t" "spent t" for t ys
      using that by (induction ys arbitrary: t) (auto intro: step_inv spent_stays)
    with True inv have "spent (run step s (x # xs))" by simp
    moreover have "event x (snd (step s x))" by (rule only_event_spends [OF Cons.prems True])
    ultimately show ?thesis using spent_never_fires [OF inv True] by simp
  next
    case False
    moreover from this have "\<not> event x (snd (step s x))" using event_spends [OF Cons.prems(1)] by blast
    ultimately show ?thesis using Cons.IH [OF inv False] by simp
  qed
qed simp

end

end
