(* ===== verification/Hashing.thy ===== *)
theory Hashing
  imports Prelude "HOL-Library.Word"
begin

text \<open>
  Bytes, text encodings and the two primitives the program takes from Python's standard
  library: \<open>hashlib.sha256\<close> (FIPS 180-4) and \<open>hmac.digest\<close> with SHA-256 (RFC 2104).
  Both are given by executable definitions, so a digest of the model is the digest of the
  program.  No property of the development assumes that SHA-256 is injective: where equal
  digests are used to conclude equal contents, the theorem names the two byte strings that
  would otherwise be an explicit collision (\<open>collide\<close>).
\<close>

unbundle bit_operations_syntax

type_synonym byte = "8 word"
type_synonym bytes = "byte list"
type_synonym w32 = "32 word"

section \<open>Integers as bytes\<close>

text \<open>\<open>n.to_bytes(k, "big")\<close> for \<open>0 \<le> n < 256 ^ k\<close>, and \<open>int.from_bytes(b, "big")\<close>.\<close>

fun be_bytes :: "nat \<Rightarrow> nat \<Rightarrow> bytes" where
  "be_bytes 0 n = []"
| "be_bytes (Suc k) n = be_bytes k (n div 256) @ [word_of_nat (n mod 256)]"

definition be_nat :: "bytes \<Rightarrow> nat" where
  "be_nat b = foldl (\<lambda>acc x. 256 * acc + unat x) 0 b"

lemma length_be_bytes [simp]: "length (be_bytes k n) = k"
  by (induction k arbitrary: n) auto

lemma be_nat_snoc: "be_nat (b @ [x]) = 256 * be_nat b + unat x"
  by (simp add: be_nat_def)

lemma be_nat_be_bytes: "n < 256 ^ k \<Longrightarrow> be_nat (be_bytes k n) = n"
proof (induction k arbitrary: n)
  case 0
  then show ?case by (simp add: be_nat_def)
next
  case (Suc k)
  have "n div 256 < 256 ^ k"
    using Suc.prems by (simp add: less_mult_imp_div_less mult.commute)
  moreover have "unat (word_of_nat (n mod 256) :: byte) = n mod 256"
    by (simp add: unat_of_nat)
  ultimately show ?case
    by (simp add: be_nat_snoc Suc.IH)
qed

lemma be_bytes_inject:
  "m < 256 ^ k \<Longrightarrow> n < 256 ^ k \<Longrightarrow> be_bytes k m = be_bytes k n \<longleftrightarrow> m = n"
  by (metis be_nat_be_bytes)

lemma unat_byte_less: "unat (b :: byte) < 256"
  using unsigned_less [of b, where 'a = nat] by simp

lemma be_nat_less: "be_nat b < 256 ^ length b"
proof (induction b rule: rev_induct)
  case Nil
  then show ?case by (simp add: be_nat_def)
next
  case (snoc x b)
  with unat_byte_less [of x] show ?case by (simp add: be_nat_snoc)
qed

section \<open>Text as bytes\<close>

text \<open>
  UTF-8 of the modelled code points.  The decoder accepts what the encoder produces; it
  answers \<open>None\<close> for malformed input and for code points beyond U+00FF.
\<close>

definition utf8_char :: "char \<Rightarrow> bytes" where
  "utf8_char c =
     (let n = of_char c :: nat in
      if n < 128 then [word_of_nat n] else [word_of_nat (192 + n div 64), word_of_nat (128 + n mod 64)])"

definition utf8_encode :: "string \<Rightarrow> bytes" where
  "utf8_encode s = concat (map utf8_char s)"

fun utf8_decode :: "bytes \<Rightarrow> string option" where
  "utf8_decode [] = Some []"
| "utf8_decode (b # bs) =
     (if unat b < 128 then map_option ((#) (char_of (unat b))) (utf8_decode bs)
      else if unat b = 194 \<or> unat b = 195 then
        (case bs of [] \<Rightarrow> None
         | b' # bs' \<Rightarrow>
             if 128 \<le> unat b' \<and> unat b' < 192
             then map_option ((#) (char_of ((unat b - 192) * 64 + (unat b' - 128)))) (utf8_decode bs')
             else None)
      else None)"

definition is_ascii :: "string \<Rightarrow> bool" where
  "is_ascii s \<longleftrightarrow> list_all (\<lambda>c. (of_char c :: nat) < 128) s"

lemma of_char_less_256: "(of_char c :: nat) < 256"
  using of_char_mod_256 [of c, where 'a = nat] by (metis mod_less_divisor zero_less_numeral)

lemma unat_byte: "n < 256 \<Longrightarrow> unat (word_of_nat n :: byte) = n"
  by (simp add: unat_of_nat)

lemma utf8_decode_char: "utf8_decode (utf8_char c @ bs) = map_option ((#) c) (utf8_decode bs)"
proof (cases "(of_char c :: nat) < 128")
  case True
  then show ?thesis by (simp add: utf8_char_def unat_byte char_of_char)
next
  case False
  define n where "n = (of_char c :: nat)"
  define x y :: byte where "x = word_of_nat (192 + n div 64)" and "y = word_of_nat (128 + n mod 64)"
  have n: "128 \<le> n" "n < 256" using False of_char_less_256 [of c] by (simp_all add: n_def)
  have "n div 64 = 2 \<or> n div 64 = 3" using n by auto
  moreover have "unat x = 192 + n div 64" unfolding x_def by (rule unat_byte) (use n in auto)
  moreover have "unat y = 128 + n mod 64" unfolding y_def by (rule unat_byte) (use n in auto)
  moreover have "utf8_char c = [x, y]"
    using False by (simp add: utf8_char_def Let_def x_def y_def n_def)
  moreover have "char_of (n div 64 * 64 + n mod 64) = c"
    by (simp add: n_def char_of_char)
  ultimately show ?thesis by auto
qed

lemma utf8_round_trip [simp]: "utf8_decode (utf8_encode s) = Some s"
  by (induction s) (simp_all add: utf8_encode_def utf8_decode_char)

lemma utf8_encode_inject [simp]: "utf8_encode s = utf8_encode t \<longleftrightarrow> s = t"
  by (metis option.inject utf8_round_trip)

lemma utf8_encode_append [simp]: "utf8_encode (s @ t) = utf8_encode s @ utf8_encode t"
  by (simp add: utf8_encode_def)

lemma utf8_encode_Nil [simp]: "utf8_encode [] = []"
  by (simp add: utf8_encode_def)

lemma length_utf8_encode_ge: "length s \<le> length (utf8_encode s)"
  by (induction s) (simp_all add: utf8_encode_def utf8_char_def Let_def)

lemma length_utf8_ascii [simp]: "is_ascii s \<Longrightarrow> length (utf8_encode s) = length s"
  by (induction s) (auto simp: utf8_encode_def utf8_char_def is_ascii_def Let_def)

text \<open>Evaluation reads characters and bytes as integers, whose numerals are binary.\<close>

lemma int_of_char: "int (of_char c) = of_char c"
  by (cases c) (simp add: of_char_def)

lemma char_of_int: "char_of (int n) = (char_of n :: char)"
  by (simp add: char_of_def bit_of_nat_iff_bit)

lemma utf8_char_code [code]:
  "utf8_char c =
     (let n = of_char c :: int in
      if n < 128 then [word_of_int n] else [word_of_int (192 + n div 64), word_of_int (128 + n mod 64)])"
proof -
  define n where "n = (of_char c :: nat)"
  have "(of_char c :: int) = int n" by (simp add: n_def int_of_char)
  moreover have "word_of_int (192 + int n div 64) = (word_of_nat (192 + n div 64) :: byte)"
    by (metis of_int_of_nat_eq of_nat_add of_nat_div of_nat_numeral)
  moreover have "word_of_int (128 + int n mod 64) = (word_of_nat (128 + n mod 64) :: byte)"
    by (metis of_int_of_nat_eq of_nat_add of_nat_mod of_nat_numeral)
  ultimately show ?thesis by (simp add: utf8_char_def Let_def flip: n_def)
qed

lemma utf8_decode_code [code]:
  "utf8_decode [] = Some []"
  "utf8_decode (b # bs) =
     (let n = uint b in
      if n < 128 then map_option ((#) (char_of n)) (utf8_decode bs)
      else if n = 194 \<or> n = 195 then
        (case bs of [] \<Rightarrow> None
         | b' # bs' \<Rightarrow>
             (let m = uint b' in
              if 128 \<le> m \<and> m < 192
              then map_option ((#) (char_of ((n - 192) * 64 + (m - 128)))) (utf8_decode bs')
              else None))
      else None)"
proof -
  define n where "n = unat b"
  have b: "uint b = int n" "unat b = n" by (simp_all add: n_def)
  have c: "char_of ((int n - 192) * 64 + (int m - 128)) = (char_of ((n - 192) * 64 + (m - 128)) :: char)"
    if "n = 194 \<or> n = 195" "128 \<le> m" for m
    using that by (subst char_of_int [symmetric]) auto
  have u: "uint b' = int (unat b')" for b' :: byte by simp
  show "utf8_decode (b # bs) =
     (let n = uint b in
      if n < 128 then map_option ((#) (char_of n)) (utf8_decode bs)
      else if n = 194 \<or> n = 195 then
        (case bs of [] \<Rightarrow> None
         | b' # bs' \<Rightarrow>
             (let m = uint b' in
              if 128 \<le> m \<and> m < 192
              then map_option ((#) (char_of ((n - 192) * 64 + (m - 128)))) (utf8_decode bs')
              else None))
      else None)"
    unfolding b utf8_decode.simps(2) Let_def u using c [of "unat (hd bs)"]
    by (cases bs) (auto simp: char_of_int simp del: of_nat_unat int_nat_eq)
qed simp

section \<open>Hexadecimal\<close>

definition hex_digit :: "nat \<Rightarrow> char" where
  "hex_digit n = (if n < 10 then char_of (48 + n) else char_of (87 + n))"

definition hex_byte :: "byte \<Rightarrow> string" where
  "hex_byte b = [hex_digit (unat b div 16), hex_digit (unat b mod 16)]"

text \<open>\<open>b.hex()\<close>\<close>

definition to_hex :: "bytes \<Rightarrow> string" where
  "to_hex b = concat (map hex_byte b)"

definition hex_value :: "char \<Rightarrow> nat option" where
  "hex_value c =
     (let n = of_char c :: nat in
      if 48 \<le> n \<and> n \<le> 57 then Some (n - 48)
      else if 97 \<le> n \<and> n \<le> 102 then Some (n - 87)
      else if 65 \<le> n \<and> n \<le> 70 then Some (n - 55)
      else None)"

definition is_ascii_space :: "char \<Rightarrow> bool" where
  "is_ascii_space c \<longleftrightarrow> (let n = of_char c :: nat in n = 32 \<or> 9 \<le> n \<and> n \<le> 13)"

text \<open>\<open>bytes.fromhex(s)\<close>; \<open>None\<close> is its \<open>ValueError\<close>.  White space between bytes is skipped.\<close>

fun from_hex :: "string \<Rightarrow> bytes option" where
  "from_hex [] = Some []"
| "from_hex (c # cs) =
     (if is_ascii_space c then from_hex cs
      else case cs of [] \<Rightarrow> None
        | d # ds \<Rightarrow>
            (case (hex_value c, hex_value d) of
               (Some i, Some j) \<Rightarrow> map_option ((#) (word_of_nat (16 * i + j))) (from_hex ds)
             | _ \<Rightarrow> None))"

lemma hex_value_digit: "n < 16 \<Longrightarrow> hex_value (hex_digit n) = Some n"
  by (auto simp: hex_value_def hex_digit_def Let_def of_char_of)

lemma hex_digit_not_space: "n < 16 \<Longrightarrow> \<not> is_ascii_space (hex_digit n)"
  by (auto simp: is_ascii_space_def hex_digit_def Let_def of_char_of)

lemma hex_digit_lower: "n < 16 \<Longrightarrow> is_lower_hex (hex_digit n)"
  by (auto simp: is_lower_hex_def is_digit_def hex_digit_def less_eq_char_def of_char_of)

lemma from_hex_to_hex [simp]: "from_hex (to_hex b) = Some b"
proof (induction b)
  case Nil
  then show ?case by (simp add: to_hex_def)
next
  case (Cons x b)
  have "unat x div 16 < 16" using unat_byte_less [of x] by auto
  moreover have "word_of_nat (16 * (unat x div 16) + unat x mod 16) = x"
    by simp
  ultimately show ?case
    using Cons by (simp add: to_hex_def hex_byte_def hex_value_digit hex_digit_not_space)
qed

lemma to_hex_inject [simp]: "to_hex b = to_hex b' \<longleftrightarrow> b = b'"
  by (metis from_hex_to_hex option.inject)

lemma length_to_hex [simp]: "length (to_hex b) = 2 * length b"
  by (induction b) (simp_all add: to_hex_def hex_byte_def)

lemma to_hex_lower: "list_all is_lower_hex (to_hex b)"
proof (induction b)
  case (Cons x b)
  have "unat x div 16 < 16" using unat_byte_less [of x] by auto
  with Cons show ?case by (simp add: to_hex_def hex_byte_def hex_digit_lower)
qed (simp add: to_hex_def)

text \<open>Lower-case hexadecimal text of even length is the text of some bytes.\<close>

lemma lower_hex_digit: "is_lower_hex c \<Longrightarrow> \<exists>n < 16. c = hex_digit n"
proof -
  assume "is_lower_hex c"
  define k where "k = (of_char c :: nat)"
  with \<open>is_lower_hex c\<close> have n: "48 \<le> k \<and> k \<le> 57 \<or> 97 \<le> k \<and> k \<le> 102"
    by (auto simp: is_lower_hex_def is_digit_def less_eq_char_def)
  have c: "c = char_of k" by (simp add: k_def char_of_char)
  show ?thesis
  proof (cases "k \<le> 57")
    case True
    then show ?thesis using n c by (intro exI [of _ "k - 48"]) (auto simp: hex_digit_def)
  next
    case False
    then show ?thesis using n c by (intro exI [of _ "k - 87"]) (auto simp: hex_digit_def)
  qed
qed

lemma lower_hex_pair:
  assumes "is_lower_hex c" "is_lower_hex d"
  shows "\<exists>b. [c, d] = hex_byte b"
proof -
  obtain i j where ij: "i < 16" "j < 16" "c = hex_digit i" "d = hex_digit j"
    using lower_hex_digit assms by meson
  then have "unat (word_of_nat (16 * i + j) :: byte) = 16 * i + j" by (intro unat_byte) simp
  with ij have "hex_byte (word_of_nat (16 * i + j)) = [c, d]" by (simp add: hex_byte_def)
  then show ?thesis by metis
qed

lemma lower_hex_bytes:
  "list_all is_lower_hex s \<Longrightarrow> length s = 2 * n \<Longrightarrow> \<exists>b. s = to_hex b \<and> length b = n"
proof (induction n arbitrary: s)
  case 0
  then show ?case by (simp add: to_hex_def)
next
  case (Suc n)
  then obtain c d t where s: "s = c # d # t" by (auto simp: length_Suc_conv)
  with Suc obtain b x where "t = to_hex b" "length b = n" "[c, d] = hex_byte x"
    using lower_hex_pair by fastforce
  with s show ?case by (intro exI [of _ "x # b"]) (simp add: to_hex_def)
qed

lemma from_hex_lower:
  assumes "list_all is_lower_hex s" "length s = 2 * n"
  obtains b where "from_hex s = Some b" "length b = n" "s = to_hex b"
  using lower_hex_bytes [OF assms] by auto

section \<open>SHA-256\<close>

text \<open>
  The round constants are the first 32 bits of the fractional parts of the cube roots of the
  first 64 primes, the initial state those of the square roots of the first 8.
\<close>

definition sha_k :: "w32 list" where
  "sha_k =
    [1116352408, 1899447441, 3049323471, 3921009573, 961987163, 1508970993, 2453635748, 2870763221,
     3624381080, 310598401, 607225278, 1426881987, 1925078388, 2162078206, 2614888103, 3248222580,
     3835390401, 4022224774, 264347078, 604807628, 770255983, 1249150122, 1555081692, 1996064986,
     2554220882, 2821834349, 2952996808, 3210313671, 3336571891, 3584528711, 113926993, 338241895,
     666307205, 773529912, 1294757372, 1396182291, 1695183700, 1986661051, 2177026350, 2456956037,
     2730485921, 2820302411, 3259730800, 3345764771, 3516065817, 3600352804, 4094571909, 275423344,
     430227734, 506948616, 659060556, 883997877, 958139571, 1322822218, 1537002063, 1747873779,
     1955562222, 2024104815, 2227730452, 2361852424, 2428436474, 2756734187, 3204031479, 3329325298]"

definition sha_h0 :: "w32 list" where
  "sha_h0 =
    [1779033703, 3144134277, 1013904242, 2773480762, 1359893119, 2600822924, 528734635, 1541459225]"

definition small_sigma0 :: "w32 \<Rightarrow> w32" where
  "small_sigma0 x = (word_rotr 7 x XOR word_rotr 18 x) XOR drop_bit 3 x"

definition small_sigma1 :: "w32 \<Rightarrow> w32" where
  "small_sigma1 x = (word_rotr 17 x XOR word_rotr 19 x) XOR drop_bit 10 x"

definition big_sigma0 :: "w32 \<Rightarrow> w32" where
  "big_sigma0 x = (word_rotr 2 x XOR word_rotr 13 x) XOR word_rotr 22 x"

definition big_sigma1 :: "w32 \<Rightarrow> w32" where
  "big_sigma1 x = (word_rotr 6 x XOR word_rotr 11 x) XOR word_rotr 25 x"

definition sha_ch :: "w32 \<Rightarrow> w32 \<Rightarrow> w32 \<Rightarrow> w32" where
  "sha_ch x y z = (x AND y) XOR (NOT x AND z)"

definition sha_maj :: "w32 \<Rightarrow> w32 \<Rightarrow> w32 \<Rightarrow> w32" where
  "sha_maj x y z = ((x AND y) XOR (x AND z)) XOR (y AND z)"

fun words_of :: "bytes \<Rightarrow> w32 list" where
  "words_of (a # b # c # d # r) =
     (((push_bit 24 (ucast a) OR push_bit 16 (ucast b)) OR push_bit 8 (ucast c)) OR ucast d)
       # words_of r"
| "words_of _ = []"

fun schedule :: "nat \<Rightarrow> w32 list \<Rightarrow> w32 list" where
  "schedule 0 w = w"
| "schedule (Suc n) w =
     (let t = length w in
      schedule n (w @ [small_sigma1 (w ! (t - 2)) + w ! (t - 7)
                         + small_sigma0 (w ! (t - 15)) + w ! (t - 16)]))"

fun sha_round :: "w32 list \<Rightarrow> w32 \<times> w32 \<Rightarrow> w32 list" where
  "sha_round [a, b, c, d, e, f, g, h] (k, w) =
     (let t1 = h + big_sigma1 e + sha_ch e f g + k + w;
          t2 = big_sigma0 a + sha_maj a b c
      in [t1 + t2, a, b, c, d + t1, e, f, g])"
| "sha_round s _ = s"

definition sha_compress :: "w32 list \<Rightarrow> bytes \<Rightarrow> w32 list" where
  "sha_compress h block =
     map2 (+) h (foldl sha_round h (zip sha_k (schedule 48 (words_of block))))"

definition sha_pad :: "bytes \<Rightarrow> bytes" where
  "sha_pad m =
     m @ [0x80] @ replicate ((119 - length m mod 64) mod 64) 0 @ be_bytes 8 (8 * length m)"

function sha_blocks :: "bytes \<Rightarrow> bytes list" where
  "sha_blocks m = (if m = [] then [] else take 64 m # sha_blocks (drop 64 m))"
  by pat_completeness auto
termination
  by (relation "measure length") auto

declare sha_blocks.simps [simp del]

definition word_bytes :: "w32 \<Rightarrow> bytes" where
  "word_bytes w = [ucast (drop_bit 24 w), ucast (drop_bit 16 w), ucast (drop_bit 8 w), ucast w]"

text \<open>\<open>hashlib.sha256(m).digest()\<close> and the identity \<open>"sha256:" + hashlib.sha256(m).hexdigest()\<close>.\<close>

definition sha256 :: "bytes \<Rightarrow> bytes" where
  "sha256 m = concat (map word_bytes (foldl sha_compress sha_h0 (sha_blocks (sha_pad m))))"

definition sha256_id :: "bytes \<Rightarrow> string" where
  "sha256_id m = digest_text (to_hex (sha256 m))"

lemma length_sha_round [simp]: "length (sha_round s kw) = length s"
  by (cases "(s, kw)" rule: sha_round.cases) (auto simp: Let_def)

lemma length_foldl_sha_round [simp]: "length (foldl sha_round s kws) = length s"
  by (induction kws arbitrary: s) auto

lemma length_foldl_sha_compress [simp]: "length (foldl sha_compress h bs) = length h"
  by (induction bs arbitrary: h) (auto simp: sha_compress_def)

lemma length_sha256 [simp]: "length (sha256 m) = 32"
proof -
  have "length (concat (map word_bytes ws)) = 4 * length ws" for ws
    by (induction ws) (auto simp: word_bytes_def)
  then show ?thesis by (simp add: sha256_def sha_h0_def)
qed

lemma is_hex64_sha256 [simp]: "is_hex64 (to_hex (sha256 m))"
  using to_hex_lower by (simp add: is_hex64_def match_class_def)

lemma is_digest_sha256_id [simp]: "is_digest (sha256_id m)"
  by (simp add: sha256_id_def)

lemma sha256_id_eq_iff [simp]: "sha256_id m = sha256_id m' \<longleftrightarrow> sha256 m = sha256 m'"
  by (simp add: sha256_id_def)

text \<open>Two different byte strings with the same SHA-256 digest.\<close>

definition collide :: "bytes \<Rightarrow> bytes \<Rightarrow> bool" where
  "collide x y \<longleftrightarrow> x \<noteq> y \<and> sha256 x = sha256 y"

lemma sha256_eqD: "sha256 x = sha256 y \<Longrightarrow> x = y \<or> collide x y"
  by (auto simp: collide_def)

section \<open>HMAC\<close>

definition hmac_key :: "bytes \<Rightarrow> bytes" where
  "hmac_key k = (let k' = (if length k > 64 then sha256 k else k)
                 in k' @ replicate (64 - length k') 0)"

text \<open>\<open>hmac.digest(k, m, "sha256")\<close>\<close>

definition hmac_sha256 :: "bytes \<Rightarrow> bytes \<Rightarrow> bytes" where
  "hmac_sha256 k m =
     sha256 (map (\<lambda>b. b XOR 0x5c) (hmac_key k)
             @ sha256 (map (\<lambda>b. b XOR 0x36) (hmac_key k) @ m))"

lemma length_hmac_sha256 [simp]: "length (hmac_sha256 k m) = 32"
  by (simp add: hmac_sha256_def)


end
