(* ===== verification/Json.thy ===== *)
theory Json
  imports Complex_Main Hashing
begin

text \<open>
  Python's \<open>json\<close> module as far as the program uses it: \<open>json.dumps\<close> with
  \<open>separators=(",", ":")\<close> and \<open>sort_keys=True\<close>, with and without \<open>ensure_ascii\<close>, and
  \<open>json.loads\<close> with its hooks.  The main result is that reading inverts writing for every
  float-free value with distinct keys (\<open>json_loads_text\<close>), which gives the injectivity of
  every canonical encoding and of every digest preimage of the program.

  Five features of the reader matter to the callers: repeated keys reach
  \<open>object_pairs_hook\<close> as pairs, non-integer numbers reach \<open>parse_float\<close> and
  \<open>parse_constant\<close>, an integer of more than 4300 digits raises a plain \<open>ValueError\<close>
  (Python's limit on integer conversion), which is not a \<open>JSONDecodeError\<close>, containers nested too
  deeply raise a \<open>RecursionError\<close>, and bytes are decoded by the encoding their first bytes show.
\<close>

section \<open>Values\<close>

text \<open>
  A number with a fraction or an exponent is kept as its lexeme (\<open>JFloat\<close>), the constants
  \<open>NaN\<close>, \<open>Infinity\<close> and \<open>-Infinity\<close> as their names (\<open>JConst\<close>).
\<close>

datatype json =
    JNull
  | JBool bool
  | JInt int
  | JFloat string
  | JConst string
  | JStr string
  | JArr "json list"
  | JObj "(string \<times> json) list"

section \<open>Writing\<close>

definition digit_char :: "nat \<Rightarrow> char" where
  "digit_char n = char_of (48 + n)"

fun show_nat :: "nat \<Rightarrow> string" where
  "show_nat n = (if n < 10 then [digit_char n] else show_nat (n div 10) @ [digit_char (n mod 10)])"

declare show_nat.simps [simp del]

definition show_int :: "int \<Rightarrow> string" where
  "show_int i = (if i < 0 then CHR ''-'' # show_nat (nat (- i)) else show_nat (nat i))"

definition escape_char :: "bool \<Rightarrow> char \<Rightarrow> string" where
  "escape_char ascii c =
     (let n = of_char c :: nat in
      if n = 34 then [CHR 0x5C, CHR 0x22]
      else if n = 92 then [CHR 0x5C, CHR 0x5C]
      else if n = 10 then [CHR 0x5C, CHR ''n'']
      else if n = 13 then [CHR 0x5C, CHR ''r'']
      else if n = 9 then [CHR 0x5C, CHR ''t'']
      else if n = 12 then [CHR 0x5C, CHR ''f'']
      else if n = 8 then [CHR 0x5C, CHR ''b'']
      else if n < 32 \<or> ascii \<and> 127 \<le> n
        then [CHR 0x5C, CHR ''u'', CHR ''0'', CHR ''0'', hex_digit (n div 16), hex_digit (n mod 16)]
      else [c])"

definition quote_text :: "bool \<Rightarrow> string \<Rightarrow> string" where
  "quote_text ascii s = CHR 0x22 # concat (map (escape_char ascii) s) @ [CHR 0x22]"

fun json_text :: "bool \<Rightarrow> json \<Rightarrow> string"
  and json_elems :: "bool \<Rightarrow> json list \<Rightarrow> string"
  and json_members :: "bool \<Rightarrow> (string \<times> json) list \<Rightarrow> string" where
  "json_text a JNull = ''null''"
| "json_text a (JBool b) = (if b then ''true'' else ''false'')"
| "json_text a (JInt i) = show_int i"
| "json_text a (JFloat s) = s"
| "json_text a (JConst s) = s"
| "json_text a (JStr s) = quote_text a s"
| "json_text a (JArr vs) = CHR ''['' # json_elems a vs @ '']''"
| "json_text a (JObj kvs) = CHR ''{'' # json_members a kvs @ ''}''"
| "json_elems a [] = []"
| "json_elems a [v] = json_text a v"
| "json_elems a (v # w # vs) = json_text a v @ CHR '','' # json_elems a (w # vs)"
| "json_members a [] = []"
| "json_members a [(k, v)] = quote_text a k @ CHR '':'' # json_text a v"
| "json_members a ((k, v) # kv # kvs) =
     quote_text a k @ CHR '':'' # json_text a v @ CHR '','' # json_members a (kv # kvs)"

lemma length_quote_text: "length s \<le> length (quote_text a s)"
proof -
  have "length s \<le> length (concat (map (escape_char a) s))"
    by (induction s) (auto simp: escape_char_def Let_def)
  then show ?thesis by (simp add: quote_text_def)
qed

text \<open>\<open>sort_keys=True\<close> orders the members of every object by key.\<close>

primrec json_sort :: "json \<Rightarrow> json" where
  "json_sort JNull = JNull"
| "json_sort (JBool b) = JBool b"
| "json_sort (JInt i) = JInt i"
| "json_sort (JFloat s) = JFloat s"
| "json_sort (JConst s) = JConst s"
| "json_sort (JStr s) = JStr s"
| "json_sort (JArr vs) = JArr (map json_sort vs)"
| "json_sort (JObj kvs) = JObj (sort_key fst (map (map_prod id json_sort) kvs))"

definition json_dumps :: "bool \<Rightarrow> json \<Rightarrow> bytes" where
  "json_dumps ascii v = utf8_encode (json_text ascii (json_sort v))"

section \<open>Reading\<close>

datatype json_error =
    Json_Malformed     \<comment> \<open>\<open>JSONDecodeError\<close>, \<open>UnicodeDecodeError\<close>\<close>
  | Json_Int_Limit     \<comment> \<open>\<open>ValueError\<close>: more than 4300 digits\<close>
  | Json_Recursion     \<comment> \<open>\<open>RecursionError\<close>: no stack for another container\<close>
  | Json_Hook          \<comment> \<open>the exception a hook raises\<close>
  | Json_Fuel

text \<open>
  The arguments of a call and what it finds: \<open>nesting_limit\<close> is the number of nested containers the
  stack of the interpreter has room for when the call is made, \<open>None\<close> when that is not considered.
\<close>

record json_hooks =
  float_hook :: "string \<Rightarrow> json_error + json"
  const_hook :: "string \<Rightarrow> json_error + json"
  pairs_hook :: "(string \<times> json) list \<Rightarrow> json_error + json"
  nesting_limit :: "nat option"

definition may_nest :: "json_hooks \<Rightarrow> nat \<Rightarrow> bool" where
  "may_nest h d \<longleftrightarrow> (case nesting_limit h of None \<Rightarrow> True | Some n \<Rightarrow> d \<le> n)"

definition max_str_digits :: nat where
  "max_str_digits = 4300"

definition is_json_space :: "char \<Rightarrow> bool" where
  "is_json_space c \<longleftrightarrow> (let n = of_char c :: nat in n = 32 \<or> n = 9 \<or> n = 10 \<or> n = 13)"

abbreviation skip_space :: "string \<Rightarrow> string" where
  "skip_space \<equiv> dropWhile is_json_space"

definition unescape :: "char \<Rightarrow> char option" where
  "unescape c =
     (if c = CHR 0x22 then Some c
      else if c = CHR 0x5C then Some c
      else if c = CHR ''/'' then Some c
      else if c = CHR ''b'' then Some (CHR 0x08)
      else if c = CHR ''f'' then Some (CHR 0x0C)
      else if c = CHR ''n'' then Some (CHR 0x0A)
      else if c = CHR ''r'' then Some (CHR 0x0D)
      else if c = CHR ''t'' then Some (CHR 0x09)
      else None)"

definition hex4 :: "char \<Rightarrow> char \<Rightarrow> char \<Rightarrow> char \<Rightarrow> nat option" where
  "hex4 a b c d =
     (case (hex_value a, hex_value b, hex_value c, hex_value d) of
        (Some i, Some j, Some k, Some l) \<Rightarrow> Some (((i * 16 + j) * 16 + k) * 16 + l)
      | _ \<Rightarrow> None)"

text \<open>One character of a string literal, its escape sequence resolved.\<close>

definition scan_char :: "string \<Rightarrow> json_error + char \<times> string" where
  "scan_char s =
     (case s of
        [] \<Rightarrow> Inl Json_Malformed
      | c # cs \<Rightarrow>
          if c = CHR 0x5C then
            (case cs of
               [] \<Rightarrow> Inl Json_Malformed
             | e # es \<Rightarrow>
                 if e = CHR ''u'' then
                   (case es of
                      h1 # h2 # h3 # h4 # r \<Rightarrow>
                        (case hex4 h1 h2 h3 h4 of
                           None \<Rightarrow> Inl Json_Malformed
                         | Some n \<Rightarrow> if n < 256 then Inr (char_of n, r) else Inl Json_Malformed)
                    | _ \<Rightarrow> Inl Json_Malformed)
                 else
                   (case unescape e of None \<Rightarrow> Inl Json_Malformed | Some x \<Rightarrow> Inr (x, es)))
          else if (of_char c :: nat) < 32 then Inl Json_Malformed
          else Inr (c, cs))"

lemma scan_char_shorter: "scan_char s = Inr (x, r) \<Longrightarrow> length r < length s"
  by (auto simp: scan_char_def split: list.splits option.splits if_splits)

lemma scan_char_error: "scan_char s = Inl e \<Longrightarrow> e = Json_Malformed"
  by (auto simp: scan_char_def split: list.splits option.splits if_splits)

text \<open>The text of a string after its opening quote, up to and including the closing one.\<close>

function scan_string :: "string \<Rightarrow> json_error + string \<times> string" where
  "scan_string s =
     (if take 1 s = [CHR 0x22] then Inr ([], drop 1 s)
      else bindE (scan_char s) (\<lambda>(x, r). bindE (scan_string r) (\<lambda>(t, r'). Inr (x # t, r'))))"
  by pat_completeness auto
termination
  by (relation "measure length") (auto dest: scan_char_shorter)

declare scan_string.simps [simp del]

lemma scan_string_quote [simp]: "scan_string (CHR 0x22 # r) = Inr ([], r)"
  by (simp add: scan_string.simps)

lemma scan_string_shorter: "scan_string s = Inr (t, r) \<Longrightarrow> length r < length s"
proof (induction s arbitrary: t r rule: scan_string.induct)
  case (1 s)
  then show ?case
    by (subst (asm) (2) scan_string.simps)
       (cases s; force split: if_splits dest: scan_char_shorter intro: less_trans)
qed

lemma scan_string_error: "scan_string s = Inl e \<Longrightarrow> e = Json_Malformed"
proof (induction s arbitrary: e rule: scan_string.induct)
  case (1 s)
  then show ?case
    by (subst (asm) (2) scan_string.simps)
       (auto simp: bindE_Inl_iff split: if_splits prod.splits dest: scan_char_error)
qed

definition nat_of_digits :: "string \<Rightarrow> nat" where
  "nat_of_digits s = foldl (\<lambda>acc c. 10 * acc + (of_char c - 48)) 0 s"

definition scan_fraction :: "string \<Rightarrow> string \<times> string" where
  "scan_fraction s =
     (let r = drop 1 s in
      if take 1 s = ''.'' \<and> takeWhile is_digit r \<noteq> []
      then (CHR ''.'' # takeWhile is_digit r, dropWhile is_digit r)
      else ([], s))"

definition scan_exponent :: "string \<Rightarrow> string \<times> string" where
  "scan_exponent s =
     (case s of
        [] \<Rightarrow> ([], s)
      | e # r \<Rightarrow>
          if e = CHR ''e'' \<or> e = CHR ''E'' then
            (let sign = (case r of [] \<Rightarrow> [] | c # _ \<Rightarrow> if c = CHR ''+'' \<or> c = CHR ''-'' then [c] else []);
                 r' = drop (length sign) r
             in if takeWhile is_digit r' = [] then ([], s)
                else (e # sign @ takeWhile is_digit r', dropWhile is_digit r'))
          else ([], s))"

definition scan_integer :: "string \<Rightarrow> (string \<times> string) option" where
  "scan_integer s =
     (case s of
        [] \<Rightarrow> None
      | c # r \<Rightarrow>
          if c = CHR ''0'' then Some ([c], r)
          else if is_digit c then Some (takeWhile is_digit s, dropWhile is_digit s)
          else None)"

definition scan_number :: "json_hooks \<Rightarrow> string \<Rightarrow> json_error + json \<times> string" where
  "scan_number h s =
     (let sign = (if take 1 s = ''-'' then ''-'' else []); r = drop (length sign) s in
      case scan_integer r of
        None \<Rightarrow> Inl Json_Malformed
      | Some (ds, r1) \<Rightarrow>
          (let (frac, r2) = scan_fraction r1; (ex, r3) = scan_exponent r2 in
           if frac = [] \<and> ex = [] then
             (if length ds > max_str_digits then Inl Json_Int_Limit
              else Inr (JInt (if sign = [] then int (nat_of_digits ds) else - int (nat_of_digits ds)), r3))
           else bindE (float_hook h (sign @ ds @ frac @ ex)) (\<lambda>v. Inr (v, r3))))"

text \<open>\<open>d\<close> counts the containers around the text.\<close>

fun parse_value :: "json_hooks \<Rightarrow> nat \<Rightarrow> nat \<Rightarrow> string \<Rightarrow> json_error + json \<times> string"
  and parse_elems :: "json_hooks \<Rightarrow> nat \<Rightarrow> nat \<Rightarrow> string \<Rightarrow> json_error + json list \<times> string"
  and parse_members :: "json_hooks \<Rightarrow> nat \<Rightarrow> nat \<Rightarrow> string \<Rightarrow> json_error + (string \<times> json) list \<times> string"
where
  "parse_value h d 0 s = Inl Json_Fuel"
| "parse_value h d (Suc n) s =
     (case s of
        [] \<Rightarrow> Inl Json_Malformed
      | c # cs \<Rightarrow>
          if c = CHR 0x22 then bindE (scan_string cs) (\<lambda>(t, r). Inr (JStr t, r))
          else if c \<in> {CHR ''{'', CHR ''[''} \<and> \<not> may_nest h (Suc d) then Inl Json_Recursion
          else if c = CHR ''{'' then
            (let r = skip_space cs in
             if take 1 r = ''}'' then bindE (pairs_hook h []) (\<lambda>v. Inr (v, drop 1 r))
             else bindE (parse_members h (Suc d) n r) (\<lambda>(kvs, r').
                    bindE (pairs_hook h kvs) (\<lambda>v. Inr (v, r'))))
          else if c = CHR ''['' then
            (let r = skip_space cs in
             if take 1 r = '']'' then Inr (JArr [], drop 1 r)
             else bindE (parse_elems h (Suc d) n r) (\<lambda>(vs, r'). Inr (JArr vs, r')))
          else if take 4 s = ''null'' then Inr (JNull, drop 4 s)
          else if take 4 s = ''true'' then Inr (JBool True, drop 4 s)
          else if take 5 s = ''false'' then Inr (JBool False, drop 5 s)
          else if take 3 s = ''NaN'' then bindE (const_hook h ''NaN'') (\<lambda>v. Inr (v, drop 3 s))
          else if take 8 s = ''Infinity'' then bindE (const_hook h ''Infinity'') (\<lambda>v. Inr (v, drop 8 s))
          else if take 9 s = ''-Infinity'' then bindE (const_hook h ''-Infinity'') (\<lambda>v. Inr (v, drop 9 s))
          else scan_number h s)"
| "parse_elems h d 0 s = Inl Json_Fuel"
| "parse_elems h d (Suc n) s =
     bindE (parse_value h d n s) (\<lambda>(v, r).
       (let r' = skip_space r in
        if take 1 r' = '','' then
          bindE (parse_elems h d n (skip_space (drop 1 r'))) (\<lambda>(vs, r''). Inr (v # vs, r''))
        else if take 1 r' = '']'' then Inr ([v], drop 1 r')
        else Inl Json_Malformed))"
| "parse_members h d 0 s = Inl Json_Fuel"
| "parse_members h d (Suc n) s =
     (if take 1 s = [CHR 0x22] then
        bindE (scan_string (drop 1 s)) (\<lambda>(k, r).
          (let r1 = skip_space r in
           if take 1 r1 = '':'' then
             bindE (parse_value h d n (skip_space (drop 1 r1))) (\<lambda>(v, r2).
               (let r3 = skip_space r2 in
                if take 1 r3 = '','' then
                  bindE (parse_members h d n (skip_space (drop 1 r3))) (\<lambda>(kvs, r4). Inr ((k, v) # kvs, r4))
                else if take 1 r3 = ''}'' then Inr ([(k, v)], drop 1 r3)
                else Inl Json_Malformed))
           else Inl Json_Malformed))
      else Inl Json_Malformed)"

text \<open>
  Every nested call of the parser consumes at least one character, and at most two calls
  start at the same character, so twice the length of the input bounds the depth of the recursion (\<open>json_loads_no_fuel_error\<close> below).
\<close>

definition json_loads_text :: "json_hooks \<Rightarrow> string \<Rightarrow> json_error + json" where
  "json_loads_text h s =
     bindE (parse_value h 0 (Suc (2 * length s)) (skip_space s)) (\<lambda>(v, r).
       if skip_space r = [] then Inr v else Inl Json_Malformed)"

definition json_loads :: "json_hooks \<Rightarrow> bytes \<Rightarrow> json_error + json" where
  "json_loads h b =
     (case utf8_decode b of None \<Rightarrow> Inl Json_Malformed | Some s \<Rightarrow> json_loads_text h s)"

text \<open>
  \<open>json.loads\<close> on bytes: \<open>json.detect_encoding\<close> tells UTF-16 and UTF-32 by a byte order mark or by
  the zero bytes among the first four.
\<close>

fun utf16_decode :: "bool \<Rightarrow> bytes \<Rightarrow> string option" where
  "utf16_decode big [] = Some []"
| "utf16_decode big (x # y # bs) =
     (if (if big then x else y) \<noteq> 0 then None
      else map_option ((#) (char_of (unat (if big then y else x)))) (utf16_decode big bs))"
| "utf16_decode big bs = None"

fun utf32_decode :: "bool \<Rightarrow> bytes \<Rightarrow> string option" where
  "utf32_decode big [] = Some []"
| "utf32_decode big (w # x # y # z # bs) =
     (if x \<noteq> 0 \<or> y \<noteq> 0 \<or> (if big then w else z) \<noteq> 0 then None
      else map_option ((#) (char_of (unat (if big then z else w)))) (utf32_decode big bs))"
| "utf32_decode big bs = None"

definition json_decode :: "bytes \<Rightarrow> string option" where
  "json_decode b =
     (if take 4 b = [0x00, 0x00, 0xFE, 0xFF] then utf32_decode True (drop 4 b)
      else if take 4 b = [0xFF, 0xFE, 0x00, 0x00] then utf32_decode False (drop 4 b)
      else if take 2 b = [0xFE, 0xFF] then utf16_decode True (drop 2 b)
      else if take 2 b = [0xFF, 0xFE] then utf16_decode False (drop 2 b)
      else if take 3 b = [0xEF, 0xBB, 0xBF] then utf8_decode (drop 3 b)
      else case b of
             b0 # b1 # b2 # b3 # _ \<Rightarrow>
               if b0 = 0 then (if b1 \<noteq> 0 then utf16_decode True b else utf32_decode True b)
               else if b1 = 0 then (if b2 \<noteq> 0 \<or> b3 \<noteq> 0 then utf16_decode False b else utf32_decode False b)
               else utf8_decode b
           | [b0, b1] \<Rightarrow>
               if b0 = 0 then utf16_decode True b else if b1 = 0 then utf16_decode False b else utf8_decode b
           | _ \<Rightarrow> utf8_decode b)"

definition json_loads_bytes :: "json_hooks \<Rightarrow> bytes \<Rightarrow> json_error + json" where
  "json_loads_bytes h b =
     (case json_decode b of None \<Rightarrow> Inl Json_Malformed | Some s \<Rightarrow> json_loads_text h s)"

lemma json_decode_utf8:
  assumes "x \<noteq> 0" "y \<noteq> 0" "unat x < 128"
  shows "json_decode (x # y # bs) = utf8_decode (x # y # bs)"
proof -
  have x: "x \<noteq> 0xFE" "x \<noteq> 0xFF" "x \<noteq> 0xEF" using assms(3) by auto
  show ?thesis
  proof (cases bs)
    case Nil
    with x assms(1,2) show ?thesis by (simp only: json_decode_def) simp
  next
    case (Cons z zs)
    with x assms(1,2) show ?thesis by (cases zs) (simp_all only: json_decode_def, simp_all)
  qed
qed

section \<open>Reading inverts writing\<close>

text \<open>Float-free values with distinct keys and integers within the conversion limit.\<close>

lemma max_str_digits_pos: "0 < max_str_digits"
  by (simp add: max_str_digits_def)

definition int_printable :: "int \<Rightarrow> bool" where
  "int_printable i \<longleftrightarrow> nat \<bar>i\<bar> < 10 ^ max_str_digits"

lemma int_printable_64: "\<bar>i\<bar> < 2 ^ 64 \<Longrightarrow> int_printable i"
proof -
  assume "\<bar>i\<bar> < 2 ^ 64"
  then have "nat \<bar>i\<bar> < 10 ^ 20" by simp
  also have "(10 :: nat) ^ 20 \<le> 10 ^ max_str_digits"
    by (rule power_increasing) (simp_all add: max_str_digits_def)
  finally show ?thesis by (simp only: int_printable_def)
qed

lemma int_printable_int64 [simp]: "in_range 0 max_int64 i \<Longrightarrow> int_printable i"
  by (rule int_printable_64) (auto simp: in_range_def)

lemma int_printable_samples [simp]: "int_printable 0" "int_printable 1"
  by (simp_all add: int_printable_64)

fun json_plain :: "json \<Rightarrow> bool" where
  "json_plain (JInt i) \<longleftrightarrow> int_printable i"
| "json_plain (JArr vs) \<longleftrightarrow> (\<forall>v \<in> set vs. json_plain v)"
| "json_plain (JObj kvs) \<longleftrightarrow> distinct (map fst kvs) \<and> (\<forall>kv \<in> set kvs. json_plain (snd kv))"
| "json_plain (JFloat _) \<longleftrightarrow> False"
| "json_plain (JConst _) \<longleftrightarrow> False"
| "json_plain _ \<longleftrightarrow> True"

lemma of_char_digit: "n < 10 \<Longrightarrow> (of_char (digit_char n) :: nat) = 48 + n"
  by (simp add: digit_char_def of_char_of)

lemma is_digit_iff: "is_digit c \<longleftrightarrow> 48 \<le> (of_char c :: nat) \<and> (of_char c :: nat) \<le> 57"
  by (simp add: is_digit_def less_eq_char_def)

lemma is_digit_digit_char [simp]: "n < 10 \<Longrightarrow> is_digit (digit_char n)"
  by (simp add: is_digit_iff of_char_digit)

lemma show_nat_digits: "list_all is_digit (show_nat n)"
proof (induction n rule: show_nat.induct)
  case (1 n)
  then show ?case by (subst show_nat.simps) simp
qed

lemma nat_of_digits_snoc: "nat_of_digits (s @ [c]) = 10 * nat_of_digits s + (of_char c - 48)"
  by (simp add: nat_of_digits_def)

lemma nat_of_digits_show_nat [simp]: "nat_of_digits (show_nat n) = n"
proof (induction n rule: show_nat.induct)
  case (1 n)
  show ?case
  proof (cases "n < 10")
    case True
    then show ?thesis by (subst show_nat.simps) (simp add: nat_of_digits_def of_char_digit)
  next
    case False
    with 1 have "nat_of_digits (show_nat (n div 10)) = n div 10" by simp
    with False show ?thesis
      by (subst show_nat.simps) (simp add: nat_of_digits_snoc of_char_digit)
  qed
qed

lemma show_nat_nonempty [simp]: "show_nat n \<noteq> []"
  by (subst show_nat.simps) simp

lemma show_nat_hd: "n \<noteq> 0 \<Longrightarrow> hd (show_nat n) \<noteq> CHR ''0''"
proof (induction n rule: show_nat.induct)
  case (1 n)
  show ?case
  proof (cases "n < 10")
    case True
    have "(of_char (digit_char n) :: nat) \<noteq> of_char CHR ''0''"
      using True 1 by (simp add: of_char_digit)
    then show ?thesis using True by (subst show_nat.simps) auto
  next
    case False
    with 1 have "hd (show_nat (n div 10)) \<noteq> CHR ''0''" by simp
    with False show ?thesis by (subst show_nat.simps) simp
  qed
qed

lemma show_nat_0: "show_nat 0 = ''0''"
  by (subst show_nat.simps) (simp add: digit_char_def char_of_def bit_iff_odd)

lemma length_show_nat: "n < 10 ^ k \<Longrightarrow> 0 < k \<Longrightarrow> length (show_nat n) \<le> k"
proof (induction k arbitrary: n)
  case (Suc k)
  show ?case
  proof (cases "n < 10")
    case True
    then show ?thesis by (subst show_nat.simps) simp
  next
    case False
    then have "0 < k" using Suc.prems by (cases k) auto
    moreover have "n div 10 < 10 ^ k" using Suc.prems by (simp add: less_mult_imp_div_less mult.commute)
    ultimately have "length (show_nat (n div 10)) \<le> k" by (rule Suc.IH [rotated])
    with False show ?thesis by (subst show_nat.simps) simp
  qed
qed simp

definition json_follow :: "string \<Rightarrow> bool" where
  "json_follow r \<longleftrightarrow> (case r of [] \<Rightarrow> True | c # _ \<Rightarrow> c \<in> {CHR '','', CHR '']'', CHR ''}''})"

lemma json_follow_simps [simp]:
  "json_follow []" "json_follow (CHR '','' # r)" "json_follow (CHR '']'' # r)" "json_follow (CHR ''}'' # r)"
  by (simp_all add: json_follow_def)

lemma json_followE:
  assumes "json_follow r"
  obtains "r = []" | x where "r = CHR '','' # x" | x where "r = CHR '']'' # x" | x where "r = CHR ''}'' # x"
  using assms by (cases r) (auto simp: json_follow_def)

lemma takeWhile_digits_append:
  "list_all is_digit ds \<Longrightarrow> json_follow r \<Longrightarrow>
     takeWhile is_digit (ds @ r) = ds \<and> dropWhile is_digit (ds @ r) = r"
  by (elim json_followE) (induction ds; simp add: is_digit_def)+

lemma scan_integer_show_nat:
  assumes "json_follow r"
  shows "scan_integer (show_nat n @ r) = Some (show_nat n, r)"
proof (cases "n = 0")
  case True
  then show ?thesis by (simp add: show_nat_0 scan_integer_def)
next
  case False
  obtain c cs where s: "show_nat n = c # cs"
    using show_nat_nonempty [of n] by (cases "show_nat n") auto
  have "c \<noteq> CHR ''0''" using show_nat_hd [OF False] s by simp
  moreover have "is_digit c" using show_nat_digits [of n] s by simp
  moreover have "takeWhile is_digit (show_nat n @ r) = show_nat n" "dropWhile is_digit (show_nat n @ r) = r"
    using takeWhile_digits_append [OF show_nat_digits assms] by auto
  ultimately show ?thesis by (simp add: scan_integer_def s)
qed

lemma scan_fraction_follow: "json_follow r \<Longrightarrow> scan_fraction r = ([], r)"
  by (elim json_followE) (simp_all add: scan_fraction_def)

lemma scan_exponent_follow: "json_follow r \<Longrightarrow> scan_exponent r = ([], r)"
  by (elim json_followE) (simp_all add: scan_exponent_def)

lemma show_nat_not_minus: "show_nat n @ r = c # cs \<Longrightarrow> is_digit c"
  using show_nat_digits [of n] show_nat_nonempty [of n] by (cases "show_nat n") auto

lemma scan_number_show_int:
  assumes "json_follow r" "int_printable i"
  shows "scan_number h (show_int i @ r) = Inr (JInt i, r)"
proof -
  have len: "\<not> max_str_digits < length (show_nat (nat \<bar>i\<bar>))"
    using length_show_nat [OF assms(2) [unfolded int_printable_def]] by (simp add: max_str_digits_pos)
  show ?thesis
  proof (cases "i < 0")
    case True
    then show ?thesis
      using len assms(1)
      by (simp add: show_int_def scan_number_def scan_integer_show_nat scan_fraction_follow scan_exponent_follow)
  next
    case False
    have "take 1 (show_nat (nat i) @ r) \<noteq> ''-''"
      by (cases "show_nat (nat i) @ r") (auto simp: is_digit_def dest!: show_nat_not_minus)
    then show ?thesis
      using False len assms(1)
      by (simp add: show_int_def scan_number_def scan_integer_show_nat scan_fraction_follow scan_exponent_follow)
  qed
qed

lemma is_json_space_iff: "is_json_space c \<longleftrightarrow> c \<in> {CHR 0x20, CHR 0x09, CHR 0x0A, CHR 0x0D}"
proof -
  have "(of_char c :: nat) = 32 \<longleftrightarrow> c = CHR 0x20" "(of_char c :: nat) = 9 \<longleftrightarrow> c = CHR 0x09"
    "(of_char c :: nat) = 10 \<longleftrightarrow> c = CHR 0x0A" "(of_char c :: nat) = 13 \<longleftrightarrow> c = CHR 0x0D"
    using of_char_eq_iff [of c "CHR 0x20", where 'a = nat] of_char_eq_iff [of c "CHR 0x09", where 'a = nat]
      of_char_eq_iff [of c "CHR 0x0A", where 'a = nat] of_char_eq_iff [of c "CHR 0x0D", where 'a = nat]
    by simp_all
  then show ?thesis by (simp add: is_json_space_def Let_def)
qed

text \<open>A written value never starts with white space.\<close>

lemma quote_text_Cons: "quote_text a s = CHR 0x22 # concat (map (escape_char a) s) @ [CHR 0x22]"
  by (simp add: quote_text_def)

lemma skip_space_show_int [simp]: "skip_space (show_int i @ r) = show_int i @ r"
proof (cases "i < 0")
  case True
  then show ?thesis by (simp add: show_int_def is_json_space_iff)
next
  case False
  obtain c cs where "show_nat (nat i) @ r = c # cs" by (cases "show_nat (nat i) @ r") auto
  moreover then have "is_digit c" by (rule show_nat_not_minus)
  moreover then have "\<not> is_json_space c" by (auto simp: is_json_space_iff is_digit_def)
  ultimately show ?thesis using False by (simp add: show_int_def)
qed

lemma skip_space_quote [simp]: "skip_space (quote_text a s @ r) = quote_text a s @ r"
  by (simp add: quote_text_def is_json_space_iff)

lemma skip_space_json_text: "json_plain v \<Longrightarrow> skip_space (json_text a v @ r) = json_text a v @ r"
  by (cases v) (auto simp: is_json_space_iff)

lemma skip_space_Nil: "skip_space r = r" if "json_follow r" for r
  using that by (elim json_followE) (simp_all add: is_json_space_iff)

text \<open>Escaping is inverted by the string scanner.\<close>

lemma hex_value_hex_digit_nat [simp]:
  "hex_value CHR ''0'' = Some 0"
  by (simp add: hex_value_def)

lemma of_char_eqI: "(of_char c :: nat) = of_char d \<Longrightarrow> c = d"
  by simp

lemma scan_escape_char: "scan_char (escape_char a c @ r) = Inr (c, r)"
proof -
  define n where "n = (of_char c :: nat)"
  have c: "c = char_of n" by (simp add: n_def char_of_char)
  have n: "n < 256" by (simp add: n_def of_char_less_256)
  have sp: "n = 34 \<longleftrightarrow> c = CHR 0x22" "n = 92 \<longleftrightarrow> c = CHR 0x5C" "n = 10 \<longleftrightarrow> c = CHR 0x0A"
    "n = 13 \<longleftrightarrow> c = CHR 0x0D" "n = 9 \<longleftrightarrow> c = CHR 0x09" "n = 12 \<longleftrightarrow> c = CHR 0x0C" "n = 8 \<longleftrightarrow> c = CHR 0x08"
    using of_char_eq_iff [of c "CHR 0x22", where 'a = nat] of_char_eq_iff [of c "CHR 0x5C", where 'a = nat]
      of_char_eq_iff [of c "CHR 0x0A", where 'a = nat] of_char_eq_iff [of c "CHR 0x0D", where 'a = nat]
      of_char_eq_iff [of c "CHR 0x09", where 'a = nat] of_char_eq_iff [of c "CHR 0x0C", where 'a = nat]
      of_char_eq_iff [of c "CHR 0x08", where 'a = nat]
    by (simp_all add: n_def)
  have "n div 16 < 16" using n by auto
  then have hex: "hex4 CHR ''0'' CHR ''0'' (hex_digit (n div 16)) (hex_digit (n mod 16)) = Some n"
    by (simp add: hex4_def hex_value_digit)
  consider "c \<in> {CHR 0x22, CHR 0x5C, CHR 0x0A, CHR 0x0D, CHR 0x09, CHR 0x0C, CHR 0x08}"
    | "c \<notin> {CHR 0x22, CHR 0x5C, CHR 0x0A, CHR 0x0D, CHR 0x09, CHR 0x0C, CHR 0x08}" "n < 32 \<or> a \<and> 127 \<le> n"
    | "c \<notin> {CHR 0x22, CHR 0x5C, CHR 0x0A, CHR 0x0D, CHR 0x09, CHR 0x0C, CHR 0x08}" "\<not> (n < 32 \<or> a \<and> 127 \<le> n)"
    by blast
  then show ?thesis
  proof cases
    case 1
    then have "\<exists>e. escape_char a c = [CHR 0x5C, e] \<and> unescape e = Some c \<and> e \<noteq> CHR ''u''"
      by (elim insertE emptyE) (simp_all add: escape_char_def unescape_def)
    then show ?thesis by (auto simp: scan_char_def)
  next
    case 2
    then have "escape_char a c =
        [CHR 0x5C, CHR ''u'', CHR ''0'', CHR ''0'', hex_digit (n div 16), hex_digit (n mod 16)]"
      using sp by (auto simp: escape_char_def Let_def n_def [symmetric])
    then show ?thesis using hex n c by (simp add: scan_char_def)
  next
    case 3
    then have "escape_char a c = [c]"
      using sp by (auto simp: escape_char_def Let_def n_def [symmetric])
    then show ?thesis using 3 by (simp add: scan_char_def n_def [symmetric])
  qed
qed

lemma escape_char_hd: "take 1 (escape_char a c @ r) \<noteq> [CHR 0x22]"
  by (auto simp: escape_char_def Let_def)

lemma scan_string_quoted:
  "scan_string (concat (map (escape_char a) s) @ CHR 0x22 # r) = Inr (s, r)"
proof (induction s)
  case (Cons c s)
  then show ?case
    using escape_char_hd [of a c "concat (map (escape_char a) s) @ CHR 0x22 # r"]
    by (subst scan_string.simps) (simp add: scan_escape_char)
qed simp

lemma parse_value_number:
  assumes "s = c # cs" "is_digit c \<or> c = CHR ''-'' \<and> take 8 cs \<noteq> ''Infinity''"
  shows "parse_value h d (Suc n) s = scan_number h s"
proof -
  have "c \<notin> {CHR 0x22, CHR ''{'', CHR ''['', CHR ''n'', CHR ''t'', CHR ''f'', CHR ''N'', CHR ''I''}"
    using assms(2) by (auto simp: is_digit_def)
  moreover have "take 9 s \<noteq> ''-Infinity''"
    using assms by (auto simp: is_digit_def)
  ultimately show ?thesis using assms(1) by auto
qed

lemma show_int_Cons:
  "\<exists>c cs. show_int i @ r = c # cs \<and> (is_digit c \<or> c = CHR ''-'' \<and> take 8 cs \<noteq> ''Infinity'')"
proof (cases "i < 0")
  case True
  obtain d ds where d: "show_nat (nat (- i)) @ r = d # ds"
    by (cases "show_nat (nat (- i)) @ r") auto
  then have "is_digit d" by (rule show_nat_not_minus)
  then have "take 8 (d # ds) \<noteq> ''Infinity''" by (auto simp: is_digit_def)
  with True d show ?thesis by (simp add: show_int_def)
next
  case False
  obtain d ds where d: "show_nat (nat i) @ r = d # ds"
    by (cases "show_nat (nat i) @ r") auto
  moreover then have "is_digit d" by (rule show_nat_not_minus)
  ultimately show ?thesis using False by (simp add: show_int_def)
qed

lemma parse_value_string: "parse_value h d (Suc n) (quote_text a s @ r) = Inr (JStr s, r)"
  by (simp add: quote_text_def scan_string_quoted)

lemma parse_value_array:
  "parse_value h d (Suc n) (CHR ''['' # s) =
     (if \<not> may_nest h (Suc d) then Inl Json_Recursion
      else if take 1 (skip_space s) = '']'' then Inr (JArr [], drop 1 (skip_space s))
      else bindE (parse_elems h (Suc d) n (skip_space s)) (\<lambda>(vs, r). Inr (JArr vs, r)))"
  by (simp add: Let_def)

lemma parse_value_object:
  "parse_value h d (Suc n) (CHR ''{'' # s) =
     (if \<not> may_nest h (Suc d) then Inl Json_Recursion
      else if take 1 (skip_space s) = ''}'' then bindE (pairs_hook h []) (\<lambda>v. Inr (v, drop 1 (skip_space s)))
      else bindE (parse_members h (Suc d) n (skip_space s)) (\<lambda>(kvs, r'). bindE (pairs_hook h kvs) (\<lambda>v. Inr (v, r'))))"
  by (simp add: Let_def)

lemma parse_value_literals:
  "parse_value h d (Suc n) (''null'' @ r) = Inr (JNull, r)"
  "parse_value h d (Suc n) (''true'' @ r) = Inr (JBool True, r)"
  "parse_value h d (Suc n) (''false'' @ r) = Inr (JBool False, r)"
  by simp_all

lemma parse_value_int:
  "json_plain (JInt i) \<Longrightarrow> json_follow r \<Longrightarrow> parse_value h d (Suc n) (show_int i @ r) = Inr (JInt i, r)"
proof -
  assume "json_plain (JInt i)" "json_follow r"
  then have "scan_number h (show_int i @ r) = Inr (JInt i, r)" by (simp add: scan_number_show_int)
  then show ?thesis using show_int_Cons [of i r] parse_value_number by metis
qed

lemma parse_members_key:
  "parse_members h d (Suc n) (quote_text a k @ CHR '':'' # s) =
     bindE (parse_value h d n (skip_space s)) (\<lambda>(v, r2).
       (let r3 = skip_space r2 in
        if take 1 r3 = '','' then
          bindE (parse_members h d n (skip_space (drop 1 r3))) (\<lambda>(kvs, r4). Inr ((k, v) # kvs, r4))
        else if take 1 r3 = ''}'' then Inr ([(k, v)], drop 1 r3)
        else Inl Json_Malformed))"
  by (simp add: quote_text_def scan_string_quoted is_json_space_iff)

lemma json_text_hd:
  "json_plain v \<Longrightarrow> \<exists>c cs. json_text a v @ r = c # cs \<and> \<not> is_json_space c \<and> c \<noteq> CHR '']''"
  using show_int_Cons [of _ r]
  by (cases v) (force simp: is_json_space_iff quote_text_def is_digit_def)+

lemma json_elems_hd:
  "vs \<noteq> [] \<Longrightarrow> \<forall>v \<in> set vs. json_plain v \<Longrightarrow>
     \<exists>c cs. json_elems a vs @ r = c # cs \<and> \<not> is_json_space c \<and> c \<noteq> CHR '']''"
  using json_text_hd [of "hd vs" a] by (cases "(a, vs)" rule: json_elems.cases) auto

lemma json_members_hd: "kvs \<noteq> [] \<Longrightarrow> \<exists>cs. json_members a kvs @ r = CHR 0x22 # cs"
  by (cases "(a, kvs)" rule: json_members.cases) (auto simp: quote_text_def)

declare parse_value.simps [simp del] parse_elems.simps [simp del] parse_members.simps [simp del]

text \<open>How deeply the containers of a value are nested.\<close>

fun json_nesting :: "json \<Rightarrow> nat" where
  "json_nesting (JArr vs) = Suc (foldr (max \<circ> json_nesting) vs 0)"
| "json_nesting (JObj kvs) = Suc (foldr (max \<circ> (json_nesting \<circ> snd)) kvs 0)"
| "json_nesting _ = 0"

lemma nesting_member: "x \<in> set xs \<Longrightarrow> f x \<le> foldr (max \<circ> f) xs (0 :: nat)"
  by (induction xs) auto

lemma may_nest_le: "may_nest h d \<Longrightarrow> d' \<le> d \<Longrightarrow> may_nest h d'"
  by (auto simp: may_nest_def split: option.splits)

lemma may_nest_parts:
  "may_nest h (d + json_nesting (JArr vs)) \<Longrightarrow> may_nest h (Suc d) \<and> (\<forall>v \<in> set vs. may_nest h (Suc d + json_nesting v))"
  "may_nest h (d + json_nesting (JObj kvs)) \<Longrightarrow> may_nest h (Suc d) \<and> (\<forall>kv \<in> set kvs. may_nest h (Suc d + json_nesting (snd kv)))"
  using nesting_member [of _ vs json_nesting] nesting_member [of _ kvs "json_nesting \<circ> snd"]
  by (auto elim!: may_nest_le)

text \<open>The hooks build the object itself when its keys are distinct.\<close>

locale json_reader =
  fixes h :: json_hooks
  assumes pairs_distinct: "distinct (map fst kvs) \<Longrightarrow> pairs_hook h kvs = Inr (JObj kvs)"
begin

lemma parse_value_text:
  "json_plain v \<Longrightarrow> may_nest h (d + json_nesting v) \<Longrightarrow> json_follow r \<Longrightarrow> length (json_text a v) \<le> n \<Longrightarrow>
     parse_value h d (Suc n) (json_text a v @ r) = Inr (v, r)"
  and parse_elems_text:
  "vs \<noteq> [] \<Longrightarrow> (\<forall>v \<in> set vs. json_plain v \<and> may_nest h (d + json_nesting v)) \<Longrightarrow> length (json_elems a vs) < n \<Longrightarrow>
     parse_elems h d (Suc n) (json_elems a vs @ CHR '']'' # r) = Inr (vs, r)"
  and parse_members_text:
  "kvs \<noteq> [] \<Longrightarrow> (\<forall>kv \<in> set kvs. json_plain (snd kv) \<and> may_nest h (d + json_nesting (snd kv))) \<Longrightarrow> length (json_members a kvs) < n \<Longrightarrow>
     parse_members h d (Suc n) (json_members a kvs @ CHR ''}'' # r) = Inr (kvs, r)"
proof (induction a v and a vs and a kvs arbitrary: d n r and d n r and d n r
    rule: json_text_json_elems_json_members.induct)
  case (1 a)
  then show ?case using parse_value_literals(1) by simp
next
  case (2 a b)
  then show ?case using parse_value_literals(2,3) by simp
next
  case (3 a i)
  then show ?case by (simp add: parse_value_int del: json_plain.simps)
next
  case (6 a s)
  then show ?case by (simp add: parse_value_string)
next
  case (7 a vs)
  note nest = may_nest_parts(1) [OF 7(3)]
  show ?case
  proof (cases "vs = []")
    case True
    with nest show ?thesis by (simp add: parse_value_array is_json_space_iff)
  next
    case False
    with 7 obtain c cs where c: "json_elems a vs @ CHR '']'' # r = c # cs" "\<not> is_json_space c" "c \<noteq> CHR '']''"
      using json_elems_hd [of vs a "CHR '']'' # r"] by auto
    obtain m where m: "n = Suc m" using 7 by (cases n) auto
    have "parse_elems h (Suc d) (Suc m) (c # cs) = Inr (vs, r)"
      using 7 False m nest by (simp flip: c(1))
    then show ?thesis using c m nest by (simp add: parse_value_array)
  qed
next
  case (8 a kvs)
  note nest = may_nest_parts(2) [OF 8(3)]
  show ?case
  proof (cases "kvs = []")
    case True
    with nest show ?thesis using pairs_distinct [of "[]"] by (simp add: parse_value_object is_json_space_iff)
  next
    case False
    then obtain cs where c: "json_members a kvs @ CHR ''}'' # r = CHR 0x22 # cs"
      using json_members_hd [of kvs a "CHR ''}'' # r"] by auto
    obtain m where m: "n = Suc m" using 8 by (cases n) auto
    have "parse_members h (Suc d) (Suc m) (CHR 0x22 # cs) = Inr (kvs, r)"
      using 8 False m nest by (simp flip: c(1))
    then show ?thesis using c m 8 nest pairs_distinct [of kvs]
      by (simp add: parse_value_object is_json_space_iff)
  qed
next
  case (10 a v)
  obtain m where "n = Suc m" using 10 by (cases n) auto
  with 10 show ?case by (simp add: parse_elems.simps is_json_space_iff)
next
  case (11 a v w vs)
  obtain m where m: "n = Suc m" using 11 by (cases n) auto
  have 1: "parse_value h d (Suc m) (json_text a v @ CHR '','' # json_elems a (w # vs) @ CHR '']'' # r)
      = Inr (v, CHR '','' # json_elems a (w # vs) @ CHR '']'' # r)"
    using 11 m by simp
  obtain c cs where c: "json_elems a (w # vs) @ CHR '']'' # r = c # cs" "\<not> is_json_space c"
    using 11 json_elems_hd [of "w # vs" a "CHR '']'' # r"] by auto
  have "parse_elems h d (Suc m) (json_elems a (w # vs) @ CHR '']'' # r) = Inr (w # vs, r)"
    using 11 m by simp
  with 1 c m show ?case by (simp add: parse_elems.simps(2) [of h d "Suc m"] is_json_space_iff)
next
  case (13 a k v)
  obtain m where m: "n = Suc m" using 13 by (cases n) auto
  have "parse_value h d (Suc m) (json_text a v @ CHR ''}'' # r) = Inr (v, CHR ''}'' # r)"
    using 13 m by simp
  with m 13 show ?case by (simp add: parse_members_key skip_space_json_text is_json_space_iff)
next
  case (14 a k v kv kvs)
  obtain m where m: "n = Suc m" using 14 by (cases n) auto
  have 1: "parse_value h d (Suc m) (json_text a v @ CHR '','' # json_members a (kv # kvs) @ CHR ''}'' # r)
      = Inr (v, CHR '','' # json_members a (kv # kvs) @ CHR ''}'' # r)"
    using 14 m by simp
  obtain cs where c: "json_members a (kv # kvs) @ CHR ''}'' # r = CHR 0x22 # cs"
    using json_members_hd [of "kv # kvs" a "CHR ''}'' # r"] by auto
  have "parse_members h d (Suc m) (json_members a (kv # kvs) @ CHR ''}'' # r) = Inr (kv # kvs, r)"
    using 14 m by simp
  with 1 c m 14 show ?case by (simp add: parse_members_key skip_space_json_text is_json_space_iff)
qed auto

end


section \<open>The parser never runs out of fuel\<close>

lemma length_dropWhile_drop [simp]: "length (dropWhile P (drop n s)) \<le> length s"
  by (rule order_trans [OF length_dropWhile_le]) simp

lemma length_dropWhile_Suc [simp]: "length (dropWhile P s) \<le> Suc (length s)" "length (dropWhile P s) \<le> Suc (Suc (length s))"
  using length_dropWhile_le [of P s] by linarith+

lemma scan_integer_shorter: "scan_integer s = Some (ds, r) \<Longrightarrow> length r < length s"
  by (auto simp: scan_integer_def length_dropWhile_le less_Suc_eq_le split: list.splits if_splits)

lemma scan_fraction_le: "scan_fraction s = (f, r) \<Longrightarrow> length r \<le> length s"
  by (auto simp: scan_fraction_def Let_def simp del: drop_Suc_Cons One_nat_def split: if_splits)

lemma scan_exponent_le: "scan_exponent s = (f, r) \<Longrightarrow> length r \<le> length s"
  by (auto simp: scan_exponent_def Let_def le_SucI split: if_splits list.splits)

lemma scan_number_shorter: "scan_number h s = Inr (v, r) \<Longrightarrow> length r < length s"
  by (auto simp: scan_number_def Let_def split: option.splits if_splits prod.splits
      dest!: scan_integer_shorter scan_fraction_le scan_exponent_le)

lemma scan_number_no_fuel:
  "\<forall>x. float_hook h x \<noteq> Inl Json_Fuel \<Longrightarrow> scan_number h s \<noteq> Inl Json_Fuel"
  by (auto simp: scan_number_def Let_def bindE_Inl_iff split: option.splits if_splits prod.splits)

lemma length_skip_space [simp]: "length (skip_space s) \<le> length s"
  by (rule length_dropWhile_le)

lemma take_1_eq: "take (Suc 0) s = [c] \<longleftrightarrow> (\<exists>t. s = c # t)"
  by (cases s) auto

lemma skip_space_shorter: "skip_space s = c # r \<Longrightarrow> length r < length s"
  using length_skip_space [of s] by simp

text \<open>Fuel beyond the length of the input is never used up.\<close>

definition consumes :: "string \<Rightarrow> json_error + 'a \<times> string \<Rightarrow> bool" where
  "consumes s res \<longleftrightarrow> (\<forall>v r. res = Inr (v, r) \<longrightarrow> length r < length s)"

lemma consumesD: "consumes s (Inr (v, r)) \<Longrightarrow> length r < length s"
  by (simp add: consumes_def)

lemma consumes_Inl [simp]: "consumes s (Inl e)"
  by (simp add: consumes_def)

lemma consumes_bindE:
  assumes "consumes t m" "length t \<le> length s"
    and "\<And>v r. m = Inr (v, r) \<Longrightarrow> length r < length s \<Longrightarrow> consumes s (f (v, r))"
  shows "consumes s (bindE m f)"
proof (cases m)
  case (Inr b)
  then obtain v r where m: "m = Inr (v, r)" by (cases b) auto
  with assms(1,2) have "length r < length s" by (auto simp: consumes_def)
  with assms(3) m show ?thesis by simp
qed simp

lemma consumes_Inr [simp]: "consumes s (Inr (v, r)) \<longleftrightarrow> length r < length s"
  by (simp add: consumes_def)

lemma parse_value_shorter_step:
  assumes "\<And>t d. consumes t (parse_elems h d n t)" "\<And>t d. consumes t (parse_members h d n t)"
  shows "consumes s (parse_value h d (Suc n) s)"
proof (cases s)
  case (Cons c cs)
  have le: "length (skip_space cs) \<le> length s" "length (skip_space cs) - Suc 0 < length s"
    unfolding Cons length_Cons using length_skip_space [of cs] by linarith+
  consider (str) "c = CHR 0x22" | (obj) "c = CHR ''{''" | (arr) "c = CHR ''[''"
    | (other) "c \<notin> {CHR 0x22, CHR ''{'', CHR ''[''}"
    by blast
  then show ?thesis
  proof cases
    case str
    with Cons show ?thesis
      by (auto simp: parse_value.simps consumes_def dest: scan_string_shorter)
  next
    case obj
    with Cons le show ?thesis
      by (auto simp: parse_value_object intro!: consumes_bindE [OF assms(2)])
         (auto simp: consumes_def)
  next
    case arr
    with Cons le show ?thesis
      by (auto simp: parse_value_array intro!: consumes_bindE [OF assms(1)])
  next
    case other
    have "parse_value h d (Suc n) s =
      (if take 4 s = ''null'' then Inr (JNull, drop 4 s)
       else if take 4 s = ''true'' then Inr (JBool True, drop 4 s)
       else if take 5 s = ''false'' then Inr (JBool False, drop 5 s)
       else if take 3 s = ''NaN'' then bindE (const_hook h ''NaN'') (\<lambda>v. Inr (v, drop 3 s))
       else if take 8 s = ''Infinity'' then bindE (const_hook h ''Infinity'') (\<lambda>v. Inr (v, drop 8 s))
       else if take 9 s = ''-Infinity'' then bindE (const_hook h ''-Infinity'') (\<lambda>v. Inr (v, drop 9 s))
       else scan_number h s)"
      using other Cons by (simp only: parse_value.simps list.case insert_iff empty_iff de_Morgan_disj if_False simp_thms)
    moreover have "consumes s (scan_number h s)"
      by (auto simp: consumes_def dest: scan_number_shorter)
    moreover have "length (drop (Suc k) s) < length s" for k using Cons by simp
    moreover have "consumes s (bindE (m :: json_error + json) (\<lambda>v. Inr (v, drop (Suc k) s)))" for m k
      using Cons by (auto simp: consumes_def)
    ultimately show ?thesis
      by (simp add: numeral_eq_Suc)
  qed
qed (simp add: parse_value.simps consumes_def)

lemma length_drop_skip [simp]: "length (skip_space (drop k (skip_space r))) \<le> length r"
  by (rule order_trans [OF length_skip_space]) (simp add: diff_le_self le_diff_conv trans_le_add1)

lemma parse_elems_shorter_step:
  assumes "\<And>t d. consumes t (parse_value h d n t)" "\<And>t d. consumes t (parse_elems h d n t)"
  shows "consumes s (parse_elems h d (Suc n) s)"
proof -
  have "length (skip_space (drop k (skip_space r))) \<le> length s \<and> length (skip_space r) - k < length s"
    if "length r < length s" for r k
    using that length_drop_skip [of k r] length_skip_space [of r] by linarith
  then show ?thesis
    by (auto simp: parse_elems.simps Let_def intro!: consumes_bindE [OF assms(1)] consumes_bindE [OF assms(2)])
qed

lemma parse_members_shorter_step:
  assumes "\<And>t d. consumes t (parse_value h d n t)" "\<And>t d. consumes t (parse_members h d n t)"
  shows "consumes s (parse_members h d (Suc n) s)"
proof -
  have le: "length (skip_space (drop k (skip_space r))) \<le> length s \<and> length (skip_space r) - k < length s"
    if "length r < length s" for r k
    using that length_drop_skip [of k r] length_skip_space [of r] by linarith
  have "consumes (drop 1 s) (scan_string (drop 1 s))"
    by (auto simp: consumes_def dest: scan_string_shorter)
  then show ?thesis
    using le
    by (auto simp: parse_members.simps Let_def
        intro!: consumes_bindE [of "drop 1 s"] consumes_bindE [OF assms(1)] consumes_bindE [OF assms(2)])
qed

lemma parse_shorter:
  "consumes s (parse_value h d n s) \<and> consumes t (parse_elems h d n t) \<and> consumes u (parse_members h d n u)"
proof (induction n arbitrary: d s t u)
  case 0
  then show ?case by (simp add: parse_value.simps parse_elems.simps parse_members.simps)
next
  case (Suc n)
  then show ?case
    by (blast intro: parse_value_shorter_step parse_elems_shorter_step parse_members_shorter_step)
qed

definition quiet_hooks :: "json_hooks \<Rightarrow> bool" where
  "quiet_hooks h \<longleftrightarrow> (\<forall>x. float_hook h x \<noteq> Inl Json_Fuel) \<and> (\<forall>x. const_hook h x \<noteq> Inl Json_Fuel)
     \<and> (\<forall>x. pairs_hook h x \<noteq> Inl Json_Fuel)"

lemma bindE_no_fuel:
  "m \<noteq> Inl e \<Longrightarrow> (\<And>x. m = Inr x \<Longrightarrow> f x \<noteq> Inl e) \<Longrightarrow> bindE m f \<noteq> Inl e"
  by (cases m) auto

lemma bindE_no_fuel2:
  "m \<noteq> Inl e \<Longrightarrow> (\<And>x r. m = Inr (x, r) \<Longrightarrow> f (x, r) \<noteq> Inl e) \<Longrightarrow> bindE m f \<noteq> Inl e"
  by (cases m) auto

lemma if_neqI: "(b \<Longrightarrow> x \<noteq> z) \<Longrightarrow> (\<not> b \<Longrightarrow> y \<noteq> z) \<Longrightarrow> (if b then x else y) \<noteq> z"
  by simp

lemma parse_value_fuel_step:
  assumes "quiet_hooks h"
    and "\<And>t d. 2 * length t + 1 < n \<Longrightarrow> parse_elems h d n t \<noteq> Inl Json_Fuel"
    and "\<And>t d. 2 * length t + 1 < n \<Longrightarrow> parse_members h d n t \<noteq> Inl Json_Fuel"
    and "2 * length s < Suc n"
  shows "parse_value h d (Suc n) s \<noteq> Inl Json_Fuel"
proof (cases s)
  case (Cons c cs)
  have le: "2 * length (skip_space cs) + 1 < n"
    using assms(4) length_skip_space [of cs] unfolding Cons length_Cons by arith
  consider (str) "c = CHR 0x22" | (obj) "c = CHR ''{''" | (arr) "c = CHR ''[''"
    | (other) "c \<notin> {CHR 0x22, CHR ''{'', CHR ''[''}"
    by blast
  then show ?thesis
  proof cases
    case str
    have "scan_string cs \<noteq> Inl Json_Fuel" by (auto dest: scan_string_error)
    with str Cons show ?thesis by (auto simp: parse_value.simps bindE_Inl_iff)
  next
    case obj
    have "pairs_hook h x \<noteq> Inl Json_Fuel" for x using assms(1) by (simp add: quiet_hooks_def)
    with obj Cons le show ?thesis
      by (simp add: parse_value_object bindE_Inl_iff assms(3) split: prod.split)
  next
    case arr
    with Cons le show ?thesis
      by (simp add: parse_value_array bindE_Inl_iff assms(2) split: prod.split)
  next
    case other
    have "parse_value h d (Suc n) s =
      (if take 4 s = ''null'' then Inr (JNull, drop 4 s)
       else if take 4 s = ''true'' then Inr (JBool True, drop 4 s)
       else if take 5 s = ''false'' then Inr (JBool False, drop 5 s)
       else if take 3 s = ''NaN'' then bindE (const_hook h ''NaN'') (\<lambda>v. Inr (v, drop 3 s))
       else if take 8 s = ''Infinity'' then bindE (const_hook h ''Infinity'') (\<lambda>v. Inr (v, drop 8 s))
       else if take 9 s = ''-Infinity'' then bindE (const_hook h ''-Infinity'') (\<lambda>v. Inr (v, drop 9 s))
       else scan_number h s)"
      using other Cons by (simp only: parse_value.simps list.case insert_iff empty_iff de_Morgan_disj if_False simp_thms)
    moreover have "scan_number h s \<noteq> Inl Json_Fuel"
      using assms(1) by (intro scan_number_no_fuel) (simp add: quiet_hooks_def)
    moreover have "bindE (const_hook h x) (\<lambda>v. Inr (v, y)) \<noteq> Inl Json_Fuel" for x y
      using assms(1) by (auto simp: bindE_Inl_iff quiet_hooks_def)
    ultimately show ?thesis by (simp only:) (intro if_neqI; simp)
  qed
qed (simp add: parse_value.simps)

lemma parse_no_fuel:
  assumes "quiet_hooks h"
  shows "(2 * length s < n \<longrightarrow> parse_value h d n s \<noteq> Inl Json_Fuel)
     \<and> (2 * length t + 1 < n \<longrightarrow> parse_elems h d n t \<noteq> Inl Json_Fuel)
     \<and> (2 * length u + 1 < n \<longrightarrow> parse_members h d n u \<noteq> Inl Json_Fuel)"
proof (induction n arbitrary: d s t u)
  case (Suc n)
  have v: "2 * length s < Suc n \<longrightarrow> parse_value h d (Suc n) s \<noteq> Inl Json_Fuel"
    using Suc parse_value_fuel_step [OF assms] by blast
  have sh: "length (skip_space (drop k (skip_space r))) < length x" if "length r < length x" for r k and x :: string
    using that length_drop_skip [of k r] by linarith
  have e: "parse_elems h d (Suc n) t \<noteq> Inl Json_Fuel" if t: "2 * length t + 1 < Suc n"
  proof -
    have "parse_value h d n t \<noteq> Inl Json_Fuel" using Suc t by simp
    moreover have "parse_elems h d n (skip_space (drop k (skip_space r))) \<noteq> Inl Json_Fuel"
      if "parse_value h d n t = Inr (w, r)" for w r k
    proof -
      have "length r < length t" using parse_shorter [of t h d n] that by (simp add: consumes_def)
      from sh [OF this, of k] t show ?thesis using Suc by simp
    qed
    ultimately show ?thesis
      by (auto simp: parse_elems.simps Let_def bindE_Inl_iff split: if_splits)
  qed
  have m: "parse_members h d (Suc n) u \<noteq> Inl Json_Fuel" if u: "2 * length u + 1 < Suc n"
  proof -
    have sc: "length (skip_space (drop k (skip_space r))) < length u"
      if "scan_string (drop 1 u) = Inr (w, r)" for w r k
      using scan_string_shorter [OF that] sh [of r u k] by simp
    have "parse_value h d n (skip_space (drop k (skip_space r))) \<noteq> Inl Json_Fuel"
      if "scan_string (drop 1 u) = Inr (w, r)" for w r k
      using sc [OF that, of k] u Suc by simp
    moreover have "parse_members h d n (skip_space (drop j (skip_space r'))) \<noteq> Inl Json_Fuel"
      if "scan_string (drop 1 u) = Inr (w, r)"
        and "parse_value h d n (skip_space (drop k (skip_space r))) = Inr (v, r')" for w r v r' j k
    proof -
      have "length r' < length (skip_space (drop k (skip_space r)))"
        using parse_shorter [of _ h d n] that(2) unfolding consumes_def by blast
      with sc [OF that(1), of k] have "length r' < length u" by simp
      from sh [OF this, of j] u show ?thesis using Suc by simp
    qed
    moreover have "scan_string (drop 1 u) \<noteq> Inl Json_Fuel" by (auto dest: scan_string_error)
    ultimately show ?thesis
      by (auto simp: parse_members.simps Let_def bindE_Inl_iff split: if_splits)
  qed
  show ?case using v e m by blast
qed simp

lemma json_loads_no_fuel_error:
  assumes h: "quiet_hooks h"
  shows "json_loads h b \<noteq> Inl Json_Fuel" "json_loads_bytes h b \<noteq> Inl Json_Fuel"
proof -
  have "parse_value h 0 (Suc (2 * length s)) (skip_space s) \<noteq> Inl Json_Fuel" for s
    using parse_no_fuel [OF h, of "skip_space s" "Suc (2 * length s)"] length_skip_space [of s] by simp
  then show "json_loads h b \<noteq> Inl Json_Fuel" "json_loads_bytes h b \<noteq> Inl Json_Fuel"
    by (auto simp: json_loads_def json_loads_bytes_def json_loads_text_def bindE_Inl_iff split: option.split if_splits)
qed

section \<open>Canonical encodings are injective\<close>

context json_reader begin

lemma loads_text_within:
  assumes "json_plain v" "may_nest h (json_nesting v)"
  shows "json_loads_text h (json_text a v) = Inr v"
proof -
  have "skip_space (json_text a v) = json_text a v"
    using skip_space_json_text [OF assms(1), of a "[]"] by simp
  moreover have "parse_value h 0 (Suc (2 * length (json_text a v))) (json_text a v) = Inr (v, [])"
    using parse_value_text [OF assms(1), of 0 "[]" a "2 * length (json_text a v)"] assms(2) by simp
  ultimately show ?thesis by (simp add: json_loads_text_def)
qed

text \<open>An object starts with a brace and a quote, so its encoding is recognised as UTF-8.\<close>

lemma loads_bytes_within:
  assumes "json_plain (JObj kvs)" "may_nest h (json_nesting (JObj kvs))" "json_sort v = JObj kvs" "kvs \<noteq> []"
  shows "json_loads_bytes h (json_dumps a v) = Inr (JObj kvs)"
proof -
  obtain cs where cs: "json_members a kvs @ ''}'' = CHR 0x22 # cs" using json_members_hd [OF assms(4), of a "''}''"] by auto
  then have "json_dumps a v = 0x7B # 0x22 # utf8_encode cs"
    unfolding json_dumps_def assms(3) by (simp add: utf8_encode_def utf8_char_def)
  then have "json_decode (json_dumps a v) = utf8_decode (json_dumps a v)"
    using json_decode_utf8 [of "0x7B" "0x22" "utf8_encode cs"] by simp
  then show ?thesis
    unfolding json_loads_bytes_def json_dumps_def assms(3) using loads_text_within [OF assms(1,2), of a] by simp
qed

end

text \<open>A reader for which the depth of the nesting is not considered.\<close>

locale unlimited_reader = json_reader +
  assumes unlimited: "nesting_limit h = None"
begin

lemma loads_text: "json_plain v \<Longrightarrow> json_loads_text h (json_text a v) = Inr v"
  by (rule loads_text_within) (simp_all add: may_nest_def unlimited)

lemma loads_dumps:
  "json_plain (json_sort v) \<Longrightarrow> json_loads h (json_dumps a v) = Inr (json_sort v)"
  by (simp add: json_loads_def json_dumps_def loads_text)

lemma loads_bytes:
  "json_sort v = JObj kvs \<Longrightarrow> json_plain (JObj kvs) \<Longrightarrow> kvs \<noteq> [] \<Longrightarrow>
     json_loads_bytes h (json_dumps a v) = Inr (JObj kvs)"
  by (rule loads_bytes_within) (simp_all add: may_nest_def unlimited)

end

lemma json_plain_sort [simp]: "json_plain (json_sort v) \<longleftrightarrow> json_plain v"
proof (induction v)
  case (JObj kvs)
  have "map (fst \<circ> map_prod id json_sort) kvs = map fst kvs" by simp
  with JObj show ?case by (auto simp: snds.simps image_iff)
qed auto

text \<open>Python's default hooks: the last of repeated keys wins, other numbers are kept.\<close>

definition dict_of :: "(string \<times> json) list \<Rightarrow> (string \<times> json) list" where
  "dict_of kvs = fold (\<lambda>(k, v). AList.update k v) kvs []"

definition default_hooks :: json_hooks where
  "default_hooks = \<lparr>float_hook = Inr \<circ> JFloat, const_hook = Inr \<circ> JConst,
     pairs_hook = Inr \<circ> JObj \<circ> dict_of, nesting_limit = None\<rparr>"

lemma update_new: "k \<notin> fst ` set al \<Longrightarrow> AList.update k v al = al @ [(k, v)]"
  by (induction al) auto

lemma dict_of_append:
  "distinct (map fst (al @ kvs)) \<Longrightarrow> fold (\<lambda>(k, v). AList.update k v) kvs al = al @ kvs"
proof (induction kvs arbitrary: al)
  case (Cons kv kvs)
  then show ?case using Cons.IH [of "al @ [kv]"] by (cases kv) (auto simp: update_new)
qed simp

lemma dict_of_distinct: "distinct (map fst kvs) \<Longrightarrow> dict_of kvs = kvs"
  using dict_of_append [of "[]" kvs] by (simp add: dict_of_def)

interpretation default_json: unlimited_reader default_hooks
  by unfold_locales (simp_all add: default_hooks_def dict_of_distinct)

lemma json_text_inject:
  "json_plain v \<Longrightarrow> json_plain w \<Longrightarrow> json_text a v = json_text a w \<longleftrightarrow> v = w"
  by (metis default_json.loads_text sum.inject(2))

lemma json_dumps_inject:
  "json_plain v \<Longrightarrow> json_plain w \<Longrightarrow> json_dumps a v = json_dumps a w \<longleftrightarrow> json_sort v = json_sort w"
  using json_text_inject [of "json_sort v" "json_sort w" a] by (simp add: json_dumps_def)

text \<open>A hook that rejects repeated keys, as the wire formats of the program install it.\<close>

definition unique_object :: "(string \<times> json) list \<Rightarrow> json_error + json" where
  "unique_object kvs = (if distinct (map fst kvs) then Inr (JObj kvs) else Inl Json_Hook)"


text \<open>Brackets alone exhaust the stack.\<close>

lemma parse_brackets:
  assumes "nesting_limit h = Some r" "d \<le> r" "r < d + m" "2 * m \<le> n"
  shows "parse_value h d (Suc n) (replicate m CHR ''['') = Inl Json_Recursion"
  using assms(2-4)
proof (induction m arbitrary: d n)
  case (Suc m)
  show ?case
  proof (cases "d = r")
    case True
    then show ?thesis by (simp add: parse_value_array may_nest_def assms(1))
  next
    case False
    with Suc.prems obtain k where m: "m = Suc k" by (cases m) auto
    define f where "f = n - 2"
    have n: "n = Suc (Suc f)" "2 * m \<le> f" using Suc.prems(3) by (simp_all add: f_def)
    have "parse_value h (Suc d) (Suc f) (replicate m CHR ''['') = Inl Json_Recursion"
      using False Suc.prems n(2) by (intro Suc.IH) simp_all
    moreover have "may_nest h (Suc d)" using False Suc.prems(1) by (simp add: may_nest_def assms(1))
    ultimately show ?thesis
      by (simp add: parse_value_array n(1) parse_elems.simps m is_json_space_iff)
  qed
qed simp

lemma brackets_parse:
  assumes "nesting_limit h = Some r" "r < n"
  shows "json_loads_text h (replicate n CHR ''['') = Inl Json_Recursion"
proof -
  have "skip_space (replicate n CHR ''['') = replicate n CHR ''[''" by (cases n) (simp_all add: is_json_space_iff)
  with parse_brackets [OF assms(1), of 0 n "2 * n"] assms(2) show ?thesis by (simp add: json_loads_text_def)
qed

section \<open>Access to decoded values\<close>

text \<open>
  \<open>data[k]\<close> on an object whose fields the caller has checked: the default is never reached
  there, every reader of the program first compares the key set.
\<close>

definition field :: "(string \<times> json) list \<Rightarrow> string \<Rightarrow> json" where
  "field kvs k = (case map_of kvs k of Some v \<Rightarrow> v | None \<Rightarrow> JNull)"

definition has_keys :: "(string \<times> json) list \<Rightarrow> string list \<Rightarrow> bool" where
  "has_keys kvs ks \<longleftrightarrow> set (map fst kvs) = set ks"

text \<open>
  \<open>v == 1\<close> on decoded values: \<open>True\<close> and a float that rounds to \<open>1.0\<close> are equal to the
  integer 1 in Python.  The bounds are the midpoints to the neighbours of 1 among the
  doubles, both of which round to 1 (round half to even).
\<close>

definition decimal_value :: "string \<Rightarrow> rat" where
  "decimal_value s =
     (let neg = (take 1 s = ''-''); r = (if neg then drop 1 s else s);
          ds = takeWhile is_digit r; r1 = dropWhile is_digit r;
          (frac, r2) = scan_fraction r1; fs = drop 1 frac;
          (ex, _) = scan_exponent r2;
          eneg = (take 1 (drop 1 ex) = ''-'');
          e = nat_of_digits (dropWhile (\<lambda>c. \<not> is_digit c) ex);
          m = of_nat (nat_of_digits (ds @ fs)) / 10 ^ length fs;
          v = (if eneg then m / 10 ^ e else m * 10 ^ e)
      in if neg then - v else v)"

definition json_eq_one :: "json \<Rightarrow> bool" where
  "json_eq_one v =
     (case v of
        JInt i \<Rightarrow> i = 1
      | JBool b \<Rightarrow> b
      | JFloat s \<Rightarrow> 1 - 1 / 2 ^ 54 \<le> decimal_value s \<and> decimal_value s \<le> 1 + 1 / 2 ^ 53
      | _ \<Rightarrow> False)"

end
