(* ===== verification/Lease.thy ===== *)
theory Lease
  imports Json
begin

text \<open>
  \<open>src/gpuforge/lease.py\<close>: the miner's persistent lease registry.  A \<open>lease_record\<close> is the
  recovery state of one lease, a \<open>lease_store\<close> the registry with the content of its state
  file.  The operations \<open>lease_offer\<close>, \<open>lease_transition\<close>, \<open>lease_claim_execution\<close> and
  \<open>lease_claim_evidence\<close> are the methods of \<open>LeaseStore\<close>; each takes the outcome of the
  atomic file replacement it may perform (\<open>disk_ok\<close>), and \<open>lease_open\<close> is the constructor,
  which loads the file.  \<open>lease_step\<close> collects them into one machine, restarts included.
\<close>

section \<open>States\<close>

datatype lease_state =
  Offered | Accepted | Fetching | Ready | Running | Checkpointing | Completed | Failed | Expired | Cancelled

fun lease_state_value :: "lease_state \<Rightarrow> string" where
  "lease_state_value Offered = ''offered''"
| "lease_state_value Accepted = ''accepted''"
| "lease_state_value Fetching = ''fetching''"
| "lease_state_value Ready = ''ready''"
| "lease_state_value Running = ''running''"
| "lease_state_value Checkpointing = ''checkpointing''"
| "lease_state_value Completed = ''completed''"
| "lease_state_value Failed = ''failed''"
| "lease_state_value Expired = ''expired''"
| "lease_state_value Cancelled = ''cancelled''"

definition all_lease_states :: "lease_state list" where
  "all_lease_states =
     [Offered, Accepted, Fetching, Ready, Running, Checkpointing, Completed, Failed, Expired, Cancelled]"

definition lease_state_of :: "string \<Rightarrow> lease_state option" where
  "lease_state_of s = find (\<lambda>st. lease_state_value st = s) all_lease_states"

definition lease_terminal :: "lease_state \<Rightarrow> bool" where
  "lease_terminal st \<longleftrightarrow> st \<in> {Completed, Failed, Expired, Cancelled}"

fun lease_targets :: "lease_state \<Rightarrow> lease_state list" where
  "lease_targets Offered = [Accepted, Failed, Expired, Cancelled]"
| "lease_targets Accepted = [Fetching, Failed, Expired, Cancelled]"
| "lease_targets Fetching = [Ready, Failed, Expired, Cancelled]"
| "lease_targets Ready = [Running, Failed, Expired, Cancelled]"
| "lease_targets Running = [Checkpointing, Completed, Failed, Expired, Cancelled]"
| "lease_targets Checkpointing = [Running, Completed, Failed, Expired, Cancelled]"
| "lease_targets Completed = []"
| "lease_targets Failed = []"
| "lease_targets Expired = []"
| "lease_targets Cancelled = []"

lemma lease_state_of_value [simp]: "lease_state_of (lease_state_value st) = Some st"
  by (cases st) (simp_all add: lease_state_of_def all_lease_states_def)

section \<open>Records\<close>

record lease_record =
  lr_lease_digest :: string
  lr_manifest_digest :: string
  lr_deadline_block :: int
  lr_state :: lease_state
  lr_revision :: int
  lr_execution_started :: bool
  lr_evidence_submitted :: bool
  lr_failure_code :: "string option"

text \<open>One constructor per message of \<open>LeaseStateError\<close>; the last is a plain \<open>ValueError\<close>.\<close>

datatype lease_error =
    Lease_Field_Invalid string
  | Failed_Needs_Code
  | Code_Only_For_Failed
  | Start_Marker_Missing
  | Evidence_Needs_Completed
  | Record_Schema_Invalid
  | Record_State_Invalid
  | Record_Code_Invalid
  | Record_Text_Invalid
  | Record_Integer_Invalid
  | Record_Boolean_Invalid
  | Not_Persisted
  | Offer_Conflict
  | Store_Full
  | Lease_Unavailable
  | Failed_Reason_Differs
  | Out_Of_Order
  | Claim_Required
  | Transition_Needs_Code
  | Transition_Code_Invalid
  | Not_Ready
  | Not_Complete
  | State_Too_Large
  | State_Malformed
  | State_Schema_Invalid
  | State_Version_Unsupported
  | State_Collection_Invalid
  | State_Duplicate_Record
  | Uncaught_Value_Error

definition lease_block_ok :: "int \<Rightarrow> bool" where
  "lease_block_ok b \<longleftrightarrow> in_range 0 max_int64 b"

text \<open>\<open>LeaseRecord.__post_init__\<close>: every construction and every \<open>replace\<close> runs these checks.\<close>

definition lease_new :: "lease_record \<Rightarrow> lease_error + lease_record" where
  "lease_new r = guarded
     [(is_digest (lr_lease_digest r), Lease_Field_Invalid ''lease digest''),
      (is_digest (lr_manifest_digest r), Lease_Field_Invalid ''manifest digest''),
      (lease_block_ok (lr_deadline_block r), Lease_Field_Invalid ''deadline block''),
      (in_range 0 max_int64 (lr_revision r), Lease_Field_Invalid ''lease revision''),
      (case lr_failure_code r of None \<Rightarrow> True | Some c \<Rightarrow> is_code c, Lease_Field_Invalid ''failure code''),
      (\<not> (lr_state r = Failed \<and> lr_failure_code r = None), Failed_Needs_Code),
      (\<not> (lr_state r \<noteq> Failed \<and> lr_failure_code r \<noteq> None), Code_Only_For_Failed),
      (\<not> (lr_state r \<in> {Running, Checkpointing, Completed} \<and> \<not> lr_execution_started r),
         Start_Marker_Missing),
      (\<not> (lr_evidence_submitted r \<and> lr_state r \<noteq> Completed), Evidence_Needs_Completed)]
     r"

definition lease_valid :: "lease_record \<Rightarrow> bool" where
  "lease_valid r \<longleftrightarrow> is_ok (lease_new r)"

definition lease_to_primitive :: "lease_record \<Rightarrow> json" where
  "lease_to_primitive r = JObj
     [(''deadline_block'', JInt (lr_deadline_block r)),
      (''evidence_submitted'', JBool (lr_evidence_submitted r)),
      (''execution_started'', JBool (lr_execution_started r)),
      (''failure_code'', case lr_failure_code r of None \<Rightarrow> JNull | Some c \<Rightarrow> JStr c),
      (''lease_digest'', JStr (lr_lease_digest r)),
      (''manifest_digest'', JStr (lr_manifest_digest r)),
      (''revision'', JInt (lr_revision r)),
      (''state'', JStr (lease_state_value (lr_state r)))]"

definition lease_fields :: "string list" where
  "lease_fields = [''deadline_block'', ''evidence_submitted'', ''execution_started'', ''failure_code'',
     ''lease_digest'', ''manifest_digest'', ''revision'', ''state'']"

fun lease_text :: "json \<Rightarrow> lease_error + string" where
  "lease_text (JStr s) = Inr s"
| "lease_text _ = Inl Record_Text_Invalid"

fun lease_integer :: "json \<Rightarrow> lease_error + int" where
  "lease_integer (JInt i) = Inr i"
| "lease_integer _ = Inl Record_Integer_Invalid"

fun lease_boolean :: "json \<Rightarrow> lease_error + bool" where
  "lease_boolean (JBool b) = Inr b"
| "lease_boolean _ = Inl Record_Boolean_Invalid"

definition lease_from_primitive :: "json \<Rightarrow> lease_error + lease_record" where
  "lease_from_primitive value =
     (case value of
        JObj d \<Rightarrow>
          if \<not> has_keys d lease_fields then Inl Record_Schema_Invalid
          else
            (case (case field d ''state'' of JStr s \<Rightarrow> lease_state_of s | _ \<Rightarrow> None) of
               None \<Rightarrow> Inl Record_State_Invalid
             | Some st \<Rightarrow>
                 bindE (case field d ''failure_code'' of
                          JNull \<Rightarrow> Inr None | JStr c \<Rightarrow> Inr (Some c) | _ \<Rightarrow> Inl Record_Code_Invalid)
                   (\<lambda>code.
                 bindE (lease_text (field d ''lease_digest'')) (\<lambda>ld.
                 bindE (lease_text (field d ''manifest_digest'')) (\<lambda>md.
                 bindE (lease_integer (field d ''deadline_block'')) (\<lambda>db.
                 bindE (lease_integer (field d ''revision'')) (\<lambda>rev.
                 bindE (lease_boolean (field d ''execution_started'')) (\<lambda>ex.
                 bindE (lease_boolean (field d ''evidence_submitted'')) (\<lambda>ev.
                 lease_new \<lparr>lr_lease_digest = ld, lr_manifest_digest = md, lr_deadline_block = db,
                   lr_state = st, lr_revision = rev, lr_execution_started = ex,
                   lr_evidence_submitted = ev, lr_failure_code = code\<rparr>))))))))
      | _ \<Rightarrow> Inl Record_Schema_Invalid)"

section \<open>The store\<close>

type_synonym lease_records = "(string \<times> lease_record) list"

text \<open>
  \<open>ls_path\<close>: the store has a state file; \<open>ls_file\<close>: that file's content, \<open>None\<close> while it
  does not exist.
\<close>

record lease_store =
  ls_path :: bool
  ls_max_records :: int
  ls_records :: lease_records
  ls_file :: "bytes option"

definition max_state_bytes :: int where
  "max_state_bytes = 4 * 1024 * 1024"

definition lease_snapshot :: "lease_records \<Rightarrow> json" where
  "lease_snapshot rs = JObj
     [(''records'', JArr (map (lease_to_primitive \<circ> snd) (sort_key fst rs))),
      (''version'', JInt 1)]"

text \<open>\<open>_persist\<close>: the new content of the state file.\<close>

definition lease_persist :: "bool \<Rightarrow> lease_store \<Rightarrow> lease_records \<Rightarrow> lease_error + bytes option" where
  "lease_persist disk_ok st rs =
     (if \<not> ls_path st then Inr (ls_file st)
      else
        (let payload = json_dumps True (lease_snapshot rs) in
         if int (length payload) > max_state_bytes then Inl State_Too_Large
         else if disk_ok then Inr (Some payload)
         else Inl Not_Persisted))"

definition lease_commit :: "bool \<Rightarrow> lease_store \<Rightarrow> lease_records \<Rightarrow> lease_error + lease_store" where
  "lease_commit disk_ok st rs =
     bindE (lease_persist disk_ok st rs) (\<lambda>f. Inr (st\<lparr>ls_records := rs, ls_file := f\<rparr>))"

definition lease_replace :: "bool \<Rightarrow> lease_store \<Rightarrow> lease_record \<Rightarrow> lease_error + lease_store \<times> lease_record" where
  "lease_replace disk_ok st r =
     bindE (lease_commit disk_ok st (AList.update (lr_lease_digest r) r (ls_records st)))
       (\<lambda>st'. Inr (st', r))"

definition lease_offer ::
  "bool \<Rightarrow> lease_store \<Rightarrow> string \<Rightarrow> string \<Rightarrow> int \<Rightarrow> lease_error + lease_store \<times> lease_record" where
  "lease_offer disk_ok st ld md deadline =
     bindE (lease_new \<lparr>lr_lease_digest = ld, lr_manifest_digest = md, lr_deadline_block = deadline,
              lr_state = Offered, lr_revision = 0, lr_execution_started = False,
              lr_evidence_submitted = False, lr_failure_code = None\<rparr>)
       (\<lambda>candidate.
          case map_of (ls_records st) ld of
            Some existing \<Rightarrow>
              if lr_manifest_digest existing \<noteq> md \<or> lr_deadline_block existing \<noteq> deadline
              then Inl Offer_Conflict
              else Inr (st, existing)
          | None \<Rightarrow>
              if ls_max_records st \<le> int (length (ls_records st)) then Inl Store_Full
              else bindE (lease_commit disk_ok st (AList.update ld candidate (ls_records st)))
                     (\<lambda>st'. Inr (st', candidate)))"

definition lease_get :: "lease_store \<Rightarrow> string \<Rightarrow> lease_error + lease_record" where
  "lease_get st ld =
     (if \<not> is_digest ld then Inl (Lease_Field_Invalid ''lease digest'')
      else case map_of (ls_records st) ld of None \<Rightarrow> Inl Lease_Unavailable | Some r \<Rightarrow> Inr r)"

definition lease_transition ::
  "bool \<Rightarrow> lease_store \<Rightarrow> string \<Rightarrow> lease_state \<Rightarrow> int \<Rightarrow> string option
     \<Rightarrow> lease_error + lease_store \<times> lease_record" where
  "lease_transition disk_ok st ld target0 current_block code0 =
     (if \<not> lease_block_ok current_block then Inl (Lease_Field_Invalid ''current block'')
      else bindE (lease_get st ld) (\<lambda>r.
        let late = (current_block > lr_deadline_block r \<and> \<not> lease_terminal (lr_state r));
            target = (if late then Expired else target0);
            code = (if late then None else code0)
        in if target = lr_state r then
             (if target = Failed \<and> code \<noteq> lr_failure_code r then Inl Failed_Reason_Differs
              else Inr (st, r))
           else if lease_terminal (lr_state r) \<or> target \<notin> set (lease_targets (lr_state r))
             then Inl Out_Of_Order
           else if lr_state r = Ready \<and> target = Running then Inl Claim_Required
           else if target = Failed \<and> code = None then Inl Transition_Needs_Code
           else if target = Failed \<and> \<not> is_code (the code) then Inl (Lease_Field_Invalid ''failure code'')
           else if target \<noteq> Failed \<and> code \<noteq> None then Inl Transition_Code_Invalid
           else bindE (lease_new (r\<lparr>lr_state := target, lr_revision := lr_revision r + 1,
                                     lr_failure_code := code\<rparr>))
                  (lease_replace disk_ok st)))"

definition lease_claim_execution ::
  "bool \<Rightarrow> lease_store \<Rightarrow> string \<Rightarrow> int \<Rightarrow> lease_error + lease_store \<times> bool" where
  "lease_claim_execution disk_ok st ld current_block =
     (if \<not> lease_block_ok current_block then Inl (Lease_Field_Invalid ''current block'')
      else bindE (lease_get st ld) (\<lambda>r.
        if current_block > lr_deadline_block r then
          (if \<not> lease_terminal (lr_state r)
           then bindE (lease_transition disk_ok st ld Expired current_block None)
                  (\<lambda>(st', _). Inr (st', False))
           else Inr (st, False))
        else if lr_execution_started r then Inr (st, False)
        else if lr_state r \<noteq> Ready then Inl Not_Ready
        else bindE (lease_new (r\<lparr>lr_state := Running, lr_revision := lr_revision r + 1,
                                  lr_execution_started := True\<rparr>))
               (\<lambda>r'. bindE (lease_replace disk_ok st r') (\<lambda>(st', _). Inr (st', True)))))"

definition lease_claim_evidence :: "bool \<Rightarrow> lease_store \<Rightarrow> string \<Rightarrow> lease_error + lease_store \<times> bool" where
  "lease_claim_evidence disk_ok st ld =
     bindE (lease_get st ld) (\<lambda>r.
       if lr_state r \<noteq> Completed then Inl Not_Complete
       else if lr_evidence_submitted r then Inr (st, False)
       else bindE (lease_new (r\<lparr>lr_revision := lr_revision r + 1, lr_evidence_submitted := True\<rparr>))
              (\<lambda>r'. bindE (lease_replace disk_ok st r') (\<lambda>(st', _). Inr (st', True))))"

section \<open>Loading\<close>

fun lease_load_records :: "lease_records \<Rightarrow> json list \<Rightarrow> lease_error + lease_records" where
  "lease_load_records rs [] = Inr rs"
| "lease_load_records rs (v # vs) =
     bindE (lease_from_primitive v) (\<lambda>r.
       if map_of rs (lr_lease_digest r) \<noteq> None then Inl State_Duplicate_Record
       else lease_load_records (AList.update (lr_lease_digest r) r rs) vs)"

definition lease_load :: "int \<Rightarrow> bytes \<Rightarrow> lease_error + lease_records" where
  "lease_load max_records content =
     (if int (length content) > max_state_bytes then Inl State_Too_Large
      else
        case json_loads_bytes default_hooks content of
          Inl Json_Int_Limit \<Rightarrow> Inl Uncaught_Value_Error
        | Inl _ \<Rightarrow> Inl State_Malformed
        | Inr decoded \<Rightarrow>
            (case decoded of
               JObj d \<Rightarrow>
                 if \<not> has_keys d [''records'', ''version''] then Inl State_Schema_Invalid
                 else if \<not> json_eq_one (field d ''version'') then Inl State_Version_Unsupported
                 else
                   (case field d ''records'' of
                      JArr vs \<Rightarrow>
                        if int (length vs) > max_records then Inl State_Collection_Invalid
                        else lease_load_records [] vs
                    | _ \<Rightarrow> Inl State_Collection_Invalid)
             | _ \<Rightarrow> Inl State_Schema_Invalid))"

text \<open>
  \<open>LeaseStore.__init__\<close>: an existing state file is loaded; \<open>file\<close> is its content.  A file that exists
  but cannot be examined or read makes the constructor raise, and there is no store.
\<close>

definition lease_open :: "bool \<Rightarrow> int \<Rightarrow> bytes option \<Rightarrow> lease_error + lease_store" where
  "lease_open path max_records file =
     (if \<not> in_range 1 1000000 max_records then Inl (Lease_Field_Invalid ''lease record limit'')
      else
        bindE (case (path, file) of (True, Some content) \<Rightarrow> lease_load max_records content | _ \<Rightarrow> Inr [])
          (\<lambda>rs. Inr \<lparr>ls_path = path, ls_max_records = max_records, ls_records = rs, ls_file = file\<rparr>))"

section \<open>One machine\<close>

datatype lease_op =
    Offer string string int
  | Transition string lease_state int "string option"
  | Claim_Execution string int
  | Claim_Evidence string
  | Restart

datatype lease_reply = Leased lease_record | Claimed bool | Restarted

fun lease_call :: "lease_store \<Rightarrow> bool \<times> lease_op \<Rightarrow> lease_error + lease_store \<times> lease_reply" where
  "lease_call st (ok, Offer ld md dl) = bindE (lease_offer ok st ld md dl) (\<lambda>(t, r). Inr (t, Leased r))"
| "lease_call st (ok, Transition ld tgt b c) =
     bindE (lease_transition ok st ld tgt b c) (\<lambda>(t, r). Inr (t, Leased r))"
| "lease_call st (ok, Claim_Execution ld b) =
     bindE (lease_claim_execution ok st ld b) (\<lambda>(t, x). Inr (t, Claimed x))"
| "lease_call st (ok, Claim_Evidence ld) =
     bindE (lease_claim_evidence ok st ld) (\<lambda>(t, x). Inr (t, Claimed x))"
| "lease_call st (ok, Restart) =
     bindE (lease_open (ls_path st) (ls_max_records st) (ls_file st)) (\<lambda>t. Inr (t, Restarted))"

text \<open>
  Every method assigns the object's state last, after the file has been written, so an
  exception leaves the store as it was.
\<close>

definition lease_step :: "lease_store \<Rightarrow> bool \<times> lease_op \<Rightarrow> lease_store \<times> (lease_error + lease_reply)" where
  "lease_step st x = (case lease_call st x of Inl e \<Rightarrow> (st, Inl e) | Inr (st', y) \<Rightarrow> (st', Inr y))"

section \<open>Records: construction, round trip\<close>

lemma lease_new_Inr: "lease_new r = Inr r' \<longleftrightarrow> r' = r \<and> lease_valid r"
  unfolding lease_valid_def lease_new_def by (rule guarded_is_ok)

lemma lease_new_valid: "lease_valid r \<Longrightarrow> lease_new r = Inr r"
  by (simp add: lease_new_Inr)

lemma lease_valid_iff:
  "lease_valid r \<longleftrightarrow>
     is_digest (lr_lease_digest r) \<and> is_digest (lr_manifest_digest r)
   \<and> lease_block_ok (lr_deadline_block r) \<and> in_range 0 max_int64 (lr_revision r)
   \<and> (lr_state r = Failed \<longleftrightarrow> lr_failure_code r \<noteq> None)
   \<and> (\<forall>c. lr_failure_code r = Some c \<longrightarrow> is_code c)
   \<and> (lr_state r \<in> {Running, Checkpointing, Completed} \<longrightarrow> lr_execution_started r)
   \<and> (lr_evidence_submitted r \<longrightarrow> lr_state r = Completed)"
proof -
  have "lease_valid r \<longleftrightarrow> lease_new r = Inr r" by (simp add: lease_new_Inr)
  then show ?thesis by (auto simp: lease_new_def split: option.splits)
qed

lemma lease_round_trip: "lease_valid r \<Longrightarrow> lease_from_primitive (lease_to_primitive r) = Inr r"
  by (cases r) (auto simp: lease_from_primitive_def lease_to_primitive_def has_keys_def lease_fields_def
      field_def lease_new_valid split: option.split)

text \<open>The strict codec contract shared by every persisted or transmitted record.\<close>

lemma lease_from_primitive_valid: "lease_from_primitive v = Inr r \<Longrightarrow> lease_valid r"
  by (auto simp: lease_from_primitive_def lease_new_Inr split: json.splits option.splits if_splits)

section \<open>The state file: a restart restores the registry\<close>

lemma lease_to_primitive_plain:
  assumes "lease_valid r"
  shows "json_plain (lease_to_primitive r)" "json_sort (lease_to_primitive r) = lease_to_primitive r"
proof -
  show "json_plain (lease_to_primitive r)"
    using assms by (auto simp: lease_to_primitive_def lease_valid_iff lease_block_ok_def split: option.split)
  show "json_sort (lease_to_primitive r) = lease_to_primitive r"
    by (simp add: lease_to_primitive_def split: option.split)
qed

definition lease_records_ok :: "lease_records \<Rightarrow> bool" where
  "lease_records_ok rs \<longleftrightarrow> distinct (map fst rs) \<and> (\<forall>(k, r) \<in> set rs. k = lr_lease_digest r \<and> lease_valid r)"

lemma lease_records_ok_sort: "lease_records_ok rs \<Longrightarrow> lease_records_ok (sort_key fst rs)"
  by (simp add: lease_records_ok_def)

lemma lease_load_records_append:
  assumes "lease_records_ok (rs @ xs)"
  shows "lease_load_records rs (map (lease_to_primitive \<circ> snd) xs) = Inr (rs @ xs)"
  using assms
proof (induction xs arbitrary: rs)
  case (Cons x xs)
  obtain k r where x: "x = (k, r)" by (cases x)
  have r: "k = lr_lease_digest r" "lease_valid r" and new: "k \<notin> fst ` set rs"
    using Cons.prems x by (auto simp: lease_records_ok_def)
  have "lease_load_records (rs @ [x]) (map (lease_to_primitive \<circ> snd) xs) = Inr ((rs @ [x]) @ xs)"
    by (rule Cons.IH) (use Cons.prems in simp)
  with r new x show ?case
    by (simp add: lease_round_trip update_new map_of_eq_None_iff comp_def)
qed simp

lemma lease_snapshot_plain:
  assumes "lease_records_ok rs"
  shows "json_plain (lease_snapshot rs)" "json_sort (lease_snapshot rs) = lease_snapshot rs"
  using lease_records_ok_sort [OF assms]
  by (auto simp: lease_snapshot_def lease_records_ok_def lease_to_primitive_plain)

lemma lease_load_snapshot:
  assumes "lease_records_ok rs" "int (length rs) \<le> n"
    and "int (length (json_dumps True (lease_snapshot rs))) \<le> max_state_bytes"
  shows "lease_load n (json_dumps True (lease_snapshot rs)) = Inr (sort_key fst rs)"
proof -
  have "json_loads_bytes default_hooks (json_dumps True (lease_snapshot rs)) = Inr (lease_snapshot rs)"
    using lease_snapshot_plain [OF assms(1)] unfolding lease_snapshot_def by (rule_tac default_json.loads_bytes) simp_all
  then show ?thesis
    using assms lease_load_records_append [of "[]" "sort_key fst rs"] lease_records_ok_sort [OF assms(1)]
    by (simp add: lease_load_def lease_snapshot_def has_keys_def field_def json_eq_one_def)
qed

section \<open>The invariant of the store\<close>

definition lease_file_ok :: "lease_store \<Rightarrow> bool" where
  "lease_file_ok st \<longleftrightarrow>
     (case ls_file st of
        None \<Rightarrow> ls_records st = []
      | Some content \<Rightarrow>
          (\<exists>rs. lease_load (ls_max_records st) content = Inr rs \<and> map_of rs = map_of (ls_records st)))"

definition lease_inv :: "lease_store \<Rightarrow> bool" where
  "lease_inv st \<longleftrightarrow>
     lease_records_ok (ls_records st) \<and> int (length (ls_records st)) \<le> ls_max_records st
   \<and> in_range 1 1000000 (ls_max_records st) \<and> (ls_path st \<longrightarrow> lease_file_ok st)"

lemma lease_records_okD:
  "lease_records_ok rs \<Longrightarrow> map_of rs k = Some r \<Longrightarrow> k = lr_lease_digest r \<and> lease_valid r"
  by (auto simp: lease_records_ok_def dest: map_of_SomeD)

lemma lease_records_ok_update:
  "lease_records_ok rs \<Longrightarrow> lease_valid r \<Longrightarrow> lease_records_ok (AList.update (lr_lease_digest r) r rs)"
  by (auto simp: lease_records_ok_def distinct_update set_update_distinct)

text \<open>What \<open>_commit\<close> guarantees: the new records are in memory and, for a store with a file, on disk.\<close>

lemma lease_commit_records:
  "lease_commit ok st rs = Inr st' \<Longrightarrow>
     ls_records st' = rs \<and> ls_path st' = ls_path st \<and> ls_max_records st' = ls_max_records st"
  by (auto simp: lease_commit_def)

lemma lease_commit_inv:
  assumes "lease_commit ok st rs = Inr st'" "lease_inv st"
    and "lease_records_ok rs" "int (length rs) \<le> ls_max_records st"
  shows "lease_inv st'"
proof -
  have "lease_file_ok st'" if path: "ls_path st"
  proof -
    have content: "ls_file st' = Some (json_dumps True (lease_snapshot rs))"
      and size: "int (length (json_dumps True (lease_snapshot rs))) \<le> max_state_bytes"
      using assms(1) path by (auto simp: lease_commit_def lease_persist_def Let_def split: if_splits)
    have "map_of (sort_key fst rs) = map_of rs"
      using assms(3) by (simp add: lease_records_ok_def map_of_sort_key_fst)
    then show ?thesis
      using content lease_load_snapshot [OF assms(3,4) size] lease_commit_records [OF assms(1)]
      by (simp add: lease_file_ok_def)
  qed
  then show ?thesis
    using assms lease_commit_records [OF assms(1)] by (simp add: lease_inv_def)
qed

text \<open>The lifecycle a lease promises, as a relation: work in order, or an end from anywhere.\<close>

inductive lease_edge :: "lease_state \<Rightarrow> lease_state \<Rightarrow> bool" where
  accept: "lease_edge Offered Accepted"
| fetch: "lease_edge Accepted Fetching"
| fetched: "lease_edge Fetching Ready"
| execute: "lease_edge Ready Running"
| checkpoint: "lease_edge Running Checkpointing"
| resume: "lease_edge Checkpointing Running"
| complete: "s = Running \<or> s = Checkpointing \<Longrightarrow> lease_edge s Completed"
| stop: "\<not> lease_terminal s \<Longrightarrow> t \<in> {Failed, Expired, Cancelled} \<Longrightarrow> lease_edge s t"

inductive_simps lease_edge_simps:
  "lease_edge Offered t" "lease_edge Accepted t" "lease_edge Fetching t" "lease_edge Ready t"
  "lease_edge Running t" "lease_edge Checkpointing t" "lease_edge Completed t" "lease_edge Failed t"
  "lease_edge Expired t" "lease_edge Cancelled t"

text \<open>The code's transition table is that relation.\<close>

lemma lease_targets_edge: "t \<in> set (lease_targets s) \<longleftrightarrow> lease_edge s t"
  by (cases s) (auto simp: lease_edge_simps lease_terminal_def)

text \<open>
  One call changes at most one record, and that record only moves forward: \<open>lease_moves r r'\<close>
  is the relation between the record before and after.
\<close>

definition lease_before :: "lease_record \<Rightarrow> lease_record \<Rightarrow> bool" where
  "lease_before r r' \<longleftrightarrow>
     lr_lease_digest r' = lr_lease_digest r \<and> lr_manifest_digest r' = lr_manifest_digest r
   \<and> lr_deadline_block r' = lr_deadline_block r \<and> lr_revision r \<le> lr_revision r'
   \<and> (lr_execution_started r \<longrightarrow> lr_execution_started r')
   \<and> (lr_evidence_submitted r \<longrightarrow> lr_evidence_submitted r')
   \<and> lease_edge\<^sup>*\<^sup>* (lr_state r) (lr_state r')
   \<and> (lease_terminal (lr_state r) \<longrightarrow>
        lr_state r' = lr_state r \<and> lr_failure_code r' = lr_failure_code r)"

lemma lease_before_refl [simp]: "lease_before r r"
  by (simp add: lease_before_def)

lemma lease_before_trans: "lease_before r s \<Longrightarrow> lease_before s t \<Longrightarrow> lease_before r t"
  by (auto simp: lease_before_def)

text \<open>The two markers of a lease, as the store has them.\<close>

definition execution_spent :: "string \<Rightarrow> lease_store \<Rightarrow> bool" where
  "execution_spent ld st \<longleftrightarrow>
     (case map_of (ls_records st) ld of None \<Rightarrow> False | Some r \<Rightarrow> lr_execution_started r)"

definition evidence_spent :: "string \<Rightarrow> lease_store \<Rightarrow> bool" where
  "evidence_spent ld st \<longleftrightarrow>
     (case map_of (ls_records st) ld of None \<Rightarrow> False | Some r \<Rightarrow> lr_evidence_submitted r)"

lemmas spent_defs = execution_spent_def evidence_spent_def

definition lease_store_before :: "lease_store \<Rightarrow> lease_store \<Rightarrow> bool" where
  "lease_store_before st st' \<longleftrightarrow>
     ls_path st' = ls_path st \<and> ls_max_records st' = ls_max_records st
   \<and> (\<forall>k r. map_of (ls_records st) k = Some r \<longrightarrow>
          (\<exists>r'. map_of (ls_records st') k = Some r' \<and> lease_before r r'))"

lemma lease_store_before_refl [simp]: "lease_store_before st st"
  by (auto simp: lease_store_before_def)

lemma lease_store_before_trans:
  "lease_store_before st st' \<Longrightarrow> lease_store_before st' st'' \<Longrightarrow> lease_store_before st st''"
  by (fastforce simp: lease_store_before_def intro: lease_before_trans)

lemma lease_replace_ok:
  assumes "lease_replace ok st r' = Inr (st', r'')" "lease_inv st"
    and "map_of (ls_records st) (lr_lease_digest r') = Some r" "lease_valid r'" "lease_before r r'"
  shows "lease_inv st'" "lease_store_before st st'" "r'' = r'"
    "map_of (ls_records st') = (map_of (ls_records st))(lr_lease_digest r' \<mapsto> r')"
proof -
  let ?rs = "AList.update (lr_lease_digest r') r' (ls_records st)"
  have c: "lease_commit ok st ?rs = Inr st'" and r'': "r'' = r'"
    using assms(1) by (auto simp: lease_replace_def)
  have "lease_records_ok ?rs"
    using assms(2,4) by (simp add: lease_inv_def lease_records_ok_update)
  moreover have "lr_lease_digest r' \<in> fst ` set (ls_records st)"
    using assms(3) by (metis domI dom_map_of_conv_image_fst)
  then have "int (length ?rs) \<le> ls_max_records st"
    using assms(2) by (simp add: lease_inv_def length_update)
  ultimately show "lease_inv st'" by (rule lease_commit_inv [OF c assms(2)])
  show m: "map_of (ls_records st') = (map_of (ls_records st))(lr_lease_digest r' \<mapsto> r')"
    using lease_commit_records [OF c] by (simp add: update_conv' )
  show "lease_store_before st st'"
    using lease_commit_records [OF c] m assms(3,5) by (simp add: lease_store_before_def)
  show "r'' = r'" by (rule r'')
qed

lemma lease_get_Inr: "lease_get st ld = Inr r \<longleftrightarrow> is_digest ld \<and> map_of (ls_records st) ld = Some r"
  by (auto simp: lease_get_def split: option.splits)

lemma lease_offer_cases:
  assumes "lease_offer ok st ld md dl = Inr (st', r)"
  obtains (old) "st' = st" "map_of (ls_records st) ld = Some r"
      "lr_manifest_digest r = md" "lr_deadline_block r = dl"
  | (new) "map_of (ls_records st) ld = None" "int (length (ls_records st)) < ls_max_records st"
      "lease_valid r" "r = \<lparr>lr_lease_digest = ld, lr_manifest_digest = md, lr_deadline_block = dl,
              lr_state = Offered, lr_revision = 0, lr_execution_started = False,
              lr_evidence_submitted = False, lr_failure_code = None\<rparr>"
      "lease_commit ok st (AList.update ld r (ls_records st)) = Inr st'"
  using assms
  by (auto simp: lease_offer_def lease_new_Inr split: option.splits if_splits)

text \<open>What every operation leaves behind: a sound store, in which the lease has moved forward.\<close>

definition lease_after :: "lease_store \<Rightarrow> string \<Rightarrow> lease_record \<Rightarrow> lease_store \<Rightarrow> bool" where
  "lease_after st ld r st' \<longleftrightarrow>
     lease_inv st' \<and> lease_store_before st st' \<and> map_of (ls_records st') ld = Some r
   \<and> (\<forall>k. k \<noteq> ld \<longrightarrow> map_of (ls_records st') k = map_of (ls_records st) k)"

lemma lease_after_spent:
  assumes "lease_after st ld r st'"
  shows "execution_spent k st' \<longleftrightarrow> (if k = ld then lr_execution_started r else execution_spent k st)"
    and "evidence_spent k st' \<longleftrightarrow> (if k = ld then lr_evidence_submitted r else evidence_spent k st)"
  using assms by (auto simp: lease_after_def spent_defs)

lemma lease_offer_ok:
  assumes "lease_offer ok st ld md dl = Inr (st', r)" "lease_inv st"
  shows "lease_after st ld r st' \<and> lr_manifest_digest r = md \<and> lr_deadline_block r = dl
    \<and> lr_execution_started r = execution_spent ld st \<and> lr_evidence_submitted r = evidence_spent ld st"
  using assms(1)
proof (cases rule: lease_offer_cases)
  case new
  let ?rs = "AList.update ld r (ls_records st)"
  have "lease_records_ok ?rs"
    using assms(2) new lease_records_ok_update [of "ls_records st" r] by (simp add: lease_inv_def)
  moreover have "int (length ?rs) \<le> ls_max_records st"
    using new by (simp add: length_update)
  ultimately have "lease_inv st'" using lease_commit_inv [OF new(5) assms(2)] by blast
  moreover have m: "map_of (ls_records st') = (map_of (ls_records st))(ld \<mapsto> r)"
    using lease_commit_records [OF new(5)] by (simp add: update_conv')
  then have "lease_store_before st st'"
    using lease_commit_records [OF new(5)] new(1) by (auto simp: lease_store_before_def)
  ultimately show ?thesis using m new(1,4) by (simp add: lease_after_def spent_defs)
qed (use assms in \<open>simp add: lease_after_def spent_defs\<close>)

lemma lease_transition_cases:
  assumes "lease_transition ok st ld tgt b code = Inr (st', r')"
  obtains (same) "st' = st" "map_of (ls_records st) ld = Some r'"
      "b \<le> lr_deadline_block r' \<or> lease_terminal (lr_state r')" "lr_state r' = tgt"
  | (moved) r where "map_of (ls_records st) ld = Some r" "\<not> lease_terminal (lr_state r)"
      "lr_state r' \<in> set (lease_targets (lr_state r))" "\<not> (lr_state r = Ready \<and> lr_state r' = Running)"
      "r' = r\<lparr>lr_state := lr_state r', lr_revision := lr_revision r + 1, lr_failure_code := lr_failure_code r'\<rparr>"
      "lease_valid r'" "lease_replace ok st r' = Inr (st', r')"
      "lr_state r' = (if b > lr_deadline_block r then Expired else tgt)"
proof -
  obtain r where r: "is_digest ld" "map_of (ls_records st) ld = Some r"
    using assms by (auto simp: lease_transition_def lease_get_Inr split: if_splits)
  define late where "late \<longleftrightarrow> b > lr_deadline_block r \<and> \<not> lease_terminal (lr_state r)"
  define target where "target = (if late then Expired else tgt)"
  define c where "c = (if late then None else code)"
  have get: "lease_get st ld = Inr r" using r by (simp add: lease_get_Inr)
  have body: "lease_transition ok st ld tgt b code =
      (if \<not> lease_block_ok b then Inl (Lease_Field_Invalid ''current block'')
       else if target = lr_state r then
             (if target = Failed \<and> c \<noteq> lr_failure_code r then Inl Failed_Reason_Differs
              else Inr (st, r))
           else if lease_terminal (lr_state r) \<or> target \<notin> set (lease_targets (lr_state r))
             then Inl Out_Of_Order
           else if lr_state r = Ready \<and> target = Running then Inl Claim_Required
           else if target = Failed \<and> c = None then Inl Transition_Needs_Code
           else if target = Failed \<and> \<not> is_code (the c) then Inl (Lease_Field_Invalid ''failure code'')
           else if target \<noteq> Failed \<and> c \<noteq> None then Inl Transition_Code_Invalid
           else bindE (lease_new (r\<lparr>lr_state := target, lr_revision := lr_revision r + 1,
                                     lr_failure_code := c\<rparr>)) (lease_replace ok st))"
    unfolding lease_transition_def get Let_def late_def target_def c_def bindE.simps by (rule refl)
  consider
      (same) "target = lr_state r" "st' = st" "r' = r"
    | (moved) "target \<noteq> lr_state r" "\<not> lease_terminal (lr_state r)" "target \<in> set (lease_targets (lr_state r))"
      "\<not> (lr_state r = Ready \<and> target = Running)"
      "bindE (lease_new (r\<lparr>lr_state := target, lr_revision := lr_revision r + 1, lr_failure_code := c\<rparr>))
         (lease_replace ok st) = Inr (st', r')"
    using assms unfolding body by (simp only: split: if_splits) auto
  then show thesis
  proof cases
    case same
    have "\<not> late"
      using same(1) by (auto simp: target_def late_def lease_terminal_def split: if_splits)
    then show thesis
      by (intro that(1)) (use same r in \<open>auto simp: target_def late_def\<close>)
  next
    case moved
    define n where "n = r\<lparr>lr_state := target, lr_revision := lr_revision r + 1, lr_failure_code := c\<rparr>"
    have n: "lease_valid n" "lease_replace ok st n = Inr (st', r')"
      using moved(5) by (auto simp: n_def [symmetric] lease_new_Inr)
    then have "r' = n" by (auto simp: lease_replace_def)
    with n moved(2-4) r show thesis
      by (intro that(2) [of r]) (auto simp: n_def target_def late_def)
  qed
qed

lemma lease_inv_lookup:
  "lease_inv st \<Longrightarrow> map_of (ls_records st) ld = Some r \<Longrightarrow> lr_lease_digest r = ld \<and> lease_valid r"
  by (auto simp: lease_inv_def dest: lease_records_okD)

lemma lease_replace_after:
  assumes "lease_replace ok st r' = Inr (st', r'')" "lease_inv st"
    and "map_of (ls_records st) ld = Some r" "lease_valid r'" "lease_before r r'"
  shows "lease_after st ld r' st'"
proof -
  have ld: "lr_lease_digest r' = ld"
    using assms(5) lease_inv_lookup [OF assms(2,3)] by (simp add: lease_before_def)
  with assms(3) have "map_of (ls_records st) (lr_lease_digest r') = Some r" by simp
  from lease_replace_ok [OF assms(1,2) this assms(4,5)] ld show ?thesis
    by (simp add: lease_after_def)
qed

lemma lease_transition_ok:
  assumes "lease_transition ok st ld tgt b code = Inr (st', r')" "lease_inv st"
  shows "lease_after st ld r' st'
    \<and> lr_execution_started r' = execution_spent ld st \<and> lr_evidence_submitted r' = evidence_spent ld st"
  using assms(1)
proof (cases rule: lease_transition_cases)
  case (moved r)
  have "lease_before r r'"
    using moved(2,3) by (subst moved(5)) (auto simp: lease_before_def lease_targets_edge)
  from lease_replace_after [OF moved(7) assms(2) moved(1,6) this] show ?thesis
    using moved(1) by (subst (2 3) moved(5)) (simp add: spent_defs)
qed (use assms in \<open>simp add: lease_after_def spent_defs\<close>)

lemma lease_claim_execution_cases:
  assumes "lease_claim_execution ok st ld b = Inr (st', won)"
  obtains (lost) r where "map_of (ls_records st) ld = Some r" "st' = st" "\<not> won"
      "lr_execution_started r \<and> b \<le> lr_deadline_block r \<or> lease_terminal (lr_state r)"
  | (late) r r' where "map_of (ls_records st) ld = Some r" "b > lr_deadline_block r" "\<not> won"
      "lease_transition ok st ld Expired b None = Inr (st', r')"
  | (won) r r' where "map_of (ls_records st) ld = Some r" "b \<le> lr_deadline_block r" "won"
      "\<not> lr_execution_started r" "lr_state r = Ready"
      "r' = r\<lparr>lr_state := Running, lr_revision := lr_revision r + 1, lr_execution_started := True\<rparr>"
      "lease_valid r'" "lease_replace ok st r' = Inr (st', r')"
proof -
  obtain r where r: "is_digest ld" "map_of (ls_records st) ld = Some r"
    using assms by (auto simp: lease_claim_execution_def lease_get_Inr split: if_splits)
  then have get: "lease_get st ld = Inr r" by (simp add: lease_get_Inr)
  show thesis
  proof (cases "b > lr_deadline_block r \<or> lr_execution_started r")
    case True
    with assms get r(2) show thesis
      by (auto simp: lease_claim_execution_def split: if_splits intro: that(1,2))
  next
    case False
    define n where "n = r\<lparr>lr_state := Running, lr_revision := lr_revision r + 1, lr_execution_started := True\<rparr>"
    have "lr_state r = Ready" "won" "lease_valid n" "lease_replace ok st n = Inr (st', n)"
      using assms get False
      by (auto simp: lease_claim_execution_def n_def [symmetric] lease_new_Inr lease_replace_def split: if_splits)
    with False r(2) show thesis by (intro that(3) [of r n]) (auto simp: n_def)
  qed
qed

lemma lease_claim_execution_ok:
  assumes "lease_claim_execution ok st ld b = Inr (st', won)" "lease_inv st"
  obtains r where "lease_after st ld r st'" "lr_execution_started r = (won \<or> execution_spent ld st)"
    "lr_evidence_submitted r = evidence_spent ld st"
  using assms(1)
proof (cases rule: lease_claim_execution_cases)
  case (lost r)
  then show ?thesis using assms(2) that [of r] by (simp add: lease_after_def spent_defs)
next
  case (late r r')
  then show ?thesis using lease_transition_ok [OF late(4) assms(2)] that [of r'] by simp
next
  case (won r r')
  have "lease_before r r'" using won(5,6) by (auto simp: lease_before_def lease_terminal_def lease_edge_simps)
  from lease_replace_after [OF won(8) assms(2) won(1,7) this] show ?thesis
    using that [of r'] won(1,3,6) by (simp add: spent_defs)
qed

lemma lease_claim_evidence_cases:
  assumes "lease_claim_evidence ok st ld = Inr (st', won)"
  obtains (lost) r where "map_of (ls_records st) ld = Some r" "st' = st" "\<not> won"
      "lr_evidence_submitted r"
  | (won) r r' where "map_of (ls_records st) ld = Some r" "won" "\<not> lr_evidence_submitted r"
      "lr_state r = Completed" "r' = r\<lparr>lr_revision := lr_revision r + 1, lr_evidence_submitted := True\<rparr>"
      "lease_valid r'" "lease_replace ok st r' = Inr (st', r')"
proof -
  obtain r where r: "lease_get st ld = Inr r" "map_of (ls_records st) ld = Some r"
    using assms by (auto simp: lease_claim_evidence_def lease_get_Inr)
  define n where "n = r\<lparr>lr_revision := lr_revision r + 1, lr_evidence_submitted := True\<rparr>"
  show thesis
  proof (cases "lr_evidence_submitted r")
    case True
    with assms r show thesis
      by (auto simp: lease_claim_evidence_def split: if_splits intro: that(1))
  next
    case False
    with assms r have "lr_state r = Completed" "won" "lease_valid n" "lease_replace ok st n = Inr (st', n)"
      by (auto simp: lease_claim_evidence_def n_def [symmetric] lease_new_Inr lease_replace_def split: if_splits)
    with False r(2) show thesis by (intro that(2) [of r n]) (auto simp: n_def)
  qed
qed

lemma lease_claim_evidence_ok:
  assumes "lease_claim_evidence ok st ld = Inr (st', won)" "lease_inv st"
  obtains r where "lease_after st ld r st'" "lr_execution_started r = execution_spent ld st"
    "lr_evidence_submitted r = (won \<or> evidence_spent ld st)"
  using assms(1)
proof (cases rule: lease_claim_evidence_cases)
  case (lost r)
  then show ?thesis using assms(2) that [of r] by (simp add: lease_after_def spent_defs)
next
  case (won r r')
  have "lease_before r r'" using won(4,5) by (simp add: lease_before_def)
  from lease_replace_after [OF won(7) assms(2) won(1,6) this] show ?thesis
    using that [of r'] won(1,2,5) by (simp add: spent_defs)
qed


section \<open>The machine, restarts included\<close>

text \<open>
  The contracts are stated for a store with a state file: a store without one forgets its
  leases when the process ends.
\<close>

definition lease_durable :: "lease_store \<Rightarrow> bool" where
  "lease_durable st \<longleftrightarrow> lease_inv st \<and> ls_path st"

lemma lease_durable_after: "lease_durable st \<Longrightarrow> lease_after st ld r st' \<Longrightarrow> lease_durable st'"
  by (simp add: lease_durable_def lease_after_def lease_store_before_def)

lemma lease_load_records_ok:
  "lease_load_records rs vs = Inr rs' \<Longrightarrow> lease_records_ok rs \<Longrightarrow>
     lease_records_ok rs' \<and> length rs' = length rs + length vs"
proof (induction vs arbitrary: rs)
  case (Cons v vs)
  then obtain r where r: "lease_from_primitive v = Inr r" "map_of rs (lr_lease_digest r) = None"
      "lease_load_records (AList.update (lr_lease_digest r) r rs) vs = Inr rs'"
    by (auto split: if_splits)
  have "lease_records_ok (AList.update (lr_lease_digest r) r rs)"
    by (rule lease_records_ok_update [OF Cons.prems(2) lease_from_primitive_valid [OF r(1)]])
  with Cons.IH [OF r(3)] r(2) show ?case
    by (simp add: length_update map_of_eq_None_iff)
qed simp

lemma lease_load_ok:
  assumes "lease_load n content = Inr rs"
  shows "lease_records_ok rs \<and> int (length rs) \<le> n"
proof -
  have "\<exists>vs. lease_load_records [] vs = Inr rs \<and> int (length vs) \<le> n"
    using assms
    by (auto simp: lease_load_def split: if_splits sum.splits json_error.splits json.splits)
  then show ?thesis
    using lease_load_records_ok [of "[]" _ rs] by (force simp: lease_records_ok_def)
qed

lemma lease_open_durable:
  assumes "lease_open True n content = Inr st"
  shows "lease_durable st"
proof -
  have f: "ls_path st" "ls_max_records st = n" "ls_file st = content" "in_range 1 1000000 n"
    using assms by (auto simp: lease_open_def split: if_splits)
  show ?thesis
  proof (cases content)
    case None
    with assms f show ?thesis
      by (auto simp: lease_open_def lease_durable_def lease_inv_def lease_file_ok_def lease_records_ok_def
          in_range_def)
  next
    case (Some c)
    with assms f obtain rs where "lease_load n c = Inr rs"
        "st = \<lparr>ls_path = True, ls_max_records = n, ls_records = rs, ls_file = content\<rparr>"
      by (auto simp: lease_open_def split: if_splits)
    then have "lease_load n c = Inr (ls_records st)" by simp
    with Some f show ?thesis
      by (auto simp: lease_durable_def lease_inv_def lease_file_ok_def dest: lease_load_ok)
  qed
qed

lemma lease_reopen:
  assumes "lease_durable st"
  obtains rs where "lease_open (ls_path st) (ls_max_records st) (ls_file st) = Inr (st\<lparr>ls_records := rs\<rparr>)"
    "map_of rs = map_of (ls_records st)"
proof -
  have inv: "ls_path st" "in_range 1 1000000 (ls_max_records st)" "lease_file_ok st"
    using assms by (auto simp: lease_durable_def lease_inv_def)
  show thesis
  proof (cases "ls_file st")
    case None
    with inv show thesis
      by (intro that [of "[]"]) (auto simp: lease_open_def lease_file_ok_def)
  next
    case (Some content)
    with inv obtain rs where rs: "lease_load (ls_max_records st) content = Inr rs"
        "map_of rs = map_of (ls_records st)" by (auto simp: lease_file_ok_def)
    with Some inv show thesis
      by (intro that [of rs]) (auto simp: lease_open_def)
  qed
qed

text \<open>Winning the right to execute a lease, and winning the right to submit its evidence.\<close>

definition execution_won :: "string \<Rightarrow> bool \<times> lease_op \<Rightarrow> lease_error + lease_reply \<Rightarrow> bool" where
  "execution_won ld x y \<longleftrightarrow> (\<exists>b. snd x = Claim_Execution ld b) \<and> y = Inr (Claimed True)"

definition evidence_won :: "string \<Rightarrow> bool \<times> lease_op \<Rightarrow> lease_error + lease_reply \<Rightarrow> bool" where
  "evidence_won ld x y \<longleftrightarrow> snd x = Claim_Evidence ld \<and> y = Inr (Claimed True)"

lemma lease_step_cases:
  assumes "lease_durable st"
  obtains (raised) e where "lease_step st x = (st, Inl e)"
  | (changed) ld r where "lease_after st ld r (fst (lease_step st x))"
      "lr_execution_started r \<longrightarrow> execution_spent ld st \<or> execution_won ld x (snd (lease_step st x))"
      "lr_evidence_submitted r \<longrightarrow> evidence_spent ld st \<or> evidence_won ld x (snd (lease_step st x))"
  | (restarted) rs where "snd x = Restart" "lease_step st x = (st\<lparr>ls_records := rs\<rparr>, Inr Restarted)"
      "map_of rs = map_of (ls_records st)"
proof (cases "lease_call st x")
  case (Inl e)
  then show thesis by (intro raised) (simp add: lease_step_def)
next
  case (Inr y)
  obtain st' reply where y: "y = (st', reply)" by (cases y)
  obtain ok op where x: "x = (ok, op)" by (cases x)
  have inv: "lease_inv st" using assms by (simp add: lease_durable_def)
  have res: "lease_step st x = (st', Inr reply)" using Inr y by (simp add: lease_step_def)
  show thesis
  proof (cases op)
    case (Offer ld md dl)
    with Inr x y obtain r where "lease_offer ok st ld md dl = Inr (st', r)" by auto
    with lease_offer_ok [OF this inv] show thesis by (intro changed [of ld r]) (simp_all add: res)
  next
    case (Transition ld tgt b c)
    with Inr x y obtain r where "lease_transition ok st ld tgt b c = Inr (st', r)" by auto
    with lease_transition_ok [OF this inv] show thesis by (intro changed [of ld r]) (simp_all add: res)
  next
    case (Claim_Execution ld b)
    with Inr x y obtain w where "lease_claim_execution ok st ld b = Inr (st', w)" "reply = Claimed w" by auto
    then show thesis
      by (elim lease_claim_execution_ok [OF _ inv])
        (rule changed [of ld], auto simp: res [unfolded x Claim_Execution] x Claim_Execution execution_won_def)
  next
    case (Claim_Evidence ld)
    with Inr x y obtain w where "lease_claim_evidence ok st ld = Inr (st', w)" "reply = Claimed w" by auto
    then show thesis
      by (elim lease_claim_evidence_ok [OF _ inv])
        (rule changed [of ld], auto simp: res [unfolded x Claim_Evidence] x Claim_Evidence evidence_won_def)
  next
    case Restart
    obtain rs where "lease_open (ls_path st) (ls_max_records st) (ls_file st) = Inr (st\<lparr>ls_records := rs\<rparr>)"
      "map_of rs = map_of (ls_records st)" by (rule lease_reopen [OF assms])
    with Restart x show thesis by (intro restarted [of rs]) (simp_all add: lease_step_def)
  qed
qed

lemma lease_durable_same_map:
  assumes "lease_durable st" "lease_open (ls_path st) (ls_max_records st) (ls_file st) = Inr st'"
  shows "lease_durable st'"
  using assms lease_open_durable [of "ls_max_records st" "ls_file st" st'] by (simp add: lease_durable_def)

lemma lease_step_durable: "lease_durable st \<Longrightarrow> lease_durable (fst (lease_step st x))"
proof (cases "snd x = Restart")
  case True
  assume d: "lease_durable st"
  obtain st' where "lease_open (ls_path st) (ls_max_records st) (ls_file st) = Inr st'"
    by (metis d lease_reopen)
  moreover then have "fst (lease_step st x) = st'" using True by (cases x) (simp add: lease_step_def)
  ultimately show ?thesis using lease_durable_same_map [OF d] by simp
next
  case False
  assume d: "lease_durable st"
  then show ?thesis
    by (cases rule: lease_step_cases [of st x]) (use False d lease_durable_after in auto)
qed

lemma lease_step_before: "lease_durable st \<Longrightarrow> lease_store_before st (fst (lease_step st x))"
  by (cases rule: lease_step_cases [of st x])
    (auto simp: lease_after_def, simp add: lease_store_before_def)

interpretation lease_machine: progressing_machine lease_step lease_durable lease_store_before
  by unfold_locales
    (auto intro: lease_step_durable lease_step_before lease_store_before_trans)

lemma lease_spent_stays:
  assumes "lease_durable st"
  shows "execution_spent ld st \<Longrightarrow> execution_spent ld (fst (lease_step st x))"
    and "evidence_spent ld st \<Longrightarrow> evidence_spent ld (fst (lease_step st x))"
  using lease_step_before [OF assms, of x]
  by (force simp: execution_spent_def evidence_spent_def lease_store_before_def lease_before_def
      split: option.splits)+

lemma execution_won_call:
  assumes "execution_won ld x (snd (lease_step st x))"
  obtains b where "x = (fst x, Claim_Execution ld b)"
    "lease_claim_execution (fst x) st ld b = Inr (fst (lease_step st x), True)"
proof -
  obtain ok b where x: "x = (ok, Claim_Execution ld b)"
    using assms by (cases x) (auto simp: execution_won_def)
  show thesis
    using assms by (intro that [of b])
      (auto simp: x lease_step_def execution_won_def split: sum.splits)
qed

lemma evidence_won_call:
  assumes "evidence_won ld x (snd (lease_step st x))"
  shows "lease_claim_evidence (fst x) st ld = Inr (fst (lease_step st x), True)"
proof -
  obtain ok where x: "x = (ok, Claim_Evidence ld)"
    using assms by (cases x) (auto simp: evidence_won_def)
  show ?thesis
    using assms by (auto simp: x lease_step_def evidence_won_def split: sum.splits)
qed

lemma lease_step_spends:
  assumes "lease_durable st"
  shows "(execution_spent k (fst (lease_step st x)) \<longrightarrow>
           execution_spent k st \<or> execution_won k x (snd (lease_step st x)))
     \<and> (evidence_spent k (fst (lease_step st x)) \<longrightarrow>
           evidence_spent k st \<or> evidence_won k x (snd (lease_step st x)))"
  using assms
proof (cases rule: lease_step_cases [of st x])
  case (changed ld r)
  then show ?thesis by (auto simp: lease_after_spent)
qed (simp_all add: spent_defs)

interpretation execution_claim: marked_event lease_step lease_durable "execution_won ld" "execution_spent ld"
proof
  fix st x
  assume d: "lease_durable st"
  show "execution_spent ld st \<Longrightarrow> execution_spent ld (fst (lease_step st x))"
    by (rule lease_spent_stays [OF d])
  show "\<not> execution_spent ld st \<Longrightarrow> execution_spent ld (fst (lease_step st x)) \<Longrightarrow>
      execution_won ld x (snd (lease_step st x))"
    using lease_step_spends [OF d] by blast
  assume "execution_won ld x (snd (lease_step st x))"
  then obtain b where call: "lease_claim_execution (fst x) st ld b = Inr (fst (lease_step st x), True)"
    by (rule execution_won_call)
  then show "\<not> execution_spent ld st"
    by (cases rule: lease_claim_execution_cases) (auto simp: execution_spent_def)
  show "execution_spent ld (fst (lease_step st x))"
    by (rule lease_claim_execution_ok [OF call])
      (use d in \<open>auto simp: lease_durable_def lease_after_def execution_spent_def\<close>)
qed

interpretation evidence_claim: marked_event lease_step lease_durable "evidence_won ld" "evidence_spent ld"
proof
  fix st x
  assume d: "lease_durable st"
  show "evidence_spent ld st \<Longrightarrow> evidence_spent ld (fst (lease_step st x))"
    by (rule lease_spent_stays [OF d])
  show "\<not> evidence_spent ld st \<Longrightarrow> evidence_spent ld (fst (lease_step st x)) \<Longrightarrow>
      evidence_won ld x (snd (lease_step st x))"
    using lease_step_spends [OF d] by blast
  assume "evidence_won ld x (snd (lease_step st x))"
  then have call: "lease_claim_evidence (fst x) st ld = Inr (fst (lease_step st x), True)"
    by (rule evidence_won_call)
  then show "\<not> evidence_spent ld st"
    by (cases rule: lease_claim_evidence_cases) (auto simp: evidence_spent_def)
  show "evidence_spent ld (fst (lease_step st x))"
    by (rule lease_claim_evidence_ok [OF call])
      (use d in \<open>auto simp: lease_durable_def lease_after_def evidence_spent_def\<close>)
qed

section \<open>Properties\<close>

definition sample_lease :: string where
  "sample_lease = digest_text (replicate 64 CHR ''a'')"

definition sample_manifest :: string where
  "sample_manifest = digest_text (replicate 64 CHR ''b'')"

definition sample_store :: lease_store where
  "sample_store = \<lparr>ls_path = True, ls_max_records = 4, ls_records = [], ls_file = None\<rparr>"

definition sample_calls :: "(bool \<times> lease_op) list" where
  "sample_calls =
     [(True, Offer sample_lease sample_manifest 100),
      (True, Transition sample_lease Accepted 10 None), (True, Transition sample_lease Fetching 11 None),
      (True, Transition sample_lease Ready 12 None), (False, Claim_Execution sample_lease 13),
      (True, Claim_Execution sample_lease 13), (True, Restart), (True, Claim_Execution sample_lease 14)]"

lemma sample_open: "lease_open True 4 None = Inr sample_store"
  by (simp add: lease_open_def in_range_def sample_store_def)

lemma sample_store_empty: "map_of (ls_records sample_store) ld = None"
  by (simp add: sample_store_def)

text \<open>
  A lease is executed at most once.  Over any sequence of calls, refused disk writes
  and restarts included, the number of successful execution claims of a lease is one exactly
  when the persisted execution marker is set at the end, and zero otherwise.
\<close>

theorem lease_execution_claimed_once:
  assumes "lease_open True n content = Inr st" and "map_of (ls_records st) ld = None"
  shows "fired (execution_won ld) lease_step st calls
           = (case map_of (ls_records (run lease_step st calls)) ld of
                Some r \<Rightarrow> if lr_execution_started r then 1 else 0 | None \<Rightarrow> 0)"
proof -
  have "\<not> execution_spent ld st" using assms(2) by (simp add: execution_spent_def)
  from execution_claim.fired_iff_spent [OF lease_open_durable [OF assms(1)] this]
  show ?thesis by (auto simp: execution_spent_def split: option.splits)
qed

theorem lease_execution_claimed_once_witness:
  "fired (execution_won sample_lease) lease_step sample_store sample_calls
     = (case map_of (ls_records (run lease_step sample_store sample_calls)) sample_lease of
          Some r \<Rightarrow> if lr_execution_started r then 1 else 0 | None \<Rightarrow> 0)"
  by (rule lease_execution_claimed_once [OF sample_open sample_store_empty])

text \<open>Evidence for a lease is submitted at most once, in the same sense.\<close>

theorem lease_evidence_submitted_once:
  assumes "lease_open True n content = Inr st" and "map_of (ls_records st) ld = None"
  shows "fired (evidence_won ld) lease_step st calls
           = (case map_of (ls_records (run lease_step st calls)) ld of
                Some r \<Rightarrow> if lr_evidence_submitted r then 1 else 0 | None \<Rightarrow> 0)"
proof -
  have "\<not> evidence_spent ld st" using assms(2) by (simp add: evidence_spent_def)
  from evidence_claim.fired_iff_spent [OF lease_open_durable [OF assms(1)] this]
  show ?thesis by (auto simp: evidence_spent_def split: option.splits)
qed

theorem lease_evidence_submitted_once_witness:
  "fired (evidence_won sample_lease) lease_step sample_store sample_calls
     = (case map_of (ls_records (run lease_step sample_store sample_calls)) sample_lease of
          Some r \<Rightarrow> if lr_evidence_submitted r then 1 else 0 | None \<Rightarrow> 0)"
  by (rule lease_evidence_submitted_once [OF sample_open sample_store_empty])

text \<open>
  C24: whatever is called, and across restarts, a lease that the store has keeps its
  identity, moves along the lifecycle relation only, never loses a marker and never leaves a
  terminal state.
\<close>

theorem lease_lifecycle:
  assumes "lease_open True n content = Inr st"
    and "map_of (ls_records (run lease_step st before)) ld = Some r"
  shows "\<exists>r'. map_of (ls_records (run lease_step st (before @ calls))) ld = Some r' \<and> lease_valid r'
     \<and> lr_manifest_digest r' = lr_manifest_digest r \<and> lr_deadline_block r' = lr_deadline_block r
     \<and> lr_revision r \<le> lr_revision r' \<and> lease_edge\<^sup>*\<^sup>* (lr_state r) (lr_state r')
     \<and> (lr_execution_started r \<longrightarrow> lr_execution_started r')
     \<and> (lr_evidence_submitted r \<longrightarrow> lr_evidence_submitted r')
     \<and> (lease_terminal (lr_state r) \<longrightarrow>
          lr_state r' = lr_state r \<and> lr_failure_code r' = lr_failure_code r)"
proof -
  let ?st = "run lease_step st before"
  have d: "lease_durable ?st"
    by (rule lease_machine.run_inv [OF lease_open_durable [OF assms(1)]])
  have "lease_store_before ?st (run lease_step ?st calls)"
    by (rule lease_machine.run_before [OF d])
  then obtain r' where r': "map_of (ls_records (run lease_step ?st calls)) ld = Some r'" "lease_before r r'"
    using assms(2) by (auto simp: lease_store_before_def)
  moreover have "lease_valid r'"
    using lease_machine.run_inv [OF d, of calls] r'(1) by (auto simp: lease_durable_def dest: lease_inv_lookup)
  ultimately show ?thesis by (auto simp: run_append lease_before_def)
qed

definition sample_ready :: lease_record where
  "sample_ready = \<lparr>lr_lease_digest = sample_lease, lr_manifest_digest = sample_manifest,
     lr_deadline_block = 100, lr_state = Ready, lr_revision = 3, lr_execution_started = False,
     lr_evidence_submitted = False, lr_failure_code = None\<rparr>"

lemma sample_ready_valid: "lease_valid sample_ready"
  by (simp add: lease_valid_iff sample_ready_def sample_lease_def sample_manifest_def in_range_def
      lease_block_ok_def)

definition sample_recovered :: lease_store where
  "sample_recovered = \<lparr>ls_path = True, ls_max_records = 4, ls_records = [(sample_lease, sample_ready)],
     ls_file = Some (json_dumps True (lease_snapshot [(sample_lease, sample_ready)]))\<rparr>"

lemma sample_size: "int (length (json_dumps True (lease_snapshot [(sample_lease, sample_ready)]))) = 331"
  by code_simp

lemma sample_recovered_open:
  "lease_open True 4 (Some (json_dumps True (lease_snapshot [(sample_lease, sample_ready)]))) = Inr sample_recovered"
proof -
  have "lease_records_ok [(sample_lease, sample_ready)]"
    using sample_ready_valid by (simp add: lease_records_ok_def sample_ready_def)
  from lease_load_snapshot [OF this, of 4] sample_size show ?thesis
    by (simp add: lease_open_def in_range_def sample_recovered_def max_state_bytes_def)
qed

lemma sample_recovered_get: "map_of (ls_records sample_recovered) sample_lease = Some sample_ready"
  by (simp add: sample_recovered_def)

theorem lease_lifecycle_witness:
  "\<exists>r'. map_of (ls_records (run lease_step sample_recovered
            ([] @ [(True, Claim_Execution sample_lease 7), (True, Restart)]))) sample_lease = Some r'
     \<and> lease_valid r' \<and> lr_manifest_digest r' = sample_manifest \<and> lease_edge\<^sup>*\<^sup>* Ready (lr_state r')"
proof -
  have "map_of (ls_records (run lease_step sample_recovered [])) sample_lease = Some sample_ready"
    by (simp add: sample_recovered_get)
  from lease_lifecycle [OF sample_recovered_open this, of "[(True, Claim_Execution sample_lease 7), (True, Restart)]"]
  show ?thesis by (auto simp: sample_ready_def)
qed

text \<open>
  A restart loses nothing.  After any calls, opening the state file again succeeds and
  yields the same leases, every one valid.
\<close>

theorem lease_restart_restores:
  assumes "lease_open True n content = Inr st"
  shows "\<exists>st'. lease_open True n (ls_file (run lease_step st calls)) = Inr st'
     \<and> map_of (ls_records st') = map_of (ls_records (run lease_step st calls))
     \<and> (\<forall>(ld, r) \<in> set (ls_records st'). lr_lease_digest r = ld \<and> lease_valid r)"
proof -
  let ?st = "run lease_step st calls"
  have d0: "lease_durable st" by (rule lease_open_durable [OF assms])
  then have d: "lease_durable ?st" by (rule lease_machine.run_inv)
  have same: "ls_path ?st" "ls_max_records ?st = n"
    using lease_machine.run_before [OF d0, of calls] assms
    by (auto simp: lease_store_before_def lease_open_def split: if_splits)
  obtain rs where rs: "lease_open (ls_path ?st) (ls_max_records ?st) (ls_file ?st) = Inr (?st\<lparr>ls_records := rs\<rparr>)"
    "map_of rs = map_of (ls_records ?st)" by (rule lease_reopen [OF d])
  have "lease_durable (?st\<lparr>ls_records := rs\<rparr>)" by (rule lease_durable_same_map [OF d rs(1)])
  then have "lease_records_ok rs" by (simp add: lease_durable_def lease_inv_def)
  with rs same show ?thesis
    by (intro exI [of _ "?st\<lparr>ls_records := rs\<rparr>"]) (auto simp: lease_records_ok_def)
qed

theorem lease_restart_restores_witness:
  "\<exists>st'. lease_open True 4 (ls_file (run lease_step sample_recovered [(True, Claim_Execution sample_lease 7)])) = Inr st'
     \<and> map_of (ls_records st')
         = map_of (ls_records (run lease_step sample_recovered [(True, Claim_Execution sample_lease 7)]))"
  using lease_restart_restores [OF sample_recovered_open, of "[(True, Claim_Execution sample_lease 7)]"] by blast

text \<open>
  A deadline fails closed.  Past the deadline of a lease no execution claim succeeds, and
  a claim or a transition that returns leaves the lease in a terminal state.
\<close>

lemma lease_after_before:
  "lease_after st ld r' st' \<Longrightarrow> map_of (ls_records st) ld = Some r \<Longrightarrow> lease_before r r'"
  by (force simp: lease_after_def lease_store_before_def)

lemma lease_late_terminal:
  assumes "lease_transition ok st ld tgt b code = Inr (st', r')" "lease_inv st" "b > lr_deadline_block r'"
  shows "lease_terminal (lr_state r')"
  using assms(1)
proof (cases rule: lease_transition_cases)
  case (moved r)
  have "lr_deadline_block r' = lr_deadline_block r" by (subst moved(5)) simp
  with moved(8) assms(3) show ?thesis by (simp add: lease_terminal_def)
qed (use assms(3) in auto)

theorem lease_deadline_fails_closed:
  assumes "lease_open True n content = Inr st0" and "st = run lease_step st0 calls"
    and "map_of (ls_records st) ld = Some r" and "b > lr_deadline_block r"
    and "op = Claim_Execution ld b \<or> op = Transition ld target b code"
    and "lease_step st (ok, op) = (st', Inr reply)"
  shows "reply \<noteq> Claimed True
     \<and> (\<exists>r'. map_of (ls_records st') ld = Some r' \<and> lease_terminal (lr_state r'))"
proof -
  have d: "lease_durable st"
    unfolding assms(2) by (rule lease_machine.run_inv [OF lease_open_durable [OF assms(1)]])
  then have inv: "lease_inv st" by (simp add: lease_durable_def)
  have late: ?thesis
    if t: "lease_transition ok st ld tgt b c = Inr (st', r')" and reply: "reply \<noteq> Claimed True" for tgt c r'
  proof -
    have after: "lease_after st ld r' st'" using lease_transition_ok [OF t inv] by blast
    have "lr_deadline_block r' = lr_deadline_block r"
      using lease_after_before [OF after assms(3)] by (simp add: lease_before_def)
    then have "lease_terminal (lr_state r')" using lease_late_terminal [OF t inv] assms(4) by simp
    with after reply show ?thesis by (auto simp: lease_after_def)
  qed
  from assms(5) show ?thesis
  proof
    assume op: "op = Claim_Execution ld b"
    then obtain won where won: "lease_claim_execution ok st ld b = Inr (st', won)" "reply = Claimed won"
      using assms(6) by (auto simp: lease_step_def split: sum.splits)
    from won(1) show ?thesis
    proof (cases rule: lease_claim_execution_cases)
      case (lost r1)
      then have "lease_terminal (lr_state r)" using assms(3,4) by simp
      with lost assms(3) won(2) show ?thesis by auto
    qed (use won(2) assms(3,4) late in auto)
  next
    assume op: "op = Transition ld target b code"
    then obtain r' where "lease_transition ok st ld target b code = Inr (st', r')" "reply = Leased r'"
      using assms(6) by (auto simp: lease_step_def split: sum.splits)
    then show ?thesis by (intro late) simp_all
  qed
qed

theorem lease_deadline_fails_closed_witness:
  "\<exists>st' reply. lease_step sample_recovered (True, Claim_Execution sample_lease 101) = (st', Inr reply)
     \<and> reply \<noteq> Claimed True \<and> (\<exists>r'. map_of (ls_records st') sample_lease = Some r' \<and> lease_terminal (lr_state r'))"
proof -
  define st' where "st' = fst (lease_step sample_recovered (True, Claim_Execution sample_lease 101))"
  have "snd (lease_step sample_recovered (True, Claim_Execution sample_lease 101)) = Inr (Claimed False)"
    by code_simp
  then have step: "lease_step sample_recovered (True, Claim_Execution sample_lease 101) = (st', Inr (Claimed False))"
    by (simp add: st'_def prod_eq_iff)
  have run: "sample_recovered = run lease_step sample_recovered []" by simp
  have late: "lr_deadline_block sample_ready < 101" by (simp add: sample_ready_def)
  show ?thesis
    using lease_deadline_fails_closed [OF sample_recovered_open run sample_recovered_get late _ step] step by blast
qed

text \<open>
  The winning claim.  A ready, unstarted lease is claimed by the first call within its
  deadline whose disk write succeeds; the store then holds the lease as running and started.
  When the write fails, the claim raises and the store is unchanged.
\<close>

theorem lease_claim_execution_wins:
  assumes "is_digest ld" and "map_of (ls_records st) ld = Some r" and "lease_valid r"
    and "lr_state r = Ready" "\<not> lr_execution_started r" "lr_revision r < max_int64"
    and "in_range 0 max_int64 b" "b \<le> lr_deadline_block r"
    and "r' = r\<lparr>lr_state := Running, lr_revision := lr_revision r + 1, lr_execution_started := True\<rparr>"
    and "ls_path st" "lr_lease_digest r = ld"
    and "payload = json_dumps True (lease_snapshot (AList.update ld r' (ls_records st)))"
    and "int (length payload) \<le> 4194304"
  shows "lease_step st (ok, Claim_Execution ld b) =
     (if ok
      then (st\<lparr>ls_records := AList.update ld r' (ls_records st), ls_file := Some payload\<rparr>,
            Inr (Claimed True))
      else (st, Inl Not_Persisted))"
proof -
  have get: "lease_get st ld = Inr r" using assms(1,2) by (simp add: lease_get_Inr)
  have new: "lease_new r' = Inr r'"
    using assms(3-6) by (intro lease_new_valid) (auto simp: assms(9) lease_valid_iff in_range_def)
  have "lease_commit ok st (AList.update ld r' (ls_records st)) =
      (if ok then Inr (st\<lparr>ls_records := AList.update ld r' (ls_records st), ls_file := Some payload\<rparr>)
       else Inl Not_Persisted)"
    using assms(10,13) by (auto simp: lease_commit_def lease_persist_def max_state_bytes_def Let_def
        simp flip: assms(12))
  moreover have "lr_lease_digest r' = ld" using assms(9,11) by simp
  ultimately have "lease_replace ok st r' =
      (if ok then Inr (st\<lparr>ls_records := AList.update ld r' (ls_records st), ls_file := Some payload\<rparr>, r')
       else Inl Not_Persisted)"
    by (simp add: lease_replace_def)
  then show ?thesis
    using assms(4,5,7,8) get new
    by (simp add: lease_step_def lease_claim_execution_def lease_block_ok_def flip: assms(9))
qed

theorem lease_claim_execution_wins_witness:
  "snd (lease_step sample_recovered (True, Claim_Execution sample_lease 100)) = Inr (Claimed True)"
proof -
  have "int (length (json_dumps True (lease_snapshot (AList.update sample_lease
      (sample_ready\<lparr>lr_state := Running, lr_revision := lr_revision sample_ready + 1, lr_execution_started := True\<rparr>)
      (ls_records sample_recovered))))) = 332"
    by code_simp
  then show ?thesis
    using lease_claim_execution_wins [OF _ sample_recovered_get sample_ready_valid _ _ _ _ _ refl _ _ refl, of 100 True]
    by (simp add: sample_ready_def sample_recovered_def sample_lease_def in_range_def)
qed

end
