(* ===== verification/Checks.thy ===== *)
theory Checks
  imports Json
begin

text \<open>
  The field checks and the canonical JSON of \<open>src/gpuforge/protocol.py\<close> (its module-level
  helpers), and the two enumerations of \<open>src/gpuforge/config.py\<close> that messages carry.  A check
  is a value of type \<open>protocol_error + unit\<close>; \<open>passes\<close> runs a constructor's checks in order.
\<close>

section \<open>Checks\<close>

text \<open>One constructor per message of \<open>ProtocolValidationError\<close>.\<close>

datatype protocol_error =
    Invalid_Object string
  | Unknown_Fields string
  | Missing_Fields string
  | Invalid_Text_Type string
  | Invalid_Integer_Type string
  | Invalid_Boolean_Type string
  | Invalid_List string
  | Integer_Out_Of_Range string
  | Text_Length string
  | Text_Prohibited string
  | Text_Not_Ascii string
  | Text_Format string
  | Unsupported_Version
  | Invalid_Enum string
  | Invalid_Value string
  | Not_Unique string
  | Deadline_Not_After_Start
  | Receipt_Inconsistent
  | Attestation_Type
  | Canonical_Integer
  | Not_Canonical_Profile
  | Wire_Too_Large

fun all_pass :: "('e + unit) list \<Rightarrow> 'e + unit" where
  "all_pass [] = Inr ()"
| "all_pass (c # cs) = bindE c (\<lambda>_. all_pass cs)"

definition passes :: "('e + unit) list \<Rightarrow> 'a \<Rightarrow> 'e + 'a" where
  "passes cs x = bindE (all_pass cs) (\<lambda>_. Inr x)"

definition require :: "bool \<Rightarrow> 'e \<Rightarrow> 'e + unit" where
  "require ok e = (if ok then Inr () else Inl e)"

lemma all_pass_Inr [simp]: "all_pass cs = Inr u \<longleftrightarrow> (\<forall>c \<in> set cs. c = Inr ())"
  by (induction cs) auto

lemma passes_Inr [simp]: "passes cs x = Inr y \<longleftrightarrow> y = x \<and> (\<forall>c \<in> set cs. c = Inr ())"
  by (auto simp: passes_def)

lemma require_Inr [simp]: "require ok e = Inr u \<longleftrightarrow> ok"
  by (simp add: require_def)

section \<open>Field types\<close>

fun get_text :: "json \<Rightarrow> string \<Rightarrow> protocol_error + string" where
  "get_text (JStr s) name = Inr s"
| "get_text _ name = Inl (Invalid_Text_Type name)"

fun get_integer :: "json \<Rightarrow> string \<Rightarrow> protocol_error + int" where
  "get_integer (JInt i) name = Inr i"
| "get_integer _ name = Inl (Invalid_Integer_Type name)"

fun get_boolean :: "json \<Rightarrow> string \<Rightarrow> protocol_error + bool" where
  "get_boolean (JBool b) name = Inr b"
| "get_boolean _ name = Inl (Invalid_Boolean_Type name)"

definition get_list :: "json \<Rightarrow> string \<Rightarrow> nat \<Rightarrow> nat \<Rightarrow> protocol_error + json list" where
  "get_list v name lo hi =
     (case v of
        JArr vs \<Rightarrow> if lo \<le> length vs \<and> length vs \<le> hi then Inr vs else Inl (Invalid_List name)
      | _ \<Rightarrow> Inl (Invalid_List name))"

fun get_mapping :: "json \<Rightarrow> string \<Rightarrow> protocol_error + (string \<times> json) list" where
  "get_mapping (JObj d) name = Inr d"
| "get_mapping _ name = Inl (Invalid_Object name)"

definition exact_fields :: "(string \<times> json) list \<Rightarrow> string list \<Rightarrow> string \<Rightarrow> protocol_error + unit" where
  "exact_fields d required name =
     (if \<not> set (map fst d) \<subseteq> set required then Inl (Unknown_Fields name)
      else if \<not> set required \<subseteq> set (map fst d) then Inl (Missing_Fields name)
      else Inr ())"

lemma get_list_JArr [simp]: "lo \<le> length vs \<Longrightarrow> length vs \<le> hi \<Longrightarrow> get_list (JArr vs) name lo hi = Inr vs"
  by (simp add: get_list_def)

section \<open>Bounded values\<close>

definition bounded_int :: "string \<Rightarrow> int \<Rightarrow> int \<Rightarrow> int \<Rightarrow> protocol_error + unit" where
  "bounded_int name i lo hi = require (in_range lo hi i) (Integer_Out_Of_Range name)"

text \<open>
  Within the text of the model (code points up to U+00FF) the categories \<open>C*\<close> are the
  controls and the soft hyphen, and every text is in normal form NFC.
\<close>

definition is_prohibited :: "char \<Rightarrow> bool" where
  "is_prohibited c \<longleftrightarrow> (let n = of_char c :: nat in n < 32 \<or> 127 \<le> n \<and> n < 160 \<or> n = 173)"

definition bounded_text :: "string \<Rightarrow> string \<Rightarrow> nat \<Rightarrow> nat \<Rightarrow> (string \<Rightarrow> bool) \<Rightarrow> bool \<Rightarrow> protocol_error + unit" where
  "bounded_text name s lo hi pattern ascii_only =
     (let n = length (utf8_encode s) in
      if \<not> (lo \<le> n \<and> n \<le> hi) then Inl (Text_Length name)
      else if list_ex is_prohibited s then Inl (Text_Prohibited name)
      else if ascii_only \<and> \<not> is_ascii s then Inl (Text_Not_Ascii name)
      else if \<not> pattern s then Inl (Text_Format name)
      else Inr ())"

definition any_text :: "string \<Rightarrow> bool" where
  "any_text s = True"

definition is_identifier :: "string \<Rightarrow> bool" where
  "is_identifier s \<longleftrightarrow>
     match_head is_alnum (\<lambda>c. is_alnum c \<or> c = CHR ''.'' \<or> c = CHR ''_'' \<or> c = CHR '':'' \<or> c = CHR ''-'') 63 s"

definition is_hotkey :: "string \<Rightarrow> bool" where
  "is_hotkey s \<longleftrightarrow> match_class is_alnum 3 128 s"

definition is_hex :: "string \<Rightarrow> bool" where
  "is_hex s \<longleftrightarrow> s \<noteq> [] \<and> list_all is_lower_hex s"

definition is_software_name :: "string \<Rightarrow> bool" where
  "is_software_name s \<longleftrightarrow>
     match_head is_lower (\<lambda>c. is_lower c \<or> is_digit c \<or> c = CHR ''.'' \<or> c = CHR ''_'' \<or> c = CHR ''-'') 31 s"

definition identifier_field :: "string \<Rightarrow> string \<Rightarrow> protocol_error + unit" where
  "identifier_field name s = bounded_text name s 1 64 is_identifier True"

definition digest_field :: "string \<Rightarrow> string \<Rightarrow> protocol_error + unit" where
  "digest_field name s = bounded_text name s 71 71 is_digest True"

definition hotkey_field :: "string \<Rightarrow> string \<Rightarrow> protocol_error + unit" where
  "hotkey_field name s = bounded_text name s 3 128 is_hotkey True"

definition nonce_field :: "string \<Rightarrow> protocol_error + unit" where
  "nonce_field s = bounded_text ''nonce'' s 64 64 is_hex True"

definition signature_field :: "string \<Rightarrow> protocol_error + unit" where
  "signature_field s = bounded_text ''signature'' s 128 128 is_hex True"

definition version_field :: "int \<Rightarrow> protocol_error + unit" where
  "version_field v = require (v = 1) Unsupported_Version"

lemma bounded_int_Inr [simp]: "bounded_int name i lo hi = Inr u \<longleftrightarrow> in_range lo hi i"
  by (simp add: bounded_int_def)

text \<open>Printable ASCII: what every text field of a message consists of.\<close>

definition is_plain_char :: "char \<Rightarrow> bool" where
  "is_plain_char c \<longleftrightarrow> CHR '' '' \<le> c \<and> c \<le> CHR ''~''"

definition is_plain :: "string \<Rightarrow> bool" where
  "is_plain s \<longleftrightarrow> list_all is_plain_char s"

lemma is_plain_char_iff: "is_plain_char c \<longleftrightarrow> 32 \<le> (of_char c :: nat) \<and> (of_char c :: nat) \<le> 126"
  by (simp add: is_plain_char_def less_eq_char_def)

lemma is_plain_char_classes:
  "is_alnum c \<Longrightarrow> is_plain_char c" "is_digit c \<Longrightarrow> is_plain_char c" "is_lower c \<Longrightarrow> is_plain_char c"
  "is_upper c \<Longrightarrow> is_plain_char c" "is_lower_hex c \<Longrightarrow> is_plain_char c"
  by (auto simp: char_class_defs is_plain_char_def less_eq_char_def)

lemma is_plain_char_samples [simp]:
  "is_plain_char CHR ''.''" "is_plain_char CHR ''_''" "is_plain_char CHR '':''" "is_plain_char CHR ''-''"
  by (simp_all add: is_plain_char_def less_eq_char_def)

lemma is_plain_iff: "is_plain s \<longleftrightarrow> is_ascii s \<and> \<not> list_ex is_prohibited s"
proof -
  have "is_plain_char c \<longleftrightarrow> (of_char c :: nat) < 128 \<and> \<not> is_prohibited c" for c
    unfolding is_plain_char_iff is_prohibited_def Let_def by presburger
  then show ?thesis by (auto simp: is_plain_def is_ascii_def list_all_iff list_ex_iff)
qed

lemma is_plain_ascii: "is_plain s \<Longrightarrow> is_ascii s"
  by (simp add: is_plain_iff)

lemma bounded_text_ascii [simp]:
  "bounded_text name s lo hi pattern True = Inr u \<longleftrightarrow>
     is_plain s \<and> lo \<le> length s \<and> length s \<le> hi \<and> pattern s"
  by (auto simp: bounded_text_def Let_def is_plain_iff)

lemma match_class_plain: "match_class P m n s \<Longrightarrow> (\<And>c. P c \<Longrightarrow> is_plain_char c) \<Longrightarrow> is_plain s"
  by (auto simp: match_class_def is_plain_def list_all_iff)

lemma match_head_plain:
  "match_head P Q n s \<Longrightarrow> (\<And>c. P c \<Longrightarrow> is_plain_char c) \<Longrightarrow> (\<And>c. Q c \<Longrightarrow> is_plain_char c) \<Longrightarrow>
     is_plain s \<and> 1 \<le> length s \<and> length s \<le> Suc n"
  by (cases s) (auto simp: is_plain_def list_all_iff)

lemma is_identifier_plain: "is_identifier s \<Longrightarrow> is_plain s \<and> 1 \<le> length s \<and> length s \<le> 64"
  using match_head_plain [of is_alnum _ 63 s]
  by (force simp: is_identifier_def is_plain_char_classes)

lemma is_software_name_plain: "is_software_name s \<Longrightarrow> is_plain s \<and> 1 \<le> length s \<and> length s \<le> 32"
  using match_head_plain [of is_lower _ 31 s]
  by (force simp: is_software_name_def is_plain_char_classes)

lemma is_code_plain: "is_code s \<Longrightarrow> is_plain s \<and> 1 \<le> length s \<and> length s \<le> 64"
  using match_head_plain [of "\<lambda>c. is_lower c \<or> is_digit c" _ 63 s]
  by (force simp: is_code_def is_plain_char_classes)

lemma is_hotkey_plain: "is_hotkey s \<Longrightarrow> is_plain s \<and> 3 \<le> length s \<and> length s \<le> 128"
  by (auto simp: is_hotkey_def match_class_def is_plain_def list_all_iff is_plain_char_classes)

lemma lower_hex_plain: "list_all is_lower_hex s \<Longrightarrow> is_plain s"
  by (auto simp: is_plain_def list_all_iff is_plain_char_classes)

lemma is_digest_plain: "is_digest s \<Longrightarrow> is_plain s \<and> length s = 71"
proof -
  assume "is_digest s"
  then have s: "s = ''sha256:'' @ drop 7 s" "is_hex64 (drop 7 s)"
    by (metis append_take_drop_id is_digest_def) (use \<open>is_digest s\<close> in \<open>simp add: is_digest_def\<close>)
  have "is_plain ''sha256:''" by (simp add: is_plain_def is_plain_char_def less_eq_char_def)
  moreover have "is_plain (drop 7 s)" "length (drop 7 s) = 64"
    using s(2) by (auto simp: is_hex64_def match_class_def is_plain_def list_all_iff is_plain_char_classes)
  ultimately have "is_plain (''sha256:'' @ drop 7 s) \<and> length (''sha256:'' @ drop 7 s) = 71"
    by (simp add: is_plain_def)
  then show ?thesis using s(1) by metis
qed

lemma identifier_field_Inr [simp]: "identifier_field name s = Inr u \<longleftrightarrow> is_identifier s"
  by (auto simp: identifier_field_def dest: is_identifier_plain)

lemma digest_field_Inr [simp]: "digest_field name s = Inr u \<longleftrightarrow> is_digest s"
  by (auto simp: digest_field_def dest: is_digest_plain)

lemma hotkey_field_Inr [simp]: "hotkey_field name s = Inr u \<longleftrightarrow> is_hotkey s"
  by (auto simp: hotkey_field_def dest: is_hotkey_plain)

lemma nonce_field_Inr [simp]: "nonce_field s = Inr u \<longleftrightarrow> length s = 64 \<and> list_all is_lower_hex s"
  by (auto simp: nonce_field_def is_hex_def dest: lower_hex_plain)

lemma signature_field_Inr [simp]: "signature_field s = Inr u \<longleftrightarrow> length s = 128 \<and> list_all is_lower_hex s"
  by (auto simp: signature_field_def is_hex_def dest: lower_hex_plain)

lemma version_field_Inr [simp]: "version_field v = Inr u \<longleftrightarrow> v = 1"
  by (simp add: version_field_def)

section \<open>Enumerations\<close>

datatype evidence_tier = Tier_A | Tier_B | Tier_C

datatype network_policy = Net_Deny | Net_Allowlist

datatype capability_trust = Self_Reported

fun tier_value :: "evidence_tier \<Rightarrow> string" where
  "tier_value Tier_A = ''a''" | "tier_value Tier_B = ''b''" | "tier_value Tier_C = ''c''"

fun network_value :: "network_policy \<Rightarrow> string" where
  "network_value Net_Deny = ''deny''" | "network_value Net_Allowlist = ''allowlist''"

fun trust_value :: "capability_trust \<Rightarrow> string" where
  "trust_value Self_Reported = ''self_reported''"

text \<open>\<open>_enum_value\<close>: the member of an enumeration with the given value.\<close>

definition enum_value :: "('a \<Rightarrow> string) \<Rightarrow> 'a list \<Rightarrow> json \<Rightarrow> string \<Rightarrow> protocol_error + 'a" where
  "enum_value value_of members v name =
     bindE (get_text v name) (\<lambda>s.
       case find (\<lambda>m. value_of m = s) members of None \<Rightarrow> Inl (Invalid_Enum name) | Some m \<Rightarrow> Inr m)"

definition get_tier :: "json \<Rightarrow> string \<Rightarrow> protocol_error + evidence_tier" where
  "get_tier = enum_value tier_value [Tier_A, Tier_B, Tier_C]"

definition get_network :: "json \<Rightarrow> string \<Rightarrow> protocol_error + network_policy" where
  "get_network = enum_value network_value [Net_Deny, Net_Allowlist]"

definition get_trust :: "json \<Rightarrow> string \<Rightarrow> protocol_error + capability_trust" where
  "get_trust = enum_value trust_value [Self_Reported]"

lemma get_tier_value [simp]: "get_tier (JStr (tier_value t)) name = Inr t"
  by (cases t) (simp_all add: get_tier_def enum_value_def)

lemma get_network_value [simp]: "get_network (JStr (network_value t)) name = Inr t"
  by (cases t) (simp_all add: get_network_def enum_value_def)

lemma get_trust_value [simp]: "get_trust (JStr (trust_value t)) name = Inr t"
  by (cases t) (simp add: get_trust_def enum_value_def)

text \<open>Tiers are ordered by their value, the order of \<open>sorted(..., key=lambda item: item.value)\<close>.\<close>

instantiation evidence_tier :: linorder
begin

definition less_eq_evidence_tier :: "evidence_tier \<Rightarrow> evidence_tier \<Rightarrow> bool" where
  "less_eq_evidence_tier s t \<longleftrightarrow> tier_value s \<le> tier_value t"

definition less_evidence_tier :: "evidence_tier \<Rightarrow> evidence_tier \<Rightarrow> bool" where
  "less_evidence_tier s t \<longleftrightarrow> tier_value s < tier_value t"

instance
proof
  fix s t u :: evidence_tier
  show "s < t \<longleftrightarrow> s \<le> t \<and> \<not> t \<le> s" "s \<le> s" "s \<le> t \<or> t \<le> s"
    by (auto simp: less_eq_evidence_tier_def less_evidence_tier_def)
  show "s \<le> t \<Longrightarrow> t \<le> u \<Longrightarrow> s \<le> u" by (auto simp: less_eq_evidence_tier_def)
  show "s \<le> t \<Longrightarrow> t \<le> s \<Longrightarrow> s = t"
    by (cases s; cases t) (auto simp: less_eq_evidence_tier_def)
qed

end

section \<open>Canonical JSON\<close>

fun canonical_value :: "json \<Rightarrow> protocol_error + unit"
  and canonical_values :: "json list \<Rightarrow> protocol_error + unit"
  and canonical_members :: "(string \<times> json) list \<Rightarrow> protocol_error + unit" where
  "canonical_value JNull = Inr ()"
| "canonical_value (JBool b) = Inr ()"
| "canonical_value (JInt i) = require (in_range (- 9223372036854775808) max_int64 i) Canonical_Integer"
| "canonical_value (JStr s) = bounded_text ''canonical text'' s 0 65536 any_text False"
| "canonical_value (JArr vs) = canonical_values vs"
| "canonical_value (JObj kvs) = canonical_members kvs"
| "canonical_value (JFloat s) = Inl Not_Canonical_Profile"
| "canonical_value (JConst s) = Inl Not_Canonical_Profile"
| "canonical_values [] = Inr ()"
| "canonical_values (v # vs) = bindE (canonical_value v) (\<lambda>_. canonical_values vs)"
| "canonical_members [] = Inr ()"
| "canonical_members ((k, v) # kvs) =
     bindE (bounded_text ''canonical object key'' k 1 128 any_text False) (\<lambda>_.
       bindE (canonical_value v) (\<lambda>_. canonical_members kvs))"

definition canonical_json :: "json \<Rightarrow> protocol_error + bytes" where
  "canonical_json v = bindE (canonical_value v) (\<lambda>_. Inr (json_dumps False v))"

lemma canonical_values_Inr [simp]:
  "canonical_values vs = Inr u \<longleftrightarrow> (\<forall>v \<in> set vs. canonical_value v = Inr ())"
  by (induction vs) auto

lemma bounded_text_plain:
  "is_plain s \<Longrightarrow> lo \<le> length s \<Longrightarrow> length s \<le> hi \<Longrightarrow> bounded_text name s lo hi any_text a = Inr ()"
  by (auto simp: bounded_text_def any_text_def is_plain_iff Let_def)

lemma canonical_text [simp]: "is_plain s \<Longrightarrow> length s \<le> 65536 \<Longrightarrow> canonical_value (JStr s) = Inr ()"
  by (simp add: bounded_text_plain)

lemma canonical_members_Inr [simp]:
  "canonical_members ((k, v) # kvs) = Inr u \<longleftrightarrow>
     bounded_text ''canonical object key'' k 1 128 any_text False = Inr ()
   \<and> canonical_value v = Inr () \<and> canonical_members kvs = Inr ()"
  by auto

end
