(* ===== verification/Protocol.thy ===== *)
theory Protocol
  imports Checks
begin

text \<open>
  \<open>src/gpuforge/protocol.py\<close>: the five signed messages and their wire format.  For every
  record, \<open>.._new\<close> is \<open>__post_init__\<close> (its checks, and the sorting of its collections),
  \<open>.._payload\<close> or \<open>.._to_primitive\<close> the encoding and \<open>.._from_payload\<close> or
  \<open>.._from_primitive\<close> the strict decoding.  The members of an object are listed by key, the
  order in which they are written.
\<close>

section \<open>The parts of messages\<close>

record resource_policy =
  rp_gpu_count :: int
  rp_gpu_memory_mb :: int
  rp_cpu_cores :: int
  rp_memory_mb :: int
  rp_max_runtime_seconds :: int
  rp_network_policy :: network_policy

definition resource_policy_new :: "resource_policy \<Rightarrow> protocol_error + resource_policy" where
  "resource_policy_new p = passes
     [bounded_int ''resource_policy.gpu_count'' (rp_gpu_count p) 1 8,
      bounded_int ''resource_policy.gpu_memory_mb'' (rp_gpu_memory_mb p) 1024 1048576,
      bounded_int ''resource_policy.cpu_cores'' (rp_cpu_cores p) 1 256,
      bounded_int ''resource_policy.memory_mb'' (rp_memory_mb p) 1024 2097152,
      bounded_int ''resource_policy.max_runtime_seconds'' (rp_max_runtime_seconds p) 60 86400] p"

definition resource_policy_to_primitive :: "resource_policy \<Rightarrow> json" where
  "resource_policy_to_primitive p = JObj
     [(''cpu_cores'', JInt (rp_cpu_cores p)),
      (''gpu_count'', JInt (rp_gpu_count p)),
      (''gpu_memory_mb'', JInt (rp_gpu_memory_mb p)),
      (''max_runtime_seconds'', JInt (rp_max_runtime_seconds p)),
      (''memory_mb'', JInt (rp_memory_mb p)),
      (''network_policy'', JStr (network_value (rp_network_policy p)))]"

definition resource_policy_from_primitive :: "json \<Rightarrow> protocol_error + resource_policy" where
  "resource_policy_from_primitive v =
     bindE (get_mapping v ''resource_policy'') (\<lambda>d.
     bindE (exact_fields d [''cpu_cores'', ''gpu_count'', ''gpu_memory_mb'', ''max_runtime_seconds'',
              ''memory_mb'', ''network_policy''] ''resource_policy'') (\<lambda>_.
     bindE (get_integer (field d ''gpu_count'') ''resource_policy.gpu_count'') (\<lambda>gc.
     bindE (get_integer (field d ''gpu_memory_mb'') ''resource_policy.gpu_memory_mb'') (\<lambda>gm.
     bindE (get_integer (field d ''cpu_cores'') ''resource_policy.cpu_cores'') (\<lambda>cc.
     bindE (get_integer (field d ''memory_mb'') ''resource_policy.memory_mb'') (\<lambda>mm.
     bindE (get_integer (field d ''max_runtime_seconds'') ''resource_policy.max_runtime_seconds'') (\<lambda>rs.
     bindE (get_network (field d ''network_policy'') ''resource_policy.network_policy'') (\<lambda>np.
     resource_policy_new \<lparr>rp_gpu_count = gc, rp_gpu_memory_mb = gm, rp_cpu_cores = cc, rp_memory_mb = mm,
       rp_max_runtime_seconds = rs, rp_network_policy = np\<rparr>))))))))"

record verification_policy =
  vp_minimum_evidence_tier :: evidence_tier
  vp_challenge_kind :: string
  vp_checkpoint_interval_steps :: int

definition verification_policy_new :: "verification_policy \<Rightarrow> protocol_error + verification_policy" where
  "verification_policy_new p = passes
     [identifier_field ''verification_policy.challenge_kind'' (vp_challenge_kind p),
      bounded_int ''verification_policy.checkpoint_interval_steps'' (vp_checkpoint_interval_steps p) 1 1000000000]
     p"

definition verification_policy_to_primitive :: "verification_policy \<Rightarrow> json" where
  "verification_policy_to_primitive p = JObj
     [(''challenge_kind'', JStr (vp_challenge_kind p)),
      (''checkpoint_interval_steps'', JInt (vp_checkpoint_interval_steps p)),
      (''minimum_evidence_tier'', JStr (tier_value (vp_minimum_evidence_tier p)))]"

definition verification_policy_from_primitive :: "json \<Rightarrow> protocol_error + verification_policy" where
  "verification_policy_from_primitive v =
     bindE (get_mapping v ''verification_policy'') (\<lambda>d.
     bindE (exact_fields d [''challenge_kind'', ''checkpoint_interval_steps'', ''minimum_evidence_tier'']
              ''verification_policy'') (\<lambda>_.
     bindE (get_tier (field d ''minimum_evidence_tier'') ''verification_policy.minimum_evidence_tier'') (\<lambda>t.
     bindE (get_text (field d ''challenge_kind'') ''verification_policy.challenge_kind'') (\<lambda>k.
     bindE (get_integer (field d ''checkpoint_interval_steps'')
              ''verification_policy.checkpoint_interval_steps'') (\<lambda>i.
     verification_policy_new \<lparr>vp_minimum_evidence_tier = t, vp_challenge_kind = k,
       vp_checkpoint_interval_steps = i\<rparr>)))))"

record software_version =
  sv_name :: string
  sv_version :: string

definition software_version_new :: "software_version \<Rightarrow> protocol_error + software_version" where
  "software_version_new s = passes
     [bounded_text ''software.name'' (sv_name s) 1 32 is_software_name False,
      bounded_text ''software.version'' (sv_version s) 1 64 any_text True] s"

definition software_version_to_primitive :: "software_version \<Rightarrow> json" where
  "software_version_to_primitive s = JObj [(''name'', JStr (sv_name s)), (''version'', JStr (sv_version s))]"

definition software_version_from_primitive :: "json \<Rightarrow> protocol_error + software_version" where
  "software_version_from_primitive v =
     bindE (get_mapping v ''runtime_version'') (\<lambda>d.
     bindE (exact_fields d [''name'', ''version''] ''runtime_version'') (\<lambda>_.
     bindE (get_text (field d ''name'') ''runtime_version.name'') (\<lambda>n.
     bindE (get_text (field d ''version'') ''runtime_version.version'') (\<lambda>w.
     software_version_new \<lparr>sv_name = n, sv_version = w\<rparr>))))"

record checkpoint =
  ck_step :: int
  ck_digest :: string

definition checkpoint_new :: "checkpoint \<Rightarrow> protocol_error + checkpoint" where
  "checkpoint_new c = passes
     [bounded_int ''checkpoint.step'' (ck_step c) 1 max_int64,
      digest_field ''checkpoint.digest'' (ck_digest c)] c"

definition checkpoint_to_primitive :: "checkpoint \<Rightarrow> json" where
  "checkpoint_to_primitive c = JObj [(''digest'', JStr (ck_digest c)), (''step'', JInt (ck_step c))]"

definition checkpoint_from_primitive :: "json \<Rightarrow> protocol_error + checkpoint" where
  "checkpoint_from_primitive v =
     bindE (get_mapping v ''checkpoint'') (\<lambda>d.
     bindE (exact_fields d [''digest'', ''step''] ''checkpoint'') (\<lambda>_.
     bindE (get_integer (field d ''step'') ''checkpoint.step'') (\<lambda>s.
     bindE (get_text (field d ''digest'') ''checkpoint.digest'') (\<lambda>g.
     checkpoint_new \<lparr>ck_step = s, ck_digest = g\<rparr>))))"

section \<open>Job manifests\<close>

record job_manifest =
  jm_job_id :: string
  jm_container_digest :: string
  jm_entrypoint_digest :: string
  jm_input_root :: string
  jm_framework :: string
  jm_resource_policy :: resource_policy
  jm_verification_policy :: verification_policy
  jm_lease_seconds :: int
  jm_publisher_hotkey :: string
  jm_expires_at_block :: int
  jm_signature :: string
  jm_protocol_version :: int

definition job_manifest_new :: "job_manifest \<Rightarrow> protocol_error + job_manifest" where
  "job_manifest_new m = passes
     [version_field (jm_protocol_version m),
      identifier_field ''job_id'' (jm_job_id m),
      digest_field ''container_digest'' (jm_container_digest m),
      digest_field ''entrypoint_digest'' (jm_entrypoint_digest m),
      digest_field ''input_root'' (jm_input_root m),
      bounded_text ''framework'' (jm_framework m) 1 32 is_software_name False,
      bounded_int ''lease_seconds'' (jm_lease_seconds m) 60 86400,
      hotkey_field ''publisher_hotkey'' (jm_publisher_hotkey m),
      bounded_int ''expires_at_block'' (jm_expires_at_block m) 1 max_int64,
      signature_field (jm_signature m)] m"

definition job_manifest_payload :: "job_manifest \<Rightarrow> (string \<times> json) list" where
  "job_manifest_payload m =
     [(''container_digest'', JStr (jm_container_digest m)),
      (''entrypoint_digest'', JStr (jm_entrypoint_digest m)),
      (''expires_at_block'', JInt (jm_expires_at_block m)),
      (''framework'', JStr (jm_framework m)),
      (''input_root'', JStr (jm_input_root m)),
      (''job_id'', JStr (jm_job_id m)),
      (''lease_seconds'', JInt (jm_lease_seconds m)),
      (''publisher_hotkey'', JStr (jm_publisher_hotkey m)),
      (''resource_policy'', resource_policy_to_primitive (jm_resource_policy m)),
      (''signature'', JStr (jm_signature m)),
      (''verification_policy'', verification_policy_to_primitive (jm_verification_policy m))]"

definition job_manifest_from_payload :: "(string \<times> json) list \<Rightarrow> int \<Rightarrow> protocol_error + job_manifest" where
  "job_manifest_from_payload d version =
     bindE (exact_fields d [''container_digest'', ''entrypoint_digest'', ''expires_at_block'', ''framework'',
              ''input_root'', ''job_id'', ''lease_seconds'', ''publisher_hotkey'', ''resource_policy'',
              ''signature'', ''verification_policy''] ''job_manifest'') (\<lambda>_.
     bindE (get_text (field d ''job_id'') ''job_id'') (\<lambda>ji.
     bindE (get_text (field d ''container_digest'') ''container_digest'') (\<lambda>cd.
     bindE (get_text (field d ''entrypoint_digest'') ''entrypoint_digest'') (\<lambda>ed.
     bindE (get_text (field d ''input_root'') ''input_root'') (\<lambda>ir.
     bindE (get_text (field d ''framework'') ''framework'') (\<lambda>fw.
     bindE (resource_policy_from_primitive (field d ''resource_policy'')) (\<lambda>rp.
     bindE (verification_policy_from_primitive (field d ''verification_policy'')) (\<lambda>vp.
     bindE (get_integer (field d ''lease_seconds'') ''lease_seconds'') (\<lambda>ls.
     bindE (get_text (field d ''publisher_hotkey'') ''publisher_hotkey'') (\<lambda>ph.
     bindE (get_integer (field d ''expires_at_block'') ''expires_at_block'') (\<lambda>eb.
     bindE (get_text (field d ''signature'') ''signature'') (\<lambda>sg.
     job_manifest_new \<lparr>jm_job_id = ji, jm_container_digest = cd, jm_entrypoint_digest = ed,
       jm_input_root = ir, jm_framework = fw, jm_resource_policy = rp, jm_verification_policy = vp,
       jm_lease_seconds = ls, jm_publisher_hotkey = ph, jm_expires_at_block = eb, jm_signature = sg,
       jm_protocol_version = version\<rparr>))))))))))))"

section \<open>Capability claims\<close>

record capability_claim =
  cc_miner_hotkey :: string
  cc_gpu_count :: int
  cc_gpu_model :: string
  cc_gpu_memory_mb :: int
  cc_gpu_interconnect :: string
  cc_discovery_trust :: capability_trust
  cc_runtime_versions :: "software_version list"
  cc_supported_evidence_tiers :: "evidence_tier list"
  cc_available_gpu_seconds :: int
  cc_nonce :: string
  cc_observed_at_block :: int
  cc_signature :: string
  cc_protocol_version :: int

definition capability_claim_new :: "capability_claim \<Rightarrow> protocol_error + capability_claim" where
  "capability_claim_new c = passes
     [version_field (cc_protocol_version c),
      hotkey_field ''miner_hotkey'' (cc_miner_hotkey c),
      bounded_int ''gpu_count'' (cc_gpu_count c) 1 8,
      bounded_text ''gpu_model'' (cc_gpu_model c) 1 64 any_text True,
      bounded_int ''gpu_memory_mb'' (cc_gpu_memory_mb c) 1024 1048576,
      bounded_text ''gpu_interconnect'' (cc_gpu_interconnect c) 1 32 is_code False,
      require (1 \<le> length (cc_runtime_versions c) \<and> length (cc_runtime_versions c) \<le> 32)
        (Invalid_Value ''runtime version list''),
      require (distinct (map sv_name (cc_runtime_versions c))) (Not_Unique ''runtime component names''),
      require (1 \<le> length (cc_supported_evidence_tiers c) \<and> length (cc_supported_evidence_tiers c) \<le> 3)
        (Invalid_Value ''supported evidence tier list''),
      require (distinct (cc_supported_evidence_tiers c)) (Not_Unique ''supported evidence tiers''),
      bounded_int ''available_gpu_seconds'' (cc_available_gpu_seconds c) 0 max_int64,
      nonce_field (cc_nonce c),
      bounded_int ''observed_at_block'' (cc_observed_at_block c) 1 max_int64,
      signature_field (cc_signature c)]
     (c\<lparr>cc_runtime_versions := sort_key sv_name (cc_runtime_versions c),
        cc_supported_evidence_tiers := sort (cc_supported_evidence_tiers c)\<rparr>)"

definition capability_claim_payload :: "capability_claim \<Rightarrow> (string \<times> json) list" where
  "capability_claim_payload c =
     [(''available_gpu_seconds'', JInt (cc_available_gpu_seconds c)),
      (''discovery_trust'', JStr (trust_value (cc_discovery_trust c))),
      (''gpu_count'', JInt (cc_gpu_count c)),
      (''gpu_interconnect'', JStr (cc_gpu_interconnect c)),
      (''gpu_memory_mb'', JInt (cc_gpu_memory_mb c)),
      (''gpu_model'', JStr (cc_gpu_model c)),
      (''miner_hotkey'', JStr (cc_miner_hotkey c)),
      (''nonce'', JStr (cc_nonce c)),
      (''observed_at_block'', JInt (cc_observed_at_block c)),
      (''runtime_versions'', JArr (map software_version_to_primitive (cc_runtime_versions c))),
      (''signature'', JStr (cc_signature c)),
      (''supported_evidence_tiers'', JArr (map (JStr \<circ> tier_value) (cc_supported_evidence_tiers c)))]"

definition capability_claim_from_payload :: "(string \<times> json) list \<Rightarrow> int \<Rightarrow> protocol_error + capability_claim" where
  "capability_claim_from_payload d version =
     bindE (exact_fields d [''available_gpu_seconds'', ''discovery_trust'', ''gpu_count'', ''gpu_interconnect'',
              ''gpu_memory_mb'', ''gpu_model'', ''miner_hotkey'', ''nonce'', ''observed_at_block'',
              ''runtime_versions'', ''signature'', ''supported_evidence_tiers''] ''capability_claim'') (\<lambda>_.
     bindE (get_list (field d ''runtime_versions'') ''runtime_versions'' 1 32) (\<lambda>rvs.
     bindE (get_list (field d ''supported_evidence_tiers'') ''supported_evidence_tiers'' 1 3) (\<lambda>tvs.
     bindE (get_text (field d ''miner_hotkey'') ''miner_hotkey'') (\<lambda>mh.
     bindE (get_integer (field d ''gpu_count'') ''gpu_count'') (\<lambda>gc.
     bindE (get_text (field d ''gpu_model'') ''gpu_model'') (\<lambda>gm.
     bindE (get_integer (field d ''gpu_memory_mb'') ''gpu_memory_mb'') (\<lambda>mm.
     bindE (get_text (field d ''gpu_interconnect'') ''gpu_interconnect'') (\<lambda>gi.
     bindE (get_trust (field d ''discovery_trust'') ''discovery_trust'') (\<lambda>dt.
     bindE (mapE software_version_from_primitive rvs) (\<lambda>rs.
     bindE (mapE (\<lambda>v. get_tier v ''supported_evidence_tiers'') tvs) (\<lambda>ts.
     bindE (get_integer (field d ''available_gpu_seconds'') ''available_gpu_seconds'') (\<lambda>ag.
     bindE (get_text (field d ''nonce'') ''nonce'') (\<lambda>nc.
     bindE (get_integer (field d ''observed_at_block'') ''observed_at_block'') (\<lambda>ob.
     bindE (get_text (field d ''signature'') ''signature'') (\<lambda>sg.
     capability_claim_new \<lparr>cc_miner_hotkey = mh, cc_gpu_count = gc, cc_gpu_model = gm, cc_gpu_memory_mb = mm,
       cc_gpu_interconnect = gi, cc_discovery_trust = dt, cc_runtime_versions = rs,
       cc_supported_evidence_tiers = ts, cc_available_gpu_seconds = ag, cc_nonce = nc,
       cc_observed_at_block = ob, cc_signature = sg, cc_protocol_version = version\<rparr>)))))))))))))))"

section \<open>Work leases\<close>

record work_lease =
  wl_manifest_digest :: string
  wl_miner_hotkey :: string
  wl_validator_hotkey :: string
  wl_shard_id :: string
  wl_challenge_commitment :: string
  wl_start_block :: int
  wl_deadline_block :: int
  wl_nonce :: string
  wl_signature :: string
  wl_protocol_version :: int

definition work_lease_new :: "work_lease \<Rightarrow> protocol_error + work_lease" where
  "work_lease_new w = passes
     [version_field (wl_protocol_version w),
      digest_field ''manifest_digest'' (wl_manifest_digest w),
      hotkey_field ''miner_hotkey'' (wl_miner_hotkey w),
      hotkey_field ''validator_hotkey'' (wl_validator_hotkey w),
      identifier_field ''shard_id'' (wl_shard_id w),
      digest_field ''challenge_commitment'' (wl_challenge_commitment w),
      bounded_int ''start_block'' (wl_start_block w) 1 max_int64,
      bounded_int ''deadline_block'' (wl_deadline_block w) 1 max_int64,
      require (wl_start_block w < wl_deadline_block w) Deadline_Not_After_Start,
      nonce_field (wl_nonce w),
      signature_field (wl_signature w)] w"

definition work_lease_payload :: "work_lease \<Rightarrow> (string \<times> json) list" where
  "work_lease_payload w =
     [(''challenge_commitment'', JStr (wl_challenge_commitment w)),
      (''deadline_block'', JInt (wl_deadline_block w)),
      (''manifest_digest'', JStr (wl_manifest_digest w)),
      (''miner_hotkey'', JStr (wl_miner_hotkey w)),
      (''nonce'', JStr (wl_nonce w)),
      (''shard_id'', JStr (wl_shard_id w)),
      (''signature'', JStr (wl_signature w)),
      (''start_block'', JInt (wl_start_block w)),
      (''validator_hotkey'', JStr (wl_validator_hotkey w))]"

definition work_lease_from_payload :: "(string \<times> json) list \<Rightarrow> int \<Rightarrow> protocol_error + work_lease" where
  "work_lease_from_payload d version =
     bindE (exact_fields d [''challenge_commitment'', ''deadline_block'', ''manifest_digest'', ''miner_hotkey'',
              ''nonce'', ''shard_id'', ''signature'', ''start_block'', ''validator_hotkey''] ''work_lease'') (\<lambda>_.
     bindE (get_text (field d ''manifest_digest'') ''manifest_digest'') (\<lambda>md.
     bindE (get_text (field d ''miner_hotkey'') ''miner_hotkey'') (\<lambda>mh.
     bindE (get_text (field d ''validator_hotkey'') ''validator_hotkey'') (\<lambda>vh.
     bindE (get_text (field d ''shard_id'') ''shard_id'') (\<lambda>sh.
     bindE (get_text (field d ''challenge_commitment'') ''challenge_commitment'') (\<lambda>cc.
     bindE (get_integer (field d ''start_block'') ''start_block'') (\<lambda>sb.
     bindE (get_integer (field d ''deadline_block'') ''deadline_block'') (\<lambda>db.
     bindE (get_text (field d ''nonce'') ''nonce'') (\<lambda>nc.
     bindE (get_text (field d ''signature'') ''signature'') (\<lambda>sg.
     work_lease_new \<lparr>wl_manifest_digest = md, wl_miner_hotkey = mh, wl_validator_hotkey = vh,
       wl_shard_id = sh, wl_challenge_commitment = cc, wl_start_block = sb, wl_deadline_block = db,
       wl_nonce = nc, wl_signature = sg, wl_protocol_version = version\<rparr>))))))))))"

section \<open>Execution evidence\<close>

record execution_evidence =
  ee_lease_digest :: string
  ee_miner_hotkey :: string
  ee_attestation_digest :: "string option"
  ee_image_digest :: string
  ee_challenge_response_digest :: string
  ee_checkpoints :: "checkpoint list"
  ee_result_digest :: string
  ee_work_units :: int
  ee_active_seconds_ms :: int
  ee_submitted_at_block :: int
  ee_sequence :: int
  ee_signature :: string
  ee_protocol_version :: int
  ee_bundle_root :: "string option"

definition optional_digest :: "string \<Rightarrow> string option \<Rightarrow> protocol_error + unit" where
  "optional_digest name s = (case s of None \<Rightarrow> Inr () | Some x \<Rightarrow> digest_field name x)"

definition execution_evidence_new :: "execution_evidence \<Rightarrow> protocol_error + execution_evidence" where
  "execution_evidence_new e = passes
     [version_field (ee_protocol_version e),
      digest_field ''lease_digest'' (ee_lease_digest e),
      hotkey_field ''miner_hotkey'' (ee_miner_hotkey e),
      optional_digest ''attestation_digest'' (ee_attestation_digest e),
      digest_field ''image_digest'' (ee_image_digest e),
      digest_field ''challenge_response_digest'' (ee_challenge_response_digest e),
      require (1 \<le> length (ee_checkpoints e) \<and> length (ee_checkpoints e) \<le> 4096)
        (Invalid_Value ''checkpoint list''),
      require (distinct (map ck_step (ee_checkpoints e))) (Not_Unique ''checkpoint steps''),
      digest_field ''result_digest'' (ee_result_digest e),
      bounded_int ''work_units'' (ee_work_units e) 1 max_int64,
      bounded_int ''active_seconds_ms'' (ee_active_seconds_ms e) 1 86400000,
      bounded_int ''submitted_at_block'' (ee_submitted_at_block e) 1 max_int64,
      bounded_int ''sequence'' (ee_sequence e) 0 max_int64,
      signature_field (ee_signature e),
      optional_digest ''bundle_root'' (ee_bundle_root e)]
     (e\<lparr>ee_checkpoints := sort_key ck_step (ee_checkpoints e)\<rparr>)"

definition optional_text :: "string option \<Rightarrow> json" where
  "optional_text s = (case s of None \<Rightarrow> JNull | Some x \<Rightarrow> JStr x)"

definition execution_evidence_payload :: "execution_evidence \<Rightarrow> (string \<times> json) list" where
  "execution_evidence_payload e =
     [(''active_seconds_ms'', JInt (ee_active_seconds_ms e)),
      (''attestation_digest'', optional_text (ee_attestation_digest e))]
     @ (case ee_bundle_root e of None \<Rightarrow> [] | Some r \<Rightarrow> [(''bundle_root'', JStr r)])
     @ [(''challenge_response_digest'', JStr (ee_challenge_response_digest e)),
      (''checkpoints'', JArr (map checkpoint_to_primitive (ee_checkpoints e))),
      (''image_digest'', JStr (ee_image_digest e)),
      (''lease_digest'', JStr (ee_lease_digest e)),
      (''miner_hotkey'', JStr (ee_miner_hotkey e)),
      (''result_digest'', JStr (ee_result_digest e)),
      (''sequence'', JInt (ee_sequence e)),
      (''signature'', JStr (ee_signature e)),
      (''submitted_at_block'', JInt (ee_submitted_at_block e)),
      (''work_units'', JInt (ee_work_units e))]"

definition execution_evidence_from_payload :: "(string \<times> json) list \<Rightarrow> int \<Rightarrow> protocol_error + execution_evidence" where
  "execution_evidence_from_payload d0 version =
     (let d = (if ''bundle_root'' \<in> set (map fst d0) then d0 else d0 @ [(''bundle_root'', JNull)]) in
     bindE (exact_fields d [''active_seconds_ms'', ''attestation_digest'', ''bundle_root'', ''challenge_response_digest'',
              ''checkpoints'', ''image_digest'', ''lease_digest'', ''miner_hotkey'', ''result_digest'',
              ''sequence'', ''signature'', ''submitted_at_block'', ''work_units'']
              ''execution_evidence'') (\<lambda>_.
     bindE (get_list (field d ''checkpoints'') ''checkpoints'' 1 4096) (\<lambda>cvs.
     bindE (case field d ''attestation_digest'' of
              JNull \<Rightarrow> Inr None | JStr a \<Rightarrow> Inr (Some a) | _ \<Rightarrow> Inl Attestation_Type) (\<lambda>ad.
     bindE (get_text (field d ''lease_digest'') ''lease_digest'') (\<lambda>ld.
     bindE (get_text (field d ''miner_hotkey'') ''miner_hotkey'') (\<lambda>mh.
     bindE (get_text (field d ''image_digest'') ''image_digest'') (\<lambda>im.
     bindE (get_text (field d ''challenge_response_digest'') ''challenge_response_digest'') (\<lambda>cr.
     bindE (mapE checkpoint_from_primitive cvs) (\<lambda>cs.
     bindE (get_text (field d ''result_digest'') ''result_digest'') (\<lambda>rd.
     bindE (get_integer (field d ''work_units'') ''work_units'') (\<lambda>wu.
     bindE (get_integer (field d ''active_seconds_ms'') ''active_seconds_ms'') (\<lambda>as.
     bindE (get_integer (field d ''submitted_at_block'') ''submitted_at_block'') (\<lambda>sb.
     bindE (get_integer (field d ''sequence'') ''sequence'') (\<lambda>sq.
     bindE (get_text (field d ''signature'') ''signature'') (\<lambda>sg.
     bindE (case field d ''bundle_root'' of
              JNull \<Rightarrow> Inr None | v \<Rightarrow> bindE (get_text v ''bundle_root'') (\<lambda>r. Inr (Some r))) (\<lambda>br.
     execution_evidence_new \<lparr>ee_lease_digest = ld, ee_miner_hotkey = mh, ee_attestation_digest = ad,
       ee_image_digest = im, ee_challenge_response_digest = cr, ee_checkpoints = cs, ee_result_digest = rd,
       ee_work_units = wu, ee_active_seconds_ms = as, ee_submitted_at_block = sb, ee_sequence = sq,
       ee_signature = sg, ee_protocol_version = version, ee_bundle_root = br\<rparr>))))))))))))))))"

section \<open>Validation receipts\<close>

record validation_receipt =
  vr_evidence_digest :: string
  vr_validator_hotkey :: string
  vr_accepted :: bool
  vr_reason_codes :: "string list"
  vr_verified_work_units :: int
  vr_confidence_tier :: "evidence_tier option"
  vr_validated_at_block :: int
  vr_signature :: string
  vr_protocol_version :: int

definition receipt_consistent :: "validation_receipt \<Rightarrow> bool" where
  "receipt_consistent r \<longleftrightarrow>
     (if vr_accepted r
      then vr_reason_codes r = [] \<and> vr_verified_work_units r \<noteq> 0 \<and> vr_confidence_tier r \<noteq> None
      else vr_reason_codes r \<noteq> [] \<and> vr_verified_work_units r = 0 \<and> vr_confidence_tier r = None)"

definition validation_receipt_new :: "validation_receipt \<Rightarrow> protocol_error + validation_receipt" where
  "validation_receipt_new r = passes
     ([version_field (vr_protocol_version r),
       digest_field ''evidence_digest'' (vr_evidence_digest r),
       hotkey_field ''validator_hotkey'' (vr_validator_hotkey r),
       require (length (vr_reason_codes r) \<le> 32) (Invalid_Value ''receipt reason-code list'')]
      @ map (\<lambda>c. bounded_text ''reason_code'' c 1 64 is_code False) (vr_reason_codes r)
      @ [require (distinct (vr_reason_codes r)) (Not_Unique ''receipt reason codes''),
       bounded_int ''verified_work_units'' (vr_verified_work_units r) 0 max_int64,
       require (receipt_consistent r) Receipt_Inconsistent,
       bounded_int ''validated_at_block'' (vr_validated_at_block r) 1 max_int64,
       signature_field (vr_signature r)])
     (r\<lparr>vr_reason_codes := sort (vr_reason_codes r)\<rparr>)"

definition validation_receipt_payload :: "validation_receipt \<Rightarrow> (string \<times> json) list" where
  "validation_receipt_payload r =
     [(''accepted'', JBool (vr_accepted r)),
      (''confidence_tier'', case vr_confidence_tier r of None \<Rightarrow> JNull | Some t \<Rightarrow> JStr (tier_value t)),
      (''evidence_digest'', JStr (vr_evidence_digest r)),
      (''reason_codes'', JArr (map JStr (vr_reason_codes r))),
      (''signature'', JStr (vr_signature r)),
      (''validated_at_block'', JInt (vr_validated_at_block r)),
      (''validator_hotkey'', JStr (vr_validator_hotkey r)),
      (''verified_work_units'', JInt (vr_verified_work_units r))]"

definition validation_receipt_from_payload :: "(string \<times> json) list \<Rightarrow> int \<Rightarrow> protocol_error + validation_receipt" where
  "validation_receipt_from_payload d version =
     bindE (exact_fields d [''accepted'', ''confidence_tier'', ''evidence_digest'', ''reason_codes'',
              ''signature'', ''validated_at_block'', ''validator_hotkey'', ''verified_work_units'']
              ''validation_receipt'') (\<lambda>_.
     bindE (get_list (field d ''reason_codes'') ''reason_codes'' 0 32) (\<lambda>rvs.
     bindE (case field d ''confidence_tier'' of
              JNull \<Rightarrow> Inr None | v \<Rightarrow> bindE (get_tier v ''confidence_tier'') (\<lambda>t. Inr (Some t))) (\<lambda>ct.
     bindE (get_text (field d ''evidence_digest'') ''evidence_digest'') (\<lambda>ed.
     bindE (get_text (field d ''validator_hotkey'') ''validator_hotkey'') (\<lambda>vh.
     bindE (get_boolean (field d ''accepted'') ''accepted'') (\<lambda>ac.
     bindE (mapE (\<lambda>v. get_text v ''reason_code'') rvs) (\<lambda>rs.
     bindE (get_integer (field d ''verified_work_units'') ''verified_work_units'') (\<lambda>vu.
     bindE (get_integer (field d ''validated_at_block'') ''validated_at_block'') (\<lambda>vb.
     bindE (get_text (field d ''signature'') ''signature'') (\<lambda>sg.
     validation_receipt_new \<lparr>vr_evidence_digest = ed, vr_validator_hotkey = vh, vr_accepted = ac,
       vr_reason_codes = rs, vr_verified_work_units = vu, vr_confidence_tier = ct,
       vr_validated_at_block = vb, vr_signature = sg, vr_protocol_version = version\<rparr>))))))))))"

section \<open>Messages on the wire\<close>

datatype message =
    Job_Manifest job_manifest
  | Capability_Claim capability_claim
  | Work_Lease work_lease
  | Execution_Evidence execution_evidence
  | Validation_Receipt validation_receipt

fun message_new :: "message \<Rightarrow> protocol_error + message" where
  "message_new (Job_Manifest m) = bindE (job_manifest_new m) (Inr \<circ> Job_Manifest)"
| "message_new (Capability_Claim m) = bindE (capability_claim_new m) (Inr \<circ> Capability_Claim)"
| "message_new (Work_Lease m) = bindE (work_lease_new m) (Inr \<circ> Work_Lease)"
| "message_new (Execution_Evidence m) = bindE (execution_evidence_new m) (Inr \<circ> Execution_Evidence)"
| "message_new (Validation_Receipt m) = bindE (validation_receipt_new m) (Inr \<circ> Validation_Receipt)"

fun message_type :: "message \<Rightarrow> string" where
  "message_type (Job_Manifest m) = ''job_manifest''"
| "message_type (Capability_Claim m) = ''capability_claim''"
| "message_type (Work_Lease m) = ''work_lease''"
| "message_type (Execution_Evidence m) = ''execution_evidence''"
| "message_type (Validation_Receipt m) = ''validation_receipt''"

fun message_payload :: "message \<Rightarrow> (string \<times> json) list" where
  "message_payload (Job_Manifest m) = job_manifest_payload m"
| "message_payload (Capability_Claim m) = capability_claim_payload m"
| "message_payload (Work_Lease m) = work_lease_payload m"
| "message_payload (Execution_Evidence m) = execution_evidence_payload m"
| "message_payload (Validation_Receipt m) = validation_receipt_payload m"

fun message_version :: "message \<Rightarrow> int" where
  "message_version (Job_Manifest m) = jm_protocol_version m"
| "message_version (Capability_Claim m) = cc_protocol_version m"
| "message_version (Work_Lease m) = wl_protocol_version m"
| "message_version (Execution_Evidence m) = ee_protocol_version m"
| "message_version (Validation_Receipt m) = vr_protocol_version m"

definition wire_object :: "message \<Rightarrow> (string \<times> json) list \<Rightarrow> json" where
  "wire_object m payload = JObj
     [(''message_type'', JStr (message_type m)), (''payload'', JObj payload),
      (''protocol_version'', JInt (message_version m))]"

definition to_primitive :: "message \<Rightarrow> json" where
  "to_primitive m = wire_object m (message_payload m)"

definition max_wire_bytes :: int where
  "max_wire_bytes = 64 * 1024"

definition canonical_bytes :: "message \<Rightarrow> protocol_error + bytes" where
  "canonical_bytes m =
     bindE (canonical_json (to_primitive m)) (\<lambda>encoded.
       if int (length encoded) > max_wire_bytes then Inl Wire_Too_Large else Inr encoded)"

definition unsigned_primitive :: "message \<Rightarrow> json" where
  "unsigned_primitive m = wire_object m (filter (\<lambda>(k, v). k \<noteq> ''signature'') (message_payload m))"

definition digest_domain :: bytes where
  "digest_domain = utf8_encode ''gpuforge-protocol-digest-v1'' @ [0]"

definition content_domain :: bytes where
  "content_domain = utf8_encode ''gpuforge-protocol-content-v1'' @ [0]"

definition signature_domain :: bytes where
  "signature_domain = utf8_encode ''gpuforge-protocol-signature-v1'' @ [0]"

definition signing_bytes :: "message \<Rightarrow> protocol_error + bytes" where
  "signing_bytes m = bindE (canonical_json (unsigned_primitive m)) (\<lambda>b. Inr (signature_domain @ b))"

definition content_digest :: "message \<Rightarrow> protocol_error + string" where
  "content_digest m =
     bindE (canonical_json (unsigned_primitive m)) (\<lambda>b. Inr (sha256_id (content_domain @ b)))"

definition message_digest :: "message \<Rightarrow> protocol_error + string" where
  "message_digest m = bindE (canonical_bytes m) (\<lambda>b. Inr (sha256_id (digest_domain @ b)))"

text \<open>
  \<open>decode_message\<close>.  \<open>Decode_Schema\<close> carries the validation error it reports.  Two outcomes
  are not a \<open>ProtocolDecodeError\<close>: \<open>Decode_Escaped\<close>, the \<open>ValueError\<close> of a number literal over
  the interpreter's conversion limit, and \<open>Decode_Unencodable\<close>, an error of re-encoding.
\<close>

datatype decode_error =
    Decode_Size
  | Decode_Hook
  | Decode_Not_Json
  | Decode_Schema protocol_error
  | Decode_Unsupported_Type
  | Decode_Not_Canonical
  | Decode_Escaped
  | Decode_Unencodable protocol_error

definition strict_hooks :: json_hooks where
  "strict_hooks = \<lparr>float_hook = (\<lambda>_. Inl Json_Hook), const_hook = (\<lambda>_. Inl Json_Hook),
     pairs_hook = unique_object, nesting_limit = None\<rparr>"

definition decoder :: "string \<Rightarrow> ((string \<times> json) list \<Rightarrow> int \<Rightarrow> protocol_error + message) option" where
  "decoder name =
     (if name = ''job_manifest''
      then Some (\<lambda>d v. bindE (job_manifest_from_payload d v) (Inr \<circ> Job_Manifest))
      else if name = ''capability_claim''
      then Some (\<lambda>d v. bindE (capability_claim_from_payload d v) (Inr \<circ> Capability_Claim))
      else if name = ''work_lease''
      then Some (\<lambda>d v. bindE (work_lease_from_payload d v) (Inr \<circ> Work_Lease))
      else if name = ''execution_evidence''
      then Some (\<lambda>d v. bindE (execution_evidence_from_payload d v) (Inr \<circ> Execution_Evidence))
      else if name = ''validation_receipt''
      then Some (\<lambda>d v. bindE (validation_receipt_from_payload d v) (Inr \<circ> Validation_Receipt))
      else None)"

definition decode_header :: "json \<Rightarrow> protocol_error + string \<times> int \<times> (string \<times> json) list" where
  "decode_header decoded =
     bindE (get_mapping decoded ''message'') (\<lambda>root.
     bindE (exact_fields root [''message_type'', ''payload'', ''protocol_version''] ''message'') (\<lambda>_.
     bindE (get_text (field root ''message_type'') ''message_type'') (\<lambda>ty.
     bindE (get_integer (field root ''protocol_version'') ''protocol_version'') (\<lambda>version.
     bindE (version_field version) (\<lambda>_.
     bindE (get_mapping (field root ''payload'') ''payload'') (\<lambda>payload. Inr (ty, version, payload)))))))"

definition decode_root :: "json \<Rightarrow> decode_error + message" where
  "decode_root decoded =
     (case decode_header decoded of
        Inl e \<Rightarrow> Inl (Decode_Schema e)
      | Inr (ty, version, payload) \<Rightarrow>
          (case decoder ty of
             None \<Rightarrow> Inl Decode_Unsupported_Type
           | Some d \<Rightarrow> map_error Decode_Schema (d payload version)))"

definition decode_message :: "bytes \<Rightarrow> decode_error + message" where
  "decode_message data =
     (if data = [] \<or> int (length data) > max_wire_bytes then Inl Decode_Size
      else
        case json_loads strict_hooks data of
          Inl Json_Hook \<Rightarrow> Inl Decode_Hook
        | Inl Json_Int_Limit \<Rightarrow> Inl Decode_Escaped
        | Inl _ \<Rightarrow> Inl Decode_Not_Json
        | Inr decoded \<Rightarrow>
            bindE (decode_root decoded) (\<lambda>m.
            bindE (map_error Decode_Unencodable (canonical_bytes m)) (\<lambda>b.
              if b \<noteq> data then Inl Decode_Not_Canonical else Inr m)))"

section \<open>Constructors\<close>

lemma exact_fields_Inr [simp]: "exact_fields d required name = Inr u \<longleftrightarrow> set (map fst d) = set required"
  by (auto simp: exact_fields_def)

lemma bounded_text_pattern:
  assumes "\<And>t. pattern t \<Longrightarrow> is_plain t"
  shows "bounded_text name s lo hi pattern False = Inr u \<longleftrightarrow> lo \<le> length s \<and> length s \<le> hi \<and> pattern s"
  using assms [of s] by (auto simp: bounded_text_def Let_def is_plain_iff)

text \<open>The constructors return what they were given, its collections sorted; so they are idempotent.\<close>

definition message_valid :: "message \<Rightarrow> bool" where
  "message_valid m \<longleftrightarrow> message_new m = Inr m"

lemma sort_key_idem [simp]: "sort_key f (sort_key f xs) = sort_key f xs"
  by (simp add: sort_key_id_if_sorted)

lemma distinct_map_sort_key [simp]: "distinct (map f (sort_key g xs)) \<longleftrightarrow> distinct (map f xs)"
  by (rule mset_eq_imp_distinct_iff) simp

lemma sort_key_Nil_iff [simp]: "sort_key f xs = [] \<longleftrightarrow> xs = []"
  by (metis length_0_conv length_sort)

lemma capability_claim_new_idem: "capability_claim_new c = Inr c' \<Longrightarrow> capability_claim_new c' = Inr c'"
  unfolding capability_claim_new_def passes_Inr by simp

lemma execution_evidence_new_idem: "execution_evidence_new e = Inr e' \<Longrightarrow> execution_evidence_new e' = Inr e'"
  unfolding execution_evidence_new_def passes_Inr by simp

lemma validation_receipt_new_idem: "validation_receipt_new r = Inr r' \<Longrightarrow> validation_receipt_new r' = Inr r'"
  unfolding validation_receipt_new_def passes_Inr by (auto simp: receipt_consistent_def)

lemma message_new_valid: "message_new m = Inr m' \<Longrightarrow> message_valid m'"
  by (cases m)
    (auto simp: message_valid_def capability_claim_new_idem execution_evidence_new_idem
      validation_receipt_new_idem job_manifest_new_def work_lease_new_def)

section \<open>Decoding inverts encoding\<close>

lemma resource_policy_round_trip:
  "resource_policy_new p = Inr p \<Longrightarrow> resource_policy_from_primitive (resource_policy_to_primitive p) = Inr p"
  by (cases p) (simp add: resource_policy_from_primitive_def resource_policy_to_primitive_def field_def)

lemma verification_policy_round_trip:
  "verification_policy_new p = Inr p \<Longrightarrow>
     verification_policy_from_primitive (verification_policy_to_primitive p) = Inr p"
  by (cases p) (simp add: verification_policy_from_primitive_def verification_policy_to_primitive_def field_def)

lemma software_version_round_trip:
  "software_version_new s = Inr s \<Longrightarrow> software_version_from_primitive (software_version_to_primitive s) = Inr s"
  by (cases s) (simp add: software_version_from_primitive_def software_version_to_primitive_def field_def)

lemma checkpoint_round_trip:
  "checkpoint_new c = Inr c \<Longrightarrow> checkpoint_from_primitive (checkpoint_to_primitive c) = Inr c"
  by (cases c) (simp add: checkpoint_from_primitive_def checkpoint_to_primitive_def field_def)

text \<open>
  The parts of a message are constructed before it: \<open>parts_valid\<close> holds of every
  message the program can build.
\<close>

fun parts_valid :: "message \<Rightarrow> bool" where
  "parts_valid (Job_Manifest m) \<longleftrightarrow>
     resource_policy_new (jm_resource_policy m) = Inr (jm_resource_policy m)
   \<and> verification_policy_new (jm_verification_policy m) = Inr (jm_verification_policy m)"
| "parts_valid (Capability_Claim c) \<longleftrightarrow> (\<forall>s \<in> set (cc_runtime_versions c). software_version_new s = Inr s)"
| "parts_valid (Execution_Evidence e) \<longleftrightarrow> (\<forall>c \<in> set (ee_checkpoints e). checkpoint_new c = Inr c)"
| "parts_valid _ \<longleftrightarrow> True"

lemma job_manifest_round_trip:
  assumes "job_manifest_new m = Inr m" "parts_valid (Job_Manifest m)"
  shows "job_manifest_from_payload (job_manifest_payload m) (jm_protocol_version m) = Inr m"
  using assms
  by (cases m) (simp add: job_manifest_from_payload_def job_manifest_payload_def field_def resource_policy_round_trip
      verification_policy_round_trip)

lemma work_lease_round_trip:
  "work_lease_new w = Inr w \<Longrightarrow> work_lease_from_payload (work_lease_payload w) (wl_protocol_version w) = Inr w"
  by (cases w) (simp add: work_lease_from_payload_def work_lease_payload_def field_def)

lemma capability_claim_round_trip:
  assumes "capability_claim_new c = Inr c" "parts_valid (Capability_Claim c)"
  shows "capability_claim_from_payload (capability_claim_payload c) (cc_protocol_version c) = Inr c"
proof -
  have lens: "length (cc_runtime_versions c) \<le> 32" "1 \<le> length (cc_runtime_versions c)"
    "1 \<le> length (cc_supported_evidence_tiers c)" "length (cc_supported_evidence_tiers c) \<le> 3"
    using assms(1) by (auto simp: capability_claim_new_def)
  have "mapE software_version_from_primitive (map software_version_to_primitive (cc_runtime_versions c))
      = Inr (cc_runtime_versions c)"
    using assms(2) by (intro mapE_ok_map) (simp add: software_version_round_trip)
  moreover have "mapE (\<lambda>v. get_tier v n) (map (JStr \<circ> tier_value) (cc_supported_evidence_tiers c))
      = Inr (cc_supported_evidence_tiers c)" for n
    by (intro mapE_ok_map) simp
  ultimately show ?thesis
    using assms(1) lens
    by (cases c) (simp add: capability_claim_from_payload_def capability_claim_payload_def field_def get_list_def)
qed

lemma execution_evidence_round_trip:
  assumes "execution_evidence_new e = Inr e" "parts_valid (Execution_Evidence e)"
  shows "execution_evidence_from_payload (execution_evidence_payload e) (ee_protocol_version e) = Inr e"
proof -
  have lens: "1 \<le> length (ee_checkpoints e)" "length (ee_checkpoints e) \<le> 4096"
    using assms(1) by (auto simp: execution_evidence_new_def)
  have "mapE checkpoint_from_primitive (map checkpoint_to_primitive (ee_checkpoints e)) = Inr (ee_checkpoints e)"
    using assms(2) by (intro mapE_ok_map) (simp add: checkpoint_round_trip)
  then show ?thesis
    using assms(1) lens
    by (cases e; cases "ee_bundle_root e"; cases "ee_attestation_digest e")
      (simp_all add: execution_evidence_from_payload_def execution_evidence_payload_def field_def get_list_def
        optional_text_def, auto)
qed

lemma validation_receipt_round_trip:
  assumes "validation_receipt_new r = Inr r"
  shows "validation_receipt_from_payload (validation_receipt_payload r) (vr_protocol_version r) = Inr r"
proof -
  have lens: "length (vr_reason_codes r) \<le> 32"
    using assms(1) by (auto simp: validation_receipt_new_def)
  have "mapE (\<lambda>v. get_text v n) (map JStr (vr_reason_codes r)) = Inr (vr_reason_codes r)" for n
    by (intro mapE_ok_map) simp
  then show ?thesis
    using assms(1) lens
    by (cases r; cases "vr_confidence_tier r")
      (simp_all add: validation_receipt_from_payload_def validation_receipt_payload_def field_def get_list_def)
qed

section \<open>Messages the program can build\<close>

definition message_ok :: "message \<Rightarrow> bool" where
  "message_ok m \<longleftrightarrow> message_valid m \<and> parts_valid m"

text \<open>Every text in a message is printable ASCII of at most 128 characters.\<close>

definition text_ok :: "string \<Rightarrow> bool" where
  "text_ok s \<longleftrightarrow> is_plain s \<and> length s \<le> 128"

lemma text_ok_classes:
  "is_digest s \<Longrightarrow> text_ok s" "is_identifier s \<Longrightarrow> text_ok s" "is_hotkey s \<Longrightarrow> text_ok s" "is_code s \<Longrightarrow> text_ok s"
  "is_software_name s \<Longrightarrow> text_ok s"
  "list_all is_lower_hex s \<Longrightarrow> length s \<le> 128 \<Longrightarrow> text_ok s"
  using is_digest_plain [of s] is_identifier_plain [of s] is_hotkey_plain [of s] is_code_plain [of s]
    is_software_name_plain [of s] lower_hex_plain [of s]
  by (auto simp: text_ok_def)

lemma text_ok_canonical [simp]: "text_ok s \<Longrightarrow> canonical_value (JStr s) = Inr ()"
  by (simp add: text_ok_def bounded_text_plain)

text \<open>Object keys are literals of the source.\<close>

definition key_ok :: "string \<Rightarrow> bool" where
  "key_ok k \<longleftrightarrow> k \<noteq> [] \<and> length k \<le> 128 \<and> list_all is_plain_char k"

lemma key_ok_canonical:
  "key_ok k \<Longrightarrow> bounded_text ''canonical object key'' k 1 128 any_text False = Inr ()"
  by (cases k) (auto simp: key_ok_def is_plain_def intro!: bounded_text_plain)

lemmas key_ok_literal = key_ok_def is_plain_char_def less_eq_char_def

lemma text_ok_enums [simp]: "text_ok (tier_value t)" "text_ok (network_value n)" "text_ok (trust_value d)"
  by (cases t; cases n; cases d; simp add: text_ok_def is_plain_def is_plain_char_def less_eq_char_def)+

text \<open>What the writer needs of a value: plain, in key order, and accepted by the canonical profile.\<close>

definition wire_ok :: "json \<Rightarrow> bool" where
  "wire_ok v \<longleftrightarrow> json_plain v \<and> json_sort v = v \<and> canonical_value v = Inr ()"

lemma wire_ok_simps [simp]:
  "wire_ok JNull" "wire_ok (JBool b)" "text_ok s \<Longrightarrow> wire_ok (JStr s)"
  "in_range (- 9223372036854775808) max_int64 i \<Longrightarrow> wire_ok (JInt i)"
  by (simp_all add: wire_ok_def del: canonical_value.simps(4))
    (auto simp: in_range_def intro: int_printable_64)

lemma wire_ok_arr [simp]: "wire_ok (JArr vs) \<longleftrightarrow> (\<forall>v \<in> set vs. wire_ok v)"
  by (auto simp: wire_ok_def map_idI intro: map_idI dest: map_eq_conv [where g = id, THEN iffD1, simplified])

definition members_ok :: "(string \<times> json) list \<Rightarrow> bool" where
  "members_ok kvs \<longleftrightarrow>
     sorted (map fst kvs) \<and> distinct (map fst kvs) \<and> (\<forall>(k, v) \<in> set kvs. key_ok k \<and> wire_ok v)"

lemma members_ok_filter: "members_ok kvs \<Longrightarrow> members_ok (filter P kvs)"
  by (auto simp: members_ok_def distinct_map_filter sorted_filter)

lemma wire_ok_members:
  assumes "members_ok kvs"
  shows "wire_ok (JObj kvs)"
proof -
  note assms = assms [unfolded members_ok_def, THEN conjunct1]
    assms [unfolded members_ok_def, THEN conjunct2, THEN conjunct1]
    assms [unfolded members_ok_def, THEN conjunct2, THEN conjunct2]
  have "map (map_prod id json_sort) kvs = kvs"
    using assms(3) by (intro map_idI) (auto simp: wire_ok_def)
  moreover have "sort_key fst kvs = kvs" by (rule sort_key_id_if_sorted [OF assms(1)])
  moreover have "canonical_members kvs = Inr ()"
    using assms(3) by (induction kvs) (auto simp: key_ok_canonical [simplified] wire_ok_def)
  ultimately show ?thesis
    using assms by (auto simp: wire_ok_def)
qed

lemma wire_ok_obj:
  assumes "sorted (map fst kvs)" "distinct (map fst kvs)"
    and "\<forall>(k, v) \<in> set kvs. key_ok k \<and> wire_ok v"
  shows "wire_ok (JObj kvs)"
  using assms by (simp add: wire_ok_members members_ok_def)

lemma wire_ok_int: "in_range lo hi i \<Longrightarrow> - 9223372036854775808 \<le> lo \<Longrightarrow> hi \<le> max_int64 \<Longrightarrow> wire_ok (JInt i)"
  by (simp add: in_range_def)

lemma resource_policy_wire: "resource_policy_new p = Inr p \<Longrightarrow> wire_ok (resource_policy_to_primitive p)"
  unfolding resource_policy_to_primitive_def
  by (rule wire_ok_obj) (auto simp: resource_policy_new_def key_ok_literal intro: wire_ok_int)

lemma verification_policy_wire:
  "verification_policy_new p = Inr p \<Longrightarrow> wire_ok (verification_policy_to_primitive p)"
  unfolding verification_policy_to_primitive_def
  by (rule wire_ok_obj) (auto simp: verification_policy_new_def key_ok_literal text_ok_classes intro: wire_ok_int)

lemma software_version_wire: "software_version_new s = Inr s \<Longrightarrow> wire_ok (software_version_to_primitive s)"
  unfolding software_version_to_primitive_def
  by (rule wire_ok_obj)
    (auto simp: software_version_new_def key_ok_literal bounded_text_pattern is_software_name_plain text_ok_def
       any_text_def)

lemma checkpoint_wire: "checkpoint_new c = Inr c \<Longrightarrow> wire_ok (checkpoint_to_primitive c)"
  unfolding checkpoint_to_primitive_def
  by (rule wire_ok_obj) (auto simp: checkpoint_new_def key_ok_literal text_ok_classes intro: wire_ok_int)

lemma members_okI:
  assumes "sorted (map fst kvs)" "distinct (map fst kvs)"
    and "\<forall>(k, v) \<in> set kvs. key_ok k \<and> wire_ok v"
  shows "members_ok kvs"
  using assms by (simp add: members_ok_def)

lemmas pattern_fields = bounded_text_pattern [OF is_code_plain [THEN conjunct1]]
  bounded_text_pattern [OF is_software_name_plain [THEN conjunct1]]

lemma job_manifest_members:
  assumes "job_manifest_new m = Inr m" "parts_valid (Job_Manifest m)"
  shows "members_ok (job_manifest_payload m)"
  unfolding job_manifest_payload_def
  by (rule members_okI)
    (use assms in \<open>auto simp: job_manifest_new_def key_ok_literal text_ok_classes resource_policy_wire
       verification_policy_wire pattern_fields intro: wire_ok_int\<close>)

lemma capability_claim_members:
  assumes "capability_claim_new c = Inr c" "parts_valid (Capability_Claim c)"
  shows "members_ok (capability_claim_payload c)"
  unfolding capability_claim_payload_def
  by (rule members_okI)
    (use assms in \<open>auto simp: capability_claim_new_def key_ok_literal text_ok_classes software_version_wire
       pattern_fields any_text_def text_ok_def [of "cc_gpu_model c"] intro: wire_ok_int\<close>)

lemma work_lease_members: "work_lease_new w = Inr w \<Longrightarrow> members_ok (work_lease_payload w)"
  unfolding work_lease_payload_def
  by (rule members_okI) (auto simp: work_lease_new_def key_ok_literal text_ok_classes intro: wire_ok_int)

lemma optional_text_wire: "optional_digest name s = Inr () \<Longrightarrow> wire_ok (optional_text s)"
  by (auto simp: optional_digest_def optional_text_def text_ok_classes split: option.splits)

lemma execution_evidence_members:
  assumes "execution_evidence_new e = Inr e" "parts_valid (Execution_Evidence e)"
  shows "members_ok (execution_evidence_payload e)"
  unfolding execution_evidence_payload_def
  by (cases "ee_bundle_root e"; simp only: option.case append_Cons append_Nil; rule members_okI)
    (use assms in \<open>auto simp: execution_evidence_new_def key_ok_literal text_ok_classes checkpoint_wire
       optional_digest_def [of _ "Some _"] intro: wire_ok_int optional_text_wire\<close>)

lemma validation_receipt_members:
  assumes "validation_receipt_new r = Inr r"
  shows "members_ok (validation_receipt_payload r)"
  unfolding validation_receipt_payload_def
  by (rule members_okI)
    (use assms in \<open>auto simp: validation_receipt_new_def key_ok_literal text_ok_classes pattern_fields
       intro: wire_ok_int split: option.split\<close>)

lemma message_members_ok: "message_ok m \<Longrightarrow> members_ok (message_payload m)"
  by (cases m)
    (auto simp: message_ok_def message_valid_def job_manifest_members capability_claim_members
      work_lease_members execution_evidence_members validation_receipt_members)

lemma message_ok_version: "message_ok m \<Longrightarrow> message_version m = 1"
  by (cases m)
    (auto simp: message_ok_def message_valid_def job_manifest_new_def capability_claim_new_def work_lease_new_def
      execution_evidence_new_def validation_receipt_new_def)

lemma wire_object_ok:
  assumes "message_ok m" "members_ok kvs"
  shows "wire_ok (wire_object m kvs)"
proof -
  have "text_ok (message_type m)"
    by (cases m) (simp_all add: text_ok_def is_plain_def key_ok_literal)
  then show ?thesis
    unfolding wire_object_def
    by (intro wire_ok_obj)
      (auto simp: key_ok_literal wire_ok_members assms message_ok_version [OF assms(1)] in_range_def)
qed

lemma to_primitive_wire: "message_ok m \<Longrightarrow> wire_ok (to_primitive m)"
  unfolding to_primitive_def by (intro wire_object_ok message_members_ok)

lemma unsigned_primitive_wire: "message_ok m \<Longrightarrow> wire_ok (unsigned_primitive m)"
  unfolding unsigned_primitive_def by (intro wire_object_ok members_ok_filter message_members_ok)

lemma wire_ok_canonical: "wire_ok v \<Longrightarrow> canonical_json v = Inr (json_dumps False v)"
  by (simp add: canonical_json_def wire_ok_def)

lemma wire_ok_dumps_inject: "wire_ok v \<Longrightarrow> wire_ok w \<Longrightarrow> json_dumps False v = json_dumps False w \<longleftrightarrow> v = w"
  by (simp add: json_dumps_inject wire_ok_def)

section \<open>The strict reader\<close>

interpretation strict_json: unlimited_reader strict_hooks
  by unfold_locales (simp_all add: strict_hooks_def unique_object_def)

lemma strict_loads: "wire_ok v \<Longrightarrow> json_loads strict_hooks (json_dumps False v) = Inr v"
  using strict_json.loads_dumps [of v False] by (simp add: wire_ok_def)

lemma message_ok_decoder:
  assumes "message_ok m"
  shows "\<exists>d. decoder (message_type m) = Some d \<and> d (message_payload m) (message_version m) = Inr m"
  using assms
  by (cases m)
    (auto simp: message_ok_def message_valid_def decoder_def job_manifest_round_trip capability_claim_round_trip
      work_lease_round_trip execution_evidence_round_trip validation_receipt_round_trip)

lemma decode_root_to_primitive:
  assumes "message_ok m"
  shows "decode_root (to_primitive m) = Inr m"
proof -
  obtain d where "decoder (message_type m) = Some d" "d (message_payload m) (message_version m) = Inr m"
    using message_ok_decoder [OF assms] by blast
  moreover have "decode_header (to_primitive m) = Inr (message_type m, 1, message_payload m)"
    using message_ok_version [OF assms]
    by (simp add: decode_header_def to_primitive_def wire_object_def field_def)
  ultimately show ?thesis
    using message_ok_version [OF assms] by (simp add: decode_root_def)
qed

section \<open>What decoding produces\<close>

lemma part_new_idem:
  "resource_policy_new p = Inr p' \<Longrightarrow> resource_policy_new p' = Inr p'"
  "verification_policy_new q = Inr q' \<Longrightarrow> verification_policy_new q' = Inr q'"
  "software_version_new s = Inr s' \<Longrightarrow> software_version_new s' = Inr s'"
  "checkpoint_new c = Inr c' \<Longrightarrow> checkpoint_new c' = Inr c'"
  by (simp_all add: resource_policy_new_def verification_policy_new_def software_version_new_def
      checkpoint_new_def)

lemma resource_policy_from_valid: "resource_policy_from_primitive v = Inr p \<Longrightarrow> resource_policy_new p = Inr p"
  unfolding resource_policy_from_primitive_def bindE_Inr_iff by (elim exE conjE) (rule part_new_idem)

lemma verification_policy_from_valid:
  "verification_policy_from_primitive v = Inr p \<Longrightarrow> verification_policy_new p = Inr p"
  unfolding verification_policy_from_primitive_def bindE_Inr_iff by (elim exE conjE) (rule part_new_idem)

lemma software_version_from_valid: "software_version_from_primitive v = Inr s \<Longrightarrow> software_version_new s = Inr s"
  unfolding software_version_from_primitive_def bindE_Inr_iff by (elim exE conjE) (rule part_new_idem)

lemma checkpoint_from_valid: "checkpoint_from_primitive v = Inr c \<Longrightarrow> checkpoint_new c = Inr c"
  unfolding checkpoint_from_primitive_def bindE_Inr_iff by (elim exE conjE) (rule part_new_idem)

lemma mapE_all: "mapE f xs = Inr ys \<Longrightarrow> (\<And>x y. f x = Inr y \<Longrightarrow> P y) \<Longrightarrow> \<forall>y \<in> set ys. P y"
  by (induction xs arbitrary: ys) auto

lemma job_manifest_from_ok:
  assumes "job_manifest_from_payload d v = Inr m"
  shows "message_ok (Job_Manifest m)"
proof -
  from assms obtain rp vp m0 where m0: "resource_policy_from_primitive rp = Inr (jm_resource_policy m0)"
    "verification_policy_from_primitive vp = Inr (jm_verification_policy m0)" "job_manifest_new m0 = Inr m"
    unfolding job_manifest_from_payload_def bindE_Inr_iff
    by (elim exE conjE) (metis job_manifest.select_convs(6,7))
  then have "m = m0" by (simp add: job_manifest_new_def)
  with m0 show ?thesis
    by (simp add: message_ok_def message_valid_def resource_policy_from_valid verification_policy_from_valid)
qed

lemma capability_claim_from_ok:
  assumes "capability_claim_from_payload d v = Inr c"
  shows "message_ok (Capability_Claim c)"
proof -
  from assms obtain rvs c0 where c0: "mapE software_version_from_primitive rvs = Inr (cc_runtime_versions c0)"
    "capability_claim_new c0 = Inr c"
    unfolding capability_claim_from_payload_def bindE_Inr_iff
    by (elim exE conjE) (metis capability_claim.select_convs(7))
  have "\<forall>s \<in> set (cc_runtime_versions c0). software_version_new s = Inr s"
    by (rule mapE_all [OF c0(1) software_version_from_valid])
  moreover have "set (cc_runtime_versions c) = set (cc_runtime_versions c0)"
    using c0(2) by (simp add: capability_claim_new_def)
  ultimately show ?thesis
    using capability_claim_new_idem [OF c0(2)] by (simp add: message_ok_def message_valid_def)
qed

lemma work_lease_from_ok: "work_lease_from_payload d v = Inr w \<Longrightarrow> message_ok (Work_Lease w)"
  unfolding work_lease_from_payload_def bindE_Inr_iff
  by (elim exE conjE) (simp add: message_ok_def message_valid_def work_lease_new_def)

lemma execution_evidence_from_ok:
  assumes "execution_evidence_from_payload d v = Inr e"
  shows "message_ok (Execution_Evidence e)"
proof -
  from assms obtain cvs e0 where e0: "mapE checkpoint_from_primitive cvs = Inr (ee_checkpoints e0)"
    "execution_evidence_new e0 = Inr e"
    unfolding execution_evidence_from_payload_def Let_def bindE_Inr_iff
    by (elim exE conjE) (metis execution_evidence.select_convs(6))
  have "\<forall>c \<in> set (ee_checkpoints e0). checkpoint_new c = Inr c"
    by (rule mapE_all [OF e0(1) checkpoint_from_valid])
  moreover have "set (ee_checkpoints e) = set (ee_checkpoints e0)"
    using e0(2) by (simp add: execution_evidence_new_def)
  ultimately show ?thesis
    using execution_evidence_new_idem [OF e0(2)] by (simp add: message_ok_def message_valid_def)
qed

lemma validation_receipt_from_ok:
  assumes "validation_receipt_from_payload d v = Inr r"
  shows "message_ok (Validation_Receipt r)"
proof -
  from assms obtain r0 where "validation_receipt_new r0 = Inr r"
    unfolding validation_receipt_from_payload_def bindE_Inr_iff by (elim exE conjE) blast
  then show ?thesis
    using validation_receipt_new_idem by (simp add: message_ok_def message_valid_def)
qed

lemma decoder_ok:
  assumes "decoder ty = Some d" "d payload version = Inr m"
  shows "message_ok m"
  using assms
  by (auto simp: decoder_def job_manifest_from_ok capability_claim_from_ok work_lease_from_ok
      execution_evidence_from_ok validation_receipt_from_ok split: if_splits)

lemma decode_root_ok: "decode_root v = Inr m \<Longrightarrow> message_ok m"
  unfolding decode_root_def by (auto split: sum.splits option.splits intro: decoder_ok)

lemma decode_message_Inr:
  "decode_message data = Inr m \<longleftrightarrow>
     data \<noteq> [] \<and> int (length data) \<le> max_wire_bytes
   \<and> (\<exists>v. json_loads strict_hooks data = Inr v \<and> decode_root v = Inr m) \<and> canonical_bytes m = Inr data"
proof (cases "data = [] \<or> int (length data) > max_wire_bytes")
  case True
  then show ?thesis unfolding decode_message_def by (simp only: if_True) auto
next
  case False
  then have body: "decode_message data =
      (case json_loads strict_hooks data of
          Inl Json_Hook \<Rightarrow> Inl Decode_Hook
        | Inl Json_Int_Limit \<Rightarrow> Inl Decode_Escaped
        | Inl _ \<Rightarrow> Inl Decode_Not_Json
        | Inr decoded \<Rightarrow>
            bindE (decode_root decoded) (\<lambda>m.
            bindE (map_error Decode_Unencodable (canonical_bytes m)) (\<lambda>b.
              if b \<noteq> data then Inl Decode_Not_Canonical else Inr m)))"
    unfolding decode_message_def by (simp only: if_False)
  show ?thesis
  proof (cases "json_loads strict_hooks data")
    case (Inl err)
    have "decode_message data \<noteq> Inr m" unfolding body Inl by (cases err) simp_all
    with Inl show ?thesis by simp
  next
    case (Inr v)
    have "decode_message data = Inr m \<longleftrightarrow> decode_root v = Inr m \<and> canonical_bytes m = Inr data"
      unfolding body Inr by (auto split: if_splits)
    with Inr False show ?thesis by auto
  qed
qed

section \<open>Properties\<close>

lemma canonical_bytes_ok:
  assumes "message_ok m"
  shows "canonical_bytes m =
     (let b = json_dumps False (to_primitive m) in if int (length b) > max_wire_bytes then Inl Wire_Too_Large else Inr b)"
  using wire_ok_canonical [OF to_primitive_wire [OF assms]] by (simp add: canonical_bytes_def)

definition sample_digest :: "char \<Rightarrow> string" where
  "sample_digest c = digest_text (replicate 64 c)"

definition sample_work_lease :: "string \<Rightarrow> message" where
  "sample_work_lease signature = Work_Lease
     \<lparr>wl_manifest_digest = sample_digest CHR ''a'', wl_miner_hotkey = ''miner'',
      wl_validator_hotkey = ''validator'', wl_shard_id = ''shard'', wl_challenge_commitment = sample_digest CHR ''b'',
      wl_start_block = 10, wl_deadline_block = 20, wl_nonce = replicate 64 CHR ''c'', wl_signature = signature,
      wl_protocol_version = 1\<rparr>"

abbreviation sample_message :: message where
  "sample_message \<equiv> sample_work_lease (replicate 128 CHR ''0'')"

lemma sample_message_ok: "message_ok (sample_work_lease (replicate 128 CHR ''0''))"
  "message_ok (sample_work_lease (replicate 128 CHR ''1''))"
  by (simp_all add: sample_work_lease_def message_ok_def message_valid_def work_lease_new_def sample_digest_def
      is_hotkey_def is_identifier_def match_class_def char_class_defs in_range_def)

lemma sample_message_length: "int (length (json_dumps False (to_primitive sample_message))) \<le> 65536"
  "int (length (json_dumps False (to_primitive (sample_work_lease (replicate 128 CHR ''1''))))) \<le> 65536"
  by code_simp+

lemma sample_message_bytes: "canonical_bytes sample_message = Inr (json_dumps False (to_primitive sample_message))"
  "canonical_bytes (sample_work_lease (replicate 128 CHR ''1'')) =
     Inr (json_dumps False (to_primitive (sample_work_lease (replicate 128 CHR ''1''))))"
  using canonical_bytes_ok [OF sample_message_ok(1)] canonical_bytes_ok [OF sample_message_ok(2)] sample_message_length
  by (simp_all add: Let_def max_wire_bytes_def)

text \<open>
  Decoding inverts encoding.  Every message the program can build that fits the wire limit
  is decoded from its canonical bytes to itself.
\<close>

lemma json_dumps_nonempty: "json_dumps a (JObj kvs) \<noteq> []"
  by (simp add: json_dumps_def utf8_encode_def utf8_char_def Let_def)

lemma decode_encode:
  assumes "message_ok m" "canonical_bytes m = Inr b"
  shows "decode_message b = Inr m"
proof -
  have b: "b = json_dumps False (to_primitive m)" "int (length b) \<le> max_wire_bytes"
    using assms by (auto simp: canonical_bytes_ok Let_def split: if_splits)
  have "b \<noteq> []" unfolding b(1) to_primitive_def wire_object_def by (rule json_dumps_nonempty)
  moreover have "json_loads strict_hooks b = Inr (to_primitive m)"
    unfolding b(1) by (rule strict_loads [OF to_primitive_wire [OF assms(1)]])
  ultimately show ?thesis
    using b(2) assms decode_root_to_primitive [OF assms(1)] by (auto simp: decode_message_Inr)
qed

text \<open>
  C3: one encoding per message.  Bytes are accepted exactly when they are the canonical bytes
  of a message the program can build; that message is the result.
\<close>

theorem decode_message_iff:
  "decode_message b = Inr m \<longleftrightarrow> message_ok m \<and> canonical_bytes m = Inr b"
proof
  assume "decode_message b = Inr m"
  then show "message_ok m \<and> canonical_bytes m = Inr b"
    using decode_root_ok by (auto simp: decode_message_Inr)
qed (use decode_encode in blast)

lemma message_digest_eq:
  assumes "message_ok m" "message_ok m'" "canonical_bytes m = Inr b" "canonical_bytes m' = Inr b'"
  shows "message_digest m = message_digest m' \<longleftrightarrow> m = m' \<or> collide (digest_domain @ b) (digest_domain @ b')"
proof -
  have "message_digest m = message_digest m' \<longleftrightarrow> sha256 (digest_domain @ b) = sha256 (digest_domain @ b')"
    using assms(3,4) by (simp add: message_digest_def)
  moreover have "b = b' \<longleftrightarrow> m = m'"
    using decode_encode [OF assms(1,3)] decode_encode [OF assms(2,4)] assms(3,4) by auto
  ultimately show ?thesis by (auto simp: collide_def)
qed

text \<open>
  A message digest identifies its message.  Two messages have the same digest exactly when
  they are equal or their encodings are an explicit SHA-256 collision.
\<close>

theorem message_digest_binding:
  assumes "message_ok m" "message_ok m'" "canonical_bytes m = Inr b" "canonical_bytes m' = Inr b'"
  shows "message_digest m = message_digest m' \<longleftrightarrow> m = m' \<or> collide (digest_domain @ b) (digest_domain @ b')"
  by (rule message_digest_eq [OF assms])

theorem message_digest_binding_witness:
  "message_digest sample_message = message_digest (sample_work_lease (replicate 128 CHR ''1'')) \<longleftrightarrow>
     collide (digest_domain @ json_dumps False (to_primitive sample_message))
       (digest_domain @ json_dumps False (to_primitive (sample_work_lease (replicate 128 CHR ''1''))))"
  by (subst message_digest_binding [OF sample_message_ok sample_message_bytes]) (simp add: sample_work_lease_def)

text \<open>Replacing a signature, as signing does.\<close>

fun with_signature :: "string \<Rightarrow> message \<Rightarrow> message" where
  "with_signature s (Job_Manifest m) = Job_Manifest (m\<lparr>jm_signature := s\<rparr>)"
| "with_signature s (Capability_Claim m) = Capability_Claim (m\<lparr>cc_signature := s\<rparr>)"
| "with_signature s (Work_Lease m) = Work_Lease (m\<lparr>wl_signature := s\<rparr>)"
| "with_signature s (Execution_Evidence m) = Execution_Evidence (m\<lparr>ee_signature := s\<rparr>)"
| "with_signature s (Validation_Receipt m) = Validation_Receipt (m\<lparr>vr_signature := s\<rparr>)"

fun message_signature :: "message \<Rightarrow> string" where
  "message_signature (Job_Manifest m) = jm_signature m"
| "message_signature (Capability_Claim m) = cc_signature m"
| "message_signature (Work_Lease m) = wl_signature m"
| "message_signature (Execution_Evidence m) = ee_signature m"
| "message_signature (Validation_Receipt m) = vr_signature m"

lemmas payload_defs = job_manifest_payload_def capability_claim_payload_def work_lease_payload_def
  execution_evidence_payload_def validation_receipt_payload_def

lemma unsigned_with_signature [simp]: "unsigned_primitive (with_signature s m) = unsigned_primitive m"
  by (cases m) (simp_all add: unsigned_primitive_def wire_object_def payload_defs)

lemma signature_new_replace:
  assumes "length s = 128" "list_all is_lower_hex s"
  shows "capability_claim_new c = Inr c \<Longrightarrow> capability_claim_new (c\<lparr>cc_signature := s\<rparr>) = Inr (c\<lparr>cc_signature := s\<rparr>)"
    and "execution_evidence_new e = Inr e \<Longrightarrow> execution_evidence_new (e\<lparr>ee_signature := s\<rparr>) = Inr (e\<lparr>ee_signature := s\<rparr>)"
    and "validation_receipt_new r = Inr r \<Longrightarrow> validation_receipt_new (r\<lparr>vr_signature := s\<rparr>) = Inr (r\<lparr>vr_signature := s\<rparr>)"
  using assms
     apply -
  subgoal by (cases c) (simp add: capability_claim_new_def)
  subgoal by (cases e) (simp add: execution_evidence_new_def)
  subgoal by (cases r) (simp add: validation_receipt_new_def receipt_consistent_def cong: if_cong)
  done

lemma signature_ok_replace:
  assumes "message_ok m" "length s = 128" "list_all is_lower_hex s"
  shows "message_ok (with_signature s m)"
  using assms
  by (cases m)
    (auto simp: message_ok_def message_valid_def job_manifest_new_def work_lease_new_def signature_new_replace)

lemma message_type_inject: "message_type m = message_type m' \<Longrightarrow>
   (case (m, m') of (Job_Manifest _, Job_Manifest _) \<Rightarrow> True | (Capability_Claim _, Capability_Claim _) \<Rightarrow> True
     | (Work_Lease _, Work_Lease _) \<Rightarrow> True | (Execution_Evidence _, Execution_Evidence _) \<Rightarrow> True
     | (Validation_Receipt _, Validation_Receipt _) \<Rightarrow> True | _ \<Rightarrow> False)"
  by (cases m; cases m') simp_all

text \<open>The unsigned object determines all of a message but its signature.\<close>

lemma unsigned_primitive_determines:
  assumes "unsigned_primitive m = unsigned_primitive m'" "message_signature m = message_signature m'"
  shows "to_primitive m = to_primitive m'"
  using assms
  by (cases m; cases m')
    (auto simp: unsigned_primitive_def to_primitive_def wire_object_def payload_defs split: option.splits)


lemma message_ok_signature: "message_ok m \<Longrightarrow> length (message_signature m) = 128 \<and> list_all is_lower_hex (message_signature m)"
  by (cases m)
    (auto simp: message_ok_def message_valid_def job_manifest_new_def capability_claim_new_def work_lease_new_def
      execution_evidence_new_def validation_receipt_new_def)

lemma message_signature_with [simp]: "message_signature (with_signature s m) = s"
  by (cases m) simp_all

lemma with_signature_same: "with_signature (message_signature m) m = m"
  by (cases m) simp_all

lemma unsigned_primitive_inject:
  assumes "message_ok m" "message_ok m'"
  shows "unsigned_primitive m = unsigned_primitive m' \<longleftrightarrow> m' = with_signature (message_signature m') m"
proof
  assume u: "unsigned_primitive m = unsigned_primitive m'"
  let ?m = "with_signature (message_signature m') m"
  have ok: "message_ok ?m"
    using signature_ok_replace [OF assms(1)] message_ok_signature [OF assms(2)] by blast
  have "to_primitive ?m = to_primitive m'"
    by (rule unsigned_primitive_determines) (use u in simp_all)
  then have "(Inr ?m :: decode_error + message) = Inr m'"
    using decode_root_to_primitive [OF ok] decode_root_to_primitive [OF assms(2)] by metis
  then show "m' = ?m" by simp
next
  assume "m' = with_signature (message_signature m') m"
  then show "unsigned_primitive m = unsigned_primitive m'" by (metis unsigned_with_signature)
qed

text \<open>
  What is signed.  Two messages have the same signing bytes exactly when they are the same
  message up to its signature, so no signature carries over to another message or type.
\<close>

theorem signing_bytes_binding:
  assumes "message_ok m" "message_ok m'"
  shows "signing_bytes m = signing_bytes m' \<longleftrightarrow> m' = with_signature (message_signature m') m"
  using assms unsigned_primitive_wire
  by (simp add: signing_bytes_def wire_ok_canonical wire_ok_dumps_inject unsigned_primitive_inject)

theorem signing_bytes_binding_witness:
  "signing_bytes sample_message = signing_bytes (sample_work_lease (replicate 128 CHR ''1''))"
  by (subst signing_bytes_binding [OF sample_message_ok]) (simp add: sample_work_lease_def)

text \<open>
  The content digest is the identity of a message without its signature: it does not depend
  on the signature, and digests are equal exactly for messages equal up to it, or an explicit collision.
\<close>

theorem content_digest_binding:
  assumes "message_ok m" "message_ok m'"
    and "p = content_domain @ json_dumps False (unsigned_primitive m)"
    and "p' = content_domain @ json_dumps False (unsigned_primitive m')"
  shows "content_digest (with_signature s m) = content_digest m
     \<and> (content_digest m = content_digest m' \<longleftrightarrow>
          m' = with_signature (message_signature m') m \<or> collide p p')"
proof -
  have digest: "content_digest m = Inr (sha256_id p)" "content_digest m' = Inr (sha256_id p')"
    using assms unsigned_primitive_wire by (simp_all add: content_digest_def wire_ok_canonical)
  have "p = p' \<longleftrightarrow> m' = with_signature (message_signature m') m"
    using assms unsigned_primitive_wire by (simp add: wire_ok_dumps_inject unsigned_primitive_inject)
  then have "content_digest m = content_digest m' \<longleftrightarrow>
      m' = with_signature (message_signature m') m \<or> collide p p'"
    using digest by (auto simp: collide_def)
  then show ?thesis by (simp add: content_digest_def)
qed

theorem content_digest_binding_witness:
  "content_digest (with_signature (replicate 128 CHR ''1'') sample_message) = content_digest sample_message"
  using content_digest_binding [OF sample_message_ok(1) sample_message_ok(1) refl refl] by blast

text \<open>
  Canonical bytes depend on the size limit only: every message the program can build passes the
  canonical profile, and is refused exactly when its encoding exceeds 64 KiB.
\<close>

lemma canonical_bytes_total:
  assumes "message_ok m"
  shows "canonical_bytes m =
     (if length (json_dumps False (to_primitive m)) \<le> 65536
      then Inr (json_dumps False (to_primitive m)) else Inl Wire_Too_Large)"
  using canonical_bytes_ok [OF assms] by (auto simp: Let_def max_wire_bytes_def)

lemma digits_parse:
  assumes "max_str_digits < n"
  shows "json_loads_text h (replicate n CHR ''1'') = Inl Json_Int_Limit"
proof -
  have n: "replicate n CHR ''1'' = CHR ''1'' # replicate (n - 1) CHR ''1''"
    using assms by (cases n) auto
  have digits: "takeWhile is_digit (replicate n CHR ''1'') = replicate n CHR ''1''"
    "dropWhile is_digit (replicate n CHR ''1'') = []"
    by (auto simp: takeWhile_eq_all_conv char_class_defs)
  have int: "scan_integer (replicate n CHR ''1'') = Some (replicate n CHR ''1'', [])"
    using digits n by (simp add: scan_integer_def char_class_defs split: list.split)
  have sign: "take 1 (replicate n CHR ''1'') = ''1''" by (subst n) simp
  have "scan_number h (replicate n CHR ''1'') = Inl Json_Int_Limit"
    using assms sign by (simp add: scan_number_def int scan_fraction_def scan_exponent_def Let_def)
  moreover have "skip_space (replicate n CHR ''1'') = replicate n CHR ''1''"
    by (subst n, subst n) (simp add: is_json_space_def Let_def)
  moreover have "parse_value h 0 (Suc k) (replicate n CHR ''1'') = scan_number h (replicate n CHR ''1'')" for k
    by (rule parse_value_number [OF n]) (simp add: char_class_defs)
  ultimately show ?thesis by (simp add: json_loads_text_def)
qed

text \<open>
  Not every malformed input is a \<open>ProtocolDecodeError\<close>.  A number literal of more than
  4300 digits makes \<open>json.loads\<close> raise a plain \<open>ValueError\<close>, which \<open>decode_message\<close> lets
  through.
\<close>

theorem decode_int_literal_escapes:
  assumes "4300 < n" "n \<le> 65536"
  shows "decode_message (utf8_encode (replicate n CHR ''1'')) = Inl Decode_Escaped"
proof -
  have "is_ascii (replicate n CHR ''1'')" by (simp add: is_ascii_def)
  then have len: "length (utf8_encode (replicate n CHR ''1'')) = n" by simp
  then have "utf8_encode (replicate n CHR ''1'') \<noteq> []" using assms by force
  then show ?thesis
    using assms len digits_parse [of n strict_hooks]
    by (simp add: decode_message_def max_wire_bytes_def json_loads_def max_str_digits_def)
qed

theorem decode_int_literal_escapes_witness:
  "decode_message (utf8_encode (replicate 4301 CHR ''1'')) = Inl Decode_Escaped"
  by (rule decode_int_literal_escapes) simp_all

end
