(* ===== verification/Replay.thy ===== *)
theory Replay
  imports Json
begin

text \<open>
  \<open>src/gpuforge/replay.py\<close>: the bounded cache that refuses a replay token that is still
  active and a sequence number that does not grow.  \<open>replay_accept_once\<close>,
  \<open>replay_accept_sequence\<close> and \<open>replay_accept_both\<close> are the three public methods of
  \<open>ReplayCache\<close>; an exception does not always leave the cache as it was, so each returns the
  cache with its outcome.  \<open>replay_open\<close> is the constructor and \<open>replay_step\<close> the machine.
\<close>

section \<open>Keys\<close>

datatype replay_error =
    Replay_Limits_Invalid
  | Replay_Block_Invalid string
  | Replay_Sequence_Invalid
  | Token_Expired
  | Token_Reused
  | Replay_Cache_Full
  | Sequence_Not_Increasing
  | Sequence_Cache_Full
  | Replay_Key_Size
  | Replay_State_Too_Large
  | Replay_State_Malformed
  | Replay_State_Schema
  | Replay_State_Version
  | Replay_State_Map string
  | Replay_Not_Persisted
  | Replay_Os_Error
  | Replay_Value_Error

text \<open>
  The exceptions that are a \<open>ReplayProtectionError\<close>.  The other two escape the handlers of the
  module: the \<open>OSError\<close> of creating the state directory, and the \<open>ValueError\<close> of a number literal
  over the interpreter's conversion limit.
\<close>

definition is_replay_error :: "replay_error \<Rightarrow> bool" where
  "is_replay_error e \<longleftrightarrow> e \<noteq> Replay_Os_Error \<and> e \<noteq> Replay_Value_Error"

definition replay_key_domain :: bytes where
  "replay_key_domain = utf8_encode ''gpuforge-replay-key-v1'' @ [0]"

definition replay_key_bytes :: "string \<Rightarrow> string \<Rightarrow> bytes" where
  "replay_key_bytes scope token = replay_key_domain @ utf8_encode scope @ [0] @ utf8_encode token"

definition replay_cache_key :: "string \<Rightarrow> string \<Rightarrow> replay_error + string" where
  "replay_cache_key scope token =
     (let m = length (utf8_encode scope); n = length (utf8_encode token) in
      if \<not> (1 \<le> m \<and> m \<le> 512) \<or> \<not> (1 \<le> n \<and> n \<le> 512) then Inl Replay_Key_Size
      else Inr (to_hex (sha256 (replay_key_bytes scope token))))"

section \<open>The cache\<close>

type_synonym int_dict = "(string \<times> int) list"

record replay_cache =
  rc_path :: bool
  rc_max_entries :: int
  rc_max_sequences :: int
  rc_entries :: int_dict
  rc_sequences :: int_dict
  rc_file :: "bytes option"

text \<open>What the disk does to one attempt to persist the state.\<close>

datatype disk = Disk_Ok | Mkdir_Fails | Write_Fails

definition replay_block :: "string \<Rightarrow> int \<Rightarrow> replay_error + unit" where
  "replay_block name b = (if in_range 0 max_int64 b then Inr () else Inl (Replay_Block_Invalid name))"

definition replay_sequence :: "int \<Rightarrow> replay_error + unit" where
  "replay_sequence n = (if in_range 0 max_int64 n then Inr () else Inl Replay_Sequence_Invalid)"

definition replay_purge :: "int \<Rightarrow> replay_cache \<Rightarrow> replay_cache" where
  "replay_purge current_block c = c\<lparr>rc_entries := filter (\<lambda>(k, expiry). current_block \<le> expiry) (rc_entries c)\<rparr>"

definition int_object :: "int_dict \<Rightarrow> json" where
  "int_object d = JObj (map (map_prod id JInt) d)"

definition replay_payload :: "int_dict \<Rightarrow> int_dict \<Rightarrow> bytes" where
  "replay_payload es ss = json_dumps True (JObj
     [(''entries'', int_object es), (''sequences'', int_object ss), (''version'', JInt 1)])"

text \<open>\<open>_persist\<close>, which has no limit on the size of the payload.\<close>

definition replay_persist :: "disk \<Rightarrow> replay_cache \<Rightarrow> replay_cache \<times> (replay_error + unit)" where
  "replay_persist disk c =
     (if \<not> rc_path c then (c, Inr ())
      else case disk of
          Mkdir_Fails \<Rightarrow> (c, Inl Replay_Os_Error)
        | Write_Fails \<Rightarrow> (c, Inl Replay_Not_Persisted)
        | Disk_Ok \<Rightarrow> (c\<lparr>rc_file := Some (replay_payload (rc_entries c) (rc_sequences c))\<rparr>, Inr ()))"

text \<open>The \<open>try\<close> block: a \<open>ReplayProtectionError\<close> is answered by \<open>undo\<close>, anything else escapes.\<close>

definition replay_try ::
  "(replay_cache \<Rightarrow> replay_cache) \<Rightarrow> replay_cache \<times> (replay_error + unit) \<Rightarrow> replay_cache \<times> (replay_error + unit)" where
  "replay_try undo r =
     (case r of
        (c, Inl e) \<Rightarrow> (if is_replay_error e then undo c else c, Inl e)
      | (c, Inr u) \<Rightarrow> (c, Inr u))"

definition replay_accept_once ::
  "disk \<Rightarrow> replay_cache \<Rightarrow> string \<Rightarrow> string \<Rightarrow> int \<Rightarrow> int \<Rightarrow> replay_cache \<times> (replay_error + unit)" where
  "replay_accept_once disk c0 scope token current_block expires_at_block =
     (case bindE (replay_block ''current_block'' current_block)
             (\<lambda>_. replay_block ''expires_at_block'' expires_at_block) of
        Inl e \<Rightarrow> (c0, Inl e)
      | Inr _ \<Rightarrow>
          if expires_at_block < current_block then (c0, Inl Token_Expired)
          else
            (let c = replay_purge current_block c0 in
             case replay_cache_key scope token of
               Inl e \<Rightarrow> (c, Inl e)
             | Inr key \<Rightarrow>
                 if map_of (rc_entries c) key \<noteq> None then (c, Inl Token_Reused)
                 else if rc_max_entries c \<le> int (length (rc_entries c)) then (c, Inl Replay_Cache_Full)
                 else replay_try (\<lambda>c'. c'\<lparr>rc_entries := rc_entries c\<rparr>)
                        (replay_persist disk
                           (c\<lparr>rc_entries := AList.update key expires_at_block (rc_entries c)\<rparr>))))"

definition replay_accept_sequence ::
  "disk \<Rightarrow> replay_cache \<Rightarrow> string \<Rightarrow> int \<Rightarrow> replay_cache \<times> (replay_error + unit)" where
  "replay_accept_sequence disk c scope sequence =
     (case replay_sequence sequence of
        Inl e \<Rightarrow> (c, Inl e)
      | Inr _ \<Rightarrow>
          (case replay_cache_key ''sequence'' scope of
             Inl e \<Rightarrow> (c, Inl e)
           | Inr key \<Rightarrow>
               (let previous = map_of (rc_sequences c) key in
                if previous \<noteq> None \<and> sequence \<le> the previous then (c, Inl Sequence_Not_Increasing)
                else if previous = None \<and> rc_max_sequences c \<le> int (length (rc_sequences c))
                  then (c, Inl Sequence_Cache_Full)
                else replay_try (\<lambda>c'. c'\<lparr>rc_sequences := rc_sequences c\<rparr>)
                       (replay_persist disk
                          (c\<lparr>rc_sequences := AList.update key sequence (rc_sequences c)\<rparr>)))))"

text \<open>\<open>accept_once_with_sequence\<close>; \<open>both\<close> is the body of its \<open>try\<close> block.\<close>

definition replay_both ::
  "disk \<Rightarrow> replay_cache \<Rightarrow> string \<Rightarrow> string \<Rightarrow> int \<Rightarrow> int \<Rightarrow> string \<Rightarrow> int \<Rightarrow> replay_cache \<times> (replay_error + unit)" where
  "replay_both disk c0 scope token current_block expires_at_block sequence_scope sequence =
     (let c = replay_purge current_block c0 in
      case bindE (replay_cache_key scope token)
             (\<lambda>ek. bindE (replay_cache_key ''sequence'' sequence_scope) (\<lambda>sk. Inr (ek, sk))) of
        Inl e \<Rightarrow> (c, Inl e)
      | Inr (entry_key, sequence_key) \<Rightarrow>
          if map_of (rc_entries c) entry_key \<noteq> None then (c, Inl Token_Reused)
          else
            (let previous = map_of (rc_sequences c) sequence_key in
             if previous \<noteq> None \<and> sequence \<le> the previous then (c, Inl Sequence_Not_Increasing)
             else if rc_max_entries c \<le> int (length (rc_entries c)) then (c, Inl Replay_Cache_Full)
             else if previous = None \<and> rc_max_sequences c \<le> int (length (rc_sequences c))
               then (c, Inl Sequence_Cache_Full)
             else replay_persist disk
                    (c\<lparr>rc_entries := AList.update entry_key expires_at_block (rc_entries c),
                       rc_sequences := AList.update sequence_key sequence (rc_sequences c)\<rparr>)))"

definition replay_accept_both ::
  "disk \<Rightarrow> replay_cache \<Rightarrow> string \<Rightarrow> string \<Rightarrow> int \<Rightarrow> int \<Rightarrow> string \<Rightarrow> int \<Rightarrow> replay_cache \<times> (replay_error + unit)" where
  "replay_accept_both disk c scope token current_block expires_at_block sequence_scope sequence =
     (case bindE (replay_block ''current_block'' current_block)
             (\<lambda>_. bindE (replay_block ''expires_at_block'' expires_at_block) (\<lambda>_. replay_sequence sequence)) of
        Inl e \<Rightarrow> (c, Inl e)
      | Inr _ \<Rightarrow>
          if expires_at_block < current_block then (c, Inl Token_Expired)
          else
            replay_try (\<lambda>c'. c'\<lparr>rc_entries := rc_entries c, rc_sequences := rc_sequences c\<rparr>)
              (replay_both disk c scope token current_block expires_at_block sequence_scope sequence))"

section \<open>Loading\<close>

fun state_entries :: "string \<Rightarrow> int_dict \<Rightarrow> (string \<times> json) list \<Rightarrow> replay_error + int_dict" where
  "state_entries name result [] = Inr result"
| "state_entries name result ((key, item) # rest) =
     (case item of
        JInt i \<Rightarrow>
          if is_hex64 key \<and> in_range 0 max_int64 i
          then state_entries name (AList.update key i result) rest
          else Inl (Replay_State_Map name)
      | _ \<Rightarrow> Inl (Replay_State_Map name))"

definition state_map :: "string \<Rightarrow> int \<Rightarrow> json \<Rightarrow> replay_error + int_dict" where
  "state_map name limit value =
     (case value of
        JObj d \<Rightarrow>
          if limit < int (length d) then Inl (Replay_State_Map name) else state_entries name [] d
      | _ \<Rightarrow> Inl (Replay_State_Map name))"

definition replay_parse :: "int \<Rightarrow> int \<Rightarrow> bytes \<Rightarrow> replay_error + int_dict \<times> int_dict" where
  "replay_parse max_entries max_sequences content =
     (case json_loads default_hooks content of
        Inl Json_Int_Limit \<Rightarrow> Inl Replay_Value_Error
      | Inl _ \<Rightarrow> Inl Replay_State_Malformed
      | Inr raw \<Rightarrow>
          (case raw of
             JObj d \<Rightarrow>
               if \<not> has_keys d [''entries'', ''sequences'', ''version''] then Inl Replay_State_Schema
               else if \<not> json_eq_one (field d ''version'') then Inl Replay_State_Version
               else bindE (state_map ''entries'' max_entries (field d ''entries'')) (\<lambda>es.
                      bindE (state_map ''sequences'' max_sequences (field d ''sequences'')) (\<lambda>ss.
                        Inr (es, ss)))
           | _ \<Rightarrow> Inl Replay_State_Schema))"

definition replay_load :: "int \<Rightarrow> int \<Rightarrow> bytes \<Rightarrow> replay_error + int_dict \<times> int_dict" where
  "replay_load max_entries max_sequences content =
     (if 4194304 < int (length content) then Inl Replay_State_Too_Large
      else replay_parse max_entries max_sequences content)"

definition replay_open :: "bool \<Rightarrow> int \<Rightarrow> int \<Rightarrow> bytes option \<Rightarrow> replay_error + replay_cache" where
  "replay_open path max_entries max_sequences content =
     (if \<not> in_range 1 1000000 max_entries \<or> \<not> in_range 1 1000000 max_sequences
      then Inl Replay_Limits_Invalid
      else
        bindE (case (path, content) of
                 (True, Some b) \<Rightarrow> replay_load max_entries max_sequences b | _ \<Rightarrow> Inr ([], []))
          (\<lambda>(es, ss). Inr \<lparr>rc_path = path, rc_max_entries = max_entries, rc_max_sequences = max_sequences,
             rc_entries = es, rc_sequences = ss, rc_file = content\<rparr>))"

section \<open>One machine\<close>

datatype replay_op =
    Accept_Once disk string string int int
  | Accept_Sequence disk string int
  | Accept_Both disk string string int int string int
  | Reopen

fun replay_step :: "replay_cache \<Rightarrow> replay_op \<Rightarrow> replay_cache \<times> (replay_error + unit)" where
  "replay_step c (Accept_Once disk s t b e) = replay_accept_once disk c s t b e"
| "replay_step c (Accept_Sequence disk s n) = replay_accept_sequence disk c s n"
| "replay_step c (Accept_Both disk s t b e ss n) = replay_accept_both disk c s t b e ss n"
| "replay_step c Reopen =
     (case replay_open (rc_path c) (rc_max_entries c) (rc_max_sequences c) (rc_file c) of
        Inl err \<Rightarrow> (c, Inl err)
      | Inr c' \<Rightarrow> (c', Inr ()))"

section \<open>The state file\<close>

definition dict_ok :: "int_dict \<Rightarrow> bool" where
  "dict_ok d \<longleftrightarrow> distinct (map fst d) \<and> (\<forall>(k, i) \<in> set d. is_hex64 k \<and> in_range 0 max_int64 i)"

lemma dict_ok_sort [simp]: "dict_ok (sort_key fst d) \<longleftrightarrow> dict_ok d"
  by (simp add: dict_ok_def)

lemma dict_ok_filter: "dict_ok d \<Longrightarrow> dict_ok (filter P d)"
  by (auto simp: dict_ok_def distinct_map_filter)

lemma dict_ok_update:
  "dict_ok d \<Longrightarrow> is_hex64 k \<Longrightarrow> in_range 0 max_int64 i \<Longrightarrow> dict_ok (AList.update k i d)"
  by (auto simp: dict_ok_def distinct_update set_update_distinct)

lemma dict_ok_Nil [simp]: "dict_ok []"
  by (simp add: dict_ok_def)

lemma map_of_sorted: "dict_ok d \<Longrightarrow> map_of (sort_key fst d) = map_of d"
  by (simp add: dict_ok_def map_of_sort_key_fst)

lemma int_object_plain: "dict_ok d \<Longrightarrow> json_plain (int_object d)"
  by (auto simp: int_object_def dict_ok_def comp_def)

lemma insort_key_map_snd:
  "insort_key fst (map_prod id f x) (map (map_prod id f) d) = map (map_prod id f) (insort_key fst x d)"
  by (induction d) auto

lemma sort_key_map_snd: "sort_key fst (map (map_prod id f) d) = map (map_prod id f) (sort_key fst d)"
  by (induction d) (simp_all add: insort_key_map_snd [unfolded id_def] id_def)

lemma int_object_sort: "json_sort (int_object d) = int_object (sort_key fst d)"
proof -
  have "json_sort (int_object d) = JObj (sort_key fst (map (map_prod id JInt) d))"
    by (simp add: int_object_def comp_def map_prod_def case_prod_unfold)
  then show ?thesis by (simp add: int_object_def sort_key_map_snd)
qed

lemma state_entries_int_object:
  "dict_ok (result @ d) \<Longrightarrow> state_entries name result (map (map_prod id JInt) d) = Inr (result @ d)"
proof (induction d arbitrary: result)
  case (Cons x d)
  obtain k i where x: "x = (k, i)" by (cases x)
  have "state_entries name (result @ [x]) (map (map_prod id JInt) d) = Inr ((result @ [x]) @ d)"
    by (rule Cons.IH) (use Cons.prems in simp)
  moreover have "k \<notin> fst ` set result" "is_hex64 k" "in_range 0 max_int64 i"
    using Cons.prems x by (auto simp: dict_ok_def)
  ultimately show ?case by (simp add: x update_new map_prod_def)
qed simp

lemma state_map_int_object:
  "dict_ok d \<Longrightarrow> int (length d) \<le> limit \<Longrightarrow> state_map name limit (int_object d) = Inr d"
  using state_entries_int_object [of "[]" d name] by (simp add: state_map_def int_object_def)

lemma state_entries_ok:
  "state_entries name result d = Inr d' \<Longrightarrow> dict_ok result \<Longrightarrow>
     dict_ok d' \<and> length d' \<le> length result + length d"
proof (induction name result d rule: state_entries.induct)
  case (2 name result key item rest)
  then obtain i where i: "item = JInt i" "is_hex64 key" "in_range 0 max_int64 i"
    "state_entries name (AList.update key i result) rest = Inr d'"
    by (auto split: json.splits if_splits)
  have "dict_ok (AList.update key i result)" by (rule dict_ok_update [OF 2(3) i(2,3)])
  then have "dict_ok d' \<and> length d' \<le> length (AList.update key i result) + length rest"
    using 2(1) i by simp
  then show ?case by (auto simp: length_update split: if_splits)
qed simp

lemma state_map_ok: "state_map name limit v = Inr d \<Longrightarrow> dict_ok d \<and> int (length d) \<le> limit"
  by (auto simp: state_map_def split: json.splits if_splits dest: state_entries_ok)

lemma replay_parse_ok:
  assumes "replay_parse m n b = Inr (es, ss)"
  shows "dict_ok es \<and> int (length es) \<le> m \<and> dict_ok ss \<and> int (length ss) \<le> n"
  using assms
  by (auto simp: replay_parse_def split: sum.splits json_error.splits json.splits if_splits dest: state_map_ok)

lemma replay_parse_payload:
  assumes "dict_ok es" "dict_ok ss" "int (length es) \<le> m" "int (length ss) \<le> n"
  shows "replay_parse m n (replay_payload es ss) = Inr (sort_key fst es, sort_key fst ss)"
proof -
  let ?v = "JObj [(''entries'', int_object es), (''sequences'', int_object ss), (''version'', JInt 1)]"
  have "json_plain ?v" using assms by (simp add: int_object_plain)
  then have "json_loads default_hooks (replay_payload es ss) = Inr (json_sort ?v)"
    by (simp only: replay_payload_def default_json.loads_dumps json_plain_sort)
  then show ?thesis
    using assms by (simp add: replay_parse_def has_keys_def field_def json_eq_one_def int_object_sort
        state_map_int_object)
qed

section \<open>The invariant\<close>

text \<open>What the state file says, its size aside.\<close>

definition replay_disk :: "replay_cache \<Rightarrow> int_dict \<times> int_dict" where
  "replay_disk c =
     (case rc_file c of
        None \<Rightarrow> ([], [])
      | Some b \<Rightarrow> (case replay_parse (rc_max_entries c) (rc_max_sequences c) b of Inr x \<Rightarrow> x | Inl _ \<Rightarrow> ([], [])))"

definition replay_inv :: "replay_cache \<Rightarrow> bool" where
  "replay_inv c \<longleftrightarrow>
     rc_path c \<and> in_range 1 1000000 (rc_max_entries c) \<and> in_range 1 1000000 (rc_max_sequences c)
   \<and> dict_ok (rc_entries c) \<and> int (length (rc_entries c)) \<le> rc_max_entries c
   \<and> dict_ok (rc_sequences c) \<and> int (length (rc_sequences c)) \<le> rc_max_sequences c
   \<and> (\<forall>b. rc_file c = Some b \<longrightarrow> is_ok (replay_parse (rc_max_entries c) (rc_max_sequences c) b))"


lemma replay_open_inv:
  assumes "replay_open True m n content = Inr c"
  shows "replay_inv c"
proof -
  have limits: "in_range 1 1000000 m" "in_range 1 1000000 n"
    using assms by (auto simp: replay_open_def split: if_splits)
  show ?thesis
  proof (cases content)
    case None
    with assms limits show ?thesis by (auto simp: replay_open_def replay_inv_def in_range_def)
  next
    case (Some b)
    with assms limits obtain es ss where load: "replay_load m n b = Inr (es, ss)"
      and c: "c = \<lparr>rc_path = True, rc_max_entries = m, rc_max_sequences = n,
             rc_entries = es, rc_sequences = ss, rc_file = content\<rparr>"
      by (auto simp: replay_open_def split: if_splits)
    then have "replay_parse m n b = Inr (es, ss)" by (auto simp: replay_load_def split: if_splits)
    with replay_parse_ok [OF this] c limits Some show ?thesis by (simp add: replay_inv_def)
  qed
qed

text \<open>
  One call seen from outside: which entries survive it, how the sequences grow, and what it
  does to the disk.  \<open>replay_moves lim c c'\<close> bounds any call at a block up to \<open>lim\<close>.
\<close>

definition dict_le :: "int_dict \<Rightarrow> int_dict \<Rightarrow> bool" where
  "dict_le d d' \<longleftrightarrow> (\<forall>k i. map_of d k = Some i \<longrightarrow> (\<exists>j \<ge> i. map_of d' k = Some j))"

definition keeps_from :: "int \<Rightarrow> int_dict \<Rightarrow> int_dict \<Rightarrow> bool" where
  "keeps_from b d d' \<longleftrightarrow> (\<forall>k e. map_of d k = Some e \<and> b \<le> e \<longrightarrow> map_of d' k = Some e)"

definition replay_moves :: "int \<Rightarrow> replay_cache \<Rightarrow> replay_cache \<Rightarrow> bool" where
  "replay_moves b c c' \<longleftrightarrow>
     replay_inv c' \<and> rc_max_entries c' = rc_max_entries c \<and> rc_max_sequences c' = rc_max_sequences c
   \<and> keeps_from b (rc_entries c) (rc_entries c') \<and> dict_le (rc_sequences c) (rc_sequences c')
   \<and> (rc_file c' = rc_file c \<or> rc_file c' = Some (replay_payload (rc_entries c') (rc_sequences c')))"

lemma dict_le_refl [simp]: "dict_le d d"
  by (auto simp: dict_le_def)

lemma dict_le_update: "(\<forall>i. map_of d k = Some i \<longrightarrow> i \<le> n) \<Longrightarrow> dict_le d (AList.update k n d)"
  by (auto simp: dict_le_def update_conv')

lemma keeps_from_refl [simp]: "keeps_from b d d"
  by (auto simp: keeps_from_def)

lemma keeps_from_update: "keeps_from b d d' \<Longrightarrow> map_of d' k = None \<Longrightarrow> keeps_from b d (AList.update k n d')"
  by (fastforce simp: keeps_from_def update_conv')

lemma map_of_filter_value:
  "distinct (map fst d) \<Longrightarrow>
     map_of (filter (\<lambda>(k, e). P e) d) k = (case map_of d k of Some e \<Rightarrow> if P e then Some e else None | None \<Rightarrow> None)"
  by (induction d) (auto split: option.splits simp: image_iff dest: map_of_SomeD)

lemma keeps_from_filter:
  "dict_ok d \<Longrightarrow> keeps_from b d (filter (\<lambda>(k, e). b \<le> e) d)"
  by (auto simp: keeps_from_def dict_ok_def map_of_filter_value)

lemma replay_inv_file:
  "replay_inv c \<Longrightarrow> replay_inv (c\<lparr>rc_file := Some (replay_payload (rc_entries c) (rc_sequences c))\<rparr>)"
  by (simp add: replay_inv_def replay_parse_payload)

lemma replay_moves_refl: "replay_inv c \<Longrightarrow> replay_moves b c c"
  by (simp add: replay_moves_def)

definition replay_recorded :: "replay_cache \<Rightarrow> bool" where
  "replay_recorded c \<longleftrightarrow> rc_file c = Some (replay_payload (rc_entries c) (rc_sequences c))"

text \<open>
  The persist step of an operation on the purged cache \<open>c\<close> that has put its entries into
  memory (\<open>c1\<close>), with its undo.
\<close>

lemma replay_commit_moves:
  assumes "replay_inv c1" "rc_path c" "rc_file c1 = rc_file c"
    and "rc_max_entries c1 = rc_max_entries c" "rc_max_sequences c1 = rc_max_sequences c"
    and "keeps_from b (rc_entries c) (rc_entries c1)" "dict_le (rc_sequences c) (rc_sequences c1)"
    and "\<And>c'. rc_file c' = rc_file c \<Longrightarrow> c' = c1 \<Longrightarrow> replay_moves b c (undo c')"
    and "replay_try undo (replay_persist disk c1) = (c2, r)"
  shows "replay_moves b c c2 \<and> (r = Inr () \<longrightarrow> replay_recorded c2
     \<and> rc_entries c2 = rc_entries c1 \<and> rc_sequences c2 = rc_sequences c1)"
proof -
  have path: "rc_path c1" using assms(1) by (simp add: replay_inv_def)
  show ?thesis
  proof (cases disk)
    case Disk_Ok
    then have "c2 = c1\<lparr>rc_file := Some (replay_payload (rc_entries c1) (rc_sequences c1))\<rparr>"
      using assms(9) path by (simp add: replay_try_def replay_persist_def)
    then show ?thesis
      using assms(4-7) replay_inv_file [OF assms(1)] by (simp add: replay_moves_def replay_recorded_def)
  next
    case Mkdir_Fails
    then have "c2 = c1" "r \<noteq> Inr ()"
      using assms(9) path by (auto simp: replay_try_def replay_persist_def is_replay_error_def)
    then show ?thesis using assms(1-7) by (simp add: replay_moves_def)
  next
    case Write_Fails
    then have "c2 = undo c1" "r \<noteq> Inr ()"
      using assms(9) path by (auto simp: replay_try_def replay_persist_def is_replay_error_def)
    then show ?thesis using assms(3,8) by simp
  qed
qed

lemma replay_purge_simps [simp]:
  "rc_path (replay_purge b c) = rc_path c" "rc_file (replay_purge b c) = rc_file c"
  "rc_max_entries (replay_purge b c) = rc_max_entries c"
  "rc_max_sequences (replay_purge b c) = rc_max_sequences c"
  "rc_sequences (replay_purge b c) = rc_sequences c"
  by (simp_all add: replay_purge_def)

lemma replay_purge_inv: "replay_inv c \<Longrightarrow> replay_inv (replay_purge b c)"
  by (auto simp: replay_inv_def replay_purge_def dict_ok_filter intro: order_trans [of _ "int (length (rc_entries c))"])

lemma replay_purge_moves: "replay_inv c \<Longrightarrow> replay_moves b c (replay_purge b c)"
  by (simp add: replay_moves_def replay_purge_inv)
    (simp add: replay_purge_def keeps_from_filter replay_inv_def)

lemma replay_cache_key_hex: "replay_cache_key s t = Inr key \<Longrightarrow> is_hex64 key"
  by (auto simp: replay_cache_key_def Let_def split: if_splits)

lemma replay_purged_lookup:
  "replay_inv c \<Longrightarrow> map_of (rc_entries (replay_purge b c)) k =
     (case map_of (rc_entries c) k of Some e \<Rightarrow> if b \<le> e then Some e else None | None \<Rightarrow> None)"
  by (simp add: replay_purge_def replay_inv_def dict_ok_def map_of_filter_value)

text \<open>What an accepted token says of the cache before and after.\<close>

definition token_taken :: "int \<Rightarrow> int \<Rightarrow> string \<Rightarrow> string \<Rightarrow> replay_cache \<Rightarrow> replay_cache \<Rightarrow> bool" where
  "token_taken b e s t c c' \<longleftrightarrow>
     (\<exists>key. replay_cache_key s t = Inr key \<and> (\<forall>x. map_of (rc_entries c) key = Some x \<longrightarrow> x < b)
        \<and> map_of (rc_entries c') key = Some e \<and> b \<le> e) \<and> replay_recorded c'"

definition sequence_taken :: "string \<Rightarrow> int \<Rightarrow> replay_cache \<Rightarrow> replay_cache \<Rightarrow> bool" where
  "sequence_taken s n c c' \<longleftrightarrow>
     (\<exists>key. replay_cache_key ''sequence'' s = Inr key
        \<and> (\<forall>x. map_of (rc_sequences c) key = Some x \<longrightarrow> x < n)
        \<and> map_of (rc_sequences c') key = Some n) \<and> replay_recorded c'"

lemma replay_inv_update_entry:
  "replay_inv c \<Longrightarrow> is_hex64 key \<Longrightarrow> in_range 0 max_int64 e \<Longrightarrow> map_of (rc_entries c) key = None \<Longrightarrow>
     int (length (rc_entries c)) < rc_max_entries c \<Longrightarrow>
     replay_inv (c\<lparr>rc_entries := AList.update key e (rc_entries c)\<rparr>)"
  by (simp add: replay_inv_def dict_ok_update length_update)

lemma replay_inv_update_sequence:
  "replay_inv c \<Longrightarrow> is_hex64 key \<Longrightarrow> in_range 0 max_int64 n \<Longrightarrow>
     (map_of (rc_sequences c) key = None \<Longrightarrow> int (length (rc_sequences c)) < rc_max_sequences c) \<Longrightarrow>
     replay_inv (c\<lparr>rc_sequences := AList.update key n (rc_sequences c)\<rparr>)"
  by (auto simp: replay_inv_def dict_ok_update length_update map_of_eq_None_iff)

lemma replay_once_moves:
  assumes "replay_accept_once disk c s t b e = (c', r)" "replay_inv c"
  shows "replay_moves b c c' \<and> (r = Inr () \<longrightarrow> token_taken b e s t c c')"
proof -
  let ?p = "replay_purge b c"
  have inv: "replay_inv ?p" by (rule replay_purge_inv [OF assms(2)])
  consider (stay) "c' = c" "r \<noteq> Inr ()" | (purged) "c' = ?p" "r \<noteq> Inr ()"
    | (new) key where "replay_cache_key s t = Inr key" "map_of (rc_entries ?p) key = None"
      "int (length (rc_entries ?p)) < rc_max_entries ?p" "in_range 0 max_int64 e" "b \<le> e"
      "replay_try (\<lambda>c'. c'\<lparr>rc_entries := rc_entries ?p\<rparr>)
         (replay_persist disk (?p\<lparr>rc_entries := AList.update key e (rc_entries ?p)\<rparr>)) = (c', r)"
    using assms(1)
    by (auto simp: replay_accept_once_def replay_block_def Let_def bindE_Inl_iff
        split: sum.splits if_splits)
  then show ?thesis
  proof cases
    case stay
    then show ?thesis using assms(2) by (simp add: replay_moves_refl)
  next
    case purged
    then show ?thesis using replay_purge_moves [OF assms(2)] by simp
  next
    case (new key)
    let ?c1 = "?p\<lparr>rc_entries := AList.update key e (rc_entries ?p)\<rparr>"
    have inv1: "replay_inv ?c1"
      by (rule replay_inv_update_entry [OF inv replay_cache_key_hex [OF new(1)] new(4,2,3)])
    have keep: "keeps_from b (rc_entries c) (rc_entries ?c1)"
      using replay_purge_moves [OF assms(2), of b] new(2) by (simp add: replay_moves_def keeps_from_update)
    have "replay_moves b c c' \<and> (r = Inr () \<longrightarrow> replay_recorded c'
        \<and> rc_entries c' = rc_entries ?c1 \<and> rc_sequences c' = rc_sequences ?c1)"
      by (rule replay_commit_moves [OF inv1 _ _ _ _ keep _ _ new(6)])
        (use assms(2) replay_purge_moves [OF assms(2), of b] in \<open>simp_all add: replay_inv_def\<close>)
    moreover have "\<forall>x. map_of (rc_entries c) key = Some x \<longrightarrow> x < b"
      using new(2) by (auto simp: replay_purged_lookup [OF assms(2)] split: option.splits if_splits)
    ultimately show ?thesis using new(1,5) by (auto simp: token_taken_def update_conv')
  qed
qed

lemma replay_sequence_moves:
  assumes "replay_accept_sequence disk c s n = (c', r)" "replay_inv c"
  shows "replay_moves b c c' \<and> (r = Inr () \<longrightarrow> sequence_taken s n c c')"
proof -
  consider (stay) "c' = c" "r \<noteq> Inr ()"
    | (new) key where "replay_cache_key ''sequence'' s = Inr key" "in_range 0 max_int64 n"
      "\<forall>x. map_of (rc_sequences c) key = Some x \<longrightarrow> x < n"
      "map_of (rc_sequences c) key = None \<Longrightarrow> int (length (rc_sequences c)) < rc_max_sequences c"
      "replay_try (\<lambda>c'. c'\<lparr>rc_sequences := rc_sequences c\<rparr>)
         (replay_persist disk (c\<lparr>rc_sequences := AList.update key n (rc_sequences c)\<rparr>)) = (c', r)"
    using assms(1)
    by (fastforce simp: replay_accept_sequence_def replay_sequence_def Let_def
        split: sum.splits if_splits)
  then show ?thesis
  proof cases
    case stay
    then show ?thesis using assms(2) by (simp add: replay_moves_refl)
  next
    case (new key)
    let ?c1 = "c\<lparr>rc_sequences := AList.update key n (rc_sequences c)\<rparr>"
    have inv1: "replay_inv ?c1"
      by (rule replay_inv_update_sequence [OF assms(2) replay_cache_key_hex [OF new(1)] new(2,4)])
    have "dict_le (rc_sequences c) (rc_sequences ?c1)"
      using new(3) by (auto intro!: dict_le_update)
    then have "replay_moves b c c' \<and> (r = Inr () \<longrightarrow> replay_recorded c'
        \<and> rc_entries c' = rc_entries ?c1 \<and> rc_sequences c' = rc_sequences ?c1)"
      by (intro replay_commit_moves [OF inv1 _ _ _ _ _ _ _ new(5)])
        (use assms(2) in \<open>simp_all add: replay_inv_def replay_moves_def\<close>)
    then show ?thesis using new(1,3) by (auto simp: sequence_taken_def update_conv')
  qed
qed

lemma replay_cache_key_error: "replay_cache_key s t = Inl err \<Longrightarrow> is_replay_error err"
  by (auto simp: replay_cache_key_def Let_def is_replay_error_def split: if_splits)

lemma replay_both_cases:
  obtains (refused) err where "replay_both disk c s t b e ss n = (replay_purge b c, Inl err)" "is_replay_error err"
  | (persisted) key skey where "replay_cache_key s t = Inr key" "replay_cache_key ''sequence'' ss = Inr skey"
      "map_of (rc_entries (replay_purge b c)) key = None"
      "int (length (rc_entries (replay_purge b c))) < rc_max_entries (replay_purge b c)"
      "\<forall>x. map_of (rc_sequences c) skey = Some x \<longrightarrow> x < n"
      "map_of (rc_sequences c) skey = None \<Longrightarrow> int (length (rc_sequences c)) < rc_max_sequences c"
      "replay_both disk c s t b e ss n =
         replay_persist disk ((replay_purge b c)\<lparr>
              rc_entries := AList.update key e (rc_entries (replay_purge b c)),
              rc_sequences := AList.update skey n (rc_sequences (replay_purge b c))\<rparr>)"
proof (cases "bindE (replay_cache_key s t)
             (\<lambda>ek. bindE (replay_cache_key ''sequence'' ss) (\<lambda>sk. Inr (ek, sk)))")
  case (Inl err)
  then have "is_replay_error err" by (auto simp: bindE_Inl_iff dest: replay_cache_key_error)
  with Inl show thesis by (intro refused) (simp_all add: replay_both_def Let_def)
next
  case (Inr ks)
  then obtain key skey where ks: "ks = (key, skey)" "replay_cache_key s t = Inr key"
    "replay_cache_key ''sequence'' ss = Inr skey" by auto
  let ?p = "replay_purge b c"
  let ?previous = "map_of (rc_sequences c) skey"
  let ?A = "map_of (rc_entries ?p) key \<noteq> None" and ?B = "?previous \<noteq> None \<and> n \<le> the ?previous"
  let ?C = "rc_max_entries ?p \<le> int (length (rc_entries ?p))"
  let ?D = "?previous = None \<and> rc_max_sequences ?p \<le> int (length (rc_sequences ?p))"
  consider "?A" | "\<not> ?A" "?B" | "\<not> ?A" "\<not> ?B" "?C" | "\<not> ?A" "\<not> ?B" "\<not> ?C" "?D"
    | (ok) "\<not> ?A" "\<not> ?B" "\<not> ?C" "\<not> ?D"
    by blast
  then show thesis
  proof cases
    case ok
    with Inr ks show thesis
      by (intro persisted [of key skey]) (auto simp: replay_both_def Let_def)
  qed (use Inr ks in \<open>auto simp: replay_both_def Let_def is_replay_error_def intro!: refused\<close>)
qed

lemma replay_both_moves:
  assumes "replay_accept_both disk c s t b e ss n = (c', r)" "replay_inv c"
  shows "replay_moves b c c' \<and> (r = Inr () \<longrightarrow> token_taken b e s t c c' \<and> sequence_taken ss n c c')"
proof -
  let ?p = "replay_purge b c"
  let ?undo = "\<lambda>c'. c'\<lparr>rc_entries := rc_entries c, rc_sequences := rc_sequences c\<rparr>"
  have inv: "replay_inv ?p" by (rule replay_purge_inv [OF assms(2)])
  have restore: "?undo ?p = c" by (simp add: replay_purge_def)
  consider (stay) "c' = c" "r \<noteq> Inr ()"
    | (new) key skey where "replay_cache_key s t = Inr key" "replay_cache_key ''sequence'' ss = Inr skey"
      "map_of (rc_entries ?p) key = None"
      "int (length (rc_entries ?p)) < rc_max_entries ?p" "in_range 0 max_int64 e" "b \<le> e"
      "in_range 0 max_int64 n" "\<forall>x. map_of (rc_sequences c) skey = Some x \<longrightarrow> x < n"
      "map_of (rc_sequences c) skey = None \<Longrightarrow> int (length (rc_sequences c)) < rc_max_sequences c"
      "replay_try ?undo
         (replay_persist disk (?p\<lparr>rc_entries := AList.update key e (rc_entries ?p),
              rc_sequences := AList.update skey n (rc_sequences ?p)\<rparr>)) = (c', r)"
  proof (cases "bindE (replay_block ''current_block'' b)
             (\<lambda>_. bindE (replay_block ''expires_at_block'' e) (\<lambda>_. replay_sequence n)) = Inr () \<and> b \<le> e")
    case True
    then have body: "replay_try ?undo (replay_both disk c s t b e ss n) = (c', r)"
      and range: "in_range 0 max_int64 e" "in_range 0 max_int64 n" "b \<le> e"
      using assms(1) by (auto simp: replay_accept_both_def replay_block_def replay_sequence_def split: if_splits)
    show ?thesis
    proof (cases rule: replay_both_cases [of disk c s t b e ss n])
      case (refused err)
      then show ?thesis using body restore by (intro that(1)) (auto simp: replay_try_def)
    next
      case (persisted key skey)
      then show ?thesis using body range by (intro that(2) [of key skey]) simp_all
    qed
  next
    case False
    then have "c' = c \<and> r \<noteq> Inr ()"
      using assms(1)
      by (auto simp: replay_accept_both_def replay_block_def replay_sequence_def split: if_splits)
    then show ?thesis by (intro that(1)) simp_all
  qed
  then show ?thesis
  proof cases
    case stay
    then show ?thesis using assms(2) by (simp add: replay_moves_refl)
  next
    case (new key skey)
    let ?c0 = "?p\<lparr>rc_entries := AList.update key e (rc_entries ?p)\<rparr>"
    let ?c1 = "?p\<lparr>rc_entries := AList.update key e (rc_entries ?p),
              rc_sequences := AList.update skey n (rc_sequences ?p)\<rparr>"
    have "replay_inv ?c0"
      by (rule replay_inv_update_entry [OF inv replay_cache_key_hex [OF new(1)] new(5,3,4)])
    from replay_inv_update_sequence [OF this replay_cache_key_hex [OF new(2)] new(7)] new(9)
    have inv1: "replay_inv ?c1" by simp
    have keep: "keeps_from b (rc_entries c) (rc_entries ?c1)"
      using replay_purge_moves [OF assms(2), of b] new(3) by (simp add: replay_moves_def keeps_from_update)
    have le: "dict_le (rc_sequences c) (rc_sequences ?c1)"
      using new(8) by (auto intro!: dict_le_update)
    have "replay_moves b c c' \<and> (r = Inr () \<longrightarrow> replay_recorded c'
        \<and> rc_entries c' = rc_entries ?c1 \<and> rc_sequences c' = rc_sequences ?c1)"
      by (rule replay_commit_moves [OF inv1 _ _ _ _ keep le _ new(10)])
        (use assms(2) in \<open>simp_all add: replay_inv_def replay_moves_def\<close>)
    moreover have "\<forall>x. map_of (rc_entries c) key = Some x \<longrightarrow> x < b"
      using new(3) by (auto simp: replay_purged_lookup [OF assms(2)] split: option.splits if_splits)
    ultimately show ?thesis using new(1,2,6,8) by (auto simp: token_taken_def sequence_taken_def update_conv')
  qed
qed

section \<open>Runs\<close>

fun op_token :: "replay_op \<Rightarrow> (string \<times> string \<times> int \<times> int) option" where
  "op_token (Accept_Once disk s t b e) = Some (s, t, b, e)"
| "op_token (Accept_Both disk s t b e ss n) = Some (s, t, b, e)"
| "op_token _ = None"

fun op_sequence :: "replay_op \<Rightarrow> (string \<times> int) option" where
  "op_sequence (Accept_Sequence disk s n) = Some (s, n)"
| "op_sequence (Accept_Both disk s t b e ss n) = Some (ss, n)"
| "op_sequence _ = None"

text \<open>A call at block at most \<open>lim\<close>; the other calls have no block.\<close>

definition op_by :: "int \<Rightarrow> replay_op \<Rightarrow> bool" where
  "op_by limit x = (case op_token x of Some (s, t, b, e) \<Rightarrow> b \<le> limit | None \<Rightarrow> True)"

definition holds_from :: "int \<Rightarrow> string \<Rightarrow> int_dict \<Rightarrow> bool" where
  "holds_from e key d \<longleftrightarrow> (\<exists>x \<ge> e. map_of d key = Some x)"

text \<open>A value that both the memory and the state file have, and that a restart cannot lose.\<close>

definition entry_held :: "int \<Rightarrow> string \<Rightarrow> replay_cache \<Rightarrow> bool" where
  "entry_held e key c \<longleftrightarrow> holds_from e key (rc_entries c) \<and> holds_from e key (fst (replay_disk c))"

definition sequence_held :: "int \<Rightarrow> string \<Rightarrow> replay_cache \<Rightarrow> bool" where
  "sequence_held n key c \<longleftrightarrow> holds_from n key (rc_sequences c) \<and> holds_from n key (snd (replay_disk c))"

lemma replay_recorded_disk:
  assumes "replay_inv c" "replay_recorded c"
  shows "replay_disk c = (sort_key fst (rc_entries c), sort_key fst (rc_sequences c))"
  using assms by (simp add: replay_disk_def replay_recorded_def replay_inv_def replay_parse_payload)

lemma holds_from_sorted: "dict_ok d \<Longrightarrow> holds_from e key (sort_key fst d) \<longleftrightarrow> holds_from e key d"
  by (simp add: holds_from_def map_of_sorted)

lemma replay_recorded_held:
  assumes "replay_inv c" "replay_recorded c"
  shows "holds_from e key (rc_entries c) \<Longrightarrow> entry_held e key c"
    and "holds_from e key (rc_sequences c) \<Longrightarrow> sequence_held e key c"
  using assms by (simp_all add: entry_held_def sequence_held_def replay_recorded_disk holds_from_sorted
      replay_inv_def)

lemma replay_moves_held:
  assumes "replay_moves b c c'"
  shows "b \<le> e \<Longrightarrow> entry_held e key c \<Longrightarrow> entry_held e key c'"
    and "sequence_held n key c \<Longrightarrow> sequence_held n key c'"
proof -
  have same: "rc_file c' = rc_file c \<longrightarrow> replay_disk c' = replay_disk c" "replay_inv c'"
    "rc_file c' = rc_file c \<or> replay_recorded c'"
    using assms by (auto simp: replay_moves_def replay_disk_def replay_recorded_def cong: option.case_cong)
  show "entry_held e key c'" if "b \<le> e" "entry_held e key c"
  proof -
    have "holds_from e key (rc_entries c')"
      using that assms by (fastforce simp: entry_held_def holds_from_def replay_moves_def keeps_from_def)
    then show ?thesis using same that(2) replay_recorded_held(1) by (auto simp: entry_held_def)
  qed
  show "sequence_held n key c'" if "sequence_held n key c"
  proof -
    have "holds_from n key (rc_sequences c')"
      using that assms by (fastforce simp: sequence_held_def holds_from_def replay_moves_def dict_le_def)
    then show ?thesis using same that replay_recorded_held(2) by (auto simp: sequence_held_def)
  qed
qed

lemma replay_reopen:
  assumes "replay_inv c"
  shows "replay_inv (fst (replay_step c Reopen))"
    and "entry_held e key c \<Longrightarrow> entry_held e key (fst (replay_step c Reopen))"
    and "sequence_held n key c \<Longrightarrow> sequence_held n key (fst (replay_step c Reopen))"
proof -
  have path: "rc_path c" using assms by (simp add: replay_inv_def)
  have "replay_inv c' \<and> rc_entries c' = fst (replay_disk c) \<and> rc_sequences c' = snd (replay_disk c)
      \<and> replay_disk c' = replay_disk c"
    if "replay_open (rc_path c) (rc_max_entries c) (rc_max_sequences c) (rc_file c) = Inr c'" for c'
    using replay_open_inv [of "rc_max_entries c" "rc_max_sequences c" "rc_file c" c'] that path
    by (auto simp: replay_open_def replay_load_def replay_disk_def split: option.splits if_splits)
  then have "fst (replay_step c Reopen) = c \<or>
     (let c' = fst (replay_step c Reopen) in replay_inv c' \<and> rc_entries c' = fst (replay_disk c)
        \<and> rc_sequences c' = snd (replay_disk c) \<and> replay_disk c' = replay_disk c)"
    by (auto split: sum.splits)
  then show "replay_inv (fst (replay_step c Reopen))"
    and "entry_held e key c \<Longrightarrow> entry_held e key (fst (replay_step c Reopen))"
    and "sequence_held n key c \<Longrightarrow> sequence_held n key (fst (replay_step c Reopen))"
    using assms by (auto simp: Let_def entry_held_def sequence_held_def)
qed

declare replay_step.simps(4) [simp del]

lemma replay_step_moves:
  assumes "replay_inv c"
  obtains "x = Reopen" | b where "replay_moves b c (fst (replay_step c x))"
    "case op_token x of Some (s, t, b', e) \<Rightarrow> b' = b | None \<Rightarrow> True"
proof (cases x)
  case (Accept_Once disk s t b e)
  then show thesis using replay_once_moves [OF prod.collapse [symmetric] assms] by (intro that(2) [of b]) auto
next
  case (Accept_Sequence disk s n)
  then show thesis using replay_sequence_moves [OF prod.collapse [symmetric] assms] by (intro that(2)) auto
next
  case (Accept_Both disk s t b e ss n)
  then show thesis using replay_both_moves [OF prod.collapse [symmetric] assms] by (intro that(2) [of b]) auto
qed

lemma replay_sequence_call_moves:
  assumes "replay_inv c" "op_token x = None" "x \<noteq> Reopen"
  shows "replay_moves b c (fst (replay_step c x))"
  using assms replay_sequence_moves [OF prod.collapse [symmetric] assms(1)] by (cases x) auto

lemma replay_step_inv: "replay_inv c \<Longrightarrow> replay_inv (fst (replay_step c x))"
  by (cases rule: replay_step_moves [of c x]) (auto simp: replay_moves_def replay_reopen(1))

lemma replay_step_entry_held:
  assumes "replay_inv c" "entry_held e key c" "op_by e x"
  shows "entry_held e key (fst (replay_step c x))"
proof (cases "op_token x")
  case None
  then show ?thesis
    using assms replay_sequence_call_moves [of c x e]
    by (cases "x = Reopen") (auto intro: replay_moves_held(1) replay_reopen(2))
next
  case (Some o)
  show ?thesis
    using assms(1)
    by (cases rule: replay_step_moves [of c x])
      (use assms Some in \<open>auto simp: op_by_def intro: replay_moves_held(1)\<close>)
qed

lemma replay_step_sequence_held:
  assumes "replay_inv c" "sequence_held n key c"
  shows "sequence_held n key (fst (replay_step c x))"
  using assms(1)
  by (cases rule: replay_step_moves [of c x]) (use assms in \<open>auto intro: replay_moves_held replay_reopen(3)\<close>)

interpretation replay_machine: machine replay_step replay_inv
  by unfold_locales (rule replay_step_inv)

text \<open>Acceptance of a token, and of a sequence number.\<close>

lemma replay_step_accepts:
  assumes "replay_inv c" "snd (replay_step c x) = Inr ()"
  shows "op_token x = Some (s, t, b, e) \<Longrightarrow> token_taken b e s t c (fst (replay_step c x))"
    and "op_sequence x = Some (ss, n) \<Longrightarrow> sequence_taken ss n c (fst (replay_step c x))"
proof -
  show "token_taken b e s t c (fst (replay_step c x))" if "op_token x = Some (s, t, b, e)"
    using that assms replay_once_moves [OF prod.collapse [symmetric] assms(1)]
      replay_both_moves [OF prod.collapse [symmetric] assms(1)]
    by (cases x) auto
  show "sequence_taken ss n c (fst (replay_step c x))" if "op_sequence x = Some (ss, n)"
    using that assms replay_sequence_moves [OF prod.collapse [symmetric] assms(1)]
      replay_both_moves [OF prod.collapse [symmetric] assms(1)]
    by (cases x) auto
qed

lemma token_held_after:
  assumes "replay_inv c" "snd (replay_step c x) = Inr ()" "op_token x = Some (s, t, b, e)"
  obtains key where "replay_cache_key s t = Inr key" "entry_held e key (fst (replay_step c x))"
    "\<forall>y. map_of (rc_entries c) key = Some y \<longrightarrow> y < b" "b \<le> e"
proof -
  obtain key where key: "replay_cache_key s t = Inr key" "b \<le> e"
    "\<forall>y. map_of (rc_entries c) key = Some y \<longrightarrow> y < b"
    "map_of (rc_entries (fst (replay_step c x))) key = Some e" "replay_recorded (fst (replay_step c x))"
    using replay_step_accepts(1) [OF assms] by (auto simp: token_taken_def)
  then have "entry_held e key (fst (replay_step c x))"
    by (intro replay_recorded_held(1) replay_step_inv assms(1)) (auto simp: holds_from_def)
  with key that show thesis by blast
qed

lemma sequence_held_after:
  assumes "replay_inv c" "snd (replay_step c x) = Inr ()" "op_sequence x = Some (s, n)"
  obtains key where "replay_cache_key ''sequence'' s = Inr key" "sequence_held n key (fst (replay_step c x))"
    "\<forall>y. map_of (rc_sequences c) key = Some y \<longrightarrow> y < n"
proof -
  obtain key where key: "replay_cache_key ''sequence'' s = Inr key"
    "\<forall>y. map_of (rc_sequences c) key = Some y \<longrightarrow> y < n"
    "map_of (rc_sequences (fst (replay_step c x))) key = Some n" "replay_recorded (fst (replay_step c x))"
    using replay_step_accepts(2) [OF assms] by (auto simp: sequence_taken_def)
  then have "sequence_held n key (fst (replay_step c x))"
    by (intro replay_recorded_held(2) replay_step_inv assms(1)) (auto simp: holds_from_def)
  with key that show thesis by blast
qed

lemma run_entry_held:
  "replay_inv c \<Longrightarrow> entry_held e key c \<Longrightarrow> \<forall>y \<in> set calls. op_by e y \<Longrightarrow>
     entry_held e key (run replay_step c calls)"
  by (induction calls arbitrary: c) (auto intro: replay_step_inv replay_step_entry_held)

text \<open>The sequence numbers a run accepts for one scope, in order.\<close>

fun accepted_sequences :: "string \<Rightarrow> replay_cache \<Rightarrow> replay_op list \<Rightarrow> int list" where
  "accepted_sequences s c [] = []"
| "accepted_sequences s c (x # xs) =
     (case op_sequence x of
        Some (s', n) \<Rightarrow> if s' = s \<and> snd (replay_step c x) = Inr () then [n] else []
      | None \<Rightarrow> []) @ accepted_sequences s (fst (replay_step c x)) xs"

lemma accepted_sequences_above:
  assumes "replay_cache_key ''sequence'' s = Inr key"
  shows "replay_inv c \<Longrightarrow> sequence_held n key c \<Longrightarrow> m \<in> set (accepted_sequences s c xs) \<Longrightarrow> n < m"
proof (induction xs arbitrary: c)
  case (Cons x xs)
  show ?case
  proof (cases "m \<in> set (accepted_sequences s (fst (replay_step c x)) xs)")
    case True
    then show ?thesis
      by (intro Cons.IH [OF replay_step_inv [OF Cons.prems(1)] replay_step_sequence_held [OF Cons.prems(1,2)]])
  next
    case False
    then have x: "op_sequence x = Some (s, m)" "snd (replay_step c x) = Inr ()"
      using Cons.prems(3) by (auto split: option.splits if_splits)
    from Cons.prems(1) x(2,1) show ?thesis
      by (rule sequence_held_after)
        (use assms Cons.prems(2) in \<open>auto simp: sequence_held_def holds_from_def\<close>)
  qed
qed simp

lemma accepted_sequences_sorted: "replay_inv c \<Longrightarrow> sorted_wrt (<) (accepted_sequences s c xs)"
proof (induction xs arbitrary: c)
  case (Cons x xs)
  have rest: "sorted_wrt (<) (accepted_sequences s (fst (replay_step c x)) xs)"
    by (rule Cons.IH [OF replay_step_inv [OF Cons.prems]])
  show ?case
  proof (cases "\<exists>n. op_sequence x = Some (s, n) \<and> snd (replay_step c x) = Inr ()")
    case True
    then obtain n where x: "op_sequence x = Some (s, n)" "snd (replay_step c x) = Inr ()" by blast
    obtain key where "replay_cache_key ''sequence'' s = Inr key"
      "sequence_held n key (fst (replay_step c x))"
      by (rule sequence_held_after [OF Cons.prems x(2,1)])
    then have "\<forall>m \<in> set (accepted_sequences s (fst (replay_step c x)) xs). n < m"
      using accepted_sequences_above replay_step_inv [OF Cons.prems] by blast
    with rest x show ?thesis by simp
  next
    case False
    with rest show ?thesis by (auto split: option.splits)
  qed
qed simp

section \<open>Properties\<close>

text \<open>
  A token is not accepted twice while it lives.  Once a call has accepted a token until
  block \<open>e\<close>, no later call at a block up to \<open>e\<close> accepts it again, whatever calls, failed
  writes and restarts lie between, as long as none of them purges beyond \<open>e\<close>.
\<close>

theorem replay_token_accepted_once:
  assumes "replay_open True m n content = Inr c0" and "c = run replay_step c0 before"
    and "op_token x = Some (s, t, b, e)" and "snd (replay_step c x) = Inr ()"
    and "\<forall>y \<in> set calls. op_by e y"
    and "op_token z = Some (s, t, b', e')" and "b' \<le> e"
  shows "snd (replay_step (run replay_step (fst (replay_step c x)) calls) z) \<noteq> Inr ()"
proof
  have inv: "replay_inv c"
    unfolding assms(2) by (rule replay_machine.run_inv [OF replay_open_inv [OF assms(1)]])
  let ?c1 = "run replay_step (fst (replay_step c x)) calls"
  have inv1: "replay_inv ?c1" by (rule replay_machine.run_inv [OF replay_step_inv [OF inv]])
  obtain key where key: "replay_cache_key s t = Inr key" "entry_held e key (fst (replay_step c x))"
    by (rule token_held_after [OF inv assms(4,3)])
  have held: "entry_held e key ?c1"
    by (rule run_entry_held [OF replay_step_inv [OF inv] key(2) assms(5)])
  assume "snd (replay_step ?c1 z) = Inr ()"
  from inv1 this assms(6) show False
    by (rule token_held_after) (use key(1) held assms(7) in \<open>auto simp: entry_held_def holds_from_def\<close>)
qed

text \<open>
  C27: over any calls, failed writes and restarts included, the sequence numbers accepted for
  one scope are strictly increasing.
\<close>

theorem replay_sequences_increase:
  assumes "replay_open True m n content = Inr c"
  shows "sorted_wrt (<) (accepted_sequences s c calls)"
  by (rule accepted_sequences_sorted [OF replay_open_inv [OF assms]])


definition sample_cache :: replay_cache where
  "sample_cache = \<lparr>rc_path = True, rc_max_entries = 5, rc_max_sequences = 5, rc_entries = [],
     rc_sequences = [], rc_file = None\<rparr>"

definition sample_accept :: "disk \<Rightarrow> int \<Rightarrow> replay_op" where
  "sample_accept disk b = Accept_Both disk ''miner'' ''token'' b 50 ''miner'' 7"

lemma sample_cache_open: "replay_open True 5 5 None = Inr sample_cache"
  by (simp add: replay_open_def in_range_def sample_cache_def)

lemma sample_key:
  "replay_cache_key ''miner'' ''token'' = Inr (to_hex (sha256 (replay_key_bytes ''miner'' ''token'')))"
  "replay_cache_key ''sequence'' ''miner'' = Inr (to_hex (sha256 (replay_key_bytes ''sequence'' ''miner'')))"
  by (simp_all add: replay_cache_key_def is_ascii_def)

lemma sample_accepted: "snd (replay_step sample_cache (sample_accept Disk_Ok 10)) = Inr ()"
  by (simp add: sample_accept_def replay_accept_both_def replay_block_def replay_sequence_def in_range_def
      replay_both_def sample_key Let_def replay_purge_def sample_cache_def replay_try_def replay_persist_def)

theorem replay_token_accepted_once_witness:
  "snd (replay_step (run replay_step (fst (replay_step sample_cache (sample_accept Disk_Ok 10)))
       [Accept_Sequence Write_Fails ''miner'' 9, Reopen, sample_accept Mkdir_Fails 20]) (sample_accept Disk_Ok 50))
     \<noteq> Inr ()"
proof -
  have run: "sample_cache = run replay_step sample_cache []" by simp
  have tok: "op_token (sample_accept d b) = Some (''miner'', ''token'', b, 50)" for d b
    by (simp add: sample_accept_def)
  show ?thesis
    by (rule replay_token_accepted_once [OF sample_cache_open run tok sample_accepted _ tok])
      (simp_all add: op_by_def tok)
qed

theorem replay_sequences_increase_witness:
  "sorted_wrt (<) (accepted_sequences ''miner'' sample_cache
     [sample_accept Disk_Ok 10, Accept_Sequence Disk_Ok ''miner'' 7, Accept_Sequence Disk_Ok ''miner'' 8])"
  by (rule replay_sequences_increase [OF sample_cache_open])

text \<open>
  C28: accepting a token with its sequence number is atomic.  Acceptance records both, in
  memory and on disk; every \<open>ReplayProtectionError\<close> leaves the cache exactly as it was.  Only
  the \<open>OSError\<close> of a state directory that cannot be created escapes with both in memory.
\<close>

lemma replay_try_restores:
  assumes "replay_try undo (c1, r) = (c', Inl err)"
  shows "r = Inl err \<and> (if is_replay_error err then c' = undo c1 else c' = c1)"
  using assms by (auto simp: replay_try_def split: sum.splits if_splits)

theorem replay_both_atomic:
  assumes "replay_inv c" and "replay_accept_both disk c s t b e ss n = (c', r)"
  shows "(r = Inr () \<longrightarrow> token_taken b e s t c c' \<and> sequence_taken ss n c c')
     \<and> (\<forall>err. r = Inl err \<longrightarrow> (if is_replay_error err then c' = c
           else disk = Mkdir_Fails \<and> rc_file c' = rc_file c))"
proof -
  let ?undo = "\<lambda>c'. c'\<lparr>rc_entries := rc_entries c, rc_sequences := rc_sequences c\<rparr>"
  have "(if is_replay_error err then c' = c else disk = Mkdir_Fails \<and> rc_file c' = rc_file c)"
    if err: "r = Inl err" for err
  proof (cases "bindE (replay_block ''current_block'' b)
             (\<lambda>_. bindE (replay_block ''expires_at_block'' e) (\<lambda>_. replay_sequence n)) = Inr () \<and> b \<le> e")
    case False
    then have "c' = c \<and> is_replay_error err"
      using assms(2) err
      by (auto simp: replay_accept_both_def replay_block_def replay_sequence_def is_replay_error_def
          split: if_splits)
    then show ?thesis by simp
  next
    case True
    then have body: "replay_try ?undo (replay_both disk c s t b e ss n) = (c', Inl err)"
      using assms(2) err
      by (auto simp: replay_accept_both_def replay_block_def replay_sequence_def split: if_splits)
    show ?thesis
    proof (cases rule: replay_both_cases [of disk c s t b e ss n])
      case (refused e0)
      with replay_try_restores [OF body [unfolded refused(1)]] show ?thesis
        by (simp add: replay_purge_def)
    next
      case (persisted key skey)
      have "rc_path c" using assms(1) by (simp add: replay_inv_def)
      with body [unfolded persisted(7)] show ?thesis
        by (cases disk) (auto simp: replay_persist_def replay_try_def is_replay_error_def replay_purge_def)
    qed
  qed
  then show ?thesis using replay_both_moves [OF assms(2,1)] by blast
qed

theorem replay_both_atomic_witness:
  "replay_accept_both Write_Fails sample_cache ''miner'' ''token'' 10 50 ''miner'' 7
     = (sample_cache, Inl Replay_Not_Persisted)"
proof -
  obtain c' r where call: "replay_accept_both Write_Fails sample_cache ''miner'' ''token'' 10 50 ''miner'' 7 = (c', r)"
    by (cases "replay_accept_both Write_Fails sample_cache ''miner'' ''token'' 10 50 ''miner'' 7")
  then have "r = Inl Replay_Not_Persisted"
    by (simp add: replay_accept_both_def replay_block_def replay_sequence_def in_range_def
      replay_both_def sample_key Let_def replay_purge_def sample_cache_def replay_try_def replay_persist_def
      is_replay_error_def)
  with call replay_both_atomic [OF replay_open_inv [OF sample_cache_open] call] show ?thesis
    by (simp add: is_replay_error_def)
qed

definition key_text_ok :: "string \<Rightarrow> bool" where
  "key_text_ok s \<longleftrightarrow> 1 \<le> length (utf8_encode s) \<and> length (utf8_encode s) \<le> 512"

definition active_entries :: "int \<Rightarrow> int_dict \<Rightarrow> int_dict" where
  "active_entries b d = filter (\<lambda>(k, e). b \<le> e) d"

text \<open>
  Exactly when a token and its sequence number are accepted, on a disk that works: the
  arguments are in range, the token has not expired and is not held by an entry that is still
  active, the sequence number grows, and neither collection is full.
\<close>

theorem replay_both_accepts_iff:
  assumes "replay_inv c"
  shows "snd (replay_accept_both Disk_Ok c s t b e ss n) = Inr () \<longleftrightarrow>
     in_range 0 max_int64 b \<and> in_range 0 max_int64 e \<and> in_range 0 max_int64 n \<and> b \<le> e
   \<and> key_text_ok s \<and> key_text_ok t \<and> key_text_ok ss
   \<and> (\<forall>x. map_of (rc_entries c) (to_hex (sha256 (replay_key_bytes s t))) = Some x \<longrightarrow> x < b)
   \<and> int (length (active_entries b (rc_entries c))) < rc_max_entries c
   \<and> (case map_of (rc_sequences c) (to_hex (sha256 (replay_key_bytes ''sequence'' ss))) of
        Some prev \<Rightarrow> prev < n
      | None \<Rightarrow> int (length (rc_sequences c)) < rc_max_sequences c)"
proof -
  have seq: "key_text_ok ''sequence''" by (simp add: key_text_ok_def is_ascii_def)
  have key: "replay_cache_key u v = (if key_text_ok u \<and> key_text_ok v
      then Inr (to_hex (sha256 (replay_key_bytes u v))) else Inl Replay_Key_Size)" for u v
    by (auto simp: replay_cache_key_def key_text_ok_def Let_def)
  have path: "rc_path c" using assms by (simp add: replay_inv_def)
  have active: "rc_entries (replay_purge b c) = active_entries b (rc_entries c)"
    by (simp add: replay_purge_def active_entries_def)
  show ?thesis
    using path seq replay_purged_lookup [OF assms, of b]
    by (auto simp: replay_accept_both_def replay_block_def replay_sequence_def replay_both_def key Let_def
        active replay_try_def replay_persist_def split: option.splits if_splits)
qed

theorem replay_both_accepts_iff_witness:
  "snd (replay_accept_both Disk_Ok sample_cache ''miner'' ''token'' 10 50 ''miner'' 7) = Inr ()"
  by (subst replay_both_accepts_iff [OF replay_open_inv [OF sample_cache_open]])
    (simp add: sample_cache_def in_range_def key_text_ok_def active_entries_def is_ascii_def)

text \<open>
  Different tokens do not share an entry.  Two pairs of texts whose scope has no NUL
  character and that have the same cache key are the same pair, or their encodings are an
  explicit SHA-256 collision.
\<close>

lemma append_zero_cancel:
  fixes xs ys us vs :: bytes
  shows "0 \<notin> set xs \<Longrightarrow> 0 \<notin> set ys \<Longrightarrow> xs @ 0 # us = ys @ 0 # vs \<Longrightarrow> xs = ys \<and> us = vs"
proof (induction xs arbitrary: ys)
  case Nil
  then show ?case by (cases ys) auto
next
  case (Cons x xs)
  then show ?case by (cases ys) auto
qed

lemma byte_of_nat_nonzero: "0 < n \<Longrightarrow> n < 256 \<Longrightarrow> (word_of_nat n :: byte) \<noteq> 0"
  by (metis less_irrefl unat_0 unat_byte)

lemma utf8_char_no_zero:
  assumes "c \<noteq> CHR 0x00"
  shows "0 \<notin> set (utf8_char c)"
proof -
  define n where "n = (of_char c :: nat)"
  have "char_of (0 :: nat) = CHR 0x00" by code_simp
  then have "n \<noteq> 0"
    using assms unfolding n_def by (metis char_of_char)
  then have "0 < n" by simp
  moreover have "n < 256" using of_char_less_256 [of c] by (simp add: n_def)
  ultimately have n: "0 < n" "192 + n div 64 < 256" "128 + n mod 64 < 256" "n < 256" by simp_all
  have "(word_of_nat n :: byte) \<noteq> 0" "(word_of_nat (192 + n div 64) :: byte) \<noteq> 0"
    "(word_of_nat (128 + n mod 64) :: byte) \<noteq> 0"
    by (rule byte_of_nat_nonzero; use n in simp)+
  then show ?thesis
    unfolding utf8_char_def n_def [symmetric] Let_def by (cases "n < 128") (auto simp del: of_nat_add)
qed

lemma utf8_encode_no_zero: "CHR 0x00 \<notin> set s \<Longrightarrow> 0 \<notin> set (utf8_encode s)"
  by (induction s) (auto simp: utf8_encode_def utf8_char_no_zero)

theorem replay_keys_distinct:
  assumes "replay_cache_key s t = Inr key" and "replay_cache_key s' t' = Inr key"
    and "CHR 0x00 \<notin> set s" "CHR 0x00 \<notin> set s'"
  shows "s = s' \<and> t = t' \<or> collide (replay_key_bytes s t) (replay_key_bytes s' t')"
proof -
  have "sha256 (replay_key_bytes s t) = sha256 (replay_key_bytes s' t')"
    using assms(1,2) by (auto simp: replay_cache_key_def Let_def split: if_splits)
  then have "replay_key_bytes s t = replay_key_bytes s' t' \<or> collide (replay_key_bytes s t) (replay_key_bytes s' t')"
    by (rule sha256_eqD)
  moreover have "s = s' \<and> t = t'" if "replay_key_bytes s t = replay_key_bytes s' t'"
    using that append_zero_cancel [OF utf8_encode_no_zero [OF assms(3)] utf8_encode_no_zero [OF assms(4)],
        of "utf8_encode t" "utf8_encode t'"]
    by (simp add: replay_key_bytes_def)
  ultimately show ?thesis by blast
qed

theorem replay_keys_distinct_witness:
  "\<exists>key. replay_cache_key ''miner'' ''token'' = Inr key \<and>
     (''miner'' = ''miner'' \<and> ''token'' = ''token''
      \<or> collide (replay_key_bytes ''miner'' ''token'') (replay_key_bytes ''miner'' ''token''))"
  using replay_keys_distinct [OF sample_key(1) sample_key(1)] sample_key(1) by simp

text \<open>
  The cache writes state files that it refuses to read: \<open>_persist\<close> does not check the size
  limit of \<open>_load\<close>, and a permitted \<open>max_entries\<close> leaves room for it.
\<close>

lemma length_json_members: "(\<Sum>kv \<leftarrow> kvs. length (fst kv)) \<le> length (json_members a kvs)"
proof (induction kvs rule: induct_list012)
  case (2 kv)
  then show ?case using length_quote_text [of "fst kv" a] by (cases kv) simp
next
  case (3 x y zs)
  then show ?case using length_quote_text [of "fst x" a] by (cases x; cases y) simp
qed simp

lemma length_replay_payload: "(\<Sum>kv \<leftarrow> es. length (fst kv)) \<le> length (replay_payload es ss)"
proof -
  have "(\<Sum>kv \<leftarrow> es. length (fst kv)) = (\<Sum>kv \<leftarrow> map (map_prod id JInt) (sort_key fst es). length (fst kv))"
  proof -
    have "mset (map (length \<circ> fst) (sort_key fst es)) = mset (map (length \<circ> fst) es)" by simp
    then have "sum_list (map (length \<circ> fst) (sort_key fst es)) = sum_list (map (length \<circ> fst) es)"
      by (metis sum_mset_sum_list)
    then show ?thesis by (simp add: comp_def)
  qed
  also have "\<dots> \<le> length (json_members True (map (map_prod id JInt) (sort_key fst es)))"
    by (rule length_json_members)
  also have "\<dots> \<le> length (json_text True (int_object (sort_key fst es)))"
    by (simp add: int_object_def)
  also have "\<dots> \<le> length (replay_payload es ss)"
    unfolding replay_payload_def json_dumps_def
    by (rule order_trans [OF _ length_utf8_encode_ge]) (simp add: int_object_sort)
  finally show ?thesis .
qed

definition crowded_entries :: "nat \<Rightarrow> int_dict" where
  "crowded_entries n = map (\<lambda>i. (to_hex (be_bytes 32 i), 0)) [0..<n]"

lemma crowded_entries_ok:
  assumes "n \<le> 256 ^ 32"
  shows "dict_ok (crowded_entries n)"
proof -
  have "inj_on (\<lambda>i. to_hex (be_bytes 32 i)) {0..<n}"
    using assms by (intro inj_onI) (auto simp: be_bytes_inject)
  then show ?thesis
    by (auto simp: dict_ok_def crowded_entries_def distinct_map comp_def is_hex64_def match_class_def
        to_hex_lower in_range_def)
qed

lemma length_crowded: "length (crowded_entries n) = n" "(\<Sum>kv \<leftarrow> crowded_entries n. length (fst kv)) = 64 * n"
  by (simp_all add: crowded_entries_def comp_def sum_list_triv)

theorem replay_state_outgrows_limit:
  "\<exists>c c'. replay_inv c \<and> replay_step c (Accept_Sequence Disk_Ok ''miner'' 1) = (c', Inr ())
     \<and> snd (replay_step c' Reopen) = Inl Replay_State_Too_Large"
proof -
  define c where "c = \<lparr>rc_path = True, rc_max_entries = 100000, rc_max_sequences = 5,
    rc_entries = crowded_entries 70000, rc_sequences = [], rc_file = None\<rparr>"
  define key where "key = to_hex (sha256 (replay_key_bytes ''sequence'' ''miner''))"
  define c' where "c' = c\<lparr>rc_sequences := [(key, 1)], rc_file := Some (replay_payload (crowded_entries 70000) [(key, 1)])\<rparr>"
  have "replay_inv c"
    using crowded_entries_ok [of 70000] by (simp add: replay_inv_def c_def in_range_def length_crowded)
  moreover have "replay_step c (Accept_Sequence Disk_Ok ''miner'' 1) = (c', Inr ())"
    by (simp add: replay_accept_sequence_def replay_sequence_def in_range_def sample_key replay_try_def
        replay_persist_def c_def c'_def key_def)
  moreover have "4194304 < int (length (replay_payload (crowded_entries 70000) [(key, 1)]))"
    using length_replay_payload [of "crowded_entries 70000" "[(key, 1)]"] by (simp add: length_crowded)
  then have "snd (replay_step c' Reopen) = Inl Replay_State_Too_Large"
    by (simp add: replay_step.simps(4) replay_open_def replay_load_def c'_def c_def in_range_def)
  ultimately show ?thesis by blast
qed

end
