(* ===== verification/Identity.thy ===== *)
theory Identity
  imports Protocol Replay
begin

text \<open>
  \<open>src/gpuforge/identity.py\<close>: signing and authenticating messages.  The Bittensor keypair is
  not part of the program: it is a record of functions, \<open>None\<close> standing for an exception, and
  a verifier is a function.  \<open>authenticate\<close> is \<open>MessageAuthenticator.authenticate\<close>; the
  authenticator's state is its replay cache, and \<open>auth_step\<close> is the machine of its calls.
\<close>

section \<open>Signing\<close>

datatype auth_error =
    Address_Unavailable
  | Signing_Failed
  | Adapter_Bad_Signature
  | Signer_Mismatch
  | Signer_Bad_Signature
  | Signature_Not_Hex
  | Signature_Invalid
  | Auth_Block_Range
  | Freshness_Policy
  | Manifest_Expired
  | Lease_Not_Active
  | Lease_Expired
  | Too_Far_In_Future
  | Message_Stale
  | Auth_Encoding protocol_error
  | Auth_Replay replay_error

record keypair =
  kp_address :: "string option"
  kp_sign :: "bytes \<Rightarrow> bytes option"
  kp_verify :: "bytes \<Rightarrow> bytes \<Rightarrow> bool option"

definition signature_bytes :: nat where
  "signature_bytes = 64"

definition adapter_hotkey :: "keypair \<Rightarrow> auth_error + string" where
  "adapter_hotkey k = (case kp_address k of None \<Rightarrow> Inl Address_Unavailable | Some a \<Rightarrow> Inr a)"

definition adapter_sign :: "keypair \<Rightarrow> bytes \<Rightarrow> auth_error + bytes" where
  "adapter_sign k payload =
     (case kp_sign k payload of
        None \<Rightarrow> Inl Signing_Failed
      | Some s \<Rightarrow> if length s \<noteq> signature_bytes then Inl Adapter_Bad_Signature else Inr s)"

definition adapter_verify :: "keypair \<Rightarrow> string \<Rightarrow> bytes \<Rightarrow> bytes \<Rightarrow> auth_error + bool" where
  "adapter_verify k hotkey payload signature =
     bindE (adapter_hotkey k) (\<lambda>own.
       if hotkey \<noteq> own \<or> length signature \<noteq> signature_bytes then Inr False
       else Inr (case kp_verify k payload signature of None \<Rightarrow> False | Some b \<Rightarrow> b))"

fun signer_hotkey :: "message \<Rightarrow> string" where
  "signer_hotkey (Job_Manifest m) = jm_publisher_hotkey m"
| "signer_hotkey (Capability_Claim m) = cc_miner_hotkey m"
| "signer_hotkey (Execution_Evidence m) = ee_miner_hotkey m"
| "signer_hotkey (Work_Lease m) = wl_validator_hotkey m"
| "signer_hotkey (Validation_Receipt m) = vr_validator_hotkey m"

text \<open>\<open>sign_message\<close> with a keypair adapter as the signer.\<close>

definition sign_message :: "message \<Rightarrow> keypair \<Rightarrow> auth_error + message" where
  "sign_message m k =
     bindE (adapter_hotkey k) (\<lambda>own.
       if own \<noteq> signer_hotkey m then Inl Signer_Mismatch
       else
         bindE (map_error Auth_Encoding (signing_bytes m)) (\<lambda>payload.
         bindE (adapter_sign k payload) (\<lambda>s.
           if length s \<noteq> signature_bytes then Inl Signer_Bad_Signature
           else map_error Auth_Encoding (message_new (with_signature (to_hex s) m)))))"

type_synonym verifier = "string \<Rightarrow> bytes \<Rightarrow> bytes \<Rightarrow> auth_error + bool"

definition verify_message_signature :: "message \<Rightarrow> verifier \<Rightarrow> auth_error + unit" where
  "verify_message_signature m verifier =
     (case from_hex (message_signature m) of
        None \<Rightarrow> Inl Signature_Not_Hex
      | Some s \<Rightarrow>
          if length s \<noteq> signature_bytes then Inl Signature_Invalid
          else
            bindE (map_error Auth_Encoding (signing_bytes m)) (\<lambda>payload.
            bindE (verifier (signer_hotkey m) payload s) (\<lambda>good.
              if good then Inr () else Inl Signature_Invalid)))"

section \<open>Freshness\<close>

fun observed_block :: "message \<Rightarrow> int" where
  "observed_block (Capability_Claim m) = cc_observed_at_block m"
| "observed_block (Execution_Evidence m) = ee_submitted_at_block m"
| "observed_block (Validation_Receipt m) = vr_validated_at_block m"
| "observed_block (Job_Manifest m) = 0"
| "observed_block (Work_Lease m) = 0"

definition validate_freshness :: "message \<Rightarrow> int \<Rightarrow> int \<Rightarrow> int \<Rightarrow> auth_error + int" where
  "validate_freshness m current_block max_age max_future =
     (if \<not> in_range 0 max_int64 current_block then Inl Auth_Block_Range
      else if \<not> in_range 1 100000 max_age \<or> \<not> in_range 0 1000 max_future then Inl Freshness_Policy
      else
        case m of
          Job_Manifest j \<Rightarrow>
            if current_block > jm_expires_at_block j then Inl Manifest_Expired
            else Inr (jm_expires_at_block j)
        | Work_Lease w \<Rightarrow>
            if current_block + max_future < wl_start_block w then Inl Lease_Not_Active
            else if current_block > wl_deadline_block w then Inl Lease_Expired
            else Inr (wl_deadline_block w)
        | _ \<Rightarrow>
            if observed_block m > current_block + max_future then Inl Too_Far_In_Future
            else if current_block - observed_block m > max_age then Inl Message_Stale
            else Inr (observed_block m + max_age))"

section \<open>Authentication\<close>

record auth_policy =
  ap_verifier :: verifier
  ap_max_age :: int
  ap_max_future :: int

fun replay_token :: "message \<Rightarrow> protocol_error + string" where
  "replay_token (Capability_Claim m) = Inr (cc_nonce m)"
| "replay_token (Work_Lease m) = Inr (wl_nonce m)"
| "replay_token m = content_digest m"

definition replay_scope :: "message \<Rightarrow> string" where
  "replay_scope m = message_type m @ '':'' @ signer_hotkey m"

text \<open>The call of the replay cache for an authenticated message.\<close>

fun replay_call :: "disk \<Rightarrow> message \<Rightarrow> string \<Rightarrow> int \<Rightarrow> int \<Rightarrow> replay_op" where
  "replay_call disk (Execution_Evidence e) token current_block expiry =
     Accept_Both disk (replay_scope (Execution_Evidence e)) token current_block expiry
       (ee_miner_hotkey e @ '':'' @ ee_lease_digest e) (ee_sequence e)"
| "replay_call disk m token current_block expiry =
     Accept_Once disk (replay_scope m) token current_block expiry"

definition authenticate ::
  "auth_policy \<Rightarrow> disk \<Rightarrow> replay_cache \<Rightarrow> message \<Rightarrow> int \<Rightarrow> replay_cache \<times> (auth_error + unit)" where
  "authenticate p disk c m current_block =
     (case bindE (verify_message_signature m (ap_verifier p)) (\<lambda>_.
           bindE (validate_freshness m current_block (ap_max_age p) (ap_max_future p)) (\<lambda>expiry.
           bindE (map_error Auth_Encoding (replay_token m)) (\<lambda>token. Inr (expiry, token)))) of
        Inl e \<Rightarrow> (c, Inl e)
      | Inr (expiry, token) \<Rightarrow>
          (let (c', r) = replay_step c (replay_call disk m token current_block expiry)
           in (c', map_error Auth_Replay r)))"

datatype auth_op = Authenticate disk message int | Auth_Restart

fun auth_step :: "auth_policy \<Rightarrow> replay_cache \<Rightarrow> auth_op \<Rightarrow> replay_cache \<times> (auth_error + unit)" where
  "auth_step p c (Authenticate disk m b) = authenticate p disk c m b"
| "auth_step p c Auth_Restart = (let (c', r) = replay_step c Reopen in (c', map_error Auth_Replay r))"

section \<open>Freshness as a window\<close>

text \<open>The block up to which a message is fresh, whenever it is looked at.\<close>

fun fresh_until :: "int \<Rightarrow> message \<Rightarrow> int" where
  "fresh_until max_age (Job_Manifest m) = jm_expires_at_block m"
| "fresh_until max_age (Work_Lease m) = wl_deadline_block m"
| "fresh_until max_age m = observed_block m + max_age"

fun fresh_from :: "int \<Rightarrow> message \<Rightarrow> int" where
  "fresh_from max_future (Job_Manifest m) = 0"
| "fresh_from max_future (Work_Lease m) = wl_start_block m - max_future"
| "fresh_from max_future m = observed_block m - max_future"

lemma validate_freshness_Inr:
  "validate_freshness m b max_age max_future = Inr e \<longleftrightarrow>
     in_range 0 max_int64 b \<and> in_range 1 100000 max_age \<and> in_range 0 1000 max_future
   \<and> fresh_from max_future m \<le> b \<and> b \<le> fresh_until max_age m \<and> e = fresh_until max_age m"
  by (cases m) (auto simp: validate_freshness_def in_range_def)

lemma authenticate_accepts:
  "snd (authenticate p disk c m b) = Inr () \<longleftrightarrow>
     verify_message_signature m (ap_verifier p) = Inr ()
   \<and> validate_freshness m b (ap_max_age p) (ap_max_future p) = Inr (fresh_until (ap_max_age p) m)
   \<and> (\<exists>token. replay_token m = Inr token
        \<and> snd (replay_step c (replay_call disk m token b (fresh_until (ap_max_age p) m))) = Inr ())"
proof -
  have e: "e = fresh_until (ap_max_age p) m"
    if "validate_freshness m b (ap_max_age p) (ap_max_future p) = Inr e" for e
    using that by (simp add: validate_freshness_Inr)
  show ?thesis
    by (cases "verify_message_signature m (ap_verifier p)";
        cases "validate_freshness m b (ap_max_age p) (ap_max_future p)"; cases "replay_token m")
      (auto simp: authenticate_def split: prod.split dest: e)
qed

section \<open>One acceptance per message\<close>

text \<open>
  Two messages are the same content when they differ in the signature only; then they have the
  same type, role identity, token and freshness window.
\<close>

definition same_content :: "message \<Rightarrow> message \<Rightarrow> bool" where
  "same_content m m' \<longleftrightarrow> m' = with_signature (message_signature m') m"

lemma with_signature_simps [simp]:
  "message_type (with_signature s m) = message_type m" "signer_hotkey (with_signature s m) = signer_hotkey m"
  "fresh_until a (with_signature s m) = fresh_until a m" "fresh_from a (with_signature s m) = fresh_from a m"
  "replay_scope (with_signature s m) = replay_scope m"
  by (cases m; simp add: replay_scope_def)+

lemma content_with_signature [simp]:
  "signing_bytes (with_signature s m) = signing_bytes m" "content_digest (with_signature s m) = content_digest m"
  by (simp_all add: signing_bytes_def content_digest_def)

lemma replay_token_with_signature [simp]: "replay_token (with_signature s m) = replay_token m"
proof (cases m)
  case (Job_Manifest j)
  then show ?thesis using content_with_signature(2) [of s m] by simp
next
  case (Execution_Evidence e)
  then show ?thesis using content_with_signature(2) [of s m] by simp
next
  case (Validation_Receipt r)
  then show ?thesis using content_with_signature(2) [of s m] by simp
qed simp_all

lemma same_content_simps:
  assumes "same_content m m'"
  shows "fresh_until a m' = fresh_until a m" "replay_scope m' = replay_scope m" "replay_token m' = replay_token m"
  using assms by (metis same_content_def with_signature_simps(3,5) replay_token_with_signature)+

lemma op_token_replay_call [simp]:
  "op_token (replay_call disk m token b e) = Some (replay_scope m, token, b, e)"
  by (cases m) simp_all

definition auth_accepts :: "message \<Rightarrow> auth_op \<Rightarrow> auth_error + unit \<Rightarrow> bool" where
  "auth_accepts m x y \<longleftrightarrow> y = Inr () \<and> (\<exists>disk m' b. x = Authenticate disk m' b \<and> same_content m m')"

fun auth_block :: "auth_op \<Rightarrow> int list" where
  "auth_block (Authenticate disk m b) = [b]"
| "auth_block Auth_Restart = []"

text \<open>A call of the authenticator is no call of the cache, or one call of it.\<close>

lemma auth_step_replay:
  obtains "fst (auth_step p c x) = c" "snd (auth_step p c x) \<noteq> Inr ()"
  | y where "fst (auth_step p c x) = fst (replay_step c y)"
      "snd (auth_step p c x) = map_error Auth_Replay (snd (replay_step c y))"
      "x = Auth_Restart \<and> y = Reopen \<or>
       (\<exists>disk m b token. x = Authenticate disk m b \<and> replay_token m = Inr token
          \<and> validate_freshness m b (ap_max_age p) (ap_max_future p) = Inr (fresh_until (ap_max_age p) m)
          \<and> verify_message_signature m (ap_verifier p) = Inr ()
          \<and> y = replay_call disk m token b (fresh_until (ap_max_age p) m))"
proof (cases x)
  case (Authenticate disk m b)
  have e: "e = fresh_until (ap_max_age p) m"
    if "validate_freshness m b (ap_max_age p) (ap_max_future p) = Inr e" for e
    using that by (simp add: validate_freshness_Inr)
  show thesis
  proof (cases "bindE (verify_message_signature m (ap_verifier p)) (\<lambda>_.
           bindE (validate_freshness m b (ap_max_age p) (ap_max_future p)) (\<lambda>expiry.
           bindE (map_error Auth_Encoding (replay_token m)) (\<lambda>token. Inr (expiry, token))))")
    case (Inl err)
    then show thesis using Authenticate by (intro that(1)) (simp_all add: authenticate_def)
  next
    case (Inr et)
    then obtain expiry token where t0: "verify_message_signature m (ap_verifier p) = Inr ()"
      "validate_freshness m b (ap_max_age p) (ap_max_future p) = Inr expiry"
      "replay_token m = Inr token" "et = (expiry, token)"
      by auto
    note t = t0 [unfolded e [OF t0(2)]]
    then show thesis
      using Authenticate Inr
      by (intro that(2) [of "replay_call disk m token b (fresh_until (ap_max_age p) m)"])
        (auto simp: authenticate_def split: prod.splits)
  qed
next
  case Auth_Restart
  then show thesis by (intro that(2) [of Reopen]) (auto split: prod.splits)
qed

lemma auth_step_inv: "replay_inv c \<Longrightarrow> replay_inv (fst (auth_step p c x))"
  by (rule auth_step_replay [of p c x]) (auto simp: replay_step_inv)

interpretation authenticator: machine "auth_step p" replay_inv
  by unfold_locales (rule auth_step_inv)

lemma auth_step_held:
  assumes "replay_inv c" "entry_held e key c" "\<forall>b \<in> set (auth_block x). b \<le> e"
  shows "entry_held e key (fst (auth_step p c x))"
proof (rule auth_step_replay [of p c x])
  fix y
  assume y: "fst (auth_step p c x) = fst (replay_step c y)"
    and x: "x = Auth_Restart \<and> y = Reopen \<or>
       (\<exists>disk m b token. x = Authenticate disk m b \<and> replay_token m = Inr token
          \<and> validate_freshness m b (ap_max_age p) (ap_max_future p) = Inr (fresh_until (ap_max_age p) m)
          \<and> verify_message_signature m (ap_verifier p) = Inr ()
          \<and> y = replay_call disk m token b (fresh_until (ap_max_age p) m))"
  have "op_by e y" using x assms(3) by (auto simp: op_by_def)
  with y show ?thesis using replay_step_entry_held [OF assms(1,2)] by simp
qed (use assms in simp)

lemma auth_accepts_call:
  assumes "auth_accepts m x (snd (auth_step p c x))"
  obtains disk m' b token where "x = Authenticate disk m' b" "b \<le> fresh_until (ap_max_age p) m"
    "replay_token m = Inr token"
    "fst (auth_step p c x) = fst (replay_step c (replay_call disk m' token b (fresh_until (ap_max_age p) m)))"
    "snd (replay_step c (replay_call disk m' token b (fresh_until (ap_max_age p) m))) = Inr ()"
    "replay_scope m' = replay_scope m"
proof -
  obtain disk m' b where x: "x = Authenticate disk m' b" "same_content m m'" "snd (auth_step p c x) = Inr ()"
    using assms by (auto simp: auth_accepts_def)
  note same = same_content_simps [OF x(2)]
  have "snd (authenticate p disk c m' b) = Inr ()" using x by simp
  then obtain token where t: "validate_freshness m' b (ap_max_age p) (ap_max_future p) = Inr (fresh_until (ap_max_age p) m)"
    "replay_token m = Inr token"
    "snd (replay_step c (replay_call disk m' token b (fresh_until (ap_max_age p) m))) = Inr ()"
    unfolding authenticate_accepts same by blast
  have "b \<le> fresh_until (ap_max_age p) m" using t(1) by (simp add: validate_freshness_Inr same)
  moreover have "fst (auth_step p c x) = fst (replay_step c (replay_call disk m' token b (fresh_until (ap_max_age p) m)))"
  proof (rule auth_step_replay [of p c x])
    fix y
    assume "fst (auth_step p c x) = fst (replay_step c y)"
      and "x = Auth_Restart \<and> y = Reopen \<or>
       (\<exists>disk m b token. x = Authenticate disk m b \<and> replay_token m = Inr token
          \<and> validate_freshness m b (ap_max_age p) (ap_max_future p) = Inr (fresh_until (ap_max_age p) m)
          \<and> verify_message_signature m (ap_verifier p) = Inr ()
          \<and> y = replay_call disk m token b (fresh_until (ap_max_age p) m))"
    then show ?thesis using x(1) t(2) same by auto
  qed (use x in simp)
  ultimately show thesis using x(1) t same by (intro that [of disk m' b token]) simp_all
qed

lemma stale_never_accepted:
  "\<forall>x \<in> set xs. \<forall>b \<in> set (auth_block x). fresh_until (ap_max_age p) m < b \<Longrightarrow>
     fired (auth_accepts m) (auth_step p) c xs = 0"
proof (induction xs arbitrary: c)
  case (Cons x xs)
  have "\<not> auth_accepts m x (snd (auth_step p c x))"
  proof
    assume "auth_accepts m x (snd (auth_step p c x))"
    then show False by (rule auth_accepts_call) (use Cons.prems in auto)
  qed
  with Cons show ?case by simp
qed simp

text \<open>While the entry of a message is held, no call within its freshness window accepts it again.\<close>

lemma held_never_accepted:
  assumes "replay_token m = Inr token" "replay_cache_key (replay_scope m) token = Inr key"
  shows "replay_inv c \<Longrightarrow> entry_held (fresh_until (ap_max_age p) m) key c \<Longrightarrow>
     sorted (concat (map auth_block xs)) \<Longrightarrow> fired (auth_accepts m) (auth_step p) c xs = 0"
proof (induction xs arbitrary: c)
  case (Cons x xs)
  show ?case
  proof (cases "\<forall>b \<in> set (auth_block x). b \<le> fresh_until (ap_max_age p) m")
    case True
    have "\<not> auth_accepts m x (snd (auth_step p c x))"
    proof
      assume "auth_accepts m x (snd (auth_step p c x))"
      then show False
      proof (rule auth_accepts_call)
        fix disk m' b token'
        assume b: "b \<le> fresh_until (ap_max_age p) m" "replay_token m = Inr token'" "replay_scope m' = replay_scope m"
          and acc: "snd (replay_step c (replay_call disk m' token' b (fresh_until (ap_max_age p) m))) = Inr ()"
        from Cons.prems(1) acc op_token_replay_call show False
          by (rule token_held_after)
            (use b assms Cons.prems(2) in \<open>auto simp: entry_held_def holds_from_def\<close>)
      qed
    qed
    moreover have "fired (auth_accepts m) (auth_step p) (fst (auth_step p c x)) xs = 0"
      by (rule Cons.IH [OF auth_step_inv [OF Cons.prems(1)] auth_step_held [OF Cons.prems(1,2) True]])
        (use Cons.prems(3) in \<open>simp add: sorted_append\<close>)
    ultimately show ?thesis by simp
  next
    case False
    then obtain b where b: "auth_block x = [b]" "fresh_until (ap_max_age p) m < b" by (cases x) auto
    have "\<forall>y \<in> set (x # xs). \<forall>b' \<in> set (auth_block y). fresh_until (ap_max_age p) m < b'"
    proof -
      have "\<forall>y \<in> set xs. \<forall>b' \<in> set (auth_block y). b \<le> b'"
        using Cons.prems(3) b by (auto simp: sorted_append)
      with b show ?thesis by fastforce
    qed
    then show ?thesis by (rule stale_never_accepted)
  qed
qed simp

section \<open>Properties\<close>

text \<open>
  A message is authenticated at most once.  In any run of the authenticator whose blocks do
  not go back, failed writes and restarts included, at most one call accepts a message of given
  content, whatever its signature; nothing is assumed of the verifier.
\<close>

theorem message_authenticated_once:
  assumes "replay_open True max_entries max_sequences content = Inr c"
    and "sorted (concat (map auth_block calls))"
  shows "fired (auth_accepts m) (auth_step p) c calls \<le> 1"
proof -
  have "fired (auth_accepts m) (auth_step p) c calls \<le> 1"
    if "replay_inv c" "sorted (concat (map auth_block calls))" for c
    using that
  proof (induction calls arbitrary: c)
    case (Cons x xs)
    have inv: "replay_inv (fst (auth_step p c x))" by (rule auth_step_inv [OF Cons.prems(1)])
    have sorted: "sorted (concat (map auth_block xs))" using Cons.prems(2) by (simp add: sorted_append)
    show ?case
    proof (cases "auth_accepts m x (snd (auth_step p c x))")
      case True
      then have "fired (auth_accepts m) (auth_step p) (fst (auth_step p c x)) xs = 0"
      proof (rule auth_accepts_call)
        fix disk m' b token
        assume a: "replay_token m = Inr token" "replay_scope m' = replay_scope m"
          "fst (auth_step p c x) = fst (replay_step c (replay_call disk m' token b (fresh_until (ap_max_age p) m)))"
          "snd (replay_step c (replay_call disk m' token b (fresh_until (ap_max_age p) m))) = Inr ()"
        obtain key where "replay_cache_key (replay_scope m) token = Inr key"
          "entry_held (fresh_until (ap_max_age p) m) key (fst (auth_step p c x))"
          by (rule token_held_after [OF Cons.prems(1) a(4) op_token_replay_call]) (use a in simp)
        then show ?thesis using held_never_accepted [OF a(1) _ inv _ sorted] by blast
      qed
      then show ?thesis by simp
    next
      case False
      then show ?thesis using Cons.IH [OF inv sorted] by simp
    qed
  qed simp
  then show ?thesis using replay_open_inv [OF assms(1)] assms(2) by blast
qed

definition sample_keypair :: keypair where
  "sample_keypair = \<lparr>kp_address = Some ''validator'',
     kp_sign = (\<lambda>payload. Some (hmac_sha256 [1] payload @ hmac_sha256 [2] payload)),
     kp_verify = (\<lambda>payload s. Some (s = hmac_sha256 [1] payload @ hmac_sha256 [2] payload))\<rparr>"

definition sample_policy :: auth_policy where
  "sample_policy = \<lparr>ap_verifier = adapter_verify sample_keypair, ap_max_age = 64, ap_max_future = 2\<rparr>"

theorem message_authenticated_once_witness:
  "fired (auth_accepts sample_message) (auth_step sample_policy) sample_cache
     [Authenticate Disk_Ok sample_message 12, Auth_Restart, Authenticate Disk_Ok sample_message 12,
      Authenticate Mkdir_Fails sample_message 15] \<le> 1"
  by (rule message_authenticated_once [OF sample_cache_open]) simp

text \<open>
  What is signed is accepted.  With a keypair of the message's role whose verification
  accepts the signature it made, signing returns a message of the same content that the program
  can build and whose signature verifies.
\<close>

theorem sign_then_verify:
  assumes "message_ok m" and "signing_bytes m = Inr payload"
    and "kp_address k = Some (signer_hotkey m)" and "kp_sign k payload = Some s" "length s = 64"
    and "kp_verify k payload s = Some True"
  shows "sign_message m k = Inr (with_signature (to_hex s) m)
     \<and> message_ok (with_signature (to_hex s) m)
     \<and> verify_message_signature (with_signature (to_hex s) m) (adapter_verify k) = Inr ()
     \<and> content_digest (with_signature (to_hex s) m) = content_digest m"
proof -
  have ok: "message_ok (with_signature (to_hex s) m)"
    by (rule signature_ok_replace [OF assms(1)]) (simp_all add: assms(5) to_hex_lower)
  then have "message_new (with_signature (to_hex s) m) = Inr (with_signature (to_hex s) m)"
    by (simp add: message_ok_def message_valid_def)
  then show ?thesis
    using assms ok
    by (simp add: sign_message_def adapter_hotkey_def adapter_sign_def signature_bytes_def
        verify_message_signature_def adapter_verify_def)
qed

theorem sign_then_verify_witness:
  "\<exists>s. sign_message sample_message sample_keypair = Inr (with_signature (to_hex s) sample_message)
     \<and> verify_message_signature (with_signature (to_hex s) sample_message) (adapter_verify sample_keypair) = Inr ()"
proof -
  define payload where "payload = signature_domain @ json_dumps False (unsigned_primitive sample_message)"
  have "signing_bytes sample_message = Inr payload"
    using wire_ok_canonical [OF unsigned_primitive_wire [OF sample_message_ok(1)]]
    by (simp add: signing_bytes_def payload_def)
  from sign_then_verify [OF sample_message_ok(1) this, of sample_keypair
      "hmac_sha256 [1] payload @ hmac_sha256 [2] payload"]
  show ?thesis by (auto simp: sample_keypair_def sample_work_lease_def)
qed

definition open_policy :: auth_policy where
  "open_policy = \<lparr>ap_verifier = (\<lambda>hotkey payload s. Inr True), ap_max_age = 64, ap_max_future = 2\<rparr>"

definition sample_signed :: message where
  "sample_signed = with_signature (to_hex (replicate 64 0)) sample_message"

lemma sample_signed_accepted: "snd (authenticate open_policy Disk_Ok sample_cache sample_signed 12) = Inr ()"
proof -
  have "signing_bytes sample_signed = Inr (signature_domain @ json_dumps False (unsigned_primitive sample_message))"
    using wire_ok_canonical [OF unsigned_primitive_wire [OF sample_message_ok(1)]]
    by (simp add: sample_signed_def signing_bytes_def)
  then have "verify_message_signature sample_signed (ap_verifier open_policy) = Inr ()"
    by (simp add: verify_message_signature_def sample_signed_def open_policy_def signature_bytes_def)
  moreover have "validate_freshness sample_signed 12 64 2 = Inr (fresh_until 64 sample_signed)"
    by (simp add: validate_freshness_Inr sample_signed_def sample_work_lease_def in_range_def)
  moreover have "snd (replay_step sample_cache (replay_call Disk_Ok sample_signed (replicate 64 CHR ''c'') 12
      (fresh_until 64 sample_signed))) = Inr ()"
    by (simp add: sample_signed_def sample_work_lease_def replay_scope_def replay_accept_once_def replay_block_def
        in_range_def Let_def replay_purge_def sample_cache_def replay_cache_key_def is_ascii_def
        replay_try_def replay_persist_def)
  ultimately show ?thesis
    by (simp add: authenticate_accepts) (simp add: open_policy_def sample_signed_def sample_work_lease_def)
qed

lemma map_error_Inl_iff: "map_error f r = Inl e \<longleftrightarrow> (\<exists>x. r = Inl x \<and> e = f x)"
  by (cases r) auto

text \<open>
  C25: authentication is sound.  A call that accepts has a 64-byte signature that the verifier
  accepts for the role hotkey over the message's signing bytes, a block within the message's
  freshness window and a token the cache did not hold and now has recorded; for evidence, the
  sequence number has grown.  A call that refuses for any reason but the cache's leaves the
  cache as it was.
\<close>

theorem authenticate_sound:
  assumes "replay_inv c" and "authenticate p disk c m b = (c', r)"
  shows "(r = Inr () \<longrightarrow>
       (\<exists>s payload token. from_hex (message_signature m) = Some s \<and> length s = 64
          \<and> signing_bytes m = Inr payload \<and> ap_verifier p (signer_hotkey m) payload s = Inr True
          \<and> fresh_from (ap_max_future p) m \<le> b \<and> b \<le> fresh_until (ap_max_age p) m
          \<and> replay_token m = Inr token
          \<and> token_taken b (fresh_until (ap_max_age p) m) (replay_scope m) token c c')
       \<and> (\<forall>e. m = Execution_Evidence e \<longrightarrow>
            sequence_taken (ee_miner_hotkey e @ '':'' @ ee_lease_digest e) (ee_sequence e) c c'))
     \<and> (\<forall>err. r = Inl err \<and> (\<forall>x. err \<noteq> Auth_Replay x) \<longrightarrow> c' = c)"
proof (intro conjI impI allI)
  assume r: "r = Inr ()"
  then have acc: "snd (auth_step p c (Authenticate disk m b)) = Inr ()" and c': "fst (auth_step p c (Authenticate disk m b)) = c'"
    using assms(2) by simp_all
  obtain token where t: "replay_token m = Inr token"
    "validate_freshness m b (ap_max_age p) (ap_max_future p) = Inr (fresh_until (ap_max_age p) m)"
    "verify_message_signature m (ap_verifier p) = Inr ()"
    "c' = fst (replay_step c (replay_call disk m token b (fresh_until (ap_max_age p) m)))"
    "snd (replay_step c (replay_call disk m token b (fresh_until (ap_max_age p) m))) = Inr ()"
    by (rule auth_step_replay [of p c "Authenticate disk m b"]) (use acc c' in auto)
  have "token_taken b (fresh_until (ap_max_age p) m) (replay_scope m) token c c'"
    unfolding t(4) by (rule replay_step_accepts(1) [OF assms(1) t(5) op_token_replay_call])
  moreover have "\<exists>s payload. from_hex (message_signature m) = Some s \<and> length s = 64
          \<and> signing_bytes m = Inr payload \<and> ap_verifier p (signer_hotkey m) payload s = Inr True"
    using t(3) by (auto simp: verify_message_signature_def signature_bytes_def split: option.splits if_splits)
  ultimately show "\<exists>s payload token. from_hex (message_signature m) = Some s \<and> length s = 64
          \<and> signing_bytes m = Inr payload \<and> ap_verifier p (signer_hotkey m) payload s = Inr True
          \<and> fresh_from (ap_max_future p) m \<le> b \<and> b \<le> fresh_until (ap_max_age p) m
          \<and> replay_token m = Inr token
          \<and> token_taken b (fresh_until (ap_max_age p) m) (replay_scope m) token c c'"
    using t(1,2) by (auto simp: validate_freshness_Inr)
  show "sequence_taken (ee_miner_hotkey e @ '':'' @ ee_lease_digest e) (ee_sequence e) c c'"
    if "m = Execution_Evidence e" for e
    unfolding t(4) by (rule replay_step_accepts(2) [OF assms(1) t(5)]) (simp add: that)
next
  fix err
  assume err: "r = Inl err \<and> (\<forall>x. err \<noteq> Auth_Replay x)"
  then have call: "snd (auth_step p c (Authenticate disk m b)) = Inl err" "fst (auth_step p c (Authenticate disk m b)) = c'"
    using assms(2) by simp_all
  have other: "map_error Auth_Replay (y :: replay_error + unit) \<noteq> Inl err" for y
    using err by (auto simp: map_error_Inl_iff)
  show "c' = c"
  proof (rule auth_step_replay [of p c "Authenticate disk m b"])
    assume "fst (auth_step p c (Authenticate disk m b)) = c"
    then show ?thesis using call(2) by metis
  next
    fix y
    assume "snd (auth_step p c (Authenticate disk m b)) = map_error Auth_Replay (snd (replay_step c y))"
    then show ?thesis using call(1) other by metis
  qed
qed

theorem authenticate_sound_witness:
  "\<exists>token. replay_token sample_signed = Inr token
     \<and> token_taken 12 20 (replay_scope sample_signed) token sample_cache
         (fst (authenticate open_policy Disk_Ok sample_cache sample_signed 12))"
  using authenticate_sound [OF replay_open_inv [OF sample_cache_open] prod.collapse [symmetric],
      of open_policy Disk_Ok sample_signed 12] sample_signed_accepted
  by (auto simp: sample_signed_def sample_work_lease_def)

text \<open>
  Freshness is a window that does not depend on when it is asked: a message is fresh from
  \<open>fresh_from\<close> to \<open>fresh_until\<close>, and the block handed to the replay cache is that end, so a
  fresh message never finds its token expired.
\<close>

theorem freshness_window:
  "validate_freshness m b max_age max_future = Inr e \<longleftrightarrow>
     in_range 0 max_int64 b \<and> in_range 1 100000 max_age \<and> in_range 0 1000 max_future
   \<and> fresh_from max_future m \<le> b \<and> b \<le> e \<and> e = fresh_until max_age m"
  by (auto simp: validate_freshness_Inr)

end
