(* ===== verification/Files.thy ===== *)
theory Files
  imports Hashing
begin

text \<open>
  Atomic replacement of a file: the temporary file beside a destination, the three calls that
  \<open>AtomicLeaseStateWriter.write\<close>, \<open>ReplayCache._persist\<close> and \<open>write_manifest\<close> make (\<open>mkdir\<close>,
  \<open>write_bytes\<close>, \<open>os.replace\<close>), and the contract \<open>atomic_replacement\<close> that they promise.  Every call
  may fail and the process may be killed in it.
\<close>

section \<open>Calls on files\<close>

record file_pair =
  fp_temporary :: "bytes option"
  fp_destination :: "bytes option"

datatype io_outcome = Io_Done | Io_Fails | Io_Killed_Here

text \<open>
  What each call does: a write that fails or is killed leaves anything in the temporary file, a
  \<open>replace\<close> in which the process is killed has taken effect or not.
\<close>

record write_io =
  wi_parent :: io_outcome
  wi_temporary :: io_outcome
  wi_partial :: "bytes option"
  wi_replace :: io_outcome
  wi_replaced :: bool

definition make_parent :: "write_io \<Rightarrow> file_pair \<Rightarrow> file_pair \<times> io_outcome" where
  "make_parent io f = (f, wi_parent io)"

definition write_temporary :: "write_io \<Rightarrow> bytes \<Rightarrow> file_pair \<Rightarrow> file_pair \<times> io_outcome" where
  "write_temporary io payload f =
     (f\<lparr>fp_temporary := (if wi_temporary io = Io_Done then Some payload else wi_partial io)\<rparr>, wi_temporary io)"

definition replace_destination :: "write_io \<Rightarrow> file_pair \<Rightarrow> file_pair \<times> io_outcome" where
  "replace_destination io f =
     (if wi_replace io = Io_Done \<or> wi_replace io = Io_Killed_Here \<and> wi_replaced io
      then \<lparr>fp_temporary = None, fp_destination = fp_temporary f\<rparr> else f, wi_replace io)"

text \<open>Statements in sequence: the first that does not complete ends them.\<close>

fun io_sequence :: "(file_pair \<Rightarrow> file_pair \<times> io_outcome) list \<Rightarrow> file_pair \<Rightarrow> file_pair \<times> io_outcome" where
  "io_sequence [] f = (f, Io_Done)"
| "io_sequence (call # calls) f =
     (case call f of (f', Io_Done) \<Rightarrow> io_sequence calls f' | (f', r) \<Rightarrow> (f', r))"

datatype 'e io_result = Io_Returned | Io_Raised 'e | Io_Killed

text \<open>\<open>try: ... except OSError: raise e from None\<close>\<close>

fun io_raise :: "'e \<Rightarrow> file_pair \<times> io_outcome \<Rightarrow> file_pair \<times> 'e io_result" where
  "io_raise e (f, Io_Done) = (f, Io_Returned)"
| "io_raise e (f, Io_Fails) = (f, Io_Raised e)"
| "io_raise e (f, Io_Killed_Here) = (f, Io_Killed)"

section \<open>Atomic replacement\<close>

text \<open>
  What a writer promises: when it returns the destination holds the payload, when it raises the
  destination is what it was, and when the process is killed in it the destination is one or the
  other, never a part of the payload.
\<close>

locale atomic_replacement =
  fixes writer :: "write_io \<Rightarrow> bytes \<Rightarrow> file_pair \<Rightarrow> file_pair \<times> 'e io_result"
  assumes returned: "writer io b f = (f', Io_Returned) \<Longrightarrow> fp_destination f' = Some b"
    and raised: "writer io b f = (f', Io_Raised e) \<Longrightarrow> fp_destination f' = fp_destination f"
    and killed: "writer io b f = (f', Io_Killed) \<Longrightarrow> fp_destination f' = fp_destination f \<or> fp_destination f' = Some b"
begin

lemma old_or_new: "writer io b f = (f', r) \<Longrightarrow> fp_destination f' = fp_destination f \<or> fp_destination f' = Some b"
  by (cases r) (auto dest: returned raised killed)

text \<open>Any number of writes, whatever becomes of them, leave the first content or one of the payloads.\<close>

lemma writes_old_or_new:
  "fp_destination (fold (\<lambda>(io, b) f. fst (writer io b f)) ws f) \<in> insert (fp_destination f) (Some ` snd ` set ws)"
proof (induction ws arbitrary: f)
  case (Cons w ws)
  obtain io b where w: "w = (io, b)" by fastforce
  obtain f' r where run: "writer io b f = (f', r)" by fastforce
  from Cons.IH [of f'] old_or_new [OF run] show ?case by (auto simp: w run)
qed simp

end

text \<open>The three calls in this order keep the promise, whatever the error they raise.\<close>

definition replace_atomically :: "write_io \<Rightarrow> bytes \<Rightarrow> file_pair \<Rightarrow> file_pair \<times> io_outcome" where
  "replace_atomically io payload = io_sequence [make_parent io, write_temporary io payload, replace_destination io]"

lemma replace_atomically_cases:
  obtains "replace_atomically io b f = (\<lparr>fp_temporary = None, fp_destination = Some b\<rparr>, Io_Done)"
      "wi_parent io = Io_Done" "wi_temporary io = Io_Done" "wi_replace io = Io_Done"
  | t r where "replace_atomically io b f = (\<lparr>fp_temporary = t, fp_destination = fp_destination f\<rparr>, r)" "r \<noteq> Io_Done"
      "\<not> (wi_parent io = Io_Done \<and> wi_temporary io = Io_Done \<and> wi_replace io = Io_Done)"
  | "replace_atomically io b f = (\<lparr>fp_temporary = None, fp_destination = Some b\<rparr>, Io_Killed_Here)"
      "wi_parent io = Io_Done" "wi_temporary io = Io_Done" "wi_replace io = Io_Killed_Here"
  by (cases "wi_parent io"; cases "wi_temporary io"; cases "wi_replace io"; cases "wi_replaced io"; cases f)
    (auto simp: replace_atomically_def make_parent_def write_temporary_def replace_destination_def)

lemma replace_atomically_promise:
  "io_raise e (replace_atomically io b f) = (f', Io_Returned) \<Longrightarrow> fp_destination f' = Some b"
  "io_raise e (replace_atomically io b f) = (f', Io_Raised e') \<Longrightarrow> fp_destination f' = fp_destination f"
  "io_raise e (replace_atomically io b f) = (f', Io_Killed) \<Longrightarrow> fp_destination f' = fp_destination f \<or> fp_destination f' = Some b"
  by (cases rule: replace_atomically_cases [of io b f]; cases "snd (replace_atomically io b f)"; force)+

end
