(* ===== verification/Durability.thy ===== *)
theory Durability
  imports Lease Identity Files
begin

text \<open>
  The state files of \<open>src/gpuforge/lease.py\<close> and \<open>src/gpuforge/replay.py\<close> down to the calls on the
  file system, in which the process may be killed.  \<open>AtomicLeaseStateWriter.write\<close> and the end of
  \<open>ReplayCache._persist\<close> satisfy \<open>atomic_replacement\<close>; the persistence of the models in \<open>Lease\<close> and
  \<open>Replay\<close>, which know only the outcome of a write, is refined by it.
\<close>

section \<open>The lease writer\<close>

definition lease_writer_write :: "write_io \<Rightarrow> bytes \<Rightarrow> file_pair \<Rightarrow> file_pair \<times> lease_error io_result" where
  "lease_writer_write io payload f =
     io_raise Not_Persisted
       (io_sequence [make_parent io, write_temporary io payload, replace_destination io] f)"

interpretation lease_writer: atomic_replacement lease_writer_write
  by unfold_locales
    (auto simp: lease_writer_write_def replace_atomically_def [symmetric] dest: replace_atomically_promise)

definition lease_persist_io :: "write_io \<Rightarrow> lease_store \<Rightarrow> file_pair \<Rightarrow> lease_records \<Rightarrow> file_pair \<times> lease_error io_result" where
  "lease_persist_io io st f rs =
     (if \<not> ls_path st then (f, Io_Returned)
      else
        (let payload = json_dumps True (lease_snapshot rs) in
         if int (length payload) > max_state_bytes then (f, Io_Raised State_Too_Large)
         else lease_writer_write io payload f))"

lemma lease_writer_errors: "lease_writer_write io b f = (f', Io_Raised e) \<Longrightarrow> e = Not_Persisted"
  by (cases "io_sequence [make_parent io, write_temporary io b, replace_destination io] f" rule: prod.exhaust;
      cases "snd (io_sequence [make_parent io, write_temporary io b, replace_destination io] f)")
    (auto simp: lease_writer_write_def simp del: io_sequence.simps)

text \<open>The destination refines the file of the store, the end of the write the outcome the store knows.\<close>

lemma lease_persist_refines:
  assumes "lease_persist_io io st f rs = (f', r)" "ls_file st = fp_destination f"
  shows "r = Io_Returned \<Longrightarrow> lease_persist True st rs = Inr (fp_destination f')"
    and "r = Io_Raised e \<Longrightarrow> lease_persist False st rs = Inl e \<and> fp_destination f' = ls_file st"
    and "r = Io_Killed \<Longrightarrow> fp_destination f' = ls_file st \<or> lease_persist True st rs = Inr (fp_destination f')"
  using assms lease_writer.returned lease_writer.raised lease_writer.killed lease_writer_errors
  by (fastforce simp: lease_persist_io_def lease_persist_def Let_def split: if_splits)+

text \<open>
  C23: a crash loses at most the call it interrupts.  Let the calls of a store have left it in some
  state and a further call write its snapshot, with the calls on the file system failing or the
  process killed in any of them, leaving anything in the temporary file.  Then the state file can be
  opened again, and the leases are those before the call or those after it, all valid: those after
  it when the writer returned, those before it when it raised.
\<close>

theorem lease_crash_recovers:
  assumes "lease_open True n content = Inr st0"
    and "ls_file (run lease_step st0 (calls @ [(True, op)])) = Some payload"
    and "lease_writer_write io payload \<lparr>fp_temporary = t, fp_destination = ls_file (run lease_step st0 calls)\<rparr> = (f, r)"
  shows "\<exists>s before after. lease_open True n (fp_destination f) = Inr s
     \<and> before = ls_records (run lease_step st0 calls) \<and> after = ls_records (run lease_step st0 (calls @ [(True, op)]))
     \<and> (map_of (ls_records s) = map_of before \<or> map_of (ls_records s) = map_of after)
     \<and> (r = Io_Returned \<longrightarrow> map_of (ls_records s) = map_of after)
     \<and> ((\<exists>e. r = Io_Raised e) \<longrightarrow> map_of (ls_records s) = map_of before)
     \<and> (\<forall>(ld, l) \<in> set (ls_records s). lr_lease_digest l = ld \<and> lease_valid l)"
proof -
  have old: "\<exists>s. lease_open True n (ls_file (run lease_step st0 xs)) = Inr s
     \<and> map_of (ls_records s) = map_of (ls_records (run lease_step st0 xs))
     \<and> (\<forall>(ld, l) \<in> set (ls_records s). lr_lease_digest l = ld \<and> lease_valid l)" for xs
    by (rule lease_restart_restores [OF assms(1)])
  consider "r \<noteq> Io_Returned" "fp_destination f = ls_file (run lease_step st0 calls)"
    | "\<forall>e. r \<noteq> Io_Raised e" "fp_destination f = Some payload"
    using lease_writer.returned [of io payload] lease_writer.raised [of io payload] lease_writer.killed [of io payload] assms(3)
    by (cases r) fastforce+
  then show ?thesis
  proof cases
    case 1
    with old [of calls] show ?thesis by auto
  next
    case 2
    with old [of "calls @ [(True, op)]"] assms(2) show ?thesis by auto
  qed
qed

text \<open>A process killed in the middle of the write of an execution claim.\<close>

definition killed_io :: write_io where
  "killed_io = \<lparr>wi_parent = Io_Done, wi_temporary = Io_Killed_Here, wi_partial = Some [123], wi_replace = Io_Done, wi_replaced = False\<rparr>"

theorem lease_crash_recovers_witness:
  "\<exists>payload f s. ls_file (run lease_step sample_recovered ([] @ [(True, Claim_Execution sample_lease 7)])) = Some payload
     \<and> lease_writer_write killed_io payload \<lparr>fp_temporary = None, fp_destination = ls_file (run lease_step sample_recovered [])\<rparr> = (f, Io_Killed)
     \<and> fp_temporary f = Some [123] \<and> lease_open True 4 (fp_destination f) = Inr s"
proof -
  have "ls_file (run lease_step sample_recovered ([] @ [(True, Claim_Execution sample_lease 7)])) \<noteq> None"
  proof
    let ?s = "run lease_step sample_recovered ([] @ [(True, Claim_Execution sample_lease 7)])"
    assume none: "ls_file ?s = None"
    have d: "lease_durable sample_recovered" by (rule lease_open_durable [OF sample_recovered_open])
    from lease_machine.run_before [OF d, of "[] @ [(True, Claim_Execution sample_lease 7)]"] sample_recovered_get
    have "ls_records ?s \<noteq> []" by (auto simp: lease_store_before_def)
    moreover have "lease_durable ?s" by (rule lease_machine.run_inv [OF d])
    ultimately show False using none by (simp add: lease_durable_def lease_inv_def lease_file_ok_def)
  qed
  then obtain payload where p: "ls_file (run lease_step sample_recovered ([] @ [(True, Claim_Execution sample_lease 7)])) = Some payload"
    by blast
  obtain f where w: "lease_writer_write killed_io payload \<lparr>fp_temporary = None, fp_destination = ls_file (run lease_step sample_recovered [])\<rparr> = (f, Io_Killed)"
    "fp_temporary f = Some [123]"
    by (simp add: lease_writer_write_def killed_io_def make_parent_def write_temporary_def)
  from lease_crash_recovers [OF sample_recovered_open p w(1)] p w show ?thesis by blast
qed

section \<open>The replay state\<close>

definition replay_write :: "write_io \<Rightarrow> bytes \<Rightarrow> file_pair \<Rightarrow> file_pair \<times> replay_error io_result" where
  "replay_write io payload f =
     (case make_parent io f of
        (f', Io_Done) \<Rightarrow>
          io_raise Replay_Not_Persisted (io_sequence [write_temporary io payload, replace_destination io] f')
      | r \<Rightarrow> io_raise Replay_Os_Error r)"

lemma replay_write_replaces:
  "replay_write io payload f =
     io_raise (if wi_parent io = Io_Done then Replay_Not_Persisted else Replay_Os_Error) (replace_atomically io payload f)"
  by (cases "wi_parent io") (simp_all add: replay_write_def replace_atomically_def make_parent_def)

interpretation replay_writer: atomic_replacement replay_write
  by unfold_locales (auto simp: replay_write_replaces dest: replace_atomically_promise)

definition replay_persist_io :: "write_io \<Rightarrow> replay_cache \<Rightarrow> file_pair \<Rightarrow> file_pair \<times> replay_error io_result" where
  "replay_persist_io io c f =
     (if \<not> rc_path c then (f, Io_Returned)
      else replay_write io (replay_payload (rc_entries c) (rc_sequences c)) f)"

text \<open>Which of its calls failed is all that the cache learns from the disk.\<close>

definition disk_of :: "write_io \<Rightarrow> disk" where
  "disk_of io =
     (if wi_parent io \<noteq> Io_Done then Mkdir_Fails
      else if wi_temporary io \<noteq> Io_Done \<or> wi_replace io \<noteq> Io_Done then Write_Fails else Disk_Ok)"

lemma replay_persist_refines:
  assumes "replay_persist_io io c f = (f', r)" "rc_file c = fp_destination f"
  shows "r = Io_Returned \<Longrightarrow> replay_persist (disk_of io) c = (c\<lparr>rc_file := fp_destination f'\<rparr>, Inr ())"
    and "r = Io_Raised e \<Longrightarrow> replay_persist (disk_of io) c = (c, Inl e) \<and> fp_destination f' = rc_file c"
    and "r = Io_Killed \<Longrightarrow> fp_destination f' = rc_file c
          \<or> replay_persist Disk_Ok c = (c\<lparr>rc_file := fp_destination f'\<rparr>, Inr ())"
  using assms
  by (cases rule: replace_atomically_cases [of io "replay_payload (rc_entries c) (rc_sequences c)" f];
      cases "snd (replace_atomically io (replay_payload (rc_entries c) (rc_sequences c)) f)";
      force simp: replay_persist_io_def replay_persist_def replay_write_replaces disk_of_def split: if_splits)+

section \<open>Crashes\<close>

text \<open>
  A machine whose calls may be interrupted: a call that returns or raises, or one in which the process
  is killed and restarted.  The killed call had computed its snapshot, the calls on the file system
  came as far as \<open>write_io\<close> says, and the object is opened again from what they left.
\<close>

datatype 'o crash_event = Call 'o | Crash write_io "bytes option" 'o

fun crash_op :: "'o crash_event \<Rightarrow> 'o" where
  "crash_op (Call x) = x"
| "crash_op (Crash _ _ x) = x"

definition crash_file ::
  "(write_io \<Rightarrow> bytes \<Rightarrow> file_pair \<Rightarrow> file_pair \<times> 'e io_result) \<Rightarrow> ('s \<Rightarrow> bytes option) \<Rightarrow> ('s \<Rightarrow> 'o \<Rightarrow> 's \<times> 'r)
     \<Rightarrow> 's \<Rightarrow> write_io \<Rightarrow> bytes option \<Rightarrow> 'o \<Rightarrow> bytes option" where
  "crash_file writer state_file step st io t x =
     (case state_file (fst (step st x)) of
        None \<Rightarrow> state_file st
      | Some payload \<Rightarrow> fp_destination (fst (writer io payload \<lparr>fp_temporary = t, fp_destination = state_file st\<rparr>)))"

fun crashing ::
  "(write_io \<Rightarrow> bytes \<Rightarrow> file_pair \<Rightarrow> file_pair \<times> 'e io_result) \<Rightarrow> ('s \<Rightarrow> bytes option) \<Rightarrow> ('s \<Rightarrow> bytes option \<Rightarrow> 's option)
     \<Rightarrow> ('s \<Rightarrow> 'o \<Rightarrow> 's \<times> 'r) \<Rightarrow> 's \<Rightarrow> 'o crash_event \<Rightarrow> 's \<times> 'r option" where
  "crashing writer state_file opened step st (Call x) = (fst (step st x), Some (snd (step st x)))"
| "crashing writer state_file opened step st (Crash io t x) =
     (case opened st (crash_file writer state_file step st io t x) of None \<Rightarrow> st | Some st' \<Rightarrow> st', None)"

definition happened :: "('o \<Rightarrow> 'r \<Rightarrow> bool) \<Rightarrow> 'o crash_event \<Rightarrow> 'r option \<Rightarrow> bool" where
  "happened P e y \<longleftrightarrow> (case e of Call x \<Rightarrow> (\<exists>r. y = Some r \<and> P x r) | Crash _ _ _ \<Rightarrow> False)"

lemma happened_simps [simp]:
  "happened P (Call x) (Some r) \<longleftrightarrow> P x r" "\<not> happened P (Crash io t x) y"
  by (simp_all add: happened_def)

text \<open>
  The sequences of uninterrupted calls and restarts that a sequence with crashes may amount to: a
  crash is nothing, a restart before the call, or the call and a restart.
\<close>

inductive crash_trace :: "'o \<Rightarrow> 'o crash_event list \<Rightarrow> 'o list \<Rightarrow> bool" for restart where
  none: "crash_trace restart [] []"
| call: "crash_trace restart es xs \<Longrightarrow> crash_trace restart (Call x # es) (x # xs)"
| stuck: "crash_trace restart es xs \<Longrightarrow> crash_trace restart (Crash io t x # es) xs"
| before: "crash_trace restart es xs \<Longrightarrow> crash_trace restart (Crash io t x # es) (restart # xs)"
| after: "crash_trace restart es xs \<Longrightarrow> crash_trace restart (Crash io t x # es) (x # restart # xs)"

lemma crash_trace_all:
  "crash_trace restart es xs \<Longrightarrow> P restart \<Longrightarrow> \<forall>e \<in> set es. P (crash_op e) \<Longrightarrow> \<forall>x \<in> set xs. P x"
  by (induction rule: crash_trace.induct) auto

lemma crash_trace_sorted:
  assumes "crash_trace restart es xs" "b restart = []" "sorted (concat (map (b \<circ> crash_op) es))"
  shows "sorted (concat (map b xs)) \<and> set (concat (map b xs)) \<subseteq> set (concat (map (b \<circ> crash_op) es))"
  using assms by (induction rule: crash_trace.induct) (auto simp: sorted_append subset_iff)

text \<open>
  What makes the reduction sound: the writer replaces atomically, and opening the file that a state
  or its successor describes is the machine's own restart.
\<close>

locale crashable = atomic_replacement writer + machine step inv
  for writer :: "write_io \<Rightarrow> bytes \<Rightarrow> file_pair \<Rightarrow> file_pair \<times> 'e io_result"
    and step :: "'s \<Rightarrow> 'o \<Rightarrow> 's \<times> 'r" and inv :: "'s \<Rightarrow> bool" +
  fixes state_file :: "'s \<Rightarrow> bytes option"
    and opened :: "'s \<Rightarrow> bytes option \<Rightarrow> 's option"
    and restart :: 'o
  assumes opened_same: "inv st \<Longrightarrow> opened st (state_file st) = Some s \<Longrightarrow> s = fst (step st restart)"
    and opened_next: "inv st \<Longrightarrow> opened st (state_file (fst (step st x))) = Some s \<Longrightarrow> s = fst (step (fst (step st x)) restart)"
begin

lemma crash_file_old_or_new:
  "crash_file writer state_file step st io t x = state_file st
   \<or> crash_file writer state_file step st io t x = state_file (fst (step st x))"
proof (cases "state_file (fst (step st x))")
  case (Some payload)
  obtain f r where w: "writer io payload \<lparr>fp_temporary = t, fp_destination = state_file st\<rparr> = (f, r)" by fastforce
  from old_or_new [OF w] Some w show ?thesis by (simp add: crash_file_def)
qed (simp add: crash_file_def)

lemma crash_restarts:
  assumes "inv st"
  shows "fst (crashing writer state_file opened step st (Crash io t x))
     \<in> {st, fst (step st restart), fst (step (fst (step st x)) restart)}"
  using crash_file_old_or_new [of st io t x] opened_same [OF assms] opened_next [OF assms, of x]
  by (auto split: option.split)

lemma crash_run:
  assumes "inv st"
  shows "\<exists>xs. crash_trace restart es xs \<and> run (crashing writer state_file opened step) st es = run step st xs
     \<and> fired (happened P) (crashing writer state_file opened step) st es \<le> fired P step st xs"
  using assms
proof (induction es arbitrary: st)
  case Nil
  show ?case by (rule exI [of _ "[]"]) (simp add: crash_trace.none)
next
  case (Cons e es)
  show ?case
  proof (cases e)
    case (Call x)
    from Cons.IH [OF step_inv [OF Cons.prems, of x]] obtain xs where "crash_trace restart es xs"
      "run (crashing writer state_file opened step) (fst (step st x)) es = run step (fst (step st x)) xs"
      "fired (happened P) (crashing writer state_file opened step) (fst (step st x)) es \<le> fired P step (fst (step st x)) xs" by blast
    with Call show ?thesis by (intro exI [of _ "x # xs"]) (auto intro: crash_trace.call)
  next
    case (Crash io t x)
    let ?st = "fst (crashing writer state_file opened step st e)"
    have no: "\<not> happened P e (snd (crashing writer state_file opened step st e))" by (simp add: Crash)
    have inv: "inv ?st" using crash_restarts [OF Cons.prems, of io t x] Cons.prems step_inv Crash by auto
    from Cons.IH [OF inv] obtain xs where xs: "crash_trace restart es xs"
      "run (crashing writer state_file opened step) ?st es = run step ?st xs"
      "fired (happened P) (crashing writer state_file opened step) ?st es \<le> fired P step ?st xs" by blast
    from crash_restarts [OF Cons.prems, of io t x] Crash consider "?st = st" | "?st = fst (step st restart)"
      | "?st = fst (step (fst (step st x)) restart)" by auto
    then show ?thesis
    proof cases
      case 1
      with xs no Crash show ?thesis by (intro exI [of _ xs]) (simp del: crashing.simps add: crash_trace.stuck)
    next
      case 2
      with xs no Crash show ?thesis by (intro exI [of _ "restart # xs"]) (simp del: crashing.simps add: crash_trace.before)
    next
      case 3
      with xs no Crash show ?thesis by (intro exI [of _ "x # restart # xs"]) (simp del: crashing.simps add: crash_trace.after)
    qed
  qed
qed

lemma run_calls: "run (crashing writer state_file opened step) st (map Call xs) = run step st xs"
  by (induction xs arbitrary: st) simp_all

lemma fired_calls: "fired (happened P) (crashing writer state_file opened step) st (map Call xs) = fired P step st xs"
  by (induction xs arbitrary: st) simp_all

end

definition lease_opened :: "lease_store \<Rightarrow> bytes option \<Rightarrow> lease_store option" where
  "lease_opened st content =
     (case lease_open (ls_path st) (ls_max_records st) content of Inl _ \<Rightarrow> None | Inr s \<Rightarrow> Some s)"

interpretation lease_crash: crashable lease_writer_write lease_step lease_durable ls_file lease_opened "(True, Restart)"
proof
  fix st s x
  assume d: "lease_durable st"
  show "lease_opened st (ls_file st) = Some s \<Longrightarrow> s = fst (lease_step st (True, Restart))"
    by (auto simp: lease_opened_def lease_step_def split: sum.splits)
  have "ls_path (fst (lease_step st x)) = ls_path st" "ls_max_records (fst (lease_step st x)) = ls_max_records st"
    using lease_step_before [OF d, of x] by (simp_all add: lease_store_before_def)
  then show "lease_opened st (ls_file (fst (lease_step st x))) = Some s \<Longrightarrow> s = fst (lease_step (fst (lease_step st x)) (True, Restart))"
    by (auto simp: lease_opened_def lease_step_def [of _ "(True, Restart)"] split: sum.splits)
qed

definition replay_opened :: "replay_cache \<Rightarrow> bytes option \<Rightarrow> replay_cache option" where
  "replay_opened c content =
     (case replay_open (rc_path c) (rc_max_entries c) (rc_max_sequences c) content of Inl _ \<Rightarrow> None | Inr s \<Rightarrow> Some s)"

lemma replay_step_limits:
  assumes "replay_inv c"
  shows "rc_path (fst (replay_step c x)) = rc_path c" "rc_max_entries (fst (replay_step c x)) = rc_max_entries c"
    "rc_max_sequences (fst (replay_step c x)) = rc_max_sequences c"
  using assms replay_step_inv [OF assms, of x]
  by (cases rule: replay_step_moves [OF assms, of x];
      auto simp: replay_moves_def replay_inv_def replay_step.simps(4) replay_open_def split: sum.splits if_splits)+

lemma replay_opened_restart:
  assumes "rc_path d = rc_path c" "rc_max_entries d = rc_max_entries c" "rc_max_sequences d = rc_max_sequences c"
    "replay_opened c (rc_file d) = Some s"
  shows "s = fst (replay_step d Reopen)"
  using assms by (auto simp: replay_opened_def replay_step.simps(4) split: sum.splits)

interpretation replay_crash: crashable replay_write replay_step replay_inv rc_file replay_opened Reopen
proof
  fix c s x
  assume inv: "replay_inv c"
  show "replay_opened c (rc_file c) = Some s \<Longrightarrow> s = fst (replay_step c Reopen)"
    by (rule replay_opened_restart) simp_all
  show "replay_opened c (rc_file (fst (replay_step c x))) = Some s \<Longrightarrow> s = fst (replay_step (fst (replay_step c x)) Reopen)"
    by (rule replay_opened_restart) (simp_all only: replay_step_limits [OF inv])
qed

lemma auth_restart: "fst (auth_step p c Auth_Restart) = fst (replay_step c Reopen)"
  by (simp add: case_prod_unfold Let_def)

lemma auth_step_limits:
  assumes "replay_inv c"
  shows "rc_path (fst (auth_step p c x)) = rc_path c" "rc_max_entries (fst (auth_step p c x)) = rc_max_entries c"
    "rc_max_sequences (fst (auth_step p c x)) = rc_max_sequences c"
  by (rule auth_step_replay [of p c x]; simp add: replay_step_limits [OF assms])+

interpretation auth_crash: crashable replay_write "auth_step p" replay_inv rc_file replay_opened Auth_Restart for p
proof
  fix c s x
  assume inv: "replay_inv c"
  show "replay_opened c (rc_file c) = Some s \<Longrightarrow> s = fst (auth_step p c Auth_Restart)"
    unfolding auth_restart by (rule replay_opened_restart) simp_all
  show "replay_opened c (rc_file (fst (auth_step p c x))) = Some s \<Longrightarrow> s = fst (auth_step p (fst (auth_step p c x)) Auth_Restart)"
    unfolding auth_restart by (rule replay_opened_restart) (simp_all add: auth_step_limits [OF inv])
qed

section \<open>Once, despite crashes\<close>

text \<open>
  C1: a lease is executed at most once.  Over any sequence of calls, refused writes, restarts and
  crashes in the middle of any write, at most one execution claim of a lease succeeds, and then the
  persisted marker is set at the end.  Without crashes the claim has succeeded exactly when the marker
  is set.
\<close>

theorem execution_claimed_once_despite_crashes:
  assumes "lease_open True n content = Inr st" and "map_of (ls_records st) ld = None"
    and "step = crashing lease_writer_write ls_file lease_opened lease_step"
  shows "fired (happened (execution_won ld)) step st events \<le> (if execution_spent ld (run step st events) then 1 else 0)
     \<and> (events = map Call calls \<longrightarrow>
          fired (happened (execution_won ld)) step st events = (if execution_spent ld (run step st events) then 1 else 0))"
proof -
  have d: "lease_durable st" by (rule lease_open_durable [OF assms(1)])
  have fresh: "\<not> execution_spent ld st" using assms(2) by (simp add: execution_spent_def)
  obtain xs where "run step st events = run lease_step st xs"
    "fired (happened (execution_won ld)) step st events \<le> fired (execution_won ld) lease_step st xs"
    using lease_crash.crash_run [OF d, of events "execution_won ld"] unfolding assms(3) by blast
  with execution_claim.fired_iff_spent [OF d fresh] show ?thesis
    by (auto simp: assms(3) lease_crash.run_calls lease_crash.fired_calls simp del: crashing.simps)
qed

definition sample_lease_events :: "(bool \<times> lease_op) crash_event list" where
  "sample_lease_events = map Call sample_calls @ [Crash killed_io None (True, Claim_Execution sample_lease 14)]"

theorem execution_claimed_once_despite_crashes_witness:
  "fired (happened (execution_won sample_lease)) (crashing lease_writer_write ls_file lease_opened lease_step) sample_store sample_lease_events
     \<le> (if execution_spent sample_lease (run (crashing lease_writer_write ls_file lease_opened lease_step) sample_store sample_lease_events)
         then 1 else 0)"
  using execution_claimed_once_despite_crashes [OF sample_open sample_store_empty refl, where events = sample_lease_events] by blast

text \<open>
  C2: a message is authenticated at most once.  In any run of the authenticator whose blocks do not
  go back, failed writes, restarts and crashes in the middle of any write included, at most one call
  accepts a message of given content, whatever its signature; nothing is assumed of the verifier.
\<close>

theorem message_authenticated_once_despite_crashes:
  assumes "replay_open True max_entries max_sequences content = Inr c"
    and "sorted (concat (map (auth_block \<circ> crash_op) events))"
  shows "fired (happened (auth_accepts m)) (crashing replay_write rc_file replay_opened (auth_step p)) c events \<le> 1"
proof -
  obtain xs where xs: "crash_trace Auth_Restart events xs"
    "fired (happened (auth_accepts m)) (crashing replay_write rc_file replay_opened (auth_step p)) c events
       \<le> fired (auth_accepts m) (auth_step p) c xs"
    using auth_crash.crash_run [OF replay_open_inv [OF assms(1)]] by blast
  have "sorted (concat (map auth_block xs))"
    using crash_trace_sorted [OF xs(1) _ assms(2)] by simp
  from message_authenticated_once [OF assms(1) this] xs(2) show ?thesis by (rule order_trans [rotated])
qed

theorem message_authenticated_once_despite_crashes_witness:
  "fired (happened (auth_accepts sample_message)) (crashing replay_write rc_file replay_opened (auth_step sample_policy)) sample_cache
     [Crash killed_io None (Authenticate Disk_Ok sample_message 12), Call (Authenticate Disk_Ok sample_message 12),
      Call (Authenticate Mkdir_Fails sample_message 15)] \<le> 1"
  by (rule message_authenticated_once_despite_crashes [OF sample_cache_open]) simp

text \<open>
  C6: a token is not accepted again before its expiry has passed.  If a call has accepted a token
  until block \<open>e\<close> and a later call accepts it again, then that call, or a call between the two, was made at
  a block beyond \<open>e\<close>, whatever calls, failed writes, restarts and crashes in the middle of writes lie
  before and between.  So with blocks that do not go back the token is accepted again only after
  \<open>e\<close>.  A call beyond \<open>e\<close> makes the cache forget the token even if it fails itself, and a later call
  at an earlier block is then accepted, as the witness shows.
\<close>

theorem token_accepted_once_despite_crashes:
  assumes "replay_open True m n content = Inr c0" "step = crashing replay_write rc_file replay_opened replay_step"
    and "c = run step c0 earlier" and "op_token x = Some (s, t, b, e)" and "snd (replay_step c x) = Inr ()"
    and "op_token z = Some (s, t, b', e')" and "snd (replay_step (run step (fst (replay_step c x)) events) z) = Inr ()"
  shows "e < b' \<or> (\<exists>y \<in> set events. \<exists>s2 t2 b2 e2. op_token (crash_op y) = Some (s2, t2, b2, e2) \<and> e < b2)"
proof (rule ccontr)
  assume not: "\<not> ?thesis"
  then have early: "b' \<le> e" "\<forall>y \<in> set events. op_by e (crash_op y)"
    by (auto simp: op_by_def not_less split: option.splits prod.splits)
  have inv0: "replay_inv c0" by (rule replay_open_inv [OF assms(1)])
  obtain xs where xs: "c = run replay_step c0 xs"
    using replay_crash.crash_run [OF inv0, of earlier] unfolding assms(2,3) by blast
  have "replay_inv (fst (replay_step c x))"
    unfolding xs by (intro replay_step_inv replay_machine.run_inv inv0)
  from replay_crash.crash_run [OF this, of events] obtain ys where ys: "crash_trace Reopen events ys"
    "run step (fst (replay_step c x)) events = run replay_step (fst (replay_step c x)) ys"
    unfolding assms(2) by blast
  have "\<forall>y \<in> set ys. op_by e y" by (rule crash_trace_all [OF ys(1) _ early(2)]) (simp add: op_by_def)
  from replay_token_accepted_once [OF assms(1) xs assms(4,5) this assms(6) early(1)] assms(7) show False by (simp only: ys(2))
qed

theorem token_accepted_once_despite_crashes_witness:
  "snd (replay_step (run (crashing replay_write rc_file replay_opened replay_step)
         (fst (replay_step sample_cache (Accept_Once Disk_Ok ''miner'' ''token'' 10 50)))
         [Call (Accept_Once Disk_Ok ''miner'' [] 51 60)]) (Accept_Once Disk_Ok ''miner'' ''token'' 20 50)) = Inr ()
   \<and> (\<exists>y \<in> set [Call (Accept_Once Disk_Ok ''miner'' [] 51 60)]. \<exists>s2 t2 b2 e2. op_token (crash_op y) = Some (s2, t2, b2, e2) \<and> 50 < b2)"
proof -
  let ?step = "crashing replay_write rc_file replay_opened replay_step"
  let ?first = "Accept_Once Disk_Ok ''miner'' ''token'' 10 50"
  let ?between = "[Call (Accept_Once Disk_Ok ''miner'' [] 51 60)]"
  let ?again = "Accept_Once Disk_Ok ''miner'' ''token'' 20 50"
  note eval = replay_accept_once_def replay_block_def in_range_def sample_key Let_def replay_purge_def sample_cache_def
    replay_try_def replay_persist_def
  have start: "sample_cache = run ?step sample_cache []" by simp
  have first: "snd (replay_step sample_cache ?first) = Inr ()" by (simp add: eval)
  have "replay_cache_key ''miner'' [] = Inl Replay_Key_Size" by (simp add: replay_cache_key_def)
  then have again: "snd (replay_step (run ?step (fst (replay_step sample_cache ?first)) ?between) ?again) = Inr ()"
    by (simp add: eval)
  have "50 < (20 :: int) \<or> (\<exists>y \<in> set ?between. \<exists>s2 t2 b2 e2. op_token (crash_op y) = Some (s2, t2, b2, e2) \<and> 50 < b2)"
    by (rule token_accepted_once_despite_crashes [OF sample_cache_open refl start _ first _ again]) simp_all
  with again show ?thesis by simp
qed

end
