(* ===== verification/Sizes.thy ===== *)
theory Sizes
  imports Protocol
begin

text \<open>
  How long encodings are: an upper bound on the canonical JSON of a message from its structure,
  from which every manifest, every lease and evidence of up to 100 checkpoints fit the wire,
  and a lower bound, from which evidence with 1000 checkpoints does not.
\<close>

section \<open>Upper bounds\<close>

lemma length_quote_text_le: "length (quote_text a s) \<le> 6 * length s + 2"
proof -
  have "length (concat (map (escape_char a) s)) \<le> 6 * length s"
    by (induction s) (auto simp: escape_char_def Let_def)
  then show ?thesis by (simp add: quote_text_def)
qed

lemma length_utf8_encode_le: "length (utf8_encode s) \<le> 2 * length s"
  by (induction s) (auto simp: utf8_encode_def utf8_char_def Let_def)

text \<open>A size of decoded values that does not depend on the order of members.\<close>

primrec json_size :: "json \<Rightarrow> nat" where
  "json_size JNull = 4"
| "json_size (JBool b) = 5"
| "json_size (JInt i) = length (show_int i)"
| "json_size (JFloat s) = length s"
| "json_size (JConst s) = length s"
| "json_size (JStr s) = 6 * length s + 2"
| "json_size (JArr vs) = 2 + sum_list (map Suc (map json_size vs))"
| "json_size (JObj kvs) = 2 + sum_list (map (\<lambda>(k, n). 6 * length k + 4 + n) (map (map_prod id json_size) kvs))"

lemma length_json_elems_le:
  "length (json_elems a vs) \<le> (\<Sum>v \<leftarrow> vs. Suc (length (json_text a v)))"
  by (induction vs rule: induct_list012) simp_all

lemma length_json_members_le:
  "length (json_members a kvs) \<le> (\<Sum>(k, v) \<leftarrow> kvs. 6 * length k + 4 + length (json_text a v))"
proof (induction kvs rule: induct_list012)
  case (2 kv)
  then show ?case using length_quote_text_le [of a "fst kv"] by (cases kv) simp
next
  case (3 x y zs)
  then show ?case using length_quote_text_le [of a "fst x"] by (cases x; cases y) simp
qed simp

lemma sum_list_sort_key: "sum_list (map f (sort_key g xs)) = sum_list (map f xs)"
  for f :: "'a \<Rightarrow> nat"
proof -
  have "mset (map f (sort_key g xs)) = mset (map f xs)" by simp
  then show ?thesis by (metis sum_mset_sum_list)
qed

lemma length_json_text_le: "length (json_text a (json_sort v)) \<le> json_size v"
proof (induction v)
  case (JStr s)
  then show ?case using length_quote_text_le by simp
next
  case (JArr vs)
  have "(\<Sum>v \<leftarrow> vs. Suc (length (json_text a (json_sort v)))) \<le> (\<Sum>v \<leftarrow> vs. Suc (json_size v))"
    using JArr by (intro sum_list_mono) simp
  then show ?case
    using length_json_elems_le [of a "map json_sort vs"] by (simp add: comp_def)
next
  case (JObj kvs)
  let ?kvs = "map (map_prod id json_sort) kvs"
  have "length (json_members a (sort_key fst ?kvs)) \<le> (\<Sum>(k, v) \<leftarrow> sort_key fst ?kvs. 6 * length k + 4 + length (json_text a v))"
    by (rule length_json_members_le)
  also have "\<dots> = (\<Sum>(k, v) \<leftarrow> ?kvs. 6 * length k + 4 + length (json_text a v))"
    by (rule sum_list_sort_key)
  also have "\<dots> = (\<Sum>kv \<leftarrow> kvs. 6 * length (fst kv) + 4 + length (json_text a (json_sort (snd kv))))"
    by (simp add: comp_def split_beta)
  also have "\<dots> \<le> (\<Sum>kv \<leftarrow> kvs. 6 * length (fst kv) + 4 + json_size (snd kv))"
    using JObj by (intro sum_list_mono) (auto simp: snds.simps)
  finally show ?case by (simp add: comp_def split_beta)
qed simp_all

lemma json_size_obj: "json_size (JObj kvs) = 2 + (\<Sum>(k, v) \<leftarrow> kvs. 6 * length k + 4 + json_size v)"
  by (simp add: comp_def split_def)

lemma length_json_dumps_le: "length (json_dumps a v) \<le> 2 * json_size v"
  using length_json_text_le [of a v] length_utf8_encode_le [of "json_text a (json_sort v)"] by (simp add: json_dumps_def)

lemma json_size_int [simp]: "in_range lo hi i \<Longrightarrow> 0 \<le> lo \<Longrightarrow> hi \<le> max_int64 \<Longrightarrow> length (show_int i) \<le> 19"
proof -
  assume "in_range lo hi i" "0 \<le> lo" "hi \<le> max_int64"
  then have "nat i < 10 ^ 19" "0 \<le> i" by (auto simp: in_range_def nat_less_iff)
  then show ?thesis using length_show_nat [of "nat i" 19] by (simp add: show_int_def)
qed

section \<open>Messages that fit\<close>

definition fits :: "message \<Rightarrow> bool" where
  "fits m \<longleftrightarrow> is_ok (canonical_bytes m)"

lemma fits_digest: "fits m \<Longrightarrow> \<exists>d. message_digest m = Inr d \<and> is_digest d"
  by (auto simp: fits_def message_digest_def elim!: is_okE)

lemma fitsI: "message_ok m \<Longrightarrow> json_size (to_primitive m) \<le> 32768 \<Longrightarrow> fits m"
  using length_json_dumps_le [of False "to_primitive m"] by (simp add: fits_def canonical_bytes_total)

lemma version_size: "message_ok m \<Longrightarrow> length (show_int (message_version m)) \<le> 19"
  using message_ok_version [of m] by (simp add: show_int_def show_nat.simps)

lemma to_primitive_size:
  "message_ok m \<Longrightarrow> json_size (to_primitive m) \<le> 300 + 6 * length (message_type m) + json_size (JObj (message_payload m))"
  using version_size [of m] by (simp add: to_primitive_def wire_object_def json_size_obj del: json_size.simps(8))

lemma class_lengths:
  "is_digest s \<Longrightarrow> length s \<le> 128" "is_hotkey s \<Longrightarrow> length s \<le> 128" "is_identifier s \<Longrightarrow> length s \<le> 128"
  "is_software_name s \<Longrightarrow> length s \<le> 128"
  using is_digest_plain [of s] is_hotkey_plain [of s] is_identifier_plain [of s] is_software_name_plain [of s] by auto

lemma work_lease_fits: "message_ok (Work_Lease w) \<Longrightarrow> fits (Work_Lease w)"
proof (rule fitsI)
  assume ok: "message_ok (Work_Lease w)"
  then have new: "work_lease_new w = Inr w" by (simp add: message_ok_def message_valid_def)
  have texts: "length (wl_challenge_commitment w) \<le> 128" "length (wl_manifest_digest w) \<le> 128"
    "length (wl_miner_hotkey w) \<le> 128" "length (wl_nonce w) \<le> 128" "length (wl_shard_id w) \<le> 128"
    "length (wl_signature w) \<le> 128" "length (wl_validator_hotkey w) \<le> 128"
    using new by (simp_all add: work_lease_new_def class_lengths)
  have int: "length (show_int (wl_start_block w)) \<le> 19" "length (show_int (wl_deadline_block w)) \<le> 19"
    using new json_size_int [of 1 max_int64] by (auto simp: work_lease_new_def)
  have "json_size (JObj (message_payload (Work_Lease w))) \<le> 10000"
    using texts int by (simp add: work_lease_payload_def json_size_obj del: json_size.simps(8))
  then show "json_size (to_primitive (Work_Lease w)) \<le> 32768"
    using to_primitive_size [OF ok] by simp
qed (assumption)

lemma job_manifest_fits: "message_ok (Job_Manifest m) \<Longrightarrow> fits (Job_Manifest m)"
proof (rule fitsI)
  assume ok: "message_ok (Job_Manifest m)"
  then have new: "job_manifest_new m = Inr m" "resource_policy_new (jm_resource_policy m) = Inr (jm_resource_policy m)"
    "verification_policy_new (jm_verification_policy m) = Inr (jm_verification_policy m)"
    by (simp_all add: message_ok_def message_valid_def)
  have texts: "length (jm_container_digest m) \<le> 128" "length (jm_entrypoint_digest m) \<le> 128"
    "length (jm_framework m) \<le> 128" "length (jm_input_root m) \<le> 128" "length (jm_job_id m) \<le> 128"
    "length (jm_publisher_hotkey m) \<le> 128" "length (jm_signature m) \<le> 128"
    using new(1) by (auto simp: job_manifest_new_def class_lengths pattern_fields)
  have int: "length (show_int (jm_expires_at_block m)) \<le> 19" "length (show_int (jm_lease_seconds m)) \<le> 19"
    using new(1) json_size_int [of 1 max_int64] json_size_int [of 60 86400] by (auto simp: job_manifest_new_def)
  have rp: "json_size (resource_policy_to_primitive (jm_resource_policy m)) \<le> 2000"
    using new(2) json_size_int [of 1 8 "rp_gpu_count (jm_resource_policy m)"]
      json_size_int [of 1024 1048576 "rp_gpu_memory_mb (jm_resource_policy m)"]
      json_size_int [of 1 256 "rp_cpu_cores (jm_resource_policy m)"]
      json_size_int [of 1024 2097152 "rp_memory_mb (jm_resource_policy m)"]
      json_size_int [of 60 86400 "rp_max_runtime_seconds (jm_resource_policy m)"]
    by (cases "rp_network_policy (jm_resource_policy m)")
      (simp_all add: resource_policy_new_def resource_policy_to_primitive_def json_size_obj del: json_size.simps(8))
  have vp: "json_size (verification_policy_to_primitive (jm_verification_policy m)) \<le> 2000"
    using new(3) is_identifier_plain [of "vp_challenge_kind (jm_verification_policy m)"]
      json_size_int [of 1 1000000000 "vp_checkpoint_interval_steps (jm_verification_policy m)"]
    by (cases "vp_minimum_evidence_tier (jm_verification_policy m)")
      (simp_all add: verification_policy_new_def verification_policy_to_primitive_def json_size_obj del: json_size.simps(8))
  have "json_size (JObj (message_payload (Job_Manifest m))) \<le> 20000"
    using texts int rp vp by (simp add: job_manifest_payload_def json_size_obj del: json_size.simps(8))
  then show "json_size (to_primitive (Job_Manifest m)) \<le> 32768"
    using to_primitive_size [OF ok] by simp
qed (assumption)

lemma checkpoint_size: "checkpoint_new c = Inr c \<Longrightarrow> json_size (checkpoint_to_primitive c) \<le> 600"
  using is_digest_plain [of "ck_digest c"] json_size_int [of 1 max_int64 "ck_step c"]
  by (auto simp: checkpoint_new_def checkpoint_to_primitive_def json_size_obj simp del: json_size.simps(8))

lemma optional_text_size: "optional_digest name s = Inr () \<Longrightarrow> json_size (optional_text s) \<le> 430"
  using is_digest_plain by (fastforce simp: optional_digest_def optional_text_def split: option.splits)

lemma execution_evidence_fits:
  assumes "message_ok (Execution_Evidence e)" "length (ee_checkpoints e) \<le> 30"
  shows "fits (Execution_Evidence e)"
proof (rule fitsI [OF assms(1)])
  have new: "execution_evidence_new e = Inr e" "\<forall>c \<in> set (ee_checkpoints e). checkpoint_new c = Inr c"
    using assms(1) by (simp_all add: message_ok_def message_valid_def)
  have texts: "length (ee_lease_digest e) \<le> 128" "length (ee_miner_hotkey e) \<le> 128" "length (ee_image_digest e) \<le> 128"
    "length (ee_challenge_response_digest e) \<le> 128" "length (ee_result_digest e) \<le> 128" "length (ee_signature e) \<le> 128"
    using new(1) by (auto simp: execution_evidence_new_def class_lengths)
  have ints: "length (show_int (ee_work_units e)) \<le> 19" "length (show_int (ee_active_seconds_ms e)) \<le> 19"
    "length (show_int (ee_submitted_at_block e)) \<le> 19" "length (show_int (ee_sequence e)) \<le> 19"
    using new(1) json_size_int [of 1 max_int64] json_size_int [of 0 max_int64] json_size_int [of 1 86400000]
    by (auto simp: execution_evidence_new_def)
  have opt: "json_size (optional_text (ee_attestation_digest e)) \<le> 430"
    "json_size (optional_text (ee_bundle_root e)) \<le> 430"
    using new(1) optional_text_size by (auto simp: execution_evidence_new_def)
  have "(\<Sum>c \<leftarrow> ee_checkpoints e. Suc (json_size (checkpoint_to_primitive c))) \<le> (\<Sum>c \<leftarrow> ee_checkpoints e. 601)"
    using new(2) checkpoint_size by (intro sum_list_mono) simp
  then have cks: "json_size (JArr (map checkpoint_to_primitive (ee_checkpoints e))) \<le> 18032"
    using assms(2) by (simp add: comp_def sum_list_triv)
  have "json_size (JObj (message_payload (Execution_Evidence e))) \<le> 30000"
    using texts ints opt cks
    by (cases "ee_bundle_root e")
      (simp_all add: execution_evidence_payload_def json_size_obj optional_text_def del: json_size.simps(7,8))
  then show "json_size (to_primitive (Execution_Evidence e)) \<le> 32768"
    using to_primitive_size [OF assms(1)] by simp
qed

section \<open>Evidence that does not fit\<close>

lemma length_json_part:
  "(k, v) \<in> set kvs \<Longrightarrow> length (json_text a v) \<le> length (json_members a kvs)"
  "w \<in> set vs \<Longrightarrow> length (json_text a w) \<le> length (json_elems a vs)"
  by (induction kvs rule: induct_list012; auto) (induction vs rule: induct_list012; auto)

lemma length_json_elems_ge: "(\<Sum>v \<leftarrow> vs. length (json_text a v)) \<le> length (json_elems a vs)"
  by (induction vs rule: induct_list012) simp_all

lemma length_json_part_sorted:
  assumes "(k, v) \<in> set kvs"
  shows "length (json_text a (json_sort v)) \<le> length (json_text a (json_sort (JObj kvs)))"
proof -
  have "(k, json_sort v) \<in> set (sort_key fst (map (map_prod id json_sort) kvs))" using assms by force
  from length_json_part(1) [OF this] show ?thesis by (simp add: le_SucI)
qed

lemma checkpoint_length:
  assumes "checkpoint_new c = Inr c"
  shows "71 \<le> length (json_text a (json_sort (checkpoint_to_primitive c)))"
proof -
  have "71 = length (ck_digest c)" using assms is_digest_plain by (simp add: checkpoint_new_def)
  also have "\<dots> \<le> length (json_text a (json_sort (JStr (ck_digest c))))" using length_quote_text by simp
  also have "\<dots> \<le> length (json_text a (json_sort (checkpoint_to_primitive c)))"
    unfolding checkpoint_to_primitive_def by (rule length_json_part_sorted) simp
  finally show ?thesis .
qed

lemma execution_evidence_too_large:
  assumes "message_ok (Execution_Evidence e)" "1000 \<le> length (ee_checkpoints e)"
  shows "canonical_bytes (Execution_Evidence e) = Inl Wire_Too_Large"
proof -
  let ?ck = "JArr (map checkpoint_to_primitive (ee_checkpoints e))" and ?m = "Execution_Evidence e"
  have new: "\<forall>c \<in> set (ee_checkpoints e). checkpoint_new c = Inr c"
    using assms(1) by (simp add: message_ok_def)
  have "71 * 1000 \<le> (\<Sum>c \<leftarrow> ee_checkpoints e. (71 :: nat))" using assms(2) by (simp add: sum_list_triv)
  also have "\<dots> \<le> (\<Sum>c \<leftarrow> ee_checkpoints e. length (json_text False (json_sort (checkpoint_to_primitive c))))"
    using new checkpoint_length by (intro sum_list_mono) simp
  also have "\<dots> \<le> length (json_text False (json_sort ?ck))"
    using length_json_elems_ge [of False "map json_sort (map checkpoint_to_primitive (ee_checkpoints e))"]
    by (simp add: comp_def)
  also have "\<dots> \<le> length (json_text False (json_sort (JObj (message_payload ?m))))"
    by (rule length_json_part_sorted [of "''checkpoints''"]) (simp add: execution_evidence_payload_def)
  also have "\<dots> \<le> length (json_text False (json_sort (to_primitive ?m)))"
    unfolding to_primitive_def wire_object_def by (rule length_json_part_sorted [of "''payload''"]) simp
  also have "\<dots> \<le> length (json_dumps False (to_primitive ?m))"
    using length_utf8_encode_ge by (simp add: json_dumps_def)
  finally show ?thesis by (simp add: canonical_bytes_total [OF assms(1)])
qed

end
