(* ===== verification/Evidence.thy ===== *)
theory Evidence
  imports Sizes
begin

text \<open>
  \<open>src/gpuforge/evidence.py\<close>: the references behind a signed execution message.  Its class
  \<open>EvidenceBundle\<close> is \<open>proof_bundle\<close> here (\<open>attestation.py\<close> has a class of the same name).
\<close>

datatype evidence_error =
    Invalid_Blob_Reference | Blob_Mismatch | Invalid_Evidence_Bundle | Evidence_Bundle_Oversized
  | Evidence_Binding_Mismatch
  | Evidence_Lease_Error protocol_error

record blob_reference =
  br_digest :: string
  br_size_bytes :: int

definition blob_reference_new :: "blob_reference \<Rightarrow> evidence_error + blob_reference" where
  "blob_reference_new r = passes
     [require (is_digest (br_digest r)) Invalid_Blob_Reference,
      require (in_range 1 4194304 (br_size_bytes r)) Invalid_Blob_Reference] r"

definition blob_verify :: "blob_reference \<Rightarrow> bytes \<Rightarrow> evidence_error + unit" where
  "blob_verify r payload =
     (if int (length payload) \<noteq> br_size_bytes r then Inl Blob_Mismatch
      else if sha256_id payload \<noteq> br_digest r then Inl Blob_Mismatch
      else Inr ())"

record proof_bundle =
  pb_manifest_digest :: string
  pb_lease_digest :: string
  pb_challenge_commitment :: string
  pb_challenge_response :: blob_reference
  pb_attestation :: "blob_reference option"
  pb_runtime_image_digest :: string
  pb_checkpoints :: "checkpoint list"
  pb_result :: blob_reference
  pb_measurement :: blob_reference
  pb_failure_events :: blob_reference

definition blob_primitive :: "blob_reference \<Rightarrow> json" where
  "blob_primitive r = JObj [(''digest'', JStr (br_digest r)), (''size_bytes'', JInt (br_size_bytes r))]"

definition bundle_primitive :: "proof_bundle \<Rightarrow> json" where
  "bundle_primitive b = JObj
     [(''attestation'', case pb_attestation b of None \<Rightarrow> JNull | Some r \<Rightarrow> blob_primitive r),
      (''challenge_commitment'', JStr (pb_challenge_commitment b)),
      (''challenge_response'', blob_primitive (pb_challenge_response b)),
      (''checkpoints'', JArr (map checkpoint_to_primitive (pb_checkpoints b))),
      (''failure_events'', blob_primitive (pb_failure_events b)),
      (''lease_digest'', JStr (pb_lease_digest b)),
      (''manifest_digest'', JStr (pb_manifest_digest b)),
      (''measurement'', blob_primitive (pb_measurement b)),
      (''result'', blob_primitive (pb_result b)),
      (''runtime_image_digest'', JStr (pb_runtime_image_digest b))]"

definition bundle_bytes :: "proof_bundle \<Rightarrow> evidence_error + bytes" where
  "bundle_bytes b =
     (let encoded = json_dumps True (bundle_primitive b) in
      if int (length encoded) > 65536 then Inl Evidence_Bundle_Oversized else Inr encoded)"

text \<open>The checks of the constructor; that the references are valid is their own constructor's.\<close>

definition bundle_new :: "proof_bundle \<Rightarrow> evidence_error + proof_bundle" where
  "bundle_new b = passes
     [require (list_all is_digest [pb_manifest_digest b, pb_lease_digest b, pb_challenge_commitment b,
        pb_runtime_image_digest b]) Invalid_Evidence_Bundle,
      require (1 \<le> length (pb_checkpoints b) \<and> length (pb_checkpoints b) \<le> 4096) Invalid_Evidence_Bundle,
      require (map ck_step (pb_checkpoints b) = sorted_list_of_set (set (map ck_step (pb_checkpoints b))))
        Invalid_Evidence_Bundle,
      bindE (bundle_bytes b) (\<lambda>_. Inr ())] b"

definition root_domain :: bytes where
  "root_domain = utf8_encode ''gpuforge-evidence-bundle-v1'' @ [0]"

definition bundle_root :: "proof_bundle \<Rightarrow> evidence_error + string" where
  "bundle_root b = bindE (bundle_bytes b) (\<lambda>e. Inr (sha256_id (root_domain @ e)))"

definition result_domain :: bytes where
  "result_domain = utf8_encode ''gpuforge-result-binding-v1'' @ [0]"

text \<open>
  \<open>bytes.fromhex(digest[7:])\<close> and \<open>size.to_bytes(8, "big")\<close>: neither fails on a reference that
  its constructor accepted.
\<close>

definition reference_bytes :: "blob_reference \<Rightarrow> bytes" where
  "reference_bytes r =
     (case from_hex (drop 7 (br_digest r)) of Some d \<Rightarrow> d | None \<Rightarrow> []) @ be_bytes 8 (nat (br_size_bytes r))"

definition result_binding_bytes :: "blob_reference \<Rightarrow> blob_reference \<Rightarrow> blob_reference \<Rightarrow> bytes" where
  "result_binding_bytes result measurement failure_events =
     result_domain @ concat (map reference_bytes [result, measurement, failure_events])"

definition result_binding_digest :: "blob_reference \<Rightarrow> blob_reference \<Rightarrow> blob_reference \<Rightarrow> string" where
  "result_binding_digest result measurement failure_events =
     sha256_id (result_binding_bytes result measurement failure_events)"

text \<open>
  \<open>verify_binding\<close>: the comparisons of one condition, from left to right; computing the digest
  of the lease or the root can raise.
\<close>

definition verify_binding :: "proof_bundle \<Rightarrow> work_lease \<Rightarrow> execution_evidence \<Rightarrow> evidence_error + unit" where
  "verify_binding b lease e =
     (if pb_manifest_digest b \<noteq> wl_manifest_digest lease then Inl Evidence_Binding_Mismatch
      else
        bindE (map_error Evidence_Lease_Error (message_digest (Work_Lease lease))) (\<lambda>lease_digest.
        if pb_lease_digest b \<noteq> lease_digest
         \<or> pb_lease_digest b \<noteq> ee_lease_digest e
         \<or> pb_challenge_commitment b \<noteq> wl_challenge_commitment lease
         \<or> br_digest (pb_challenge_response b) \<noteq> ee_challenge_response_digest e
         \<or> map_option br_digest (pb_attestation b) \<noteq> ee_attestation_digest e
         \<or> pb_runtime_image_digest b \<noteq> ee_image_digest e
         \<or> pb_checkpoints b \<noteq> ee_checkpoints e
        then Inl Evidence_Binding_Mismatch
        else
          bindE (bundle_root b) (\<lambda>root.
          if Some root \<noteq> ee_bundle_root e then Inl Evidence_Binding_Mismatch
          else if result_binding_digest (pb_result b) (pb_measurement b) (pb_failure_events b) \<noteq> ee_result_digest e
          then Inl Evidence_Binding_Mismatch
          else Inr ())))"

section \<open>Properties\<close>

text \<open>A bundle that the program can build: its parts are valid too.\<close>

definition bundle_ok :: "proof_bundle \<Rightarrow> bool" where
  "bundle_ok b \<longleftrightarrow> bundle_new b = Inr b
     \<and> list_all (\<lambda>r. blob_reference_new r = Inr r) [pb_challenge_response b, pb_result b, pb_measurement b, pb_failure_events b]
     \<and> (case pb_attestation b of None \<Rightarrow> True | Some r \<Rightarrow> blob_reference_new r = Inr r)
     \<and> list_all (\<lambda>c. checkpoint_new c = Inr c) (pb_checkpoints b)"

definition bundle_preimage :: "proof_bundle \<Rightarrow> bytes" where
  "bundle_preimage b = root_domain @ json_dumps True (bundle_primitive b)"

lemma blob_primitive_inject: "json_sort (blob_primitive r) = json_sort (blob_primitive s) \<longleftrightarrow> r = s"
  by (cases r; cases s) (simp add: blob_primitive_def)

lemma blob_plain: "blob_reference_new r = Inr r \<Longrightarrow> json_plain (blob_primitive r)"
  by (auto simp: blob_primitive_def blob_reference_new_def in_range_def intro!: int_printable_64)

lemma blob_primitive_not_null: "json_sort (blob_primitive r) \<noteq> JNull"
  by (simp add: blob_primitive_def)

lemma checkpoint_primitive_inject:
  "json_sort (checkpoint_to_primitive c) = json_sort (checkpoint_to_primitive d) \<longleftrightarrow> c = d"
  by (cases c; cases d) (auto simp: checkpoint_to_primitive_def)

lemma checkpoint_plain: "checkpoint_new c = Inr c \<Longrightarrow> json_plain (checkpoint_to_primitive c)"
  by (auto simp: checkpoint_to_primitive_def checkpoint_new_def in_range_def intro!: int_printable_64)

lemma bundle_plain: "bundle_ok b \<Longrightarrow> json_plain (bundle_primitive b)"
  by (auto simp: bundle_ok_def bundle_primitive_def blob_plain checkpoint_plain list_all_iff split: option.splits)

lemma bundle_primitive_inject: "json_sort (bundle_primitive b) = json_sort (bundle_primitive c) \<longleftrightarrow> b = c"
proof -
  have arr: "map (json_sort \<circ> checkpoint_to_primitive) xs = map (json_sort \<circ> checkpoint_to_primitive) ys \<longleftrightarrow> xs = ys" for xs ys
    by (rule inj_map_eq_map) (auto simp: inj_def checkpoint_primitive_inject)
  show ?thesis
    by (cases b; cases c; cases "pb_attestation b"; cases "pb_attestation c")
      (auto simp: bundle_primitive_def blob_primitive_inject blob_primitive_not_null
        blob_primitive_not_null [symmetric] arr)
qed


lemma bundle_bytes_ok: "bundle_ok b \<Longrightarrow> bundle_bytes b = Inr (json_dumps True (bundle_primitive b))"
  by (auto simp: bundle_ok_def bundle_new_def bundle_bytes_def Let_def split: if_splits)

lemma bundle_root_ok: "bundle_ok b \<Longrightarrow> bundle_root b = Inr (sha256_id (bundle_preimage b))"
  by (simp add: bundle_root_def bundle_bytes_ok bundle_preimage_def)

lemma bundle_preimage_inject:
  "bundle_ok b \<Longrightarrow> bundle_ok c \<Longrightarrow> bundle_preimage b = bundle_preimage c \<longleftrightarrow> b = c"
  by (simp add: bundle_preimage_def json_dumps_inject bundle_plain bundle_primitive_inject)

text \<open>A fixed width for each part makes the result binding unambiguous.\<close>

lemma reference_bytes_ok:
  assumes "blob_reference_new r = Inr r"
  shows "length (reference_bytes r) = 40"
    and "blob_reference_new s = Inr s \<Longrightarrow> reference_bytes r = reference_bytes s \<longleftrightarrow> r = s"
proof -
  have ref: "\<exists>d. reference_bytes r = d @ be_bytes 8 (nat (br_size_bytes r)) \<and> length d = 32
      \<and> br_digest r = ''sha256:'' @ to_hex d \<and> nat (br_size_bytes r) < 256 ^ 8 \<and> 0 \<le> br_size_bytes r"
    if "blob_reference_new r = Inr r" for r
  proof -
    have r: "is_digest (br_digest r)" "in_range 1 4194304 (br_size_bytes r)"
      using that by (simp_all add: blob_reference_new_def)
    then have hex: "list_all is_lower_hex (drop 7 (br_digest r))" "length (drop 7 (br_digest r)) = 2 * 32"
      "br_digest r = ''sha256:'' @ drop 7 (br_digest r)"
      using is_digest_hex64 is_digest_text_hex
      by (fastforce simp: is_hex64_def match_class_def digest_hex_def digest_text_def)+
    from from_hex_lower [OF hex(1,2)] obtain d where d: "from_hex (drop 7 (br_digest r)) = Some d" "length d = 32"
      "drop 7 (br_digest r) = to_hex d" .
    with hex(3) have "br_digest r = ''sha256:'' @ to_hex d" by metis
    moreover have "nat (br_size_bytes r) < 256 ^ 8"
      using r(2) unfolding in_range_def by (subst nat_less_iff) simp_all
    ultimately show ?thesis
      using d r(2) by (intro exI [of _ d]) (simp add: reference_bytes_def in_range_def)
  qed
  from ref [OF assms] show "length (reference_bytes r) = 40" by auto
  show "reference_bytes r = reference_bytes s \<longleftrightarrow> r = s" if s: "blob_reference_new s = Inr s"
  proof -
    obtain d where d: "reference_bytes r = d @ be_bytes 8 (nat (br_size_bytes r))" "length d = 32"
      "br_digest r = ''sha256:'' @ to_hex d" "nat (br_size_bytes r) < 256 ^ 8" "0 \<le> br_size_bytes r"
      using ref [OF assms] by blast
    obtain d' where d': "reference_bytes s = d' @ be_bytes 8 (nat (br_size_bytes s))" "length d' = 32"
      "br_digest s = ''sha256:'' @ to_hex d'" "nat (br_size_bytes s) < 256 ^ 8" "0 \<le> br_size_bytes s"
      using ref [OF s] by blast
    have "reference_bytes r = reference_bytes s \<longleftrightarrow> d = d' \<and> nat (br_size_bytes r) = nat (br_size_bytes s)"
      unfolding d(1) d'(1) using d(2,4) d'(2,4) by (simp add: append_eq_append_conv be_bytes_inject)
    also have "\<dots> \<longleftrightarrow> br_digest r = br_digest s \<and> br_size_bytes r = br_size_bytes s"
      unfolding d(3) d'(3) using d(5) d'(5) by (simp add: eq_nat_nat_iff)
    also have "\<dots> \<longleftrightarrow> r = s" by (cases r; cases s) simp
    finally show ?thesis .
  qed
qed

lemma result_binding_bytes_inject:
  assumes "\<forall>x \<in> {a, b, c, d, e, f}. blob_reference_new x = Inr x"
  shows "result_binding_bytes a b c = result_binding_bytes d e f \<longleftrightarrow> a = d \<and> b = e \<and> c = f"
  using assms by (simp add: result_binding_bytes_def reference_bytes_ok append_eq_append_conv)

text \<open>
  The result digest of an evidence message determines the three references it was made from:
  digests are equal exactly when the references are, or their preimages are an explicit collision.
\<close>

theorem result_binding_unambiguous:
  assumes "\<forall>x \<in> {a, b, c, d, e, f}. blob_reference_new x = Inr x"
  shows "result_binding_digest a b c = result_binding_digest d e f \<longleftrightarrow>
     a = d \<and> b = e \<and> c = f \<or> collide (result_binding_bytes a b c) (result_binding_bytes d e f)"
  using result_binding_bytes_inject [OF assms] by (auto simp: result_binding_digest_def collide_def)

text \<open>A bundle, a lease and evidence that it verifies against.\<close>

definition sample_blob :: "nat \<Rightarrow> blob_reference" where
  "sample_blob n = \<lparr>br_digest = sha256_id [word_of_nat n], br_size_bytes = int n\<rparr>"

definition sample_lease :: work_lease where
  "sample_lease = (case sample_message of Work_Lease w \<Rightarrow> w)"

definition sample_bundle :: proof_bundle where
  "sample_bundle = \<lparr>pb_manifest_digest = wl_manifest_digest sample_lease,
     pb_lease_digest = sha256_id (digest_domain @ json_dumps False (to_primitive sample_message)),
     pb_challenge_commitment = wl_challenge_commitment sample_lease,
     pb_challenge_response = sample_blob 1, pb_attestation = Some (sample_blob 2), pb_runtime_image_digest = sha256_id [],
     pb_checkpoints = [\<lparr>ck_step = 1, ck_digest = sha256_id [0]\<rparr>], pb_result = sample_blob 3,
     pb_measurement = sample_blob 4, pb_failure_events = sample_blob 5\<rparr>"

definition sample_evidence_message :: execution_evidence where
  "sample_evidence_message = \<lparr>ee_lease_digest = pb_lease_digest sample_bundle, ee_miner_hotkey = ''miner'',
     ee_attestation_digest = Some (br_digest (sample_blob 2)), ee_image_digest = sha256_id [],
     ee_challenge_response_digest = br_digest (sample_blob 1), ee_checkpoints = pb_checkpoints sample_bundle,
     ee_result_digest = result_binding_digest (sample_blob 3) (sample_blob 4) (sample_blob 5),
     ee_work_units = 400, ee_active_seconds_ms = 1, ee_submitted_at_block = 12, ee_sequence = 1,
     ee_signature = replicate 128 CHR ''0'', ee_protocol_version = 1,
     ee_bundle_root = Some (sha256_id (bundle_preimage sample_bundle))\<rparr>"

lemma sample_blob_ok [simp]: "1 \<le> n \<Longrightarrow> n < 10 \<Longrightarrow> blob_reference_new (sample_blob n) = Inr (sample_blob n)"
  by (simp add: blob_reference_new_def sample_blob_def in_range_def)

theorem result_binding_unambiguous_witness:
  "result_binding_digest (sample_blob 1) (sample_blob 2) (sample_blob 3)
     = result_binding_digest (sample_blob 1) (sample_blob 2) (sample_blob 1 \<lparr>br_size_bytes := 2\<rparr>) \<longleftrightarrow>
   collide (result_binding_bytes (sample_blob 1) (sample_blob 2) (sample_blob 3))
     (result_binding_bytes (sample_blob 1) (sample_blob 2) (sample_blob 1 \<lparr>br_size_bytes := 2\<rparr>))"
  by (subst result_binding_unambiguous) (auto simp: blob_reference_new_def sample_blob_def in_range_def)

lemma is_digest_length: "is_digest s \<Longrightarrow> length s = 71"
  using is_digest_plain by blast

lemma length_sha256_id [simp]: "length (sha256_id m) = 71"
  using is_digest_length is_digest_sha256_id by blast

lemma blob_size: "blob_reference_new r = Inr r \<Longrightarrow> json_size (blob_primitive r) \<le> 600"
  using json_size_int [of 1 4194304 "br_size_bytes r"]
  by (auto simp: blob_reference_new_def blob_primitive_def json_size_obj is_digest_length simp del: json_size.simps(8))

text \<open>A bundle of a few checkpoints is never too large.\<close>

lemma bundle_fits:
  assumes "list_all is_digest [pb_manifest_digest b, pb_lease_digest b, pb_challenge_commitment b, pb_runtime_image_digest b]"
    and "list_all (\<lambda>r. blob_reference_new r = Inr r) [pb_challenge_response b, pb_result b, pb_measurement b, pb_failure_events b]"
    and "case pb_attestation b of None \<Rightarrow> True | Some r \<Rightarrow> blob_reference_new r = Inr r"
    and "list_all (\<lambda>c. checkpoint_new c = Inr c) (pb_checkpoints b)" "length (pb_checkpoints b) \<le> 30"
  shows "bundle_bytes b = Inr (json_dumps True (bundle_primitive b))"
proof -
  have digests: "length (pb_manifest_digest b) = 71" "length (pb_lease_digest b) = 71"
    "length (pb_challenge_commitment b) = 71" "length (pb_runtime_image_digest b) = 71"
    using assms(1) by (simp_all add: is_digest_length)
  have "(\<Sum>c \<leftarrow> pb_checkpoints b. Suc (json_size (checkpoint_to_primitive c))) \<le> (\<Sum>c \<leftarrow> pb_checkpoints b. 601)"
    using assms(4) checkpoint_size by (intro sum_list_mono) (simp add: list_all_iff)
  then have cks: "json_size (JArr (map checkpoint_to_primitive (pb_checkpoints b))) \<le> 18032"
    using assms(5) by (simp add: comp_def sum_list_triv)
  have att: "json_size (case pb_attestation b of None \<Rightarrow> JNull | Some r \<Rightarrow> blob_primitive r) \<le> 600"
    using assms(3) by (auto simp: blob_size split: option.splits)
  have refs: "json_size (blob_primitive (pb_challenge_response b)) \<le> 600" "json_size (blob_primitive (pb_result b)) \<le> 600"
    "json_size (blob_primitive (pb_measurement b)) \<le> 600" "json_size (blob_primitive (pb_failure_events b)) \<le> 600"
    using assms(2) by (simp_all add: blob_size)
  have "json_size (bundle_primitive b) \<le> 32768"
    unfolding bundle_primitive_def json_size_obj using digests refs cks att by (simp del: json_size.simps(7,8))
  then show ?thesis
    using length_json_dumps_le [of True "bundle_primitive b"] by (simp add: bundle_bytes_def Let_def)
qed

lemma bundle_okI:
  assumes "list_all is_digest [pb_manifest_digest b, pb_lease_digest b, pb_challenge_commitment b, pb_runtime_image_digest b]"
    and "list_all (\<lambda>r. blob_reference_new r = Inr r) [pb_challenge_response b, pb_result b, pb_measurement b, pb_failure_events b]"
    and "case pb_attestation b of None \<Rightarrow> True | Some r \<Rightarrow> blob_reference_new r = Inr r"
    and "list_all (\<lambda>c. checkpoint_new c = Inr c) (pb_checkpoints b)" "length (pb_checkpoints b) \<le> 30"
    and "pb_checkpoints b \<noteq> []" "map ck_step (pb_checkpoints b) = sorted_list_of_set (set (map ck_step (pb_checkpoints b)))"
  shows "bundle_ok b"
proof -
  have "1 \<le> length (pb_checkpoints b)" using assms(6) by (cases "pb_checkpoints b") auto
  then have "bundle_new b = Inr b"
    unfolding bundle_new_def passes_Inr using bundle_fits [OF assms(1-5)] assms(1,5,7) by simp
  then show ?thesis using assms(2-4) by (simp add: bundle_ok_def)
qed

lemma sample_bundle_update_ok:
  assumes "1 \<le> n" "n < 10"
  shows "bundle_ok (sample_bundle\<lparr>pb_result := sample_blob n\<rparr>)"
  using assms
  by (intro bundle_okI) (simp_all add: sample_bundle_def sample_lease_def sample_work_lease_def sample_digest_def
    char_class_defs checkpoint_new_def in_range_def)

lemma sample_bundle_ok: "bundle_ok sample_bundle"
proof -
  have "sample_bundle\<lparr>pb_result := sample_blob 3\<rparr> = sample_bundle" by (simp add: sample_bundle_def)
  then show ?thesis using sample_bundle_update_ok [of 3] by simp
qed

lemma sample_lease_message: "Work_Lease sample_lease = sample_message"
  by (simp add: sample_lease_def sample_work_lease_def)

lemma sample_verify_binding: "verify_binding sample_bundle sample_lease sample_evidence_message = Inr ()"
proof -
  have "message_digest sample_message = Inr (pb_lease_digest sample_bundle)"
    by (simp add: message_digest_def sample_message_bytes sample_bundle_def)
  then show ?thesis
    by (simp add: verify_binding_def sample_lease_message bundle_root_ok [OF sample_bundle_ok])
      (simp add: sample_bundle_def sample_evidence_message_def)
qed

text \<open>
  C11: signed evidence binds one bundle and one lease.  Once a bundle verifies against a lease and
  evidence, no other bundle or lease verifies against that evidence, but for an explicit SHA-256
  collision of their preimages.
\<close>

theorem evidence_binds_bundle_and_lease:
  assumes "bundle_ok b" "bundle_ok c" "message_ok (Work_Lease l)" "message_ok (Work_Lease m)"
    and "canonical_bytes (Work_Lease l) = Inr p" "canonical_bytes (Work_Lease m) = Inr q"
    and "verify_binding b l e = Inr ()" and "(b, l) \<noteq> (c, m)"
  shows "(\<exists>err. verify_binding c m e = Inl err)
     \<or> collide (bundle_preimage b) (bundle_preimage c) \<or> collide (digest_domain @ p) (digest_domain @ q)"
proof (rule disjCI)
  assume none: "\<not> (collide (bundle_preimage b) (bundle_preimage c) \<or> collide (digest_domain @ p) (digest_domain @ q))"
  have bound: "ee_bundle_root e = Some (sha256_id (bundle_preimage x))"
      "message_digest (Work_Lease k) = Inr (ee_lease_digest e)"
    if "bundle_ok x" "verify_binding x k e = Inr ()" for x k
    using that(2) by (auto simp: verify_binding_def bundle_root_ok [OF that(1)] split: if_splits)
  have "b = c \<and> l = m" if v: "verify_binding c m e = Inr ()"
  proof -
    have "bundle_preimage b = bundle_preimage c \<or> collide (bundle_preimage b) (bundle_preimage c)"
      using bound(1) [OF assms(1,7)] bound(1) [OF assms(2) v] by (auto simp: collide_def)
    moreover have "l = m \<or> collide (digest_domain @ p) (digest_domain @ q)"
      using message_digest_eq [OF assms(3-6)] bound(2) [OF assms(1,7)] bound(2) [OF assms(2) v] by simp
    ultimately show ?thesis using none bundle_preimage_inject [OF assms(1,2)] by blast
  qed
  then show "\<exists>err. verify_binding c m e = Inl err"
    using assms(8) by (cases "verify_binding c m e") auto
qed

theorem evidence_binds_bundle_and_lease_witness:
  "(\<exists>err. verify_binding (sample_bundle\<lparr>pb_result := sample_blob 9\<rparr>) sample_lease sample_evidence_message = Inl err)
     \<or> collide (bundle_preimage sample_bundle) (bundle_preimage (sample_bundle\<lparr>pb_result := sample_blob 9\<rparr>))"
proof -
  have ok: "message_ok (Work_Lease sample_lease)"
    "canonical_bytes (Work_Lease sample_lease) = Inr (json_dumps False (to_primitive sample_message))"
    using sample_message_ok(1) sample_message_bytes(1) by (simp_all add: sample_lease_message)
  have "sample_bundle \<noteq> sample_bundle\<lparr>pb_result := sample_blob 9\<rparr>"
    by (simp add: sample_bundle_def sample_blob_def)
  then show ?thesis
    using evidence_binds_bundle_and_lease [OF sample_bundle_ok sample_bundle_update_ok [of 9] ok(1) ok(1) ok(2) ok(2)
      sample_verify_binding] by (simp add: collide_def)
qed

end
