(* ===== verification/Attestation.thy ===== *)
theory Attestation
  imports Checks
begin

text \<open>
  \<open>src/gpuforge/attestation.py\<close>: what a validator accepts as a hardware attestation.  The
  records are the dataclasses with their checks (\<open>.._new\<close>); the backend that authenticates
  evidence is a parameter, a function of the evidence and the expected nonce; and
  \<open>attestation_verify\<close> is \<open>PolicyAttestationVerifier.verify\<close>.
\<close>

section \<open>Values\<close>

datatype attestation_error =
    Attestation_Field string
  | Request_Expiry
  | Chain_Length
  | Chain_Certificate
  | Revocation_Window
  | Evidence_Size
  | Claims_Gpu_Count
  | Claims_No_Measurements
  | Claims_Measurements_Unique
  | Policy_No_Formats
  | Policy_No_Classes
  | Policy_Not_Unique
  | Policy_No_Measurements
  | Policy_Measurements_Unique
  | Policy_Max_Age
  | Result_Incomplete
  | Result_No_Class
  | Result_Gpu_Count
  | Result_Rejected_With_Tier

datatype verification_reason =
    Verified | Format_Unsupported | Request_Stale | Evidence_Invalid | Nonce_Mismatch | Gpu_Class_Mismatch
  | Certificate_Chain_Invalid | Collateral_Revoked | Collateral_Stale | Measurement_Untrusted
  | Downgrade_Rejected | Provider_Unavailable

fun reason_value :: "verification_reason \<Rightarrow> string" where
  "reason_value Verified = ''verified''"
| "reason_value Format_Unsupported = ''format_unsupported''"
| "reason_value Request_Stale = ''request_stale''"
| "reason_value Evidence_Invalid = ''evidence_invalid''"
| "reason_value Nonce_Mismatch = ''nonce_mismatch''"
| "reason_value Gpu_Class_Mismatch = ''gpu_class_mismatch''"
| "reason_value Certificate_Chain_Invalid = ''certificate_chain_invalid''"
| "reason_value Collateral_Revoked = ''collateral_revoked''"
| "reason_value Collateral_Stale = ''collateral_stale''"
| "reason_value Measurement_Untrusted = ''measurement_untrusted''"
| "reason_value Downgrade_Rejected = ''downgrade_rejected''"
| "reason_value Provider_Unavailable = ''provider_unavailable''"

datatype revocation_status = Rev_Good | Rev_Revoked | Rev_Unknown

text \<open>\<open>[a-z0-9][a-z0-9_.-]{0,63}\<close>\<close>

definition is_dotted_code :: "string \<Rightarrow> bool" where
  "is_dotted_code s \<longleftrightarrow> match_head (\<lambda>c. is_lower c \<or> is_digit c)
     (\<lambda>c. is_lower c \<or> is_digit c \<or> c = CHR ''_'' \<or> c = CHR ''.'' \<or> c = CHR ''-'') 63 s"

definition att_match :: "string \<Rightarrow> (string \<Rightarrow> bool) \<Rightarrow> string \<Rightarrow> attestation_error + unit" where
  "att_match label pattern s = require (pattern s) (Attestation_Field label)"

definition att_timestamp :: "string \<Rightarrow> int \<Rightarrow> attestation_error + unit" where
  "att_timestamp label t = require (in_range 0 max_int64 t) (Attestation_Field label)"

record attestation_request =
  ar_nonce :: string
  ar_miner_hotkey :: string
  ar_job_digest :: string
  ar_expected_gpu_class :: string
  ar_issued_at :: int
  ar_expires_at :: int

definition attestation_request_new :: "attestation_request \<Rightarrow> attestation_error + attestation_request" where
  "attestation_request_new r = passes
     [att_match ''nonce'' is_hex64 (ar_nonce r),
      att_match ''miner hotkey'' is_hotkey (ar_miner_hotkey r),
      att_match ''job digest'' is_digest (ar_job_digest r),
      att_match ''GPU class'' is_dotted_code (ar_expected_gpu_class r),
      att_timestamp ''issued_at'' (ar_issued_at r),
      att_timestamp ''expires_at'' (ar_expires_at r),
      require (ar_issued_at r < ar_expires_at r) Request_Expiry] r"

definition binding_domain :: bytes where
  "binding_domain = utf8_encode ''gpuforge-attestation-binding-v1'' @ [0]"

definition binding_preimage :: "attestation_request \<Rightarrow> bytes" where
  "binding_preimage r = binding_domain @ json_dumps True (JObj
     [(''job_digest'', JStr (ar_job_digest r)), (''miner_hotkey'', JStr (ar_miner_hotkey r)),
      (''nonce'', JStr (ar_nonce r))])"

definition bound_nonce :: "attestation_request \<Rightarrow> string" where
  "bound_nonce r = to_hex (sha256 (binding_preimage r))"

definition certificate_chain_new :: "bytes list \<Rightarrow> attestation_error + bytes list" where
  "certificate_chain_new cs = passes
     [require (1 \<le> length cs \<and> length cs \<le> 16) Chain_Length,
      require (list_all (\<lambda>c. 1 \<le> length c \<and> int (length c) \<le> 65536) cs) Chain_Certificate] cs"

record reference_measurement =
  rm_digest :: string
  rm_expires_at :: int

definition reference_measurement_new :: "reference_measurement \<Rightarrow> attestation_error + reference_measurement" where
  "reference_measurement_new m = passes
     [att_match ''reference measurement'' is_digest (rm_digest m),
      att_timestamp ''reference measurement expiry'' (rm_expires_at m)] m"

record revocation_result =
  rv_status :: revocation_status
  rv_checked_at :: int
  rv_next_update :: int

definition revocation_result_new :: "revocation_result \<Rightarrow> attestation_error + revocation_result" where
  "revocation_result_new r = passes
     [att_timestamp ''revocation check time'' (rv_checked_at r),
      att_timestamp ''revocation next update'' (rv_next_update r),
      require (rv_checked_at r < rv_next_update r) Revocation_Window] r"

record evidence_bundle =
  eb_evidence_format :: string
  eb_payload :: bytes
  eb_collected_at :: int

definition evidence_bundle_new :: "evidence_bundle \<Rightarrow> attestation_error + evidence_bundle" where
  "evidence_bundle_new b = passes
     [att_match ''evidence format'' is_dotted_code (eb_evidence_format b),
      require (1 \<le> length (eb_payload b) \<and> int (length (eb_payload b)) \<le> 4194304) Evidence_Size,
      att_timestamp ''evidence collection time'' (eb_collected_at b)] b"

definition evidence_bundle_digest :: "evidence_bundle \<Rightarrow> string" where
  "evidence_bundle_digest b = sha256_id (eb_payload b)"

record attestation_claims =
  ac_evidence_format :: string
  ac_nonce :: string
  ac_gpu_class :: string
  ac_gpu_count :: int
  ac_measurement_digests :: "string list"
  ac_device_chain_valid :: bool
  ac_host_chain_valid :: bool
  ac_revocation :: revocation_result
  ac_issued_at :: int
  ac_collateral_expires_at :: int

definition attestation_claims_new :: "attestation_claims \<Rightarrow> attestation_error + attestation_claims" where
  "attestation_claims_new c = passes
     ([att_match ''evidence format'' is_dotted_code (ac_evidence_format c),
       att_match ''verified nonce'' is_hex64 (ac_nonce c),
       att_match ''verified GPU class'' is_dotted_code (ac_gpu_class c),
       require (in_range 1 8 (ac_gpu_count c)) Claims_Gpu_Count,
       require (ac_measurement_digests c \<noteq> []) Claims_No_Measurements]
      @ map (att_match ''verified measurement'' is_digest) (ac_measurement_digests c)
      @ [require (distinct (ac_measurement_digests c)) Claims_Measurements_Unique,
       att_timestamp ''verified evidence issuance'' (ac_issued_at c),
       att_timestamp ''collateral expiry'' (ac_collateral_expires_at c)]) c"

record attestation_policy =
  at_accepted_formats :: "string list"
  at_accepted_gpu_classes :: "string list"
  at_reference_measurements :: "reference_measurement list"
  at_minimum_tier :: evidence_tier
  at_max_age_seconds :: int

definition attestation_policy_new :: "attestation_policy \<Rightarrow> attestation_error + attestation_policy" where
  "attestation_policy_new p = passes
     ([require (at_accepted_formats p \<noteq> []) Policy_No_Formats,
       require (at_accepted_gpu_classes p \<noteq> []) Policy_No_Classes]
      @ map (att_match ''accepted evidence format'' is_dotted_code) (at_accepted_formats p)
      @ map (att_match ''accepted GPU class'' is_dotted_code) (at_accepted_gpu_classes p)
      @ [require (distinct (at_accepted_formats p) \<and> distinct (at_accepted_gpu_classes p)) Policy_Not_Unique,
       require (at_reference_measurements p \<noteq> []) Policy_No_Measurements,
       require (distinct (map rm_digest (at_reference_measurements p))) Policy_Measurements_Unique,
       require (in_range 1 3600 (at_max_age_seconds p)) Policy_Max_Age]) p"

record verifier_result =
  vx_accepted :: bool
  vx_tier :: "evidence_tier option"
  vx_reason :: verification_reason
  vx_evidence_digest :: string
  vx_gpu_class :: "string option"
  vx_gpu_count :: int

definition verifier_result_new :: "verifier_result \<Rightarrow> attestation_error + verifier_result" where
  "verifier_result_new r = passes
     (att_match ''evidence digest'' is_digest (vx_evidence_digest r)
      # (if vx_accepted r then
           [require (vx_reason r = Verified \<and> vx_tier r \<noteq> None) Result_Incomplete,
            require (vx_gpu_class r \<noteq> None) Result_No_Class,
            att_match ''result GPU class'' is_dotted_code (the (vx_gpu_class r)),
            require (in_range 1 8 (vx_gpu_count r)) Result_Gpu_Count]
         else [require (vx_tier r = None \<and> vx_reason r \<noteq> Verified) Result_Rejected_With_Tier])) r"

section \<open>The decision\<close>

text \<open>
  What a backend does: it returns claims, raises \<open>AttestationBackendFailure\<close> with a reason, or
  raises something else.  The failure cannot be built with the reason \<open>Verified\<close>: that attempt
  raises too.
\<close>

datatype backend_outcome = Backend_Claims attestation_claims | Backend_Failure verification_reason | Backend_Raises

type_synonym attestation_backend = "evidence_bundle \<Rightarrow> string \<Rightarrow> backend_outcome"

definition attestation_rejected :: "evidence_bundle \<Rightarrow> verification_reason \<Rightarrow> attestation_error + verifier_result" where
  "attestation_rejected b reason = verifier_result_new
     \<lparr>vx_accepted = False, vx_tier = None, vx_reason = reason,
      vx_evidence_digest = evidence_bundle_digest b, vx_gpu_class = None, vx_gpu_count = 0\<rparr>"

fun tier_rank :: "evidence_tier \<Rightarrow> nat" where
  "tier_rank Tier_C = 1" | "tier_rank Tier_B = 2" | "tier_rank Tier_A = 3"

text \<open>\<open>{item.digest: item for item in ...}\<close>: the last item of a digest is kept.\<close>

definition trusted_measurements :: "attestation_policy \<Rightarrow> string \<Rightarrow> reference_measurement option" where
  "trusted_measurements p = map_of (rev (map (\<lambda>m. (rm_digest m, m)) (at_reference_measurements p)))"

definition measurement_trusted :: "attestation_policy \<Rightarrow> int \<Rightarrow> string \<Rightarrow> bool" where
  "measurement_trusted p now d =
     (case trusted_measurements p d of None \<Rightarrow> False | Some m \<Rightarrow> \<not> rm_expires_at m < now)"

text \<open>The checks on authenticated claims, in order: the reason of the first that fails.\<close>

definition claims_reason ::
  "attestation_request \<Rightarrow> evidence_bundle \<Rightarrow> attestation_policy \<Rightarrow> int \<Rightarrow> attestation_claims
     \<Rightarrow> verification_reason" where
  "claims_reason r b p now c =
     (if ac_evidence_format c \<noteq> eb_evidence_format b then Format_Unsupported
      else if ac_nonce c \<noteq> bound_nonce r then Nonce_Mismatch
      else if ac_gpu_class c \<noteq> ar_expected_gpu_class r
           \<or> ac_gpu_class c \<notin> set (at_accepted_gpu_classes p) then Gpu_Class_Mismatch
      else if ac_issued_at c < ar_issued_at r \<or> ac_issued_at c > now
           \<or> now - ac_issued_at c > at_max_age_seconds p then Request_Stale
      else if \<not> ac_device_chain_valid c then Certificate_Chain_Invalid
      else if rv_status (ac_revocation c) = Rev_Revoked then Collateral_Revoked
      else if rv_status (ac_revocation c) \<noteq> Rev_Good then Certificate_Chain_Invalid
      else if rv_checked_at (ac_revocation c) > now \<or> rv_next_update (ac_revocation c) < now
           \<or> ac_collateral_expires_at c < now then Collateral_Stale
      else if \<not> list_all (measurement_trusted p now) (ac_measurement_digests c) then Measurement_Untrusted
      else if tier_rank (if ac_host_chain_valid c then Tier_A else Tier_B) < tier_rank (at_minimum_tier p)
        then Downgrade_Rejected
      else Verified)"

definition attestation_verify ::
  "attestation_backend \<Rightarrow> attestation_request \<Rightarrow> evidence_bundle \<Rightarrow> attestation_policy \<Rightarrow> int
     \<Rightarrow> attestation_error + verifier_result" where
  "attestation_verify backend r b p now =
     bindE (att_timestamp ''verification time'' now) (\<lambda>_.
       if eb_evidence_format b \<notin> set (at_accepted_formats p) then attestation_rejected b Format_Unsupported
       else if now < ar_issued_at r \<or> now > ar_expires_at r
            \<or> now - ar_issued_at r > at_max_age_seconds p
            \<or> eb_collected_at b < ar_issued_at r \<or> eb_collected_at b > now
         then attestation_rejected b Request_Stale
       else
         case backend b (bound_nonce r) of
           Backend_Failure reason \<Rightarrow>
             attestation_rejected b (if reason = Verified then Provider_Unavailable else reason)
         | Backend_Raises \<Rightarrow> attestation_rejected b Provider_Unavailable
         | Backend_Claims c \<Rightarrow>
             (if claims_reason r b p now c \<noteq> Verified then attestation_rejected b (claims_reason r b p now c)
              else verifier_result_new
                \<lparr>vx_accepted = True, vx_tier = Some (if ac_host_chain_valid c then Tier_A else Tier_B),
                 vx_reason = Verified, vx_evidence_digest = evidence_bundle_digest b,
                 vx_gpu_class = Some (ac_gpu_class c), vx_gpu_count = ac_gpu_count c\<rparr>))"

section \<open>Lemmas\<close>

lemma att_match_Inr [simp]: "att_match label pattern s = Inr u \<longleftrightarrow> pattern s"
  by (simp add: att_match_def)

lemma att_timestamp_Inr [simp]: "att_timestamp label t = Inr u \<longleftrightarrow> in_range 0 max_int64 t"
  by (simp add: att_timestamp_def)

lemma evidence_bundle_digest_ok [simp]: "is_digest (evidence_bundle_digest b)"
  by (simp add: evidence_bundle_digest_def)

lemma attestation_rejected_eq:
  "reason \<noteq> Verified \<Longrightarrow> attestation_rejected b reason = Inr
     \<lparr>vx_accepted = False, vx_tier = None, vx_reason = reason,
      vx_evidence_digest = evidence_bundle_digest b, vx_gpu_class = None, vx_gpu_count = 0\<rparr>"
  by (simp add: attestation_rejected_def verifier_result_new_def)

lemma attestation_rejected_not_accepted: "attestation_rejected b reason = Inr v \<Longrightarrow> \<not> vx_accepted v"
  by (auto simp: attestation_rejected_def verifier_result_new_def)

lemma claims_valid_class: "attestation_claims_new c = Inr c \<Longrightarrow> is_dotted_code (ac_gpu_class c) \<and> in_range 1 8 (ac_gpu_count c)"
  by (simp add: attestation_claims_new_def)

section \<open>Properties\<close>

text \<open>The claims a request, its evidence and the policy ask for.\<close>

definition attestation_trusted ::
  "attestation_request \<Rightarrow> evidence_bundle \<Rightarrow> attestation_policy \<Rightarrow> int \<Rightarrow> attestation_claims \<Rightarrow> bool" where
  "attestation_trusted r b p now c \<longleftrightarrow>
     ac_evidence_format c = eb_evidence_format b \<and> ac_nonce c = bound_nonce r
   \<and> ac_gpu_class c = ar_expected_gpu_class r \<and> ac_gpu_class c \<in> set (at_accepted_gpu_classes p)
   \<and> ar_issued_at r \<le> ac_issued_at c \<and> ac_issued_at c \<le> now \<and> now \<le> ac_issued_at c + at_max_age_seconds p
   \<and> ac_device_chain_valid c \<and> rv_status (ac_revocation c) = Rev_Good
   \<and> rv_checked_at (ac_revocation c) \<le> now \<and> now \<le> rv_next_update (ac_revocation c)
   \<and> now \<le> ac_collateral_expires_at c
   \<and> (\<forall>d \<in> set (ac_measurement_digests c). \<exists>m \<in> set (at_reference_measurements p).
        rm_digest m = d \<and> now \<le> rm_expires_at m)
   \<and> (at_minimum_tier p = Tier_A \<longrightarrow> ac_host_chain_valid c)"

lemma measurement_trusted_iff:
  assumes "distinct (map rm_digest (at_reference_measurements p))"
  shows "measurement_trusted p now d \<longleftrightarrow>
     (\<exists>m \<in> set (at_reference_measurements p). rm_digest m = d \<and> now \<le> rm_expires_at m)"
proof -
  let ?kv = "map (\<lambda>m. (rm_digest m, m)) (at_reference_measurements p)"
  have "distinct (map fst (rev ?kv))"
    using assms by (simp add: rev_map [symmetric] comp_def)
  then have "trusted_measurements p d = Some m \<longleftrightarrow> m \<in> set (at_reference_measurements p) \<and> rm_digest m = d" for m
    unfolding trusted_measurements_def by (subst map_of_eq_Some_iff) auto
  then have found: "trusted_measurements p d = Some m \<longleftrightarrow>
      m \<in> set (at_reference_measurements p) \<and> rm_digest m = d" for m .
  show ?thesis
  proof (cases "trusted_measurements p d")
    case None
    then show ?thesis using found by (auto simp: measurement_trusted_def)
  next
    case (Some a)
    with found have "m \<in> set (at_reference_measurements p) \<and> rm_digest m = d \<longleftrightarrow> m = a" for m
      by (metis option.inject)
    then show ?thesis
      unfolding Bex_def conj_assoc [symmetric] using Some by (simp add: measurement_trusted_def not_less)
  qed
qed

lemma claims_reason_verified:
  assumes "distinct (map rm_digest (at_reference_measurements p))"
  shows "claims_reason r b p now c = Verified \<longleftrightarrow> attestation_trusted r b p now c"
  using measurement_trusted_iff [OF assms, of now]
  by (cases "at_minimum_tier p"; cases "ac_host_chain_valid c")
    (auto simp: claims_reason_def attestation_trusted_def list_all_iff)

definition in_window :: "attestation_request \<Rightarrow> evidence_bundle \<Rightarrow> attestation_policy \<Rightarrow> int \<Rightarrow> bool" where
  "in_window r b p now \<longleftrightarrow>
     ar_issued_at r \<le> now \<and> now \<le> ar_expires_at r \<and> now \<le> ar_issued_at r + at_max_age_seconds p
   \<and> ar_issued_at r \<le> eb_collected_at b \<and> eb_collected_at b \<le> now"

lemma attestation_trusted_rank:
  "attestation_trusted r b p now c \<Longrightarrow>
     tier_rank (at_minimum_tier p) \<le> tier_rank (if ac_host_chain_valid c then Tier_A else Tier_B)"
  by (cases "at_minimum_tier p") (auto simp: attestation_trusted_def)

lemma attestation_verify_in_window:
  assumes "in_range 0 max_int64 now" "in_window r b p now" "eb_evidence_format b \<in> set (at_accepted_formats p)"
  shows "attestation_verify backend r b p now =
     (case backend b (bound_nonce r) of
        Backend_Failure reason \<Rightarrow>
          attestation_rejected b (if reason = Verified then Provider_Unavailable else reason)
      | Backend_Raises \<Rightarrow> attestation_rejected b Provider_Unavailable
      | Backend_Claims c \<Rightarrow>
          (if claims_reason r b p now c \<noteq> Verified then attestation_rejected b (claims_reason r b p now c)
           else verifier_result_new
             \<lparr>vx_accepted = True, vx_tier = Some (if ac_host_chain_valid c then Tier_A else Tier_B),
              vx_reason = Verified, vx_evidence_digest = evidence_bundle_digest b,
              vx_gpu_class = Some (ac_gpu_class c), vx_gpu_count = ac_gpu_count c\<rparr>))"
proof -
  have "\<not> (now < ar_issued_at r \<or> now > ar_expires_at r \<or> now - ar_issued_at r > at_max_age_seconds p
            \<or> eb_collected_at b < ar_issued_at r \<or> eb_collected_at b > now)"
    using assms(2) by (auto simp: in_window_def)
  then show ?thesis
    unfolding attestation_verify_def using assms(1,3) by (simp add: att_timestamp_def require_def)
qed

lemma attestation_verify_rejects:
  assumes "in_range 0 max_int64 now" "in_window r b p now" "eb_evidence_format b \<in> set (at_accepted_formats p)"
  shows "backend b (bound_nonce r) = Backend_Failure reason \<Longrightarrow>
      attestation_verify backend r b p now = attestation_rejected b (if reason = Verified then Provider_Unavailable else reason)"
    and "backend b (bound_nonce r) = Backend_Raises \<Longrightarrow>
      attestation_verify backend r b p now = attestation_rejected b Provider_Unavailable"
  by (simp_all add: attestation_verify_in_window [OF assms])

lemma attestation_verify_claims:
  assumes "distinct (map rm_digest (at_reference_measurements p))"
    and "in_range 0 max_int64 now" "in_window r b p now" "eb_evidence_format b \<in> set (at_accepted_formats p)"
    and "backend b (bound_nonce r) = Backend_Claims c" "attestation_claims_new c = Inr c"
  shows "attestation_verify backend r b p now =
     (if \<not> attestation_trusted r b p now c then attestation_rejected b (claims_reason r b p now c)
      else Inr \<lparr>vx_accepted = True, vx_tier = Some (if ac_host_chain_valid c then Tier_A else Tier_B),
              vx_reason = Verified, vx_evidence_digest = evidence_bundle_digest b,
              vx_gpu_class = Some (ac_gpu_class c), vx_gpu_count = ac_gpu_count c\<rparr>)"
  using claims_valid_class [OF assms(6)]
  by (simp add: attestation_verify_in_window [OF assms(2-4)] assms(5) claims_reason_verified [OF assms(1)]
    verifier_result_new_def)

text \<open>A request and its evidence, authenticated claims that meet the policy, and the policy.\<close>

definition sample_request :: attestation_request where
  "sample_request = \<lparr>ar_nonce = replicate 64 CHR ''a'', ar_miner_hotkey = ''miner'',
     ar_job_digest = ''sha256:'' @ replicate 64 CHR ''b'', ar_expected_gpu_class = ''h100'',
     ar_issued_at = 100, ar_expires_at = 200\<rparr>"

definition sample_evidence :: evidence_bundle where
  "sample_evidence = \<lparr>eb_evidence_format = ''nras.v1'', eb_payload = [1], eb_collected_at = 110\<rparr>"

definition sample_claims :: "string \<Rightarrow> attestation_claims" where
  "sample_claims n = \<lparr>ac_evidence_format = ''nras.v1'', ac_nonce = n, ac_gpu_class = ''h100'', ac_gpu_count = 1,
     ac_measurement_digests = [''sha256:'' @ replicate 64 CHR ''c''], ac_device_chain_valid = True,
     ac_host_chain_valid = True,
     ac_revocation = \<lparr>rv_status = Rev_Good, rv_checked_at = 90, rv_next_update = 300\<rparr>,
     ac_issued_at = 115, ac_collateral_expires_at = 400\<rparr>"

definition sample_attestation_policy :: attestation_policy where
  "sample_attestation_policy = \<lparr>at_accepted_formats = [''nras.v1''], at_accepted_gpu_classes = [''h100''],
     at_reference_measurements = [\<lparr>rm_digest = ''sha256:'' @ replicate 64 CHR ''c'', rm_expires_at = 500\<rparr>],
     at_minimum_tier = Tier_A, at_max_age_seconds = 60\<rparr>"

lemmas sample_attestation_defs = sample_request_def sample_evidence_def sample_claims_def sample_attestation_policy_def

lemma sample_claims_new: "is_hex64 n \<Longrightarrow> attestation_claims_new (sample_claims n) = Inr (sample_claims n)"
  by (simp add: attestation_claims_new_def sample_claims_def is_dotted_code_def char_class_defs in_range_def
      is_digest_def)

lemma sample_claims_trusted:
  "attestation_trusted sample_request sample_evidence sample_attestation_policy 120 (sample_claims (bound_nonce sample_request))"
  by (simp add: attestation_trusted_def sample_attestation_defs)

text \<open>
  C7: exactly when an attestation is accepted, and with which tier.  Evidence of an accepted
  format, collected within the request's window, is accepted when the backend authenticates
  claims that the request and the policy trust; the tier is A with a valid host chain and B
  without one, never C, and never below the policy's minimum.
\<close>

theorem attestation_accepts_iff:
  assumes "in_range 0 max_int64 now" and "distinct (map rm_digest (at_reference_measurements p))"
    and "\<forall>c. backend b (bound_nonce r) = Backend_Claims c \<longrightarrow> attestation_claims_new c = Inr c"
  shows "(\<exists>v. attestation_verify backend r b p now = Inr v \<and> vx_accepted v \<and> vx_tier v = Some t) \<longleftrightarrow>
     eb_evidence_format b \<in> set (at_accepted_formats p)
   \<and> ar_issued_at r \<le> now \<and> now \<le> ar_expires_at r \<and> now \<le> ar_issued_at r + at_max_age_seconds p
   \<and> ar_issued_at r \<le> eb_collected_at b \<and> eb_collected_at b \<le> now
   \<and> (\<exists>c. backend b (bound_nonce r) = Backend_Claims c \<and> attestation_trusted r b p now c
        \<and> t = (if ac_host_chain_valid c then Tier_A else Tier_B) \<and> tier_rank (at_minimum_tier p) \<le> tier_rank t)"
proof (cases "in_window r b p now \<and> eb_evidence_format b \<in> set (at_accepted_formats p)")
  case True
  note ok = assms(1) True [THEN conjunct1] True [THEN conjunct2]
  show ?thesis
  proof (cases "backend b (bound_nonce r)")
    case (Backend_Claims c)
    with assms(3) have "attestation_claims_new c = Inr c" by blast
    then show ?thesis
      using attestation_trusted_rank [of r b p now c] ok Backend_Claims
      by (cases "attestation_trusted r b p now c"; cases "ac_host_chain_valid c")
        (auto simp: attestation_verify_claims [OF assms(2) ok] in_window_def
          dest: attestation_rejected_not_accepted)
  qed (auto simp: attestation_verify_rejects [OF ok] dest: attestation_rejected_not_accepted)
next
  case False
  then show ?thesis
    using assms(1) by (auto simp: attestation_verify_def attestation_rejected_eq in_window_def not_less not_le
      split: if_splits)
qed

theorem attestation_accepts_iff_witness:
  "\<exists>v. attestation_verify (\<lambda>_ n. Backend_Claims (sample_claims n)) sample_request sample_evidence
     sample_attestation_policy 120 = Inr v \<and> vx_accepted v \<and> vx_tier v = Some Tier_A"
proof (subst attestation_accepts_iff)
  show "\<forall>c. Backend_Claims (sample_claims (bound_nonce sample_request)) = Backend_Claims c
      \<longrightarrow> attestation_claims_new c = Inr c"
    using sample_claims_new by (simp add: bound_nonce_def)
qed (use sample_claims_trusted in
  \<open>auto simp: in_range_def sample_request_def sample_evidence_def sample_attestation_policy_def
     sample_claims_def\<close>)

text \<open>
  C26: the decision is total and closed.  Whatever the backend does, verification at a valid time
  returns a result the program can build: accepted with the reason \<open>verified\<close>, a tier and a GPU
  class, or refused with another reason and no tier; and it names the evidence it judged.
\<close>

theorem attestation_fails_closed:
  assumes "in_range 0 max_int64 now"
    and "\<forall>c. backend b (bound_nonce r) = Backend_Claims c \<longrightarrow> attestation_claims_new c = Inr c"
  shows "\<exists>v. attestation_verify backend r b p now = Inr v \<and> verifier_result_new v = Inr v
     \<and> vx_evidence_digest v = evidence_bundle_digest b
     \<and> (vx_accepted v \<longleftrightarrow> vx_reason v = Verified) \<and> (vx_accepted v \<longleftrightarrow> vx_tier v \<noteq> None)"
proof -
  have rej: "\<exists>v. attestation_rejected b reason = Inr v \<and> verifier_result_new v = Inr v
     \<and> vx_evidence_digest v = evidence_bundle_digest b
     \<and> (vx_accepted v \<longleftrightarrow> vx_reason v = Verified) \<and> (vx_accepted v \<longleftrightarrow> vx_tier v \<noteq> None)"
    if "reason \<noteq> Verified" for reason
    using that by (simp add: attestation_rejected_eq verifier_result_new_def)
  show ?thesis
  proof (cases "backend b (bound_nonce r)")
    case (Backend_Claims c)
    with assms have "is_dotted_code (ac_gpu_class c)" "in_range 1 8 (ac_gpu_count c)"
      using claims_valid_class by blast+
    then show ?thesis
      using assms(1) Backend_Claims rej
      by (simp add: attestation_verify_def verifier_result_new_def att_timestamp_def require_def)
  qed (use assms(1) rej in \<open>simp_all add: attestation_verify_def att_timestamp_def require_def\<close>)
qed

theorem attestation_fails_closed_witness:
  "\<exists>v. attestation_verify (\<lambda>_ _. Backend_Raises) sample_request sample_evidence sample_attestation_policy 120 = Inr v
     \<and> verifier_result_new v = Inr v \<and> vx_evidence_digest v = evidence_bundle_digest sample_evidence
     \<and> (vx_accepted v \<longleftrightarrow> vx_reason v = Verified) \<and> (vx_accepted v \<longleftrightarrow> vx_tier v \<noteq> None)"
  by (rule attestation_fails_closed) (simp_all add: in_range_def)

text \<open>
  The nonce a device signs is bound to the job, the miner and the challenge.  Two requests
  with the same bound nonce agree on all three, or their preimages are an explicit SHA-256
  collision; so attested evidence cannot be reused for another job or by another miner.
\<close>

theorem bound_nonce_binding:
  assumes "bound_nonce r = bound_nonce r'"
  shows "ar_job_digest r = ar_job_digest r' \<and> ar_miner_hotkey r = ar_miner_hotkey r' \<and> ar_nonce r = ar_nonce r'
     \<or> collide (binding_preimage r) (binding_preimage r')"
proof -
  have "binding_preimage r = binding_preimage r' \<or> collide (binding_preimage r) (binding_preimage r')"
    using assms sha256_eqD by (simp add: bound_nonce_def)
  then show ?thesis
    by (auto simp: binding_preimage_def json_dumps_inject)
qed

theorem bound_nonce_binding_witness:
  "ar_nonce sample_request = replicate 64 CHR ''a''
     \<or> collide (binding_preimage sample_request) (binding_preimage (sample_request\<lparr>ar_issued_at := 101\<rparr>))"
proof -
  have "bound_nonce sample_request = bound_nonce (sample_request\<lparr>ar_issued_at := 101\<rparr>)"
    by (simp add: bound_nonce_def binding_preimage_def)
  from bound_nonce_binding [OF this] show ?thesis by (simp add: sample_request_def)
qed

end
