(* ===== verification/Performance.thy ===== *)
theory Performance
  imports Checks
begin

text \<open>
  \<open>src/gpuforge/performance.py\<close>: useful work derived from the timed intervals of a run.
  \<open>measure_interval\<close> is the body of the loop of \<open>PerformanceVerifier.measure\<close>, over a record of
  its local variables; \<open>performance_measure\<close> is the method.  \<open>schedule_ok\<close> and \<open>active_time\<close>,
  below, say what it computes without the loop.
\<close>

section \<open>Values\<close>

datatype work_unit = Samples | Tokens | Flop_Proxy

datatype precision = BF16 | FP16 | FP32 | TF32

datatype interval_phase = Warmup | Active | Checkpoint

datatype performance_error =
    Perf_Invalid | Perf_Identity_Mismatch | Perf_Metadata_Mismatch | Perf_Timer_Invalid
  | Perf_Synchronization_Missing | Perf_Partial_Result | Perf_Batch_Inflation
  | Perf_Warmup_Insufficient | Perf_Work_Insufficient | Perf_Observer_Bound

definition perf_digest :: "string \<Rightarrow> performance_error + unit" where
  "perf_digest s = require (is_digest s) Perf_Invalid"

definition perf_integer :: "int \<Rightarrow> int \<Rightarrow> int \<Rightarrow> performance_error + unit" where
  "perf_integer i lo hi = require (in_range lo hi i) Perf_Invalid"

record performance_policy =
  pp_manifest_digest :: string
  pp_lease_digest :: string
  pp_unit :: work_unit
  pp_global_batch_size :: int
  pp_tokens_per_sample :: int
  pp_flop_proxy_per_sample :: int
  pp_batches_per_step :: int
  pp_precision :: precision
  pp_model_shape_digest :: string
  pp_gpu_count :: int
  pp_minimum_warmup_steps :: int
  pp_minimum_active_steps :: int
  pp_maximum_interval_ns :: int
  pp_maximum_active_ns :: int
  pp_maximum_checkpoint_ns :: int
  pp_maximum_setup_ns :: int
  pp_maximum_validator_observed_ns :: int

definition performance_policy_new :: "performance_policy \<Rightarrow> performance_error + performance_policy" where
  "performance_policy_new p = passes
     [perf_digest (pp_manifest_digest p),
      perf_digest (pp_lease_digest p),
      perf_integer (pp_global_batch_size p) 1 10000000,
      perf_integer (pp_tokens_per_sample p) 1 10000000,
      perf_integer (pp_flop_proxy_per_sample p) 1 max_int64,
      perf_integer (pp_batches_per_step p) 1 1000000,
      perf_digest (pp_model_shape_digest p),
      perf_integer (pp_gpu_count p) 1 16384,
      perf_integer (pp_minimum_warmup_steps p) 0 1000000,
      perf_integer (pp_minimum_active_steps p) 1 1000000000,
      perf_integer (pp_maximum_interval_ns p) 1 max_int64,
      perf_integer (pp_maximum_active_ns p) 1 max_int64,
      perf_integer (pp_maximum_checkpoint_ns p) 0 max_int64,
      perf_integer (pp_maximum_setup_ns p) 0 max_int64,
      perf_integer (pp_maximum_validator_observed_ns p) 1 max_int64,
      require (pp_maximum_interval_ns p \<le> pp_maximum_active_ns p) Perf_Invalid] p"

record work_interval =
  wi_sequence :: int
  wi_phase :: interval_phase
  wi_start_ns :: int
  wi_end_ns :: int
  wi_first_step :: int
  wi_last_step :: int
  wi_completed_batches :: int
  wi_synchronized_before :: bool
  wi_synchronized_after :: bool
  wi_complete :: bool

definition work_interval_new :: "work_interval \<Rightarrow> performance_error + work_interval" where
  "work_interval_new i = passes
     ([perf_integer (wi_sequence i) 0 max_int64,
       perf_integer (wi_start_ns i) 0 max_int64,
       perf_integer (wi_end_ns i) 1 max_int64,
       require (wi_start_ns i < wi_end_ns i) Perf_Timer_Invalid]
      @ (if wi_phase i = Checkpoint
         then [require (wi_first_step i = 0 \<and> wi_last_step i = 0 \<and> wi_completed_batches i = 0) Perf_Invalid]
         else [perf_integer (wi_first_step i) 1 max_int64,
               perf_integer (wi_last_step i) (wi_first_step i) max_int64,
               perf_integer (wi_completed_batches i) 1 max_int64])) i"

definition duration_ns :: "work_interval \<Rightarrow> int" where
  "duration_ns i = wi_end_ns i - wi_start_ns i"

definition completed_steps :: "work_interval \<Rightarrow> int" where
  "completed_steps i = (if wi_phase i = Checkpoint then 0 else wi_last_step i - wi_first_step i + 1)"

record performance_run =
  pr_manifest_digest :: string
  pr_lease_digest :: string
  pr_precision :: precision
  pr_model_shape_digest :: string
  pr_gpu_count :: int
  pr_global_batch_size :: int
  pr_fetch_ns :: int
  pr_setup_ns :: int
  pr_validator_observed_ns :: int
  pr_intervals :: "work_interval list"

definition performance_run_new :: "performance_run \<Rightarrow> performance_error + performance_run" where
  "performance_run_new r = passes
     [perf_digest (pr_manifest_digest r),
      perf_digest (pr_lease_digest r),
      perf_digest (pr_model_shape_digest r),
      perf_integer (pr_gpu_count r) 1 16384,
      perf_integer (pr_global_batch_size r) 1 10000000,
      perf_integer (pr_fetch_ns r) 0 max_int64,
      perf_integer (pr_setup_ns r) 0 max_int64,
      perf_integer (pr_validator_observed_ns r) 1 max_int64,
      require (in_range 1 100000 (int (length (pr_intervals r)))) Perf_Invalid] r"

record performance_result =
  px_unit :: work_unit
  px_accepted_units :: int
  px_active_ns :: int
  px_excluded_ns :: int
  px_rate_milli_units_per_second :: int
  px_active_steps :: int
  px_global_batch_size :: int
  px_precision :: precision
  px_model_shape_digest :: string
  px_gpu_count :: int
  px_validator_observed_ns :: int

section \<open>The measurement\<close>

text \<open>The variables of the loop of \<open>measure\<close>.\<close>

record measure_state =
  ms_previous_end :: "int option"
  ms_previous_work_step :: "int option"
  ms_active_started :: bool
  ms_first_active_ns :: "int option"
  ms_last_active_ns :: "int option"
  ms_warmup_steps :: int
  ms_active_steps :: int
  ms_active_batches :: int
  ms_warmup_ns :: int
  ms_checkpoint_intervals :: "work_interval list"

definition measure_start :: measure_state where
  "measure_start = \<lparr>ms_previous_end = None, ms_previous_work_step = None, ms_active_started = False,
     ms_first_active_ns = None, ms_last_active_ns = None, ms_warmup_steps = 0, ms_active_steps = 0,
     ms_active_batches = 0, ms_warmup_ns = 0, ms_checkpoint_intervals = []\<rparr>"

definition measure_interval ::
  "performance_policy \<Rightarrow> int \<Rightarrow> work_interval \<Rightarrow> measure_state \<Rightarrow> performance_error + measure_state" where
  "measure_interval p expected_sequence i s =
     (if wi_sequence i \<noteq> expected_sequence then Inl Perf_Timer_Invalid
      else if duration_ns i > pp_maximum_interval_ns p then Inl Perf_Timer_Invalid
      else if (case ms_previous_end s of None \<Rightarrow> False | Some e \<Rightarrow> wi_start_ns i < e) then Inl Perf_Timer_Invalid
      else if \<not> wi_complete i then Inl Perf_Partial_Result
      else if \<not> wi_synchronized_before i \<or> \<not> wi_synchronized_after i then Inl Perf_Synchronization_Missing
      else
        (let s = s\<lparr>ms_previous_end := Some (wi_end_ns i)\<rparr> in
         if wi_phase i = Checkpoint
         then if \<not> ms_active_started s then Inl Perf_Timer_Invalid
              else Inr (s\<lparr>ms_checkpoint_intervals := ms_checkpoint_intervals s @ [i]\<rparr>)
         else if (case ms_previous_work_step s of None \<Rightarrow> False | Some n \<Rightarrow> wi_first_step i \<noteq> n + 1)
         then Inl Perf_Partial_Result
         else if wi_completed_batches i \<noteq> completed_steps i * pp_batches_per_step p then Inl Perf_Batch_Inflation
         else
           (let s = s\<lparr>ms_previous_work_step := Some (wi_last_step i)\<rparr> in
            if wi_phase i = Warmup
            then if ms_active_started s then Inl Perf_Timer_Invalid
                 else Inr (s\<lparr>ms_warmup_steps := ms_warmup_steps s + completed_steps i,
                             ms_warmup_ns := ms_warmup_ns s + duration_ns i\<rparr>)
            else Inr (s\<lparr>ms_active_started := True,
                        ms_active_steps := ms_active_steps s + completed_steps i,
                        ms_active_batches := ms_active_batches s + wi_completed_batches i,
                        ms_first_active_ns := (case ms_first_active_ns s of
                            None \<Rightarrow> Some (wi_start_ns i) | Some t \<Rightarrow> Some t),
                        ms_last_active_ns := Some (wi_end_ns i)\<rparr>))))"

fun measure_loop ::
  "performance_policy \<Rightarrow> int \<Rightarrow> work_interval list \<Rightarrow> measure_state \<Rightarrow> performance_error + measure_state" where
  "measure_loop p n [] s = Inr s"
| "measure_loop p n (i # is) s = bindE (measure_interval p n i s) (measure_loop p (n + 1) is)"

definition perf_units :: "performance_policy \<Rightarrow> int \<Rightarrow> int" where
  "perf_units p accepted_samples =
     (case pp_unit p of
        Samples \<Rightarrow> accepted_samples
      | Tokens \<Rightarrow> accepted_samples * pp_tokens_per_sample p
      | Flop_Proxy \<Rightarrow> accepted_samples * pp_flop_proxy_per_sample p)"

text \<open>What \<open>measure\<close> does after the loop.\<close>

definition measure_finish ::
  "performance_policy \<Rightarrow> performance_run \<Rightarrow> measure_state \<Rightarrow> performance_error + performance_result" where
  "measure_finish p r s =
     (if ms_warmup_steps s < pp_minimum_warmup_steps p then Inl Perf_Warmup_Insufficient
      else if ms_active_steps s < pp_minimum_active_steps p then Inl Perf_Work_Insufficient
      else case (ms_first_active_ns s, ms_last_active_ns s) of
        (Some first_active_ns, Some last_active_ns) \<Rightarrow>
          (let checkpoint_ns = sum_list (map duration_ns (ms_checkpoint_intervals s));
               active_checkpoint_ns = sum_list (map duration_ns (filter
                 (\<lambda>i. wi_start_ns i \<ge> first_active_ns \<and> wi_end_ns i \<le> last_active_ns)
                 (ms_checkpoint_intervals s)));
               active_ns = last_active_ns - first_active_ns - active_checkpoint_ns;
               measured_span_ns = wi_end_ns (List.last (pr_intervals r)) - wi_start_ns (hd (pr_intervals r));
               required_observer_ns = pr_fetch_ns r + pr_setup_ns r + measured_span_ns;
               accepted_units = perf_units p (ms_active_batches s * pp_global_batch_size p)
           in
             if checkpoint_ns > pp_maximum_checkpoint_ns p then Inl Perf_Timer_Invalid
             else if active_ns \<le> 0 \<or> active_ns > pp_maximum_active_ns p then Inl Perf_Timer_Invalid
             else if pr_validator_observed_ns r < required_observer_ns
                  \<or> pr_validator_observed_ns r > pp_maximum_validator_observed_ns p
               then Inl Perf_Observer_Bound
             else if accepted_units \<le> 0 \<or> accepted_units > max_int64 then Inl Perf_Invalid
             else Inr
               \<lparr>px_unit = pp_unit p, px_accepted_units = accepted_units, px_active_ns = active_ns,
                px_excluded_ns = pr_fetch_ns r + pr_setup_ns r + ms_warmup_ns s + checkpoint_ns,
                px_rate_milli_units_per_second = accepted_units * 1000 * 1000000000 div active_ns,
                px_active_steps = ms_active_steps s, px_global_batch_size = pp_global_batch_size p,
                px_precision = pp_precision p, px_model_shape_digest = pp_model_shape_digest p,
                px_gpu_count = pp_gpu_count p, px_validator_observed_ns = pr_validator_observed_ns r\<rparr>)
      | _ \<Rightarrow> Inl Perf_Work_Insufficient)"

definition performance_measure ::
  "performance_policy \<Rightarrow> performance_run \<Rightarrow> performance_error + performance_result" where
  "performance_measure p r =
     (if pr_manifest_digest r \<noteq> pp_manifest_digest p \<or> pr_lease_digest r \<noteq> pp_lease_digest p
      then Inl Perf_Identity_Mismatch
      else if pr_precision r \<noteq> pp_precision p \<or> pr_model_shape_digest r \<noteq> pp_model_shape_digest p
           \<or> pr_gpu_count r \<noteq> pp_gpu_count p \<or> pr_global_batch_size r \<noteq> pp_global_batch_size p
      then Inl Perf_Metadata_Mismatch
      else if pr_fetch_ns r + pr_setup_ns r > pp_maximum_setup_ns p then Inl Perf_Timer_Invalid
      else bindE (measure_loop p 0 (pr_intervals r) measure_start) (measure_finish p r))"

section \<open>What a measurement is\<close>

definition phase_intervals :: "interval_phase \<Rightarrow> work_interval list \<Rightarrow> work_interval list" where
  "phase_intervals ph is = filter (\<lambda>i. wi_phase i = ph) is"

definition work_intervals :: "work_interval list \<Rightarrow> work_interval list" where
  "work_intervals is = filter (\<lambda>i. wi_phase i \<noteq> Checkpoint) is"

text \<open>An interval that may follow others: complete, synchronised and not too long.\<close>

definition interval_ok :: "performance_policy \<Rightarrow> work_interval \<Rightarrow> bool" where
  "interval_ok p i \<longleftrightarrow> duration_ns i \<le> pp_maximum_interval_ns p \<and> wi_complete i
     \<and> wi_synchronized_before i \<and> wi_synchronized_after i
     \<and> (wi_phase i \<noteq> Checkpoint \<longrightarrow> wi_completed_batches i = completed_steps i * pp_batches_per_step p)"

text \<open>
  A schedule: intervals numbered from 0, in time order without overlap, whose work steps follow
  one another without a gap or a repeat, no warmup after the first active interval, and no
  checkpoint before it.
\<close>

definition phases_ok :: "interval_phase list \<Rightarrow> bool" where
  "phases_ok phs \<longleftrightarrow> (\<forall>k < length phs.
     (phs ! k = Warmup \<longrightarrow> Active \<notin> set (take k phs)) \<and> (phs ! k = Checkpoint \<longrightarrow> Active \<in> set (take k phs)))"

definition schedule_ok :: "performance_policy \<Rightarrow> work_interval list \<Rightarrow> bool" where
  "schedule_ok p is \<longleftrightarrow>
     map wi_sequence is = map int [0..<length is]
   \<and> (\<forall>i \<in> set is. interval_ok p i)
   \<and> successively (\<lambda>i j. wi_end_ns i \<le> wi_start_ns j) is
   \<and> successively (\<lambda>i j. wi_first_step j = wi_last_step i + 1) (work_intervals is)
   \<and> phases_ok (map wi_phase is)"

text \<open>The sums and the ends of the loop, each over the whole list.\<close>

definition total :: "(work_interval \<Rightarrow> int) \<Rightarrow> work_interval list \<Rightarrow> int" where
  "total f is = sum_list (map f is)"

definition last_of :: "(work_interval \<Rightarrow> int) \<Rightarrow> work_interval list \<Rightarrow> int option" where
  "last_of f is = (if is = [] then None else Some (f (List.last is)))"

definition first_of :: "(work_interval \<Rightarrow> int) \<Rightarrow> work_interval list \<Rightarrow> int option" where
  "first_of f is = (if is = [] then None else Some (f (hd is)))"

definition measure_summary :: "work_interval list \<Rightarrow> measure_state" where
  "measure_summary is =
     \<lparr>ms_previous_end = last_of wi_end_ns is,
      ms_previous_work_step = last_of wi_last_step (work_intervals is),
      ms_active_started = (phase_intervals Active is \<noteq> []),
      ms_first_active_ns = first_of wi_start_ns (phase_intervals Active is),
      ms_last_active_ns = last_of wi_end_ns (phase_intervals Active is),
      ms_warmup_steps = total completed_steps (phase_intervals Warmup is),
      ms_active_steps = total completed_steps (phase_intervals Active is),
      ms_active_batches = total wi_completed_batches (phase_intervals Active is),
      ms_warmup_ns = total duration_ns (phase_intervals Warmup is),
      ms_checkpoint_intervals = phase_intervals Checkpoint is\<rparr>"

section \<open>The loop computes it\<close>

lemma total_simps [simp]: "total f [] = 0" "total f (i # is) = f i + total f is" "total f (is @ js) = total f is + total f js"
  by (simp_all add: total_def)

lemma last_of_simps [simp]: "last_of f [] = None" "last_of f (is @ [i]) = Some (f i)"
  by (simp_all add: last_of_def)

lemma first_of_simps [simp]: "first_of f [] = None" "first_of f (i # is) = Some (f i)"
  by (simp_all add: first_of_def)

lemma first_of_snoc [simp]:
  "first_of f (is @ [i]) = (case first_of f is of None \<Rightarrow> Some (f i) | Some t \<Rightarrow> Some t)"
  by (cases "is") simp_all

lemma phase_intervals_simps [simp]:
  "phase_intervals ph [] = []"
  "phase_intervals ph (is @ [i]) = phase_intervals ph is @ (if wi_phase i = ph then [i] else [])"
  by (simp_all add: phase_intervals_def)

lemma work_intervals_simps [simp]:
  "work_intervals [] = []"
  "work_intervals (is @ [i]) = work_intervals is @ (if wi_phase i = Checkpoint then [] else [i])"
  by (simp_all add: work_intervals_def)

lemma phases_ok_snoc:
  "phases_ok (phs @ [ph]) \<longleftrightarrow> phases_ok phs
     \<and> (ph = Warmup \<longrightarrow> Active \<notin> set phs) \<and> (ph = Checkpoint \<longrightarrow> Active \<in> set phs)"
  by (auto simp: phases_ok_def nth_append less_Suc_eq)

lemma phase_intervals_empty: "phase_intervals ph is = [] \<longleftrightarrow> ph \<notin> wi_phase ` set is"
  by (auto simp: phase_intervals_def filter_empty_conv)

lemma successively_snoc:
  "successively P (xs @ [x]) \<longleftrightarrow> successively P xs \<and> (xs = [] \<or> P (List.last xs) x)"
  by (auto simp: successively_append_iff)

lemma schedule_ok_snoc:
  "schedule_ok p (is @ [i]) \<longleftrightarrow> schedule_ok p is
     \<and> wi_sequence i = int (length is) \<and> interval_ok p i
     \<and> (case last_of wi_end_ns is of None \<Rightarrow> True | Some e \<Rightarrow> e \<le> wi_start_ns i)
     \<and> (wi_phase i = Checkpoint
        \<or> (case last_of wi_last_step (work_intervals is) of None \<Rightarrow> True | Some n \<Rightarrow> wi_first_step i = n + 1))
     \<and> (wi_phase i = Warmup \<longrightarrow> phase_intervals Active is = [])
     \<and> (wi_phase i = Checkpoint \<longrightarrow> phase_intervals Active is \<noteq> [])"
  by (auto simp: schedule_ok_def phases_ok_snoc successively_snoc last_of_def phase_intervals_empty)

lemma measure_interval_iff:
  "measure_interval p (int (length is)) i (measure_summary is) = Inr s \<longleftrightarrow>
     wi_sequence i = int (length is) \<and> interval_ok p i
     \<and> (case last_of wi_end_ns is of None \<Rightarrow> True | Some e \<Rightarrow> e \<le> wi_start_ns i)
     \<and> (wi_phase i = Checkpoint
        \<or> (case last_of wi_last_step (work_intervals is) of None \<Rightarrow> True | Some n \<Rightarrow> wi_first_step i = n + 1))
     \<and> (wi_phase i = Warmup \<longrightarrow> phase_intervals Active is = [])
     \<and> (wi_phase i = Checkpoint \<longrightarrow> phase_intervals Active is \<noteq> [])
     \<and> s = measure_summary (is @ [i])"
  by (cases "wi_phase i"; cases "last_of wi_end_ns is"; cases "last_of wi_last_step (work_intervals is)")
    (auto simp: measure_interval_def measure_summary_def interval_ok_def Let_def)

lemma measure_loop_snoc:
  "measure_loop p n (is @ [i]) s = bindE (measure_loop p n is s) (measure_interval p (n + int (length is)) i)"
proof (induction "is" arbitrary: n s)
  case Nil
  show ?case by (cases "measure_interval p n i s") simp_all
next
  case (Cons j js)
  then show ?case by (cases "measure_interval p n j s") (simp_all add: algebra_simps)
qed

lemma measure_loop_iff:
  "measure_loop p 0 is measure_start = Inr s \<longleftrightarrow> schedule_ok p is \<and> s = measure_summary is"
proof (induction "is" arbitrary: s rule: rev_induct)
  case Nil
  show ?case by (auto simp: schedule_ok_def phases_ok_def measure_start_def measure_summary_def)
next
  case (snoc i "is")
  show ?case
    unfolding measure_loop_snoc bindE_Inr_iff snoc schedule_ok_snoc
    using measure_interval_iff [of p "is" i s] by auto
qed

section \<open>Properties\<close>

definition active_checkpoints :: "int \<Rightarrow> int \<Rightarrow> work_interval list \<Rightarrow> work_interval list" where
  "active_checkpoints a b is = filter (\<lambda>c. a \<le> wi_start_ns c \<and> wi_end_ns c \<le> b) (phase_intervals Checkpoint is)"

text \<open>From the first active interval to the end of the last, less the checkpoints between.\<close>

definition active_time :: "work_interval list \<Rightarrow> int" where
  "active_time is =
     (let a = wi_start_ns (hd (phase_intervals Active is)); b = wi_end_ns (List.last (phase_intervals Active is))
      in b - a - total duration_ns (active_checkpoints a b is))"

definition run_units :: "performance_policy \<Rightarrow> work_interval list \<Rightarrow> int" where
  "run_units p is = perf_units p (total wi_completed_batches (phase_intervals Active is) * pp_global_batch_size p)"

text \<open>What the policy asks of a run.\<close>

definition run_accepted :: "performance_policy \<Rightarrow> performance_run \<Rightarrow> bool" where
  "run_accepted p r \<longleftrightarrow> (let is = pr_intervals r in
     pr_manifest_digest r = pp_manifest_digest p \<and> pr_lease_digest r = pp_lease_digest p
   \<and> pr_precision r = pp_precision p \<and> pr_model_shape_digest r = pp_model_shape_digest p
   \<and> pr_gpu_count r = pp_gpu_count p \<and> pr_global_batch_size r = pp_global_batch_size p
   \<and> pr_fetch_ns r + pr_setup_ns r \<le> pp_maximum_setup_ns p
   \<and> schedule_ok p is \<and> phase_intervals Active is \<noteq> []
   \<and> pp_minimum_warmup_steps p \<le> total completed_steps (phase_intervals Warmup is)
   \<and> pp_minimum_active_steps p \<le> total completed_steps (phase_intervals Active is)
   \<and> total duration_ns (phase_intervals Checkpoint is) \<le> pp_maximum_checkpoint_ns p
   \<and> 0 < active_time is \<and> active_time is \<le> pp_maximum_active_ns p
   \<and> pr_fetch_ns r + pr_setup_ns r + wi_end_ns (List.last is) - wi_start_ns (hd is) \<le> pr_validator_observed_ns r
   \<and> pr_validator_observed_ns r \<le> pp_maximum_validator_observed_ns p
   \<and> 0 < run_units p is \<and> run_units p is \<le> max_int64)"

definition run_result :: "performance_policy \<Rightarrow> performance_run \<Rightarrow> performance_result" where
  "run_result p r = (let is = pr_intervals r in
     \<lparr>px_unit = pp_unit p, px_accepted_units = run_units p is, px_active_ns = active_time is,
      px_excluded_ns = pr_fetch_ns r + pr_setup_ns r + total duration_ns (phase_intervals Warmup is)
        + total duration_ns (phase_intervals Checkpoint is),
      px_rate_milli_units_per_second = run_units p is * 1000 * 1000000000 div active_time is,
      px_active_steps = total completed_steps (phase_intervals Active is),
      px_global_batch_size = pp_global_batch_size p, px_precision = pp_precision p,
      px_model_shape_digest = pp_model_shape_digest p, px_gpu_count = pp_gpu_count p,
      px_validator_observed_ns = pr_validator_observed_ns r\<rparr>)"

lemma measure_finish_iff:
  assumes "phase_intervals Active (pr_intervals r) \<noteq> []"
  shows "measure_finish p r (measure_summary (pr_intervals r)) = Inr x \<longleftrightarrow>
     (let is = pr_intervals r in
      pp_minimum_warmup_steps p \<le> total completed_steps (phase_intervals Warmup is)
    \<and> pp_minimum_active_steps p \<le> total completed_steps (phase_intervals Active is)
    \<and> total duration_ns (phase_intervals Checkpoint is) \<le> pp_maximum_checkpoint_ns p
    \<and> 0 < active_time is \<and> active_time is \<le> pp_maximum_active_ns p
    \<and> pr_fetch_ns r + pr_setup_ns r + wi_end_ns (List.last is) - wi_start_ns (hd is) \<le> pr_validator_observed_ns r
    \<and> pr_validator_observed_ns r \<le> pp_maximum_validator_observed_ns p
    \<and> 0 < run_units p is \<and> run_units p is \<le> max_int64) \<and> x = run_result p r"
proof -
  have "measure_finish p r (measure_summary (pr_intervals r)) =
    (let is = pr_intervals r in
     if total completed_steps (phase_intervals Warmup is) < pp_minimum_warmup_steps p then Inl Perf_Warmup_Insufficient
     else if total completed_steps (phase_intervals Active is) < pp_minimum_active_steps p then Inl Perf_Work_Insufficient
     else if total duration_ns (phase_intervals Checkpoint is) > pp_maximum_checkpoint_ns p then Inl Perf_Timer_Invalid
     else if active_time is \<le> 0 \<or> active_time is > pp_maximum_active_ns p then Inl Perf_Timer_Invalid
     else if pr_validator_observed_ns r < pr_fetch_ns r + pr_setup_ns r + (wi_end_ns (List.last is) - wi_start_ns (hd is))
          \<or> pr_validator_observed_ns r > pp_maximum_validator_observed_ns p then Inl Perf_Observer_Bound
     else if run_units p is \<le> 0 \<or> run_units p is > max_int64 then Inl Perf_Invalid
     else Inr (run_result p r))"
    unfolding measure_finish_def measure_summary_def first_of_def last_of_def run_result_def run_units_def
      active_time_def active_checkpoints_def total_def
    using assms by (simp add: Let_def)
  then show ?thesis by (auto simp: Let_def)
qed

lemma measure_finish_no_active:
  "phase_intervals Active is = [] \<Longrightarrow> measure_finish p r (measure_summary is) \<noteq> Inr x"
  by (simp add: measure_finish_def measure_summary_def)

lemma performance_measure_Inr:
  "performance_measure p r = Inr x \<longleftrightarrow> run_accepted p r \<and> x = run_result p r"
proof (cases "phase_intervals Active (pr_intervals r) = []")
  case True
  then show ?thesis
    using measure_finish_no_active
    by (auto simp: performance_measure_def measure_loop_iff run_accepted_def Let_def)
next
  case False
  then show ?thesis
    by (auto simp: performance_measure_def measure_loop_iff measure_finish_iff run_accepted_def Let_def)
qed

text \<open>
  C10: what a measurement accepts and returns.  A run is measured exactly when its identity and
  metadata are the policy's, its intervals form a schedule within the policy's limits and the
  validator observed all of it; and the result is computed from the whole list: the units of
  the active batches, the time from the first active interval to the last less the checkpoints
  between, and their quotient.
\<close>

theorem performance_measure_iff:
  "performance_measure p r = Inr x \<longleftrightarrow> run_accepted p r \<and> x = run_result p r"
  by (rule performance_measure_Inr)

lemma phase_intervals_Cons [simp]:
  "phase_intervals ph (i # is) = (if wi_phase i = ph then i # phase_intervals ph is else phase_intervals ph is)"
  by (simp add: phase_intervals_def)

lemma total_duration: "total (\<lambda>i. wi_end_ns i - wi_start_ns i) is = total duration_ns is"
  by (simp add: total_def duration_ns_def [abs_def])

lemma total_filter: "total f is = total f (filter (\<lambda>i. \<not> P i) is) + total f (filter P is)"
  by (induction "is") simp_all

lemma div_bounds: "0 < (d::int) \<Longrightarrow> n div d * d \<le> n \<and> n < (n div d + 1) * d"
  using pos_mod_bound [of d n] pos_mod_sign [of d n] by (simp add: distrib_right flip: minus_mod_eq_div_mult)

lemma schedule_ok_single: "schedule_ok p [i] \<Longrightarrow> wi_phase i \<noteq> Checkpoint"
  using schedule_ok_snoc [of p "[]" i] by auto

lemma schedule_no_checkpoints: "schedule_ok p is \<Longrightarrow> phase_intervals Active is = [] \<Longrightarrow> phase_intervals Checkpoint is = []"
  by (induction "is" rule: rev_induct) (auto simp: schedule_ok_snoc split: if_splits)

lemma phase_intervals_subset: "set (phase_intervals ph is) \<subseteq> set is"
  by (auto simp: phase_intervals_def)

lemma schedule_snoc_end: "schedule_ok p (is @ [i]) \<Longrightarrow> is \<noteq> [] \<Longrightarrow> wi_end_ns (List.last is) \<le> wi_start_ns i"
  by (simp add: schedule_ok_snoc last_of_def)

text \<open>Every interval ends when the last one does, or before.\<close>

lemma schedule_ends:
  "schedule_ok p is \<Longrightarrow> \<forall>i \<in> set is. wi_start_ns i < wi_end_ns i \<Longrightarrow> i \<in> set is \<Longrightarrow>
     wi_end_ns i \<le> wi_end_ns (List.last is)"
proof (induction "is" arbitrary: i rule: rev_induct)
  case (snoc j "is")
  then have "wi_end_ns i \<le> wi_end_ns (List.last is)" if "i \<in> set is"
    using that by (simp add: schedule_ok_snoc)
  then show ?case
    using snoc.prems schedule_snoc_end [OF snoc.prems(1)] by force
qed simp

text \<open>The warmup lies before the first active interval.\<close>

lemma schedule_warmup:
  "schedule_ok p is \<Longrightarrow> \<forall>i \<in> set is. wi_start_ns i < wi_end_ns i \<Longrightarrow> is \<noteq> [] \<Longrightarrow>
     total duration_ns (phase_intervals Warmup is) + wi_start_ns (hd is) \<le>
       (if phase_intervals Active is = [] then wi_end_ns (List.last is)
        else wi_start_ns (hd (phase_intervals Active is)))"
proof (induction "is" rule: rev_induct)
  case (snoc i "is")
  show ?case
  proof (cases "is = []")
    case True
    then show ?thesis using snoc.prems schedule_ok_single [of p i]
      by (cases "wi_phase i") (auto simp: duration_ns_def)
  next
    case False
    with snoc.prems have IH: "total duration_ns (phase_intervals Warmup is) + wi_start_ns (hd is) \<le>
       (if phase_intervals Active is = [] then wi_end_ns (List.last is)
        else wi_start_ns (hd (phase_intervals Active is)))"
      using snoc.IH by (simp add: schedule_ok_snoc)
    show ?thesis
      using IH False snoc.prems(1) schedule_snoc_end [OF snoc.prems(1) False]
      by (cases "wi_phase i") (auto simp: schedule_ok_snoc duration_ns_def total_duration split: if_splits)
  qed
qed simp

text \<open>Checkpoints lie after the start of the active part, and those after its end in what is left.\<close>

lemma schedule_checkpoints:
  "schedule_ok p is \<Longrightarrow> \<forall>i \<in> set is. wi_start_ns i < wi_end_ns i \<Longrightarrow> phase_intervals Active is \<noteq> [] \<Longrightarrow>
     wi_end_ns (List.last (phase_intervals Active is))
       + total duration_ns (filter (\<lambda>c. wi_end_ns (List.last (phase_intervals Active is)) < wi_end_ns c)
           (phase_intervals Checkpoint is)) \<le> wi_end_ns (List.last is)
     \<and> (\<forall>c \<in> set (phase_intervals Checkpoint is). wi_start_ns (hd (phase_intervals Active is)) \<le> wi_start_ns c)"
proof (induction "is" rule: rev_induct)
  case (snoc i "is")
  show ?case
  proof (cases "phase_intervals Active is = []")
    case True
    with snoc.prems show ?thesis
      using schedule_no_checkpoints [of p "is"]
      by (cases "wi_phase i") (simp_all add: schedule_ok_snoc)
  next
    case False
    then have ne: "is \<noteq> []" by auto
    have IH: "wi_end_ns (List.last (phase_intervals Active is))
       + total duration_ns (filter (\<lambda>c. wi_end_ns (List.last (phase_intervals Active is)) < wi_end_ns c)
           (phase_intervals Checkpoint is)) \<le> wi_end_ns (List.last is)"
      "\<forall>c \<in> set (phase_intervals Checkpoint is). wi_start_ns (hd (phase_intervals Active is)) \<le> wi_start_ns c"
      using snoc False by (simp_all add: schedule_ok_snoc)
    have ends: "wi_end_ns j \<le> wi_end_ns (List.last is)" if "j \<in> set is" for j
      using schedule_ends [of p "is" j] snoc.prems that by (simp add: schedule_ok_snoc)
    have act: "hd (phase_intervals Active is) \<in> set is" "List.last (phase_intervals Active is) \<in> set is"
      using False phase_intervals_subset [of Active "is"] hd_in_set last_in_set by blast+
    have i: "wi_start_ns i < wi_end_ns i" "wi_end_ns (List.last is) \<le> wi_start_ns i"
      "\<forall>j \<in> set is. wi_start_ns j < wi_end_ns j"
      using snoc.prems schedule_snoc_end [OF snoc.prems(1) ne] by simp_all
    show ?thesis
    proof (cases "wi_phase i")
      case Warmup
      then show ?thesis using False snoc.prems(1) by (simp add: schedule_ok_snoc)
    next
      case Active
      have "filter (\<lambda>c. wi_end_ns i < wi_end_ns c) (phase_intervals Checkpoint is) = []"
        using ends i phase_intervals_subset [of Checkpoint "is"] by (force simp: filter_empty_conv)
      then show ?thesis using Active IH(2) False by simp
    next
      case Checkpoint
      have "wi_start_ns (hd (phase_intervals Active is)) \<le> wi_start_ns i"
        "wi_end_ns (List.last (phase_intervals Active is)) < wi_end_ns i"
        using ends [OF act(1)] ends [OF act(2)] i act(1) by force+
      then show ?thesis using Checkpoint IH i ne by (auto simp: duration_ns_def total_duration)
    qed
  qed
qed simp

text \<open>
  No time is counted twice.  In a measured run the active time and the excluded time
  together are at most what the validator observed, and the reported rate is the exact
  quotient, rounded down.
\<close>

theorem performance_time_accounted:
  assumes "performance_measure p r = Inr x" and "\<forall>i \<in> set (pr_intervals r). work_interval_new i = Inr i"
  shows "px_active_ns x + px_excluded_ns x \<le> px_validator_observed_ns x \<and> 0 < px_active_ns x
     \<and> px_rate_milli_units_per_second x * px_active_ns x \<le> px_accepted_units x * 10 ^ 12
     \<and> px_accepted_units x * 10 ^ 12 < (px_rate_milli_units_per_second x + 1) * px_active_ns x"
proof -
  define js where "js = pr_intervals r"
  define a where "a = wi_start_ns (hd (phase_intervals Active js))"
  define b where "b = wi_end_ns (List.last (phase_intervals Active js))"
  have acc: "run_accepted p r" and x: "x = run_result p r" using assms(1) by (simp_all add: performance_measure_Inr)
  have pos: "\<forall>i \<in> set js. wi_start_ns i < wi_end_ns i"
    using assms(2) by (auto simp: js_def work_interval_new_def)
  have ok: "schedule_ok p js" "phase_intervals Active js \<noteq> []" "js \<noteq> []" "0 < active_time js"
    using acc by (auto simp: run_accepted_def js_def Let_def)
  have ck: "b + total duration_ns (filter (\<lambda>c. b < wi_end_ns c) (phase_intervals Checkpoint js)) \<le> wi_end_ns (List.last js)"
    "\<forall>c \<in> set (phase_intervals Checkpoint js). a \<le> wi_start_ns c"
    using schedule_checkpoints [OF ok(1) pos ok(2)] by (simp_all add: a_def b_def)
  have warm: "total duration_ns (phase_intervals Warmup js) + wi_start_ns (hd js) \<le> a"
    using schedule_warmup [OF ok(1) pos ok(3)] ok(2) by (simp add: a_def)
  have "active_checkpoints a b js = filter (\<lambda>c. \<not> b < wi_end_ns c) (phase_intervals Checkpoint js)"
    using ck(2) by (auto simp: active_checkpoints_def intro!: filter_cong)
  then have "total duration_ns (phase_intervals Checkpoint js) = total duration_ns (active_checkpoints a b js)
      + total duration_ns (filter (\<lambda>c. b < wi_end_ns c) (phase_intervals Checkpoint js))"
    using total_filter [of duration_ns "phase_intervals Checkpoint js"] by simp
  then have "active_time js + total duration_ns (phase_intervals Warmup js)
      + total duration_ns (phase_intervals Checkpoint js) \<le> wi_end_ns (List.last js) - wi_start_ns (hd js)"
    using warm ck(1) by (simp add: active_time_def a_def b_def Let_def)
  then have "px_active_ns x + px_excluded_ns x \<le> px_validator_observed_ns x"
    using acc by (simp add: x run_result_def run_accepted_def js_def Let_def)
  moreover have "px_rate_milli_units_per_second x = px_accepted_units x * 10 ^ 12 div px_active_ns x"
    "px_active_ns x = active_time js"
    by (simp_all add: x run_result_def js_def Let_def mult.assoc)
  ultimately show ?thesis using div_bounds ok(4) by simp
qed

text \<open>A run of one warmup step, two active intervals around a checkpoint, and its policy.\<close>

definition sample_interval :: "int \<Rightarrow> interval_phase \<Rightarrow> int \<Rightarrow> int \<Rightarrow> int \<Rightarrow> int \<Rightarrow> work_interval" where
  "sample_interval n ph a b k l = \<lparr>wi_sequence = n, wi_phase = ph, wi_start_ns = a, wi_end_ns = b, wi_first_step = k,
     wi_last_step = l, wi_completed_batches = (if ph = Checkpoint then 0 else 2 * (l - k + 1)),
     wi_synchronized_before = True, wi_synchronized_after = True, wi_complete = True\<rparr>"

definition sample_run :: performance_run where
  "sample_run = \<lparr>pr_manifest_digest = sha256_id [1], pr_lease_digest = sha256_id [2], pr_precision = BF16,
     pr_model_shape_digest = sha256_id [3], pr_gpu_count = 1, pr_global_batch_size = 4, pr_fetch_ns = 5, pr_setup_ns = 6,
     pr_validator_observed_ns = 200,
     pr_intervals = [sample_interval 0 Warmup 10 20 1 1, sample_interval 1 Active 20 50 2 4,
       sample_interval 2 Checkpoint 55 60 0 0, sample_interval 3 Active 60 100 5 6]\<rparr>"

definition sample_performance_policy :: performance_policy where
  "sample_performance_policy = \<lparr>pp_manifest_digest = sha256_id [1], pp_lease_digest = sha256_id [2], pp_unit = Tokens,
     pp_global_batch_size = 4, pp_tokens_per_sample = 10, pp_flop_proxy_per_sample = 1, pp_batches_per_step = 2,
     pp_precision = BF16, pp_model_shape_digest = sha256_id [3], pp_gpu_count = 1, pp_minimum_warmup_steps = 1,
     pp_minimum_active_steps = 2, pp_maximum_interval_ns = 50, pp_maximum_active_ns = 1000, pp_maximum_checkpoint_ns = 10,
     pp_maximum_setup_ns = 20, pp_maximum_validator_observed_ns = 1000\<rparr>"

lemma sample_run_measured:
  "\<exists>x. performance_measure sample_performance_policy sample_run = Inr x \<and> px_active_ns x = 75
     \<and> px_excluded_ns x = 26 \<and> px_validator_observed_ns x = 200 \<and> px_accepted_units x = 400 \<and> px_active_steps x = 5
     \<and> px_rate_milli_units_per_second x = 5333333333333"
  by (simp add: performance_measure_def sample_performance_policy_def sample_run_def sample_interval_def measure_start_def
      measure_interval_def duration_ns_def completed_steps_def Let_def measure_finish_def perf_units_def)

lemma sample_run_intervals: "\<forall>i \<in> set (pr_intervals sample_run). work_interval_new i = Inr i"
  by (simp add: sample_run_def sample_interval_def work_interval_new_def perf_integer_def in_range_def)

theorem performance_time_accounted_witness:
  "\<exists>x. performance_measure sample_performance_policy sample_run = Inr x
     \<and> px_active_ns x + px_excluded_ns x \<le> px_validator_observed_ns x"
  using sample_run_measured performance_time_accounted [OF _ sample_run_intervals] by blast

lemma schedule_batches:
  "schedule_ok p is \<Longrightarrow>
     total wi_completed_batches (phase_intervals Active is)
       = total completed_steps (phase_intervals Active is) * pp_batches_per_step p"
  by (induction "is" rule: rev_induct) (auto simp: schedule_ok_snoc interval_ok_def distrib_right)

lemma schedule_steps:
  "schedule_ok p is \<Longrightarrow> \<forall>i \<in> set is. wi_phase i \<noteq> Checkpoint \<longrightarrow> wi_first_step i \<le> wi_last_step i \<Longrightarrow>
     phase_intervals Active is \<noteq> [] \<Longrightarrow>
     (\<Union>i \<in> set (phase_intervals Active is). {wi_first_step i..wi_last_step i})
       = {wi_first_step (hd (phase_intervals Active is))..wi_last_step (List.last (phase_intervals Active is))}
     \<and> total completed_steps (phase_intervals Active is)
       = wi_last_step (List.last (phase_intervals Active is)) - wi_first_step (hd (phase_intervals Active is)) + 1
     \<and> wi_first_step (hd (phase_intervals Active is)) \<le> wi_last_step (List.last (phase_intervals Active is))
     \<and> last_of wi_last_step (work_intervals is) = Some (wi_last_step (List.last (phase_intervals Active is)))"
proof (induction "is" rule: rev_induct)
  case (snoc i "is")
  show ?case
  proof (cases "phase_intervals Active is = []")
    case True
    with snoc.prems show ?thesis
      by (cases "wi_phase i") (simp_all add: schedule_ok_snoc completed_steps_def)
  next
    case False
    have range: "{c..d} \<union> {a..b} = {a..d}" "{a..b} \<union> {c..d} = {a..d}" if "a \<le> b" "c = b + 1" "c \<le> d" for a b c d :: int
      using that by auto
    have steps: "completed_steps i = wi_last_step i - wi_first_step i + 1" if "wi_phase i = Active"
      using that by (simp add: completed_steps_def)
    show ?thesis
      using snoc False steps
      by (cases "wi_phase i") (simp_all add: schedule_ok_snoc algebra_simps range)
  qed
qed simp

text \<open>
  Work is not counted twice.  The active steps of a measured run are the steps of one range,
  from the first step of the first active interval to the last of the last; each counts once,
  and the accepted units are the policy's units for exactly those steps.
\<close>

theorem performance_steps_once:
  assumes "performance_measure p r = Inr x" and "\<forall>i \<in> set (pr_intervals r). work_interval_new i = Inr i"
    and "act = phase_intervals Active (pr_intervals r)"
  shows "px_active_steps x = int (card (\<Union>i \<in> set act. {wi_first_step i..wi_last_step i}))
     \<and> (\<Union>i \<in> set act. {wi_first_step i..wi_last_step i}) = {wi_first_step (hd act)..wi_last_step (List.last act)}
     \<and> px_accepted_units x = perf_units p (px_active_steps x * pp_batches_per_step p * pp_global_batch_size p)"
proof -
  have acc: "run_accepted p r" "x = run_result p r" using assms(1) by (simp_all add: performance_measure_Inr)
  have "\<forall>i \<in> set (pr_intervals r). wi_phase i \<noteq> Checkpoint \<longrightarrow> wi_first_step i \<le> wi_last_step i"
    using assms(2) by (auto simp: work_interval_new_def perf_integer_def in_range_def)
  then have "act \<noteq> []" "schedule_ok p (pr_intervals r)" 
    "(\<Union>i \<in> set act. {wi_first_step i..wi_last_step i}) = {wi_first_step (hd act)..wi_last_step (List.last act)}"
    "total completed_steps act = wi_last_step (List.last act) - wi_first_step (hd act) + 1"
    "wi_first_step (hd act) \<le> wi_last_step (List.last act)"
    "total wi_completed_batches act = total completed_steps act * pp_batches_per_step p"
    using acc(1) schedule_steps [of p "pr_intervals r"] schedule_batches [of p "pr_intervals r"]
    by (simp_all add: run_accepted_def assms(3) Let_def)
  then show ?thesis
    by (simp add: acc(2) run_result_def run_units_def Let_def assms(3))
qed

theorem performance_steps_once_witness:
  "\<exists>x. performance_measure sample_performance_policy sample_run = Inr x \<and> px_active_steps x = int (card {2..6::int})"
proof -
  obtain x where x: "performance_measure sample_performance_policy sample_run = Inr x"
    using sample_run_measured by blast
  show ?thesis
    using x performance_steps_once [OF x sample_run_intervals refl]
    by (simp add: sample_run_def sample_interval_def phase_intervals_def)
qed

end
