(* ===== verification/Baseline.thy ===== *)
theory Baseline
  imports Performance
begin

text \<open>
  \<open>src/gpuforge/baseline.py\<close>: reviewed throughput envelopes and the assessment of a measured
  rate against one.  The integers of a profile are unbounded; \<open>json.dumps\<close> raises a
  \<open>ValueError\<close> on one of more than 4300 digits, which \<open>baseline_signing_bytes\<close> returns as
  \<open>Baseline_Unprintable\<close>.
\<close>

datatype baseline_decision = Plausible | Slow_Review | Impossible | Unprofiled

datatype baseline_error = Baseline_Invalid | Baseline_Unprintable

fun precision_value :: "precision \<Rightarrow> string" where
  "precision_value BF16 = ''bf16''"
| "precision_value FP16 = ''fp16''"
| "precision_value FP32 = ''fp32''"
| "precision_value TF32 = ''tf32''"

fun work_unit_value :: "work_unit \<Rightarrow> string" where
  "work_unit_value Samples = ''samples''"
| "work_unit_value Tokens = ''tokens''"
| "work_unit_value Flop_Proxy = ''flop_proxy''"

definition h100_classes :: "string list" where
  "h100_classes = [''h100_sxm'', ''h100_pcie'', ''h100_nvl'']"

text \<open>\<open>[a-z][a-z0-9_]{0,31}\<close>\<close>

definition is_family :: "string \<Rightarrow> bool" where
  "is_family s \<longleftrightarrow> match_head is_lower (\<lambda>c. is_lower c \<or> is_digit c \<or> c = CHR ''_'') 31 s"

record baseline_profile =
  bp_version :: int
  bp_workload_family :: string
  bp_model_shape_digest :: string
  bp_gpu_class :: string
  bp_gpu_count :: int
  bp_precision :: precision
  bp_unit :: work_unit
  bp_lower :: int
  bp_upper :: int
  bp_reviewer_signature :: string

definition baseline_profile_new :: "baseline_profile \<Rightarrow> baseline_error + baseline_profile" where
  "baseline_profile_new p = passes
     [require (1 \<le> bp_version p) Baseline_Invalid,
      require (is_family (bp_workload_family p)) Baseline_Invalid,
      require (is_digest (bp_model_shape_digest p)) Baseline_Invalid,
      require (bp_gpu_class p \<in> set h100_classes) Baseline_Invalid,
      require (in_range 1 8 (bp_gpu_count p)) Baseline_Invalid,
      require (0 < bp_lower p) Baseline_Invalid,
      require (0 < bp_upper p) Baseline_Invalid,
      require (bp_lower p \<le> bp_upper p) Baseline_Invalid,
      require (match_class is_lower_hex 128 128 (bp_reviewer_signature p)) Baseline_Invalid] p"

definition baseline_domain :: bytes where
  "baseline_domain = utf8_encode ''gpuforge-baseline-v1'' @ [0]"

definition baseline_primitive :: "baseline_profile \<Rightarrow> json" where
  "baseline_primitive p = JObj
     [(''gpu_class'', JStr (bp_gpu_class p)),
      (''gpu_count'', JInt (bp_gpu_count p)),
      (''lower'', JInt (bp_lower p)),
      (''model_shape_digest'', JStr (bp_model_shape_digest p)),
      (''precision'', JStr (precision_value (bp_precision p))),
      (''unit'', JStr (work_unit_value (bp_unit p))),
      (''upper'', JInt (bp_upper p)),
      (''version'', JInt (bp_version p)),
      (''workload_family'', JStr (bp_workload_family p))]"

definition baseline_signing_bytes :: "baseline_profile \<Rightarrow> baseline_error + bytes" where
  "baseline_signing_bytes p =
     (if list_all int_printable [bp_gpu_count p, bp_lower p, bp_upper p, bp_version p]
      then Inr (baseline_domain @ json_dumps True (baseline_primitive p))
      else Inl Baseline_Unprintable)"

definition baseline_digest :: "baseline_profile \<Rightarrow> baseline_error + string" where
  "baseline_digest p =
     bindE (baseline_signing_bytes p) (\<lambda>b.
       case from_hex (bp_reviewer_signature p) of
         None \<Rightarrow> Inl Baseline_Invalid
       | Some s \<Rightarrow> Inr (sha256_id (b @ s)))"

definition assess_baseline ::
  "baseline_profile option \<Rightarrow> performance_result \<Rightarrow> string \<Rightarrow> string \<Rightarrow> int \<Rightarrow> bool \<Rightarrow> bool \<Rightarrow> baseline_decision" where
  "assess_baseline profile x workload_family gpu_class required_version review_verified mig_enabled =
     (if mig_enabled \<or> gpu_class \<notin> set h100_classes then Unprofiled
      else case profile of
        None \<Rightarrow> Unprofiled
      | Some p \<Rightarrow>
          if \<not> review_verified \<or> bp_version p \<noteq> required_version then Unprofiled
          else if bp_workload_family p \<noteq> workload_family \<or> bp_gpu_class p \<noteq> gpu_class
               \<or> bp_gpu_count p \<noteq> px_gpu_count x \<or> bp_precision p \<noteq> px_precision x
               \<or> bp_unit p \<noteq> px_unit x \<or> bp_model_shape_digest p \<noteq> px_model_shape_digest x
          then Unprofiled
          else if px_rate_milli_units_per_second x > bp_upper p then Impossible
          else if px_rate_milli_units_per_second x < bp_lower p then Slow_Review
          else Plausible)"

section \<open>Properties\<close>

lemma baseline_value_inject [simp]:
  "precision_value a = precision_value b \<longleftrightarrow> a = b" "work_unit_value u = work_unit_value v \<longleftrightarrow> u = v"
  by (cases a; cases b; simp) (cases u; cases v; simp)

lemma baseline_primitive_inject: 
  "json_sort (baseline_primitive p) = json_sort (baseline_primitive q) \<longleftrightarrow>
     q = p\<lparr>bp_reviewer_signature := bp_reviewer_signature q\<rparr>"
  by (cases p; cases q) (auto simp: baseline_primitive_def)

lemma baseline_signing_bytes_inject:
  assumes "baseline_signing_bytes p = Inr b" "baseline_signing_bytes q = Inr b"
  shows "q = p\<lparr>bp_reviewer_signature := bp_reviewer_signature q\<rparr>"
proof -
  have "json_plain (baseline_primitive r)" if "baseline_signing_bytes r = Inr b" for r
    using that by (simp add: baseline_signing_bytes_def baseline_primitive_def split: if_splits)
  moreover have "json_dumps True (baseline_primitive p) = json_dumps True (baseline_primitive q)"
    using assms by (auto simp: baseline_signing_bytes_def split: if_splits)
  ultimately have "json_sort (baseline_primitive p) = json_sort (baseline_primitive q)"
    using assms by (simp add: json_dumps_inject)
  then show ?thesis by (rule baseline_primitive_inject [THEN iffD1])
qed

text \<open>
  A baseline digest identifies the reviewed profile and its signature: profiles with equal
  digests are equal, or exhibit an explicit SHA-256 collision.
\<close>

theorem baseline_digest_binding:
  assumes "baseline_profile_new p = Inr p" "baseline_profile_new q = Inr q"
    and "baseline_signing_bytes p = Inr a" "baseline_signing_bytes q = Inr b"
    and "from_hex (bp_reviewer_signature p) = Some s" "from_hex (bp_reviewer_signature q) = Some t"
  shows "baseline_digest p = baseline_digest q \<longleftrightarrow> p = q \<or> collide (a @ s) (b @ t)"
proof -
  have hex: "\<exists>u. from_hex (bp_reviewer_signature r) = Some u \<and> length u = 64 \<and> bp_reviewer_signature r = to_hex u"
    if "baseline_profile_new r = Inr r" for r
  proof -
    have "list_all is_lower_hex (bp_reviewer_signature r)" "length (bp_reviewer_signature r) = 2 * 64"
      using that by (simp_all add: baseline_profile_new_def match_class_def)
    from from_hex_lower [OF this] show ?thesis by blast
  qed
  have st: "length s = 64" "length t = 64" "bp_reviewer_signature p = to_hex s" "bp_reviewer_signature q = to_hex t"
    using hex [OF assms(1)] hex [OF assms(2)] assms(5,6) by auto
  have "baseline_digest p = baseline_digest q \<longleftrightarrow> a @ s = b @ t \<or> collide (a @ s) (b @ t)"
    using assms(3-6) sha256_eqD [of "a @ s" "b @ t"] by (auto simp: baseline_digest_def collide_def)
  moreover have "p = q" if "a @ s = b @ t"
  proof -
    have "a = b" "s = t" using that st by (simp_all add: append_eq_append_conv)
    then have sig: "bp_reviewer_signature q = bp_reviewer_signature p" and "baseline_signing_bytes p = Inr b"
      using st assms(3) by simp_all
    from baseline_signing_bytes_inject [OF this(2) assms(4)] show ?thesis unfolding sig by simp
  qed
  ultimately show ?thesis by blast
qed


definition sample_profile :: baseline_profile where
  "sample_profile = \<lparr>bp_version = 1, bp_workload_family = ''lora'', bp_model_shape_digest = sha256_id [3],
     bp_gpu_class = ''h100_sxm'', bp_gpu_count = 1, bp_precision = BF16, bp_unit = Tokens, bp_lower = 1000,
     bp_upper = 6000000000000, bp_reviewer_signature = to_hex (replicate 64 0)\<rparr>"

lemma sample_profile_ok:
  "1 \<le> v \<Longrightarrow> baseline_profile_new (sample_profile\<lparr>bp_version := v\<rparr>) = Inr (sample_profile\<lparr>bp_version := v\<rparr>)"
  "\<bar>v\<bar> < 2 ^ 64 \<Longrightarrow> baseline_signing_bytes (sample_profile\<lparr>bp_version := v\<rparr>) =
     Inr (baseline_domain @ json_dumps True (baseline_primitive (sample_profile\<lparr>bp_version := v\<rparr>)))"
  by (simp_all add: baseline_profile_new_def sample_profile_def is_family_def h100_classes_def char_class_defs in_range_def
      match_class_def to_hex_lower baseline_signing_bytes_def int_printable_64)

theorem baseline_digest_binding_witness:
  "baseline_digest sample_profile = baseline_digest (sample_profile\<lparr>bp_version := 2\<rparr>) \<longleftrightarrow>
     collide (baseline_domain @ json_dumps True (baseline_primitive sample_profile) @ replicate 64 0)
       (baseline_domain @ json_dumps True (baseline_primitive (sample_profile\<lparr>bp_version := 2\<rparr>)) @ replicate 64 0)"
proof -
  have "from_hex (bp_reviewer_signature (sample_profile\<lparr>bp_version := v\<rparr>)) = Some (replicate 64 0)" for v
    by (simp add: sample_profile_def)
  from baseline_digest_binding [OF sample_profile_ok(1) [of 1] sample_profile_ok(1) [of 2] sample_profile_ok(2)
      sample_profile_ok(2) this this]
  show ?thesis by (simp add: sample_profile_def)
qed

end
