(* ===== verification/Validation.thy ===== *)
theory Validation
  imports Evidence Identity Attestation Baseline
begin

text \<open>
  \<open>src/gpuforge/validation.py\<close>: the ordered checks behind a validation receipt.  The two
  callables of the inputs are what calling them does: return a truth value, or raise (\<open>None\<close>).
  \<open>first_failure\<close> is the sequence of gates of \<open>validate_execution\<close>, \<open>issue_receipt\<close> its local
  function \<open>receipt\<close>.
\<close>

datatype validation_reason =
    Reason_Schema | Reason_Signature | Reason_Freshness | Reason_Lease | Reason_Attestation | Reason_Image
  | Reason_Challenge | Reason_Correctness | Reason_Measurement | Reason_Plausibility | Reason_Dependency

fun validation_reason_value :: "validation_reason \<Rightarrow> string" where
  "validation_reason_value Reason_Schema = ''schema_invalid''"
| "validation_reason_value Reason_Signature = ''signature_invalid''"
| "validation_reason_value Reason_Freshness = ''evidence_stale''"
| "validation_reason_value Reason_Lease = ''lease_mismatch''"
| "validation_reason_value Reason_Attestation = ''attestation_rejected''"
| "validation_reason_value Reason_Image = ''image_mismatch''"
| "validation_reason_value Reason_Challenge = ''challenge_rejected''"
| "validation_reason_value Reason_Correctness = ''training_incorrect''"
| "validation_reason_value Reason_Measurement = ''measurement_invalid''"
| "validation_reason_value Reason_Plausibility = ''throughput_implausible''"
| "validation_reason_value Reason_Dependency = ''verifier_unavailable''"

record validation_inputs =
  vi_manifest :: job_manifest
  vi_lease :: work_lease
  vi_evidence :: execution_evidence
  vi_bundle :: proof_bundle
  vi_attestation :: verifier_result
  vi_performance :: performance_result
  vi_current_block :: int
  vi_minimum_tier :: evidence_tier
  vi_challenge_check :: "bool option"
  vi_correctness_check :: "bool option"
  vi_plausibility :: baseline_decision

text \<open>The exceptions that \<open>validate_execution\<close> does not catch.\<close>

datatype validation_error =
    Validation_Protocol_Error protocol_error
  | Validation_Auth_Error auth_error
  | Validation_Evidence_Error evidence_error

text \<open>Which errors of the parts are an \<open>AuthenticationError\<close> or an \<open>EvidenceFailure\<close>.\<close>

fun is_authentication_error :: "auth_error \<Rightarrow> bool" where
  "is_authentication_error (Auth_Encoding _) = False"
| "is_authentication_error (Auth_Replay _) = False"
| "is_authentication_error _ = True"

fun is_evidence_failure :: "evidence_error \<Rightarrow> bool" where
  "is_evidence_failure (Evidence_Lease_Error _) = False"
| "is_evidence_failure _ = True"

definition verify_signatures :: "validation_inputs \<Rightarrow> verifier \<Rightarrow> auth_error + unit" where
  "verify_signatures i verifier =
     bindE (verify_message_signature (Job_Manifest (vi_manifest i)) verifier) (\<lambda>_.
     bindE (verify_message_signature (Work_Lease (vi_lease i)) verifier) (\<lambda>_.
     verify_message_signature (Execution_Evidence (vi_evidence i)) verifier))"

definition schema_valid :: "validation_inputs \<Rightarrow> bool" where
  "schema_valid i \<longleftrightarrow> is_ok (canonical_bytes (Execution_Evidence (vi_evidence i))) \<and> is_ok (bundle_bytes (vi_bundle i))"

definition evidence_fresh :: "validation_inputs \<Rightarrow> int \<Rightarrow> bool" where
  "evidence_fresh i maximum_age_blocks \<longleftrightarrow>
     \<not> (maximum_age_blocks < 1
        \<or> vi_current_block i < ee_submitted_at_block (vi_evidence i)
        \<or> vi_current_block i - ee_submitted_at_block (vi_evidence i) > maximum_age_blocks
        \<or> vi_current_block i > jm_expires_at_block (vi_manifest i)
        \<or> \<not> (wl_start_block (vi_lease i) \<le> vi_current_block i \<and> vi_current_block i \<le> wl_deadline_block (vi_lease i)))"

definition attestation_sufficient :: "validation_inputs \<Rightarrow> bool" where
  "attestation_sufficient i \<longleftrightarrow>
     \<not> (\<not> vx_accepted (vi_attestation i)
        \<or> (case vx_tier (vi_attestation i) of None \<Rightarrow> True | Some t \<Rightarrow> tier_rank t < tier_rank (vi_minimum_tier i))
        \<or> Some (vx_evidence_digest (vi_attestation i)) \<noteq> ee_attestation_digest (vi_evidence i)
        \<or> vx_gpu_count (vi_attestation i) \<noteq> px_gpu_count (vi_performance i))"

definition measurement_agrees :: "validation_inputs \<Rightarrow> bool" where
  "measurement_agrees i \<longleftrightarrow>
     \<not> (px_accepted_units (vi_performance i) \<noteq> ee_work_units (vi_evidence i)
        \<or> (px_active_ns (vi_performance i) + 500000) div 1000000 \<noteq> ee_active_seconds_ms (vi_evidence i)
        \<or> px_accepted_units (vi_performance i) \<le> 0)"

text \<open>The two checks, then the measurement and its plausibility.\<close>

definition checked_failure :: "validation_inputs \<Rightarrow> validation_reason option" where
  "checked_failure i =
     (case vi_challenge_check i of
        None \<Rightarrow> Some Reason_Dependency
      | Some False \<Rightarrow> Some Reason_Challenge
      | Some True \<Rightarrow>
          (case vi_correctness_check i of
             None \<Rightarrow> Some Reason_Dependency
           | Some False \<Rightarrow> Some Reason_Correctness
           | Some True \<Rightarrow>
               if \<not> measurement_agrees i then Some Reason_Measurement
               else if vi_plausibility i = Impossible then Some Reason_Plausibility
               else if vi_plausibility i = Unprofiled then Some Reason_Dependency
               else None))"

definition bound_failure ::
  "validation_inputs \<Rightarrow> int \<Rightarrow> validation_error + validation_reason option" where
  "bound_failure i maximum_age_blocks =
     (if \<not> evidence_fresh i maximum_age_blocks then Inr (Some Reason_Freshness)
      else
        bindE (map_error Validation_Protocol_Error (message_digest (Job_Manifest (vi_manifest i)))) (\<lambda>manifest_digest.
        if wl_manifest_digest (vi_lease i) \<noteq> manifest_digest
         \<or> wl_miner_hotkey (vi_lease i) \<noteq> ee_miner_hotkey (vi_evidence i)
        then Inr (Some Reason_Lease)
        else
          (case verify_binding (vi_bundle i) (vi_lease i) (vi_evidence i) of
             Inl e \<Rightarrow> if is_evidence_failure e then Inr (Some Reason_Lease) else Inl (Validation_Evidence_Error e)
           | Inr _ \<Rightarrow>
               if \<not> attestation_sufficient i then Inr (Some Reason_Attestation)
               else if ee_image_digest (vi_evidence i) \<noteq> jm_container_digest (vi_manifest i) then Inr (Some Reason_Image)
               else Inr (checked_failure i))))"

definition first_failure ::
  "validation_inputs \<Rightarrow> verifier \<Rightarrow> int \<Rightarrow> validation_error + validation_reason option" where
  "first_failure i verifier maximum_age_blocks =
     (if \<not> schema_valid i then Inr (Some Reason_Schema)
      else
        case verify_signatures i verifier of
          Inl e \<Rightarrow> if is_authentication_error e then Inr (Some Reason_Signature) else Inl (Validation_Auth_Error e)
        | Inr _ \<Rightarrow> bound_failure i maximum_age_blocks)"

definition receipt_of :: "validation_inputs \<Rightarrow> string \<Rightarrow> string \<Rightarrow> validation_reason option \<Rightarrow> validation_receipt" where
  "receipt_of i validator_hotkey evidence_digest reason =
     \<lparr>vr_evidence_digest = evidence_digest, vr_validator_hotkey = validator_hotkey,
      vr_accepted = (reason = None),
      vr_reason_codes = (case reason of None \<Rightarrow> [] | Some x \<Rightarrow> [validation_reason_value x]),
      vr_verified_work_units = (if reason = None then px_accepted_units (vi_performance i) else 0),
      vr_confidence_tier = (if reason = None then vx_tier (vi_attestation i) else None),
      vr_validated_at_block = vi_current_block i, vr_signature = replicate 128 CHR ''0'', vr_protocol_version = 1\<rparr>"

definition issue_receipt ::
  "validation_inputs \<Rightarrow> string \<Rightarrow> validation_reason option \<Rightarrow> validation_error + validation_receipt" where
  "issue_receipt i validator_hotkey reason =
     map_error Validation_Protocol_Error
       (bindE (message_digest (Execution_Evidence (vi_evidence i))) (\<lambda>d.
        validation_receipt_new (receipt_of i validator_hotkey d reason)))"

definition validate_execution ::
  "validation_inputs \<Rightarrow> string \<Rightarrow> verifier \<Rightarrow> int \<Rightarrow> validation_error + validation_receipt" where
  "validate_execution i validator_hotkey verifier maximum_age_blocks =
     bindE (first_failure i verifier maximum_age_blocks) (issue_receipt i validator_hotkey)"

section \<open>Properties\<close>

text \<open>Inputs that the program can build, for a receipt that it can build.\<close>

definition inputs_ok :: "validation_inputs \<Rightarrow> string \<Rightarrow> bool" where
  "inputs_ok i hotkey \<longleftrightarrow>
     message_ok (Job_Manifest (vi_manifest i)) \<and> message_ok (Work_Lease (vi_lease i))
   \<and> message_ok (Execution_Evidence (vi_evidence i)) \<and> bundle_ok (vi_bundle i)
   \<and> is_hotkey hotkey \<and> in_range 1 max_int64 (vi_current_block i)
   \<and> px_accepted_units (vi_performance i) \<le> max_int64"

lemma checked_failure_None:
  "checked_failure i = None \<longleftrightarrow> vi_challenge_check i = Some True \<and> vi_correctness_check i = Some True
     \<and> measurement_agrees i \<and> vi_plausibility i \<in> {Plausible, Slow_Review}"
  by (cases "vi_plausibility i") (auto simp: checked_failure_def split: option.splits bool.splits)

lemma bound_failure_None:
  "bound_failure i n = Inr None \<longleftrightarrow> evidence_fresh i n
     \<and> message_digest (Job_Manifest (vi_manifest i)) = Inr (wl_manifest_digest (vi_lease i))
     \<and> wl_miner_hotkey (vi_lease i) = ee_miner_hotkey (vi_evidence i)
     \<and> verify_binding (vi_bundle i) (vi_lease i) (vi_evidence i) = Inr ()
     \<and> attestation_sufficient i \<and> ee_image_digest (vi_evidence i) = jm_container_digest (vi_manifest i)
     \<and> checked_failure i = None"
  by (cases "message_digest (Job_Manifest (vi_manifest i))"; cases "verify_binding (vi_bundle i) (vi_lease i) (vi_evidence i)")
    (auto simp: bound_failure_def)

lemma first_failure_None:
  "first_failure i v n = Inr None \<longleftrightarrow> schema_valid i \<and> verify_signatures i v = Inr () \<and> bound_failure i n = Inr None"
  by (cases "verify_signatures i v") (auto simp: first_failure_def)

lemma validation_reason_codes: "is_code (validation_reason_value x)"
  "length (utf8_encode (validation_reason_value x)) \<le> 64" "\<not> list_ex is_prohibited (validation_reason_value x)"
  "1 \<le> length (utf8_encode (validation_reason_value x))"
  by (cases x; simp add: is_code_def char_class_defs is_ascii_def is_prohibited_def)+

lemma receipt_accepted:
  assumes "inputs_ok i hotkey" "is_digest d" "measurement_agrees i" "attestation_sufficient i"
  shows "validation_receipt_new (receipt_of i hotkey d None) = Inr (receipt_of i hotkey d None)"
  using assms is_hotkey_plain [of hotkey]
  by (auto simp: validation_receipt_new_def receipt_of_def inputs_ok_def measurement_agrees_def in_range_def
      attestation_sufficient_def receipt_consistent_def char_class_defs split: option.splits)

lemma receipt_rejected:
  assumes "inputs_ok i hotkey" "is_digest d"
  shows "validation_receipt_new (receipt_of i hotkey d (Some x)) = Inr (receipt_of i hotkey d (Some x))"
  using assms validation_reason_codes [of x]
  by (auto simp: validation_receipt_new_def receipt_of_def inputs_ok_def in_range_def bounded_text_def Let_def
      receipt_consistent_def char_class_defs)

lemma issue_receipt_ok:
  assumes "inputs_ok i hotkey" "message_digest (Execution_Evidence (vi_evidence i)) = Inr d" "is_digest d"
    and "first_failure i v n = Inr reason"
  shows "issue_receipt i hotkey reason = Inr (receipt_of i hotkey d reason)"
proof (cases reason)
  case None
  then show ?thesis
    using assms receipt_accepted [OF assms(1,3)]
    by (simp add: issue_receipt_def first_failure_None bound_failure_None checked_failure_None)
next
  case (Some x)
  then show ?thesis using assms(2) receipt_rejected [OF assms(1,3)] by (simp add: issue_receipt_def)
qed


lemma bundle_ok_schema: "bundle_ok b \<Longrightarrow> is_ok (bundle_bytes b)"
  by (simp add: bundle_bytes_ok)

text \<open>
  C8: exactly when work is accepted.  For inputs the program can build, an accepted receipt is
  issued exactly when all three signatures verify, the evidence is fresh within its manifest and
  lease, lease and bundle are bound to the manifest and the evidence, the attestation reaches
  the minimum tier for the same GPU count, the image is the manifest's, both checks return true,
  the measured units and time are those claimed, and the rate is plausible; and then the receipt
  grants the measured units at the attested tier.
\<close>

theorem validation_accepts_iff:
  assumes "inputs_ok i hotkey" "fits (Execution_Evidence (vi_evidence i))"
  shows "validate_execution i hotkey v n = Inr r \<and> vr_accepted r \<longleftrightarrow>
     (let e = vi_evidence i; l = vi_lease i; m = vi_manifest i; a = vi_attestation i; x = vi_performance i;
          now = vi_current_block i
      in verify_signatures i v = Inr ()
       \<and> 1 \<le> n \<and> ee_submitted_at_block e \<le> now \<and> now \<le> ee_submitted_at_block e + n \<and> now \<le> jm_expires_at_block m
       \<and> wl_start_block l \<le> now \<and> now \<le> wl_deadline_block l
       \<and> message_digest (Job_Manifest m) = Inr (wl_manifest_digest l) \<and> wl_miner_hotkey l = ee_miner_hotkey e
       \<and> verify_binding (vi_bundle i) l e = Inr ()
       \<and> vx_accepted a \<and> (\<exists>t. vx_tier a = Some t \<and> tier_rank (vi_minimum_tier i) \<le> tier_rank t)
       \<and> ee_attestation_digest e = Some (vx_evidence_digest a) \<and> vx_gpu_count a = px_gpu_count x
       \<and> ee_image_digest e = jm_container_digest m
       \<and> vi_challenge_check i = Some True \<and> vi_correctness_check i = Some True
       \<and> px_accepted_units x = ee_work_units e \<and> (px_active_ns x + 500000) div 1000000 = ee_active_seconds_ms e
       \<and> 0 < px_accepted_units x
       \<and> vi_plausibility i \<in> {Plausible, Slow_Review}
       \<and> (\<exists>d. message_digest (Execution_Evidence e) = Inr d \<and> r = receipt_of i hotkey d None))"
proof -
  obtain d where d: "message_digest (Execution_Evidence (vi_evidence i)) = Inr d" "is_digest d"
    using fits_digest [OF assms(2)] by blast
  have schema: "schema_valid i"
    using assms bundle_ok_schema by (simp add: schema_valid_def inputs_ok_def fits_def)
  have "validate_execution i hotkey v n = Inr r \<and> vr_accepted r \<longleftrightarrow>
      first_failure i v n = Inr None \<and> r = receipt_of i hotkey d None"
  proof -
    have "vr_accepted (receipt_of i hotkey d reason) \<longleftrightarrow> reason = None" for reason
      by (simp add: receipt_of_def)
    then show ?thesis
      using issue_receipt_ok [OF assms(1) d] by (fastforce simp: validate_execution_def)
  qed
  then show ?thesis
    unfolding first_failure_None bound_failure_None checked_failure_None evidence_fresh_def attestation_sufficient_def
      measurement_agrees_def Let_def
    using schema d(1) by (auto simp: not_less not_le split: option.splits)
qed

text \<open>
  C9: validation always answers.  For inputs the program can build, evidence that fits the wire
  and a verifier that raises only authentication errors, a receipt is issued; it is itself a
  message the program can build, for this evidence; and it either grants the measured units at
  the attested tier, or grants nothing for exactly one public reason.
\<close>

theorem validation_total:
  assumes "inputs_ok i hotkey" "fits (Execution_Evidence (vi_evidence i))"
    and "\<forall>h p s e. v h p s = Inl e \<longrightarrow> is_authentication_error e"
  shows "\<exists>r. validate_execution i hotkey v n = Inr r \<and> message_ok (Validation_Receipt r)
     \<and> message_digest (Execution_Evidence (vi_evidence i)) = Inr (vr_evidence_digest r)
     \<and> (if vr_accepted r
        then vr_verified_work_units r = px_accepted_units (vi_performance i)
           \<and> vr_confidence_tier r = vx_tier (vi_attestation i) \<and> vr_reason_codes r = []
        else vr_verified_work_units r = 0 \<and> vr_confidence_tier r = None
           \<and> (\<exists>reason. vr_reason_codes r = [validation_reason_value reason]))"
proof -
  obtain d where d: "message_digest (Execution_Evidence (vi_evidence i)) = Inr d" "is_digest d"
    using fits_digest [OF assms(2)] by blast
  have signed: "is_authentication_error e" if "verify_message_signature m v = Inl e" "message_ok m" for m e
  proof -
    have "signing_bytes m = Inr (signature_domain @ json_dumps False (unsigned_primitive m))"
      using that(2) unsigned_primitive_wire by (simp add: signing_bytes_def wire_ok_canonical)
    then show ?thesis
      using that(1) assms(3)
      by (auto simp: verify_message_signature_def bindE_Inl_iff split: option.splits if_splits)
  qed
  have "\<exists>reason. first_failure i v n = Inr reason"
  proof (cases "schema_valid i")
    case True
    have sigs: "is_authentication_error e" if "verify_signatures i v = Inl e" for e
      using that assms(1) signed by (auto simp: verify_signatures_def bindE_Inl_iff inputs_ok_def)
    have bind: "is_evidence_failure e" if "verify_binding (vi_bundle i) (vi_lease i) (vi_evidence i) = Inl e" for e
    proof -
      obtain d' where "message_digest (Work_Lease (vi_lease i)) = Inr d'" using assms(1) work_lease_fits fits_digest unfolding inputs_ok_def by blast
      then show ?thesis
        using that assms(1)
        by (auto simp: verify_binding_def inputs_ok_def bundle_root_ok split: if_splits)
    qed
    have manifest: "\<exists>d. message_digest (Job_Manifest (vi_manifest i)) = Inr d"
      using assms(1) job_manifest_fits fits_digest unfolding inputs_ok_def by blast
    show ?thesis
      using True sigs bind manifest
      by (cases "verify_signatures i v"; cases "verify_binding (vi_bundle i) (vi_lease i) (vi_evidence i)")
        (auto simp: first_failure_def bound_failure_def)
  qed (simp add: first_failure_def)
  then obtain reason where reason: "first_failure i v n = Inr reason" by blast
  note issued = issue_receipt_ok [OF assms(1) d reason]
  have "validate_execution i hotkey v n = Inr (receipt_of i hotkey d reason)"
    using reason issued by (simp add: validate_execution_def)
  moreover have "message_ok (Validation_Receipt (receipt_of i hotkey d reason))"
    using issued d(1) by (auto simp: issue_receipt_def message_ok_def message_valid_def)
  ultimately show ?thesis
    using d(1) by (intro exI [of _ "receipt_of i hotkey d reason"]) (auto simp: receipt_of_def split: option.splits)
qed


section \<open>An accepted execution\<close>

definition sample_manifest :: job_manifest where
  "sample_manifest = \<lparr>jm_job_id = ''job'', jm_container_digest = sha256_id [], jm_entrypoint_digest = sample_digest CHR ''a'',
     jm_input_root = sample_digest CHR ''b'', jm_framework = ''torch'',
     jm_resource_policy = \<lparr>rp_gpu_count = 1, rp_gpu_memory_mb = 81920, rp_cpu_cores = 8, rp_memory_mb = 65536,
       rp_max_runtime_seconds = 3600, rp_network_policy = Net_Deny\<rparr>,
     jm_verification_policy = \<lparr>vp_minimum_evidence_tier = Tier_B, vp_challenge_kind = ''replay'',
       vp_checkpoint_interval_steps = 10\<rparr>,
     jm_lease_seconds = 600, jm_publisher_hotkey = ''publisher'', jm_expires_at_block = 100,
     jm_signature = to_hex (replicate 64 0), jm_protocol_version = 1\<rparr>"

definition bound_lease :: work_lease where
  "bound_lease = sample_lease\<lparr>wl_manifest_digest := (case message_digest (Job_Manifest sample_manifest) of Inr d \<Rightarrow> d | _ \<Rightarrow> []),
     wl_signature := to_hex (replicate 64 0)\<rparr>"

definition bound_bundle :: proof_bundle where
  "bound_bundle = sample_bundle\<lparr>pb_manifest_digest := wl_manifest_digest bound_lease,
     pb_lease_digest := (case message_digest (Work_Lease bound_lease) of Inr d \<Rightarrow> d | _ \<Rightarrow> [])\<rparr>"

definition bound_evidence :: execution_evidence where
  "bound_evidence = sample_evidence_message\<lparr>ee_lease_digest := pb_lease_digest bound_bundle,
     ee_bundle_root := Some (sha256_id (bundle_preimage bound_bundle)), ee_signature := to_hex (replicate 64 0)\<rparr>"

definition sample_inputs :: validation_inputs where
  "sample_inputs = \<lparr>vi_manifest = sample_manifest, vi_lease = bound_lease, vi_evidence = bound_evidence,
     vi_bundle = bound_bundle,
     vi_attestation = \<lparr>vx_accepted = True, vx_tier = Some Tier_A, vx_reason = Verified,
       vx_evidence_digest = br_digest (sample_blob 2), vx_gpu_class = Some ''h100_sxm'', vx_gpu_count = 1\<rparr>,
     vi_performance = \<lparr>px_unit = Tokens, px_accepted_units = 400, px_active_ns = 1000000, px_excluded_ns = 26,
       px_rate_milli_units_per_second = 400000000, px_active_steps = 5, px_global_batch_size = 4, px_precision = BF16,
       px_model_shape_digest = sha256_id [3], px_gpu_count = 1, px_validator_observed_ns = 2000000\<rparr>,
     vi_current_block = 13, vi_minimum_tier = Tier_B, vi_challenge_check = Some True, vi_correctness_check = Some True,
     vi_plausibility = Plausible\<rparr>"

lemma signature_zero: "length (to_hex (replicate 64 0)) = 128" "list_all is_lower_hex (to_hex (replicate 64 0))"
  by (simp_all add: to_hex_lower)

lemma sample_manifest_ok: "message_ok (Job_Manifest sample_manifest)"
  by (simp add: sample_manifest_def message_ok_def message_valid_def job_manifest_new_def sample_digest_def
      is_hotkey_def is_identifier_def is_software_name_def match_class_def char_class_defs in_range_def pattern_fields
      resource_policy_new_def verification_policy_new_def signature_zero bounded_text_def Let_def is_ascii_def
      is_prohibited_def)

lemma sample_manifest_digest: "message_digest (Job_Manifest sample_manifest) = Inr (wl_manifest_digest bound_lease)"
  "is_digest (wl_manifest_digest bound_lease)"
  using fits_digest [OF job_manifest_fits [OF sample_manifest_ok]] by (auto simp: bound_lease_def)

lemma bound_lease_ok: "message_ok (Work_Lease bound_lease)"
proof -
  have "work_lease_new bound_lease = Inr bound_lease"
    using sample_manifest_digest(2)
    by (simp add: bound_lease_def sample_lease_def sample_work_lease_def work_lease_new_def sample_digest_def
      is_hotkey_def is_identifier_def match_class_def char_class_defs in_range_def signature_zero)
  then show ?thesis by (simp add: message_ok_def message_valid_def)
qed

lemma bound_lease_digest: "message_digest (Work_Lease bound_lease) = Inr (pb_lease_digest bound_bundle)"
  "is_digest (pb_lease_digest bound_bundle)"
  using fits_digest [OF work_lease_fits [OF bound_lease_ok]] by (auto simp: bound_bundle_def)

lemma bound_bundle_ok: "bundle_ok bound_bundle"
  using sample_manifest_digest(2) bound_lease_digest(2)
  by (intro bundle_okI) (simp_all add: bound_bundle_def sample_bundle_def sample_lease_def sample_work_lease_def
    sample_digest_def char_class_defs checkpoint_new_def in_range_def)

lemma bound_evidence_ok: "message_ok (Execution_Evidence bound_evidence)"
proof -
  have "execution_evidence_new bound_evidence = Inr bound_evidence"
    using bound_lease_digest(2)
    by (simp add: bound_evidence_def sample_evidence_message_def execution_evidence_new_def sample_blob_def
      result_binding_digest_def is_hotkey_def match_class_def char_class_defs in_range_def optional_digest_def
      sample_bundle_def bound_bundle_def signature_zero)
  then show ?thesis
    by (simp add: message_ok_def message_valid_def bound_evidence_def sample_evidence_message_def sample_bundle_def
      checkpoint_new_def in_range_def)
qed

lemma bound_verifies: "verify_binding bound_bundle bound_lease bound_evidence = Inr ()"
proof -
  have "ee_lease_digest bound_evidence = pb_lease_digest bound_bundle" 
    "ee_bundle_root bound_evidence = Some (sha256_id (bundle_preimage bound_bundle))"
    by (simp_all add: bound_evidence_def)
  then show ?thesis
    using bound_lease_digest(1)
    by (simp add: verify_binding_def bundle_root_ok [OF bound_bundle_ok])
      (simp add: bound_bundle_def bound_evidence_def sample_bundle_def sample_evidence_message_def bound_lease_def sample_lease_def
        sample_work_lease_def)
qed

lemma sample_inputs_ok: "inputs_ok sample_inputs ''validator''" "fits (Execution_Evidence (vi_evidence sample_inputs))"
proof -
  show "inputs_ok sample_inputs ''validator''"
    using sample_manifest_ok bound_lease_ok bound_evidence_ok bound_bundle_ok
    by (simp add: inputs_ok_def sample_inputs_def is_hotkey_def match_class_def char_class_defs in_range_def)
  show "fits (Execution_Evidence (vi_evidence sample_inputs))"
    using execution_evidence_fits [OF bound_evidence_ok]
    by (simp add: sample_inputs_def bound_evidence_def sample_evidence_message_def sample_bundle_def)
qed

lemma verify_zero_signature:
  assumes "message_ok m" "message_signature m = to_hex (replicate 64 0)"
  shows "verify_message_signature m (\<lambda>h p s. Inr True) = Inr ()"
  using assms unsigned_primitive_wire [OF assms(1)]
  by (simp add: verify_message_signature_def signing_bytes_def wire_ok_canonical signature_bytes_def)

lemma sample_signatures: "verify_signatures sample_inputs (\<lambda>h p s. Inr True) = Inr ()"
  using verify_zero_signature [OF sample_manifest_ok] verify_zero_signature [OF bound_lease_ok]
    verify_zero_signature [OF bound_evidence_ok]
  by (simp add: verify_signatures_def sample_inputs_def sample_manifest_def bound_lease_def bound_evidence_def)

theorem validation_accepts_iff_witness:
  "\<exists>d. validate_execution sample_inputs ''validator'' (\<lambda>h p s. Inr True) 64 = Inr (receipt_of sample_inputs ''validator'' d None)
     \<and> vr_accepted (receipt_of sample_inputs ''validator'' d None)"
proof -
  obtain d where "message_digest (Execution_Evidence (vi_evidence sample_inputs)) = Inr d"
    using fits_digest [OF sample_inputs_ok(2)] by blast
  then have "validate_execution sample_inputs ''validator'' (\<lambda>h p s. Inr True) 64 = Inr (receipt_of sample_inputs ''validator'' d None)
     \<and> vr_accepted (receipt_of sample_inputs ''validator'' d None)"
    using sample_signatures bound_verifies sample_manifest_digest(1)
    by (subst validation_accepts_iff [OF sample_inputs_ok])
      (simp add: Let_def sample_inputs_def bound_evidence_def sample_evidence_message_def bound_lease_def sample_lease_def
        sample_work_lease_def sample_manifest_def)
  then show ?thesis ..
qed

theorem validation_total_witness:
  "\<exists>r. validate_execution sample_inputs ''validator'' (\<lambda>h p s. Inl Signature_Invalid) 64 = Inr r \<and> message_ok (Validation_Receipt r)"
  using validation_total [OF sample_inputs_ok, of "\<lambda>h p s. Inl Signature_Invalid" 64] by auto


text \<open>
  The reason for an invalid schema cannot be reported.  A bundle the program can build is
  never too large, so that gate fails on oversized evidence only; and then issuing the receipt,
  which needs the digest of that evidence, raises.  Evidence with 1000 checkpoints is accepted
  by its constructor and is too large.
\<close>

theorem validation_oversized_evidence_raises:
  assumes "message_ok (Execution_Evidence (vi_evidence i))" "1000 \<le> length (ee_checkpoints (vi_evidence i))"
  shows "validate_execution i hotkey v n = Inl (Validation_Protocol_Error Wire_Too_Large)"
  using execution_evidence_too_large [OF assms]
  by (simp add: validate_execution_def first_failure_def schema_valid_def issue_receipt_def message_digest_def)

definition long_evidence :: execution_evidence where
  "long_evidence = bound_evidence\<lparr>ee_checkpoints := map (\<lambda>k. \<lparr>ck_step = k, ck_digest = sha256_id [0]\<rparr>) [1..1000]\<rparr>"

lemma long_evidence_ok: "message_ok (Execution_Evidence long_evidence)"
proof -
  have cks: "map ck_step (ee_checkpoints long_evidence) = [1..1000]"
    by (simp add: long_evidence_def comp_def)
  then have "sorted (map ck_step (ee_checkpoints long_evidence))" "distinct (map ck_step (ee_checkpoints long_evidence))"
    by (simp_all only: cks sorted_upto distinct_upto)
  moreover have "length (ee_checkpoints long_evidence) = 1000" by (simp add: long_evidence_def)
  moreover have "execution_evidence_new bound_evidence = Inr bound_evidence"
    using bound_evidence_ok by (simp add: message_ok_def message_valid_def)
  moreover have "\<forall>c \<in> set (ee_checkpoints long_evidence). checkpoint_new c = Inr c"
    by (simp add: long_evidence_def checkpoint_new_def in_range_def)
  ultimately show ?thesis
    by (simp add: message_ok_def message_valid_def execution_evidence_new_def sort_key_id_if_sorted)
      (simp add: long_evidence_def)
qed

theorem validation_oversized_evidence_raises_witness:
  "validate_execution (sample_inputs\<lparr>vi_evidence := long_evidence\<rparr>) ''validator'' (\<lambda>h p s. Inr True) 64
     = Inl (Validation_Protocol_Error Wire_Too_Large)"
  by (rule validation_oversized_evidence_raises) (simp_all add: long_evidence_ok, simp add: long_evidence_def)

end
