(* ===== verification/Challenge.thy ===== *)
theory Challenge
  imports Checks "HOL-Library.Product_Lexorder"
begin

text \<open>
  \<open>src/gpuforge/challenge.py\<close>: commit-reveal challenges.  The generator is its secret; the
  random identifier of \<open>commit\<close> is an argument.  \<open>challenge_step\<close> is the machine of calls of
  \<open>ChallengeVerifier.verify_and_consume\<close>, whose state is the set of consumed commitments, kept
  as the list of its elements.
\<close>

datatype challenge_error =
    Challenge_Invalid | Challenge_Not_Accepted | Challenge_Expired | Challenge_Mismatch | Challenge_Replay
  | Challenge_Capacity

definition max_items :: int where
  "max_items = 1000000"

definition challenge_digest :: "string \<Rightarrow> challenge_error + unit" where
  "challenge_digest s = require (is_digest s) Challenge_Invalid"

definition challenge_hex :: "string \<Rightarrow> challenge_error + unit" where
  "challenge_hex s = require (is_hex64 s) Challenge_Invalid"

definition challenge_integer :: "int \<Rightarrow> int \<Rightarrow> int \<Rightarrow> challenge_error + unit" where
  "challenge_integer i lo hi = require (in_range lo hi i) Challenge_Invalid"

definition challenge_indices :: "nat list \<Rightarrow> challenge_error + unit" where
  "challenge_indices is =
     (if int (length is) > max_items then Inl Challenge_Invalid
      else bindE (all_pass (map (\<lambda>i. challenge_integer (int i) 0 (max_items - 1)) is)) (\<lambda>_.
        require (length (remdups is) = length is) Challenge_Invalid))"

record challenge_commitment =
  co_challenge_id :: string
  co_commitment_digest :: string
  co_deadline_block :: int
  co_shard_count :: int
  co_canary_pool_size :: int
  co_canary_count :: int

definition challenge_commitment_new :: "challenge_commitment \<Rightarrow> challenge_error + challenge_commitment" where
  "challenge_commitment_new c = passes
     [challenge_hex (co_challenge_id c),
      challenge_digest (co_commitment_digest c),
      challenge_integer (co_deadline_block c) 1 max_int64,
      challenge_integer (co_shard_count c) 1 max_items,
      challenge_integer (co_canary_pool_size c) 1 max_items,
      challenge_integer (co_canary_count c) 1 (co_canary_pool_size c)] c"

record challenge_reveal =
  cr_challenge_id :: string
  cr_seed :: string
  cr_shard_order :: "nat list"
  cr_canary_indices :: "nat list"

definition challenge_reveal_new :: "challenge_reveal \<Rightarrow> challenge_error + challenge_reveal" where
  "challenge_reveal_new r = passes
     [challenge_hex (cr_challenge_id r),
      challenge_hex (cr_seed r),
      challenge_indices (cr_shard_order r),
      challenge_indices (cr_canary_indices r)] r"

definition seed_domain :: bytes where
  "seed_domain = utf8_encode ''gpuforge/challenge/seed/v1'' @ [0]"

definition commitment_domain :: bytes where
  "commitment_domain = utf8_encode ''gpuforge/challenge/commitment/v1'' @ [0]"

definition shard_domain :: bytes where
  "shard_domain = utf8_encode ''gpuforge/challenge/shard/v1'' @ [0]"

definition canary_domain :: bytes where
  "canary_domain = utf8_encode ''gpuforge/challenge/canary/v1'' @ [0]"

definition context_primitive :: "challenge_commitment \<Rightarrow> string \<Rightarrow> string \<Rightarrow> json" where
  "context_primitive c job_digest lease_nonce = JObj
     [(''canary_count'', JInt (co_canary_count c)),
      (''canary_pool_size'', JInt (co_canary_pool_size c)),
      (''challenge_id'', JStr (co_challenge_id c)),
      (''deadline_block'', JInt (co_deadline_block c)),
      (''job_digest'', JStr job_digest),
      (''lease_nonce'', JStr lease_nonce),
      (''shard_count'', JInt (co_shard_count c))]"

definition challenge_context :: "challenge_commitment \<Rightarrow> string \<Rightarrow> string \<Rightarrow> challenge_error + bytes" where
  "challenge_context c job_digest lease_nonce =
     bindE (challenge_digest job_digest) (\<lambda>_.
     bindE (challenge_hex lease_nonce) (\<lambda>_.
     Inr (json_dumps True (context_primitive c job_digest lease_nonce))))"

definition commitment_digest :: "bytes \<Rightarrow> bytes \<Rightarrow> string" where
  "commitment_digest context seed = sha256_id (commitment_domain @ context @ seed)"

text \<open>\<open>sorted(range(size), key=...)\<close>, by the pair of the keyed digest of an index and the index.\<close>

definition challenge_selection :: "bytes \<Rightarrow> bytes \<Rightarrow> nat \<Rightarrow> nat list" where
  "challenge_selection seed domain n =
     sort_key (\<lambda>i. (hmac_sha256 seed (domain @ be_bytes 8 i), i)) [0..<n]"

definition build_reveal :: "challenge_commitment \<Rightarrow> bytes \<Rightarrow> challenge_error + challenge_reveal" where
  "build_reveal c seed = challenge_reveal_new
     \<lparr>cr_challenge_id = co_challenge_id c, cr_seed = to_hex seed,
      cr_shard_order = take (nat (co_shard_count c)) (challenge_selection seed shard_domain (nat (co_shard_count c))),
      cr_canary_indices = take (nat (co_canary_count c))
        (challenge_selection seed canary_domain (nat (co_canary_pool_size c)))\<rparr>"

definition acceptance_window :: "challenge_commitment \<Rightarrow> bool \<Rightarrow> int \<Rightarrow> challenge_error + unit" where
  "acceptance_window c accepted current_block =
     (if \<not> accepted then Inl Challenge_Not_Accepted
      else bindE (challenge_integer current_block 0 max_int64) (\<lambda>_.
        if current_block > co_deadline_block c then Inl Challenge_Expired else Inr ()))"

text \<open>The generator: a secret of at least 32 bytes.\<close>

definition challenge_generator :: "bytes \<Rightarrow> challenge_error + bytes" where
  "challenge_generator secret = (if length secret < 32 then Inl Challenge_Invalid else Inr secret)"

definition challenge_seed :: "bytes \<Rightarrow> bytes \<Rightarrow> bytes" where
  "challenge_seed secret context = hmac_sha256 secret (seed_domain @ context)"

definition challenge_commit ::
  "bytes \<Rightarrow> string \<Rightarrow> string \<Rightarrow> string \<Rightarrow> int \<Rightarrow> int \<Rightarrow> int \<Rightarrow> int \<Rightarrow> challenge_error + challenge_commitment" where
  "challenge_commit secret selected_id job_digest lease_nonce deadline_block shard_count canary_pool_size canary_count =
     bindE (challenge_commitment_new
       \<lparr>co_challenge_id = selected_id, co_commitment_digest = ''sha256:'' @ replicate 64 CHR ''0'',
        co_deadline_block = deadline_block, co_shard_count = shard_count, co_canary_pool_size = canary_pool_size,
        co_canary_count = canary_count\<rparr>) (\<lambda>provisional.
     bindE (challenge_context provisional job_digest lease_nonce) (\<lambda>context.
     challenge_commitment_new
       \<lparr>co_challenge_id = selected_id,
        co_commitment_digest = commitment_digest context (challenge_seed secret context),
        co_deadline_block = deadline_block, co_shard_count = shard_count, co_canary_pool_size = canary_pool_size,
        co_canary_count = canary_count\<rparr>))"

definition challenge_reveal_for ::
  "bytes \<Rightarrow> challenge_commitment \<Rightarrow> string \<Rightarrow> string \<Rightarrow> bool \<Rightarrow> int \<Rightarrow> challenge_error + challenge_reveal" where
  "challenge_reveal_for secret c job_digest lease_nonce accepted current_block =
     bindE (acceptance_window c accepted current_block) (\<lambda>_.
     bindE (challenge_context c job_digest lease_nonce) (\<lambda>context.
     if co_commitment_digest c \<noteq> commitment_digest context (challenge_seed secret context)
     then Inl Challenge_Mismatch
     else build_reveal c (challenge_seed secret context)))"

record challenge_verifier =
  cv_max_consumed :: int
  cv_consumed :: "string list"

definition challenge_verifier_new :: "int \<Rightarrow> challenge_error + challenge_verifier" where
  "challenge_verifier_new max_consumed =
     bindE (challenge_integer max_consumed 1 10000000) (\<lambda>_.
     Inr \<lparr>cv_max_consumed = max_consumed, cv_consumed = []\<rparr>)"

definition challenge_check ::
  "challenge_commitment \<Rightarrow> challenge_reveal \<Rightarrow> string \<Rightarrow> string \<Rightarrow> bool \<Rightarrow> int \<Rightarrow> challenge_error + unit" where
  "challenge_check c r job_digest lease_nonce accepted current_block =
     bindE (acceptance_window c accepted current_block) (\<lambda>_.
     bindE (challenge_context c job_digest lease_nonce) (\<lambda>context.
     case from_hex (cr_seed r) of
       None \<Rightarrow> Inl Challenge_Invalid
     | Some seed \<Rightarrow>
         bindE (build_reveal c seed) (\<lambda>expected.
         if co_challenge_id c \<noteq> cr_challenge_id r
          \<or> co_commitment_digest c \<noteq> commitment_digest context seed
          \<or> cr_shard_order r \<noteq> cr_shard_order expected
          \<or> cr_canary_indices r \<noteq> cr_canary_indices expected
         then Inl Challenge_Mismatch
         else Inr ())))"

definition verify_and_consume ::
  "challenge_verifier \<Rightarrow> challenge_commitment \<Rightarrow> challenge_reveal \<Rightarrow> string \<Rightarrow> string \<Rightarrow> bool \<Rightarrow> int
     \<Rightarrow> challenge_verifier \<times> (challenge_error + unit)" where
  "verify_and_consume v c r job_digest lease_nonce accepted current_block =
     (case challenge_check c r job_digest lease_nonce accepted current_block of
        Inl e \<Rightarrow> (v, Inl e)
      | Inr _ \<Rightarrow>
          if co_commitment_digest c \<in> set (cv_consumed v) then (v, Inl Challenge_Replay)
          else if int (length (cv_consumed v)) \<ge> cv_max_consumed v then (v, Inl Challenge_Capacity)
          else (v\<lparr>cv_consumed := cv_consumed v @ [co_commitment_digest c]\<rparr>, Inr ()))"

text \<open>A call, and the machine of calls.\<close>

record challenge_call =
  cl_commitment :: challenge_commitment
  cl_reveal :: challenge_reveal
  cl_job_digest :: string
  cl_lease_nonce :: string
  cl_accepted :: bool
  cl_current_block :: int

definition challenge_step ::
  "challenge_verifier \<Rightarrow> challenge_call \<Rightarrow> challenge_verifier \<times> (challenge_error + unit)" where
  "challenge_step v x = verify_and_consume v (cl_commitment x) (cl_reveal x) (cl_job_digest x) (cl_lease_nonce x)
     (cl_accepted x) (cl_current_block x)"

section \<open>The selection\<close>

lemma challenge_selection_perm [simp]:
  "mset (challenge_selection seed domain n) = mset [0..<n]" "length (challenge_selection seed domain n) = n"
  "distinct (challenge_selection seed domain n)" "set (challenge_selection seed domain n) = {0..<n}"
  by (simp_all add: challenge_selection_def del: mset_upt)

lemma challenge_indices_Inr [simp]:
  "challenge_indices is = Inr u \<longleftrightarrow> int (length is) \<le> max_items \<and> (\<forall>i \<in> set is. int i < max_items) \<and> distinct is"
  by (auto simp: challenge_indices_def challenge_integer_def in_range_def length_remdups_card_conv card_distinct
      distinct_card)

lemma build_reveal_ok:
  assumes "challenge_commitment_new c = Inr c" "length seed = 32"
  shows "build_reveal c seed = Inr
     \<lparr>cr_challenge_id = co_challenge_id c, cr_seed = to_hex seed,
      cr_shard_order = challenge_selection seed shard_domain (nat (co_shard_count c)),
      cr_canary_indices = take (nat (co_canary_count c))
        (challenge_selection seed canary_domain (nat (co_canary_pool_size c)))\<rparr>"
proof -
  have r: "in_range 1 max_items (co_shard_count c)" "in_range 1 max_items (co_canary_pool_size c)"
    "in_range 1 (co_canary_pool_size c) (co_canary_count c)" "is_hex64 (co_challenge_id c)"
    using assms(1) by (simp_all add: challenge_commitment_new_def challenge_integer_def challenge_hex_def)
  have "is_hex64 (to_hex seed)" using assms(2) to_hex_lower by (simp add: is_hex64_def match_class_def)
  then show ?thesis
    using r by (auto simp: build_reveal_def challenge_reveal_new_def challenge_hex_def in_range_def min_def
        dest!: in_set_takeD)
qed

lemma challenge_context_ok:
  "challenge_context c jd nc = Inr x \<longleftrightarrow>
     is_digest jd \<and> is_hex64 nc \<and> x = json_dumps True (context_primitive c jd nc)"
  by (auto simp: challenge_context_def challenge_digest_def challenge_hex_def)

lemma context_inject:
  assumes "challenge_commitment_new c = Inr c" "json_dumps True (context_primitive c jd nc) = json_dumps True (context_primitive c jd' nc')"
  shows "jd = jd' \<and> nc = nc'"
proof -
  have ints: "in_range 1 max_int64 (co_deadline_block c)" "in_range 1 1000000 (co_shard_count c)"
    "in_range 1 1000000 (co_canary_pool_size c)" "in_range 1 (co_canary_pool_size c) (co_canary_count c)"
    using assms(1) by (simp_all add: challenge_commitment_new_def challenge_integer_def max_items_def)
  have "int_printable (co_deadline_block c)" "int_printable (co_shard_count c)"
    "int_printable (co_canary_pool_size c)" "int_printable (co_canary_count c)"
    using ints by (auto simp: in_range_def intro!: int_printable_64)
  then have "json_plain (context_primitive c x y)" for x y
    by (simp add: context_primitive_def)
  with assms(2) have "json_sort (context_primitive c jd nc) = json_sort (context_primitive c jd' nc')"
    by (simp add: json_dumps_inject)
  then show ?thesis by (simp add: context_primitive_def)
qed

lemma acceptance_window_Inr [simp]:
  "acceptance_window c accepted b = Inr u \<longleftrightarrow> accepted \<and> in_range 0 max_int64 b \<and> b \<le> co_deadline_block c"
  by (auto simp: acceptance_window_def challenge_integer_def)

lemma hex_seed:
  assumes "is_hex64 s"
  obtains b where "from_hex s = Some b" "length b = 32" "s = to_hex b"
  using from_hex_lower [of s 32] assms by (auto simp: is_hex64_def match_class_def)

text \<open>What the checks of \<open>verify_and_consume\<close> establish.\<close>

lemma challenge_check_Inr:
  assumes "challenge_commitment_new c = Inr c" "challenge_reveal_new r = Inr r"
  shows "challenge_check c r jd nc accepted b = Inr () \<longleftrightarrow>
     accepted \<and> in_range 0 max_int64 b \<and> b \<le> co_deadline_block c \<and> is_digest jd \<and> is_hex64 nc
   \<and> (\<exists>seed. length seed = 32 \<and> build_reveal c seed = Inr r
        \<and> co_commitment_digest c = commitment_digest (json_dumps True (context_primitive c jd nc)) seed)"
proof -
  obtain seed where seed: "from_hex (cr_seed r) = Some seed" "length seed = 32" "cr_seed r = to_hex seed"
    using assms(2) hex_seed by (auto simp: challenge_reveal_new_def challenge_hex_def)
  have "build_reveal c s = Inr r \<longleftrightarrow> s = seed \<and> co_challenge_id c = cr_challenge_id r
      \<and> cr_shard_order r = challenge_selection s shard_domain (nat (co_shard_count c))
      \<and> cr_canary_indices r = take (nat (co_canary_count c)) (challenge_selection s canary_domain (nat (co_canary_pool_size c)))"
    if "length s = 32" for s
    unfolding build_reveal_ok [OF assms(1) that] using seed(3) by (cases r) auto
  then show ?thesis
    using seed(1,2) build_reveal_ok [OF assms(1) seed(2)]
    by (auto simp: challenge_check_def challenge_context_ok)
qed

text \<open>What a commitment of the generator is.\<close>

lemma challenge_commit_Inr:
  assumes "challenge_commit secret i jd nc dl sc ps cc = Inr c"
    and "ctx = json_dumps True (context_primitive c jd nc)"
  shows "challenge_commitment_new c = Inr c" "co_deadline_block c = dl" "co_shard_count c = sc"
    "co_canary_pool_size c = ps" "co_canary_count c = cc" "is_digest jd" "is_hex64 nc"
    "co_commitment_digest c = commitment_digest ctx (challenge_seed secret ctx)"
  using assms by (auto simp: challenge_commit_def challenge_context_ok challenge_commitment_new_def context_primitive_def)

lemma challenge_seed_length [simp]: "length (challenge_seed secret ctx) = 32"
  by (simp add: challenge_seed_def)

section \<open>Properties\<close>

definition challenge_inv :: "challenge_verifier \<Rightarrow> bool" where
  "challenge_inv v \<longleftrightarrow> distinct (cv_consumed v) \<and> int (length (cv_consumed v)) \<le> cv_max_consumed v"

definition challenge_accepted :: "string \<Rightarrow> challenge_call \<Rightarrow> challenge_error + unit \<Rightarrow> bool" where
  "challenge_accepted d x y \<longleftrightarrow> co_commitment_digest (cl_commitment x) = d \<and> y = Inr ()"

definition challenge_consumed :: "string \<Rightarrow> challenge_verifier \<Rightarrow> bool" where
  "challenge_consumed d v \<longleftrightarrow> d \<in> set (cv_consumed v)"

interpretation challenge_consumption: marked_event challenge_step challenge_inv "challenge_accepted d" "challenge_consumed d"
  by unfold_locales
    (auto simp: challenge_step_def verify_and_consume_def challenge_inv_def challenge_accepted_def challenge_consumed_def
      split: sum.splits if_splits)

text \<open>
  C29: a commitment is consumed at most once.  Over any calls of a verifier, the number of calls
  that succeed for a commitment digest is one if the digest ends up consumed and none otherwise,
  and the set of consumed digests never exceeds its capacity.
\<close>

theorem challenge_consumed_once:
  assumes "challenge_verifier_new n = Inr v"
  shows "fired (challenge_accepted d) challenge_step v calls = (if challenge_consumed d (run challenge_step v calls) then 1 else 0)
     \<and> int (length (cv_consumed (run challenge_step v calls))) \<le> n"
proof -
  have v: "challenge_inv v" "\<not> challenge_consumed d v" "cv_max_consumed v = n"
    using assms by (auto simp: challenge_verifier_new_def challenge_integer_def in_range_def challenge_inv_def challenge_consumed_def)
  have "cv_max_consumed (run challenge_step s calls) = cv_max_consumed s" for s
    by (induction calls arbitrary: s) (auto simp: challenge_step_def verify_and_consume_def split: sum.splits)
  then show ?thesis
    using challenge_consumption.fired_iff_spent [OF v(1,2)] challenge_consumption.run_inv [OF v(1), of calls] v(3)
    by (simp add: challenge_inv_def)
qed

lemma challenge_honest:
  assumes "challenge_commit secret i jd nc dl sc ps cc = Inr c" "in_range 0 max_int64 b" "b \<le> dl"
    and "co_commitment_digest c \<notin> set (cv_consumed v)" "int (length (cv_consumed v)) < cv_max_consumed v"
  shows "\<exists>r. challenge_reveal_for secret c jd nc True b = Inr r \<and> challenge_reveal_new r = Inr r
     \<and> verify_and_consume v c r jd nc True b = (v\<lparr>cv_consumed := cv_consumed v @ [co_commitment_digest c]\<rparr>, Inr ())"
proof -
  define ctx where "ctx = json_dumps True (context_primitive c jd nc)"
  note c = challenge_commit_Inr [OF assms(1) ctx_def]
  obtain r where r: "build_reveal c (challenge_seed secret ctx) = Inr r"
    using build_reveal_ok [OF c(1), of "challenge_seed secret ctx"] by auto
  then have valid: "challenge_reveal_new r = Inr r" by (auto simp: build_reveal_def challenge_reveal_new_def)
  have "challenge_reveal_for secret c jd nc True b = Inr r"
    using assms(2,3) c(2,6-8) r by (auto simp: challenge_reveal_for_def challenge_context_ok ctx_def)
  moreover have "challenge_check c r jd nc True b = Inr ()"
    using assms(2,3) c(2,6-8) r
    by (auto simp: challenge_check_Inr [OF c(1) valid] ctx_def intro!: exI [of _ "challenge_seed secret ctx"])
  ultimately show ?thesis
    using valid assms(4,5) by (auto simp: verify_and_consume_def)
qed

text \<open>
  An honest reveal is accepted.  For a commitment the generator made, revealing up to its
  deadline succeeds, and a verifier that has not consumed the commitment and has room accepts
  the reveal and consumes it.
\<close>

theorem challenge_honest_reveal:
  assumes "challenge_commit secret i jd nc dl sc ps cc = Inr c" "in_range 0 max_int64 b" "b \<le> dl"
    and "co_commitment_digest c \<notin> set (cv_consumed v)" "int (length (cv_consumed v)) < cv_max_consumed v"
  shows "\<exists>r. challenge_reveal_for secret c jd nc True b = Inr r \<and> challenge_reveal_new r = Inr r
     \<and> verify_and_consume v c r jd nc True b = (v\<lparr>cv_consumed := cv_consumed v @ [co_commitment_digest c]\<rparr>, Inr ())"
  by (rule challenge_honest [OF assms])

text \<open>
  C12: a reveal proves the commitment.  If a verifier accepts a reveal of a commitment that the
  generator made for a job and a lease, then it is for that job and that lease, the reveal is
  the one the generator gives, its shard order is a permutation of all shards and its canaries
  are distinct members of the pool, as many as committed; or the two commitment preimages are
  an explicit SHA-256 collision.
\<close>

theorem challenge_reveal_sound:
  assumes "challenge_commit secret i jd nc dl sc ps cc = Inr c" "challenge_reveal_new r = Inr r"
    and "challenge_check c r jd' nc' accepted b = Inr ()" and "from_hex (cr_seed r) = Some seed'"
    and "ctx = json_dumps True (context_primitive c jd nc)" "ctx' = json_dumps True (context_primitive c jd' nc')"
  shows "jd' = jd \<and> nc' = nc \<and> challenge_reveal_for secret c jd nc True b = Inr r
       \<and> mset (cr_shard_order r) = mset [0..<nat sc]
       \<and> distinct (cr_canary_indices r) \<and> set (cr_canary_indices r) \<subseteq> {0..<nat ps} \<and> length (cr_canary_indices r) = nat cc
     \<or> collide (commitment_domain @ ctx' @ seed') (commitment_domain @ ctx @ challenge_seed secret ctx)"
proof -
  note c = challenge_commit_Inr [OF assms(1,5)]
  obtain seed where seed: "length seed = 32" "build_reveal c seed = Inr r" "accepted" "in_range 0 max_int64 b"
    "b \<le> co_deadline_block c" "co_commitment_digest c = commitment_digest ctx' seed"
    using assms(3) by (auto simp: challenge_check_Inr [OF c(1) assms(2)] assms(6))
  have r: "r = \<lparr>cr_challenge_id = co_challenge_id c, cr_seed = to_hex seed,
      cr_shard_order = challenge_selection seed shard_domain (nat sc),
      cr_canary_indices = take (nat cc) (challenge_selection seed canary_domain (nat ps))\<rparr>"
    using seed(2) c(3-5) by (simp add: build_reveal_ok [OF c(1) seed(1)])
  then have s: "seed' = seed" using assms(4) by simp
  have "nat cc \<le> nat ps"
    using c(1,4,5) by (intro nat_mono) (simp add: challenge_commitment_new_def challenge_integer_def in_range_def)
  then have perm: "mset (cr_shard_order r) = mset [0..<nat sc]" "distinct (cr_canary_indices r)"
    "set (cr_canary_indices r) \<subseteq> {0..<nat ps}" "length (cr_canary_indices r) = nat cc"
    using set_take_subset [of "nat cc" "challenge_selection seed canary_domain (nat ps)"] by (simp_all add: r)
  have "sha256 (commitment_domain @ ctx' @ seed) = sha256 (commitment_domain @ ctx @ challenge_seed secret ctx)"
    using seed(6) c(8) by (simp add: commitment_digest_def)
  moreover have "jd' = jd \<and> nc' = nc \<and> challenge_reveal_for secret c jd nc True b = Inr r"
    if "ctx' @ seed = ctx @ challenge_seed secret ctx"
  proof -
    have same: "ctx' = ctx" "seed = challenge_seed secret ctx" using that seed(1) by (simp_all add: append_eq_append_conv)
    have "acceptance_window c True b = Inr ()" using seed(4,5) by simp
    moreover have "challenge_context c jd nc = Inr ctx" using c(6,7) by (simp add: challenge_context_ok assms(5))
    moreover have "build_reveal c (challenge_seed secret ctx) = Inr r" using seed(2) unfolding same .
    ultimately have "challenge_reveal_for secret c jd nc True b = Inr r"
      unfolding challenge_reveal_for_def using c(8) by simp
    moreover have "jd' = jd \<and> nc' = nc"
      using context_inject [OF c(1)] same(1) unfolding assms(5,6) by metis
    ultimately show ?thesis by blast
  qed
  ultimately show ?thesis using perm unfolding s collide_def by blast
qed

text \<open>A verifier, a commitment, and calls on it.\<close>

definition sample_challenge :: "challenge_error + challenge_commitment" where
  "sample_challenge = challenge_commit (replicate 32 7) (replicate 64 CHR ''a'') (digest_text (replicate 64 CHR ''b''))
     (replicate 64 CHR ''c'') 20 3 5 2"

definition sample_commitment :: challenge_commitment where
  "sample_commitment = (case sample_challenge of Inr c \<Rightarrow> c)"

lemma sample_challenge_ok: "sample_challenge = Inr sample_commitment"
proof -
  have zero: "is_digest (CHR ''s'' # CHR ''h'' # CHR ''a'' # CHR ''2'' # CHR ''5'' # CHR ''6'' # CHR '':'' # replicate 64 CHR ''0'')"
    by (simp add: is_digest_def)
  have "\<exists>c. sample_challenge = Inr c"
    by (simp add: sample_challenge_def challenge_commit_def challenge_commitment_new_def challenge_hex_def
        challenge_digest_def challenge_integer_def in_range_def max_items_def challenge_context_ok
        commitment_digest_def zero)
  then obtain c where c: "sample_challenge = Inr c" ..
  show ?thesis unfolding sample_commitment_def c by simp
qed

lemma sample_verifier: "challenge_verifier_new 2 = Inr \<lparr>cv_max_consumed = 2, cv_consumed = []\<rparr>"
  by (simp add: challenge_verifier_new_def challenge_integer_def in_range_def)

definition sample_call :: "challenge_reveal \<Rightarrow> challenge_call" where
  "sample_call r = \<lparr>cl_commitment = sample_commitment, cl_reveal = r, cl_job_digest = digest_text (replicate 64 CHR ''b''),
     cl_lease_nonce = replicate 64 CHR ''c'', cl_accepted = True, cl_current_block = 11\<rparr>"

lemma sample_reveal_ok:
  "\<exists>r. challenge_reveal_new r = Inr r \<and> challenge_step \<lparr>cv_max_consumed = 2, cv_consumed = []\<rparr> (sample_call r)
     = (\<lparr>cv_max_consumed = 2, cv_consumed = [co_commitment_digest sample_commitment]\<rparr>, Inr ())"
  using challenge_honest [OF sample_challenge_ok [unfolded sample_challenge_def], of 11 "\<lparr>cv_max_consumed = 2, cv_consumed = []\<rparr>"]
  by (auto simp: in_range_def challenge_step_def sample_call_def)

theorem challenge_consumed_once_witness:
  "\<exists>r. fired (challenge_accepted (co_commitment_digest sample_commitment)) challenge_step
     \<lparr>cv_max_consumed = 2, cv_consumed = []\<rparr> [sample_call r, sample_call r] = 1"
proof -
  obtain r where "challenge_step \<lparr>cv_max_consumed = 2, cv_consumed = []\<rparr> (sample_call r)
     = (\<lparr>cv_max_consumed = 2, cv_consumed = [co_commitment_digest sample_commitment]\<rparr>, Inr ())"
    using sample_reveal_ok by blast
  then have "challenge_consumed (co_commitment_digest sample_commitment)
      (run challenge_step \<lparr>cv_max_consumed = 2, cv_consumed = []\<rparr> [sample_call r, sample_call r])"
    using challenge_consumption.spent_stays
      [of "\<lparr>cv_max_consumed = 2, cv_consumed = [co_commitment_digest sample_commitment]\<rparr>" _ "sample_call r"]
    by (simp add: challenge_inv_def challenge_consumed_def)
  then show ?thesis
    using challenge_consumed_once [OF sample_verifier, of "co_commitment_digest sample_commitment" "[sample_call r, sample_call r]"]
    by (intro exI [of _ r]) presburger
qed

theorem challenge_honest_reveal_witness:
  "\<exists>r. challenge_reveal_for (replicate 32 7) sample_commitment (digest_text (replicate 64 CHR ''b'')) (replicate 64 CHR ''c'')
     True 11 = Inr r"
  using challenge_honest_reveal [OF sample_challenge_ok [unfolded sample_challenge_def], of 11
      "\<lparr>cv_max_consumed = 2, cv_consumed = []\<rparr>"]
  by (auto simp: in_range_def)

theorem challenge_reveal_sound_witness:
  "\<exists>r seed ctx. length seed = 32 \<and> challenge_reveal_new r = Inr r
     \<and> (mset (cr_shard_order r) = mset [0..<3] \<and> length (cr_canary_indices r) = 2
        \<or> collide (commitment_domain @ ctx @ seed) (commitment_domain @ ctx @ challenge_seed (replicate 32 7) ctx))"
proof -
  obtain r where r: "challenge_reveal_new r = Inr r" "snd (challenge_step \<lparr>cv_max_consumed = 2, cv_consumed = []\<rparr> (sample_call r)) = Inr ()"
    using sample_reveal_ok by force
  then have check: "challenge_check sample_commitment r (digest_text (replicate 64 CHR ''b'')) (replicate 64 CHR ''c'') True 11 = Inr ()"
    by (auto simp: challenge_step_def sample_call_def verify_and_consume_def split: sum.splits)
  have "is_hex64 (cr_seed r)" using r(1) by (simp add: challenge_reveal_new_def challenge_hex_def)
  then obtain seed where seed: "from_hex (cr_seed r) = Some seed" "length seed = 32" using hex_seed by metis
  from challenge_reveal_sound [OF sample_challenge_ok [unfolded sample_challenge_def] r(1) check seed(1) refl refl] seed(2) r(1)
  show ?thesis by (simp only: nat_numeral) blast
qed

end
