(* ===== verification/Merkle.thy ===== *)
theory Merkle
  imports Checks
begin

text \<open>
  The checkpoint commitment of \<open>src/gpuforge/correctness.py\<close>: \<open>CheckpointLeaf\<close> and
  \<open>checkpoint_merkle_root\<close>, with the pattern of tensor names.
\<close>

section \<open>Leaves\<close>

datatype correctness_error =
    Correctness_Invalid | Identity_Mismatch | Stale_Checkpoint | Checkpoint_Mismatch | Missing_Probe
  | Unexpected_Probe | Numeric_Mismatch | Counter_Overflow | Zip_Mismatch | Zero_Division

definition correctness_digest :: "string \<Rightarrow> correctness_error + unit" where
  "correctness_digest s = require (is_digest s) Correctness_Invalid"

text \<open>\<open>value.split("/")\<close>\<close>

fun split_slash :: "string \<Rightarrow> string list" where
  "split_slash [] = [[]]"
| "split_slash (c # cs) =
     (if c = CHR ''/'' then [] # split_slash cs
      else case split_slash cs of [] \<Rightarrow> [[c]] | p # ps \<Rightarrow> (c # p) # ps)"

text \<open>\<open>[A-Za-z0-9][A-Za-z0-9_.:/-]{0,127}\<close>, no leading \<open>/\<close> or \<open>.\<close>, no component \<open>..\<close>, no backslash.\<close>

definition is_tensor_name :: "string \<Rightarrow> bool" where
  "is_tensor_name s \<longleftrightarrow>
     match_head is_alnum
       (\<lambda>c. is_alnum c \<or> c = CHR ''_'' \<or> c = CHR ''.'' \<or> c = CHR '':'' \<or> c = CHR ''/'' \<or> c = CHR ''-'') 127 s
   \<and> \<not> (take 1 s = ''/'' \<or> take 1 s = ''.'' \<or> ''..'' \<in> set (split_slash s) \<or> CHR 0x5C \<in> set s)"

definition tensor_name :: "string \<Rightarrow> correctness_error + unit" where
  "tensor_name s = require (is_tensor_name s) Correctness_Invalid"

record checkpoint_leaf =
  lf_name :: string
  lf_digest :: string

definition checkpoint_leaf_new :: "checkpoint_leaf \<Rightarrow> correctness_error + checkpoint_leaf" where
  "checkpoint_leaf_new l = passes [tensor_name (lf_name l), correctness_digest (lf_digest l)] l"

section \<open>The root\<close>

definition leaf_domain :: bytes where
  "leaf_domain = utf8_encode ''gpuforge/checkpoint/leaf/v1'' @ [0]"

definition node_domain :: bytes where
  "node_domain = utf8_encode ''gpuforge/checkpoint/node/v1'' @ [0]"

text \<open>\<open>bytes.fromhex\<close> does not fail on a digest its constructor accepted.\<close>

definition leaf_bytes :: "checkpoint_leaf \<Rightarrow> bytes" where
  "leaf_bytes l = leaf_domain @ be_bytes 2 (length (utf8_encode (lf_name l))) @ utf8_encode (lf_name l)
     @ (case from_hex (drop 7 (lf_digest l)) of Some d \<Rightarrow> d | None \<Rightarrow> [])"

definition node_bytes :: "bytes \<Rightarrow> bytes \<Rightarrow> bytes" where
  "node_bytes a b = node_domain @ a @ b"

text \<open>One round of the loop: an odd level repeats its last element, then neighbours are hashed.\<close>

fun pair_up :: "bytes list \<Rightarrow> bytes list" where
  "pair_up (a # b # cs) = sha256 (node_bytes a b) # pair_up cs"
| "pair_up _ = []"

definition padded :: "bytes list \<Rightarrow> bytes list" where
  "padded level = (if odd (length level) then level @ [List.last level] else level)"

definition next_level :: "bytes list \<Rightarrow> bytes list" where
  "next_level level = pair_up (padded level)"

lemma length_pair_up: "length (pair_up level) = length level div 2"
  by (induction level rule: pair_up.induct) auto

lemma length_padded: "length (padded level) = 2 * ((length level + 1) div 2)"
  by (auto simp: padded_def elim: oddE evenE)

lemma length_next_level [simp]: "length (next_level level) = (length level + 1) div 2"
  by (simp add: next_level_def length_pair_up length_padded)

function merkle_root :: "bytes list \<Rightarrow> bytes" where
  "merkle_root level = (if length level > 1 then merkle_root (next_level level) else hd level)"
  by pat_completeness auto
termination
  by (relation "measure length") (auto simp: less_eq_Suc_le)

declare merkle_root.simps [simp del]

definition checkpoint_merkle_root :: "checkpoint_leaf list \<Rightarrow> correctness_error + string" where
  "checkpoint_merkle_root leaves =
     (if \<not> (1 \<le> length leaves \<and> int (length leaves) \<le> 65536) then Inl Correctness_Invalid
      else
        (let ordered = sort_key lf_name leaves in
         if length (remdups (map lf_name ordered)) \<noteq> length ordered then Inl Correctness_Invalid
         else Inr (digest_text (to_hex (merkle_root (map (sha256 \<circ> leaf_bytes) ordered))))))"

section \<open>What the root commits to\<close>

text \<open>The preimages hashed above a level.\<close>

fun pair_bytes :: "bytes list \<Rightarrow> bytes list" where
  "pair_bytes (a # b # cs) = node_bytes a b # pair_bytes cs"
| "pair_bytes _ = []"

function node_preimages :: "bytes list \<Rightarrow> bytes list" where
  "node_preimages level =
     (if length level > 1 then pair_bytes (padded level) @ node_preimages (next_level level) else [])"
  by pat_completeness auto
termination
  by (relation "measure length") (auto simp: less_eq_Suc_le)

declare node_preimages.simps [simp del]

lemma pair_up_map: "pair_up level = map sha256 (pair_bytes level)"
  by (induction level rule: pair_up.induct) auto

lemma length_pair_bytes [simp]: "length (pair_bytes level) = length level div 2"
  by (induction level rule: pair_bytes.induct) auto

lemma pair_bytes_nth:
  "2 * j + 1 < length level \<Longrightarrow> pair_bytes level ! j = node_bytes (level ! (2 * j)) (level ! (2 * j + 1))"
proof (induction level arbitrary: j rule: pair_bytes.induct)
  case (1 a b cs)
  then show ?case by (cases j) auto
qed auto

lemma padded_nth:
  assumes "k < length (padded level)" "level \<noteq> []"
  shows "padded level ! k = level ! min k (length level - 1)"
proof (cases "k < length level")
  case True
  then have "min k (length level - 1) = k" by simp
  with True show ?thesis by (simp add: padded_def nth_append)
next
  case False
  then have "odd (length level)" "k = length level" using assms(1) by (auto simp: padded_def split: if_splits)
  then show ?thesis using assms(2) by (simp add: padded_def last_conv_nth)
qed

lemma set_padded [simp]: "set (padded level) = set level"
  by (cases level) (auto simp: padded_def)

lemma node_bytes_inject:
  "length a = 32 \<Longrightarrow> length b = 32 \<Longrightarrow> length c = 32 \<Longrightarrow> length d = 32 \<Longrightarrow>
     node_bytes a b = node_bytes c d \<longleftrightarrow> a = c \<and> b = d"
  by (simp add: node_bytes_def append_eq_append_conv)

lemma next_level_nth: "j < length (next_level level) \<Longrightarrow> next_level level ! j = sha256 (pair_bytes (padded level) ! j)"
  by (simp add: next_level_def pair_up_map length_pair_up)

lemma pair_bytes_in: "1 < length level \<Longrightarrow> p \<in> set (pair_bytes (padded level)) \<Longrightarrow> p \<in> set (node_preimages level)"
  by (simp add: node_preimages.simps [of level])

lemma next_preimages: "1 < length level \<Longrightarrow> set (node_preimages (next_level level)) \<subseteq> set (node_preimages level)"
  by (subst (2) node_preimages.simps) auto

lemma next_level_in: "x \<in> set (next_level level) \<Longrightarrow> \<exists>p \<in> set (pair_bytes (padded level)). x = sha256 p"
  by (auto simp: next_level_def pair_up_map)

lemma pair_bytes_parts:
  "p \<in> set (pair_bytes level) \<Longrightarrow> \<exists>a b. p = node_bytes a b \<and> a \<in> set level \<and> b \<in> set level"
  by (induction level rule: pair_bytes.induct) auto

lemma merkle_root_preimage:
  "1 < length level \<Longrightarrow> \<exists>q \<in> set (node_preimages level). merkle_root level = sha256 q"
proof (induction level rule: merkle_root.induct)
  case (1 level)
  show ?case
  proof (cases "1 < length (next_level level)")
    case True
    then show ?thesis
      using 1 next_preimages [of level] by (subst merkle_root.simps) auto
  next
    case False
    then have "length (next_level level) = Suc 0" using 1(2) by auto
    then obtain x where x: "next_level level = [x]" by (auto simp only: length_Suc_conv length_0_conv)
    then obtain p where "p \<in> set (pair_bytes (padded level))" "x = sha256 p" using next_level_in [of x level] by auto
    moreover have "merkle_root level = x" using 1(2) x by (simp add: merkle_root.simps)
    ultimately show ?thesis using pair_bytes_in 1(2) by blast
  qed
qed

lemma node_preimages_parts:
  "\<forall>x \<in> set level. length x = 32 \<Longrightarrow> q \<in> set (node_preimages level) \<Longrightarrow>
     \<exists>c d. q = node_bytes c d \<and> length c = 32 \<and> length d = 32
       \<and> (c \<in> set level \<or> (\<exists>q' \<in> set (node_preimages level). c = sha256 q'))"
proof (induction level rule: node_preimages.induct)
  case (1 level)
  then have len: "1 < length level" by (auto simp: node_preimages.simps [of level] split: if_splits)
  with 1 consider "q \<in> set (pair_bytes (padded level))" | "q \<in> set (node_preimages (next_level level))"
    by (auto simp: node_preimages.simps [of level])
  then show ?case
  proof cases
    case 1
    with pair_bytes_parts "1.prems" show ?thesis by fastforce
  next
    case 2
    have "\<forall>x \<in> set (next_level level). length x = 32" using next_level_in by fastforce
    with "1.IH" [OF len] 2 obtain c d where q: "q = node_bytes c d" "length c = 32" "length d = 32"
      "c \<in> set (next_level level) \<or> (\<exists>q' \<in> set (node_preimages (next_level level)). c = sha256 q')" by blast
    then have "\<exists>q' \<in> set (node_preimages level). c = sha256 q'"
      using next_level_in [of c level] pair_bytes_in [OF len] next_preimages [OF len] by blast
    with q show ?thesis by blast
  qed
qed

definition no_collision :: "bytes list \<Rightarrow> bytes list \<Rightarrow> bool" where
  "no_collision ps qs \<longleftrightarrow> (\<forall>p \<in> set ps. \<forall>q \<in> set qs. \<not> collide p q)"

definition apart :: "bytes list \<Rightarrow> bytes list \<Rightarrow> bool" where
  "apart level qs \<longleftrightarrow> (\<forall>x \<in> set level. \<forall>q \<in> set qs. x \<noteq> sha256 q)"

lemma apart_next:
  assumes "1 < length l" "1 < length m" "\<forall>x \<in> set l \<union> set m. length x = 32"
    and "no_collision (node_preimages l) (node_preimages m)" "apart l (node_preimages m)"
  shows "apart (next_level l) (node_preimages (next_level m))"
proof -
  have False if x: "x \<in> set (next_level l)" "q \<in> set (node_preimages (next_level m))" "x = sha256 q" for x q
  proof -
    obtain p where p: "p \<in> set (pair_bytes (padded l))" "x = sha256 p" using next_level_in [OF x(1)] by blast
    have q: "q \<in> set (node_preimages m)" using next_preimages [OF assms(2)] x(2) by blast
    have "p = q"
      using assms(4) pair_bytes_in [OF assms(1) p(1)] q p(2) x(3) unfolding no_collision_def collide_def by metis
    moreover obtain a b where a: "p = node_bytes a b" "a \<in> set l" "b \<in> set l" using pair_bytes_parts [OF p(1)] by auto
    moreover have "\<forall>x \<in> set (next_level m). length x = 32" using next_level_in by fastforce
    with node_preimages_parts x(2) obtain c d where c: "q = node_bytes c d" "length c = 32" "length d = 32"
      "c \<in> set (next_level m) \<or> (\<exists>q' \<in> set (node_preimages (next_level m)). c = sha256 q')" by blast
    ultimately have "a = c" using assms(3) node_bytes_inject [of a b c d] by simp
    moreover have "\<exists>q' \<in> set (node_preimages m). c = sha256 q'"
      using c(4) next_level_in [of c m] pair_bytes_in [OF assms(2)] next_preimages [OF assms(2)] by blast
    ultimately show False using assms(5) a(2) by (auto simp: apart_def)
  qed
  then show ?thesis by (auto simp: apart_def)
qed

lemma no_collision_sym: "no_collision ps qs \<Longrightarrow> no_collision qs ps"
  unfolding no_collision_def collide_def by metis

text \<open>
  Two levels with the same root agree, up to the repetition of last elements: position \<open>j\<close> of the
  longer is position \<open>g j\<close> of the shorter.
\<close>

lemma merkle_agree:
  "length l \<le> length m \<Longrightarrow> l \<noteq> [] \<Longrightarrow> \<forall>x \<in> set l \<union> set m. length x = 32 \<Longrightarrow>
   no_collision (node_preimages l) (node_preimages m) \<Longrightarrow>
   apart l (node_preimages m) \<Longrightarrow> apart m (node_preimages l) \<Longrightarrow> merkle_root l = merkle_root m \<Longrightarrow>
     \<exists>g. \<forall>j < length m. g j < length l \<and> m ! j = l ! g j \<and> (j < length l \<longrightarrow> g j = j)"
proof (induction l arbitrary: m rule: merkle_root.induct)
  case (1 l)
  note prems = "1.prems"
  show ?case
  proof (cases "1 < length l")
    case False
    then have l: "length l = 1" using prems(2) by (cases l) auto
    have "length m = 1"
    proof (rule ccontr)
      assume "length m \<noteq> 1"
      with prems(1) l have "1 < length m" by simp
      from merkle_root_preimage [OF this] obtain q where "q \<in> set (node_preimages m)" "merkle_root m = sha256 q" by blast
      moreover have "merkle_root l = hd l" "hd l \<in> set l" using l prems(2) by (simp_all add: merkle_root.simps)
      ultimately show False using prems(5,7) by (auto simp: apart_def)
    qed
    with l prems(7) have "m = l" by (auto simp: merkle_root.simps length_Suc_conv)
    then show ?thesis by auto
  next
    case True
    then have m: "1 < length m" using prems(1) by simp
    have "\<exists>g. \<forall>j < length (next_level m). g j < length (next_level l) \<and> next_level m ! j = next_level l ! g j
        \<and> (j < length (next_level l) \<longrightarrow> g j = j)"
    proof (rule "1.IH" [OF True])
      show "length (next_level l) \<le> length (next_level m)" using prems(1) by simp
      show "next_level l \<noteq> []" using True by (auto simp: length_0_conv [symmetric] simp del: length_0_conv)
      show "\<forall>x \<in> set (next_level l) \<union> set (next_level m). length x = 32" using next_level_in by fastforce
      show "no_collision (node_preimages (next_level l)) (node_preimages (next_level m))"
        using prems(4) next_preimages [OF True] next_preimages [OF m] by (fastforce simp: no_collision_def)
      show "apart (next_level l) (node_preimages (next_level m))"
        by (rule apart_next [OF True m prems(3-5)])
      show "apart (next_level m) (node_preimages (next_level l))"
        using apart_next [OF m True _ no_collision_sym [OF prems(4)] prems(6)] prems(3) by blast
      show "merkle_root (next_level l) = merkle_root (next_level m)"
        using prems(7) True m merkle_root.simps [of l] merkle_root.simps [of m] by simp
    qed
    then obtain g where g: "\<And>j. j < length (next_level m) \<Longrightarrow> g j < length (next_level l)
        \<and> next_level m ! j = next_level l ! g j \<and> (j < length (next_level l) \<longrightarrow> g j = j)" by blast
    define h where "h i = min (2 * g (i div 2) + i mod 2) (length l - 1)" for i
    have "h i < length l \<and> m ! i = l ! h i \<and> (i < length l \<longrightarrow> h i = i)" if i: "i < length m" for i
    proof -
      define j where "j = i div 2"
      have j: "j < length (next_level m)" using i by (auto simp: j_def)
      note gj = g [OF j]
      have len: "j < length (pair_bytes (padded m))" "g j < length (pair_bytes (padded l))"
        using j gj by (simp_all add: length_padded)
      have "sha256 (pair_bytes (padded m) ! j) = sha256 (pair_bytes (padded l) ! g j)"
        using gj next_level_nth [OF j] next_level_nth [of "g j" l] by simp
      then have "pair_bytes (padded m) ! j = pair_bytes (padded l) ! g j"
        using prems(4) pair_bytes_in [OF True nth_mem [OF len(2)]] pair_bytes_in [OF m nth_mem [OF len(1)]]
        unfolding no_collision_def collide_def by metis
      moreover have lt: "2 * j + 1 < length (padded m)" "2 * g j + 1 < length (padded l)"
        using len by simp_all
      ultimately have "node_bytes (padded m ! (2 * j)) (padded m ! (2 * j + 1))
          = node_bytes (padded l ! (2 * g j)) (padded l ! (2 * g j + 1))"
        by (simp only: pair_bytes_nth)
      moreover have "length (padded k ! n) = 32" if "n < length (padded k)" "\<forall>x \<in> set k. length x = 32" for k n
        using that nth_mem [OF that(1)] by simp
      ultimately have parts: "padded m ! (2 * j) = padded l ! (2 * g j)" "padded m ! (2 * j + 1) = padded l ! (2 * g j + 1)"
        using prems(3) lt by (simp_all add: node_bytes_inject)
      have "padded m ! i = padded l ! (2 * g j + i mod 2)"
        using parts by (cases "even i") (auto simp: j_def elim: evenE oddE)
      moreover have "2 * g j + i mod 2 < length (padded l)" using lt(2) by (cases "even i") auto
      moreover have "padded m ! i = m ! i" using i by (simp add: padded_def nth_append)
      ultimately have "m ! i = l ! h i" using prems(2) by (simp add: padded_nth h_def j_def)
      moreover have "h i < length l" using True by (simp add: h_def min_def) linarith
      moreover have "h i = i" if "i < length l"
      proof -
        have "j < length (next_level l)" using that by (auto simp: j_def)
        then have "g j = j" using gj by blast
        then show ?thesis using that by (simp add: h_def j_def)
      qed
      ultimately show ?thesis by blast
    qed
    then show ?thesis by blast
  qed
qed


section \<open>Properties\<close>

definition checkpoint_preimages :: "checkpoint_leaf list \<Rightarrow> bytes list" where
  "checkpoint_preimages leaves =
     (let ordered = sort_key lf_name leaves
      in map leaf_bytes ordered @ node_preimages (map (sha256 \<circ> leaf_bytes) ordered))"

lemma leaf_valid:
  assumes "checkpoint_leaf_new l = Inr l"
  obtains d where "leaf_bytes l = leaf_domain @ be_bytes 2 (length (utf8_encode (lf_name l))) @ utf8_encode (lf_name l) @ d"
    "length d = 32" "lf_digest l = ''sha256:'' @ to_hex d" "length (utf8_encode (lf_name l)) < 256 ^ 2"
proof -
  have l: "is_tensor_name (lf_name l)" "is_digest (lf_digest l)"
    using assms by (simp_all add: checkpoint_leaf_new_def tensor_name_def correctness_digest_def)
  have "is_hex64 (drop 7 (lf_digest l))" using is_digest_hex64 [OF l(2)] by (simp add: digest_hex_def)
  then have "list_all is_lower_hex (drop 7 (lf_digest l))" "length (drop 7 (lf_digest l)) = 2 * 32"
    by (simp_all add: is_hex64_def match_class_def)
  from from_hex_lower [OF this] obtain d where d: "from_hex (drop 7 (lf_digest l)) = Some d" "length d = 32"
    "drop 7 (lf_digest l) = to_hex d" .
  have "lf_digest l = ''sha256:'' @ drop 7 (lf_digest l)"
    using is_digest_text_hex [OF l(2)] by (simp add: digest_text_def digest_hex_def)
  then have digest: "lf_digest l = ''sha256:'' @ to_hex d" using d(3) by metis
  have plain: "is_plain (lf_name l) \<and> 1 \<le> length (lf_name l) \<and> length (lf_name l) \<le> Suc 127"
    using l(1) unfolding is_tensor_name_def
    by (intro match_head_plain [where P = is_alnum and Q = "\<lambda>c. is_alnum c \<or> c = CHR ''_'' \<or> c = CHR ''.'' \<or> c = CHR '':'' \<or> c = CHR ''/'' \<or> c = CHR ''-''"])
      (auto simp: is_plain_char_classes, simp add: is_plain_char_def less_eq_char_def)
  then have "length (utf8_encode (lf_name l)) < 256 ^ 2" by (simp add: is_plain_ascii)
  with digest d show ?thesis by (intro that [of d]) (simp_all add: leaf_bytes_def)
qed

lemma leaf_bytes_inject:
  assumes "checkpoint_leaf_new l = Inr l" "checkpoint_leaf_new m = Inr m"
  shows "leaf_bytes l = leaf_bytes m \<longleftrightarrow> l = m"
proof
  obtain d where d: "leaf_bytes l = leaf_domain @ be_bytes 2 (length (utf8_encode (lf_name l))) @ utf8_encode (lf_name l) @ d"
    "lf_digest l = ''sha256:'' @ to_hex d" "length (utf8_encode (lf_name l)) < 256 ^ 2"
    using leaf_valid [OF assms(1)] .
  obtain e where e: "leaf_bytes m = leaf_domain @ be_bytes 2 (length (utf8_encode (lf_name m))) @ utf8_encode (lf_name m) @ e"
    "lf_digest m = ''sha256:'' @ to_hex e" "length (utf8_encode (lf_name m)) < 256 ^ 2"
    using leaf_valid [OF assms(2)] .
  assume "leaf_bytes l = leaf_bytes m"
  then have "be_bytes 2 (length (utf8_encode (lf_name l))) = be_bytes 2 (length (utf8_encode (lf_name m)))"
    and rest: "utf8_encode (lf_name l) @ d = utf8_encode (lf_name m) @ e"
    unfolding d(1) e(1) by (simp_all add: append_eq_append_conv)
  then have "length (utf8_encode (lf_name l)) = length (utf8_encode (lf_name m))"
    using d(3) e(3) by (simp add: be_bytes_inject)
  with rest have "lf_name l = lf_name m" "d = e" by (simp_all add: append_eq_append_conv)
  then show "l = m" using d(2) e(2) by (cases l; cases m) simp
qed simp

lemma leaf_node_differ: "checkpoint_leaf_new l = Inr l \<Longrightarrow> leaf_bytes l \<noteq> node_bytes a b"
proof
  assume eq: "leaf_bytes l = node_bytes a b"
  have len: "length leaf_domain = length node_domain" "leaf_domain \<noteq> node_domain"
    by (simp_all add: leaf_domain_def node_domain_def is_ascii_def)
  have "take (length leaf_domain) (leaf_bytes l) = leaf_domain" by (simp add: leaf_bytes_def)
  moreover have "take (length leaf_domain) (node_bytes a b) = node_domain" by (simp add: node_bytes_def len(1))
  ultimately show False using eq len(2) by simp
qed

lemma checkpoint_root_Inr:
  "checkpoint_merkle_root leaves = Inr r \<longleftrightarrow> leaves \<noteq> [] \<and> int (length leaves) \<le> 65536 \<and> distinct (map lf_name leaves)
     \<and> r = digest_text (to_hex (merkle_root (map (sha256 \<circ> leaf_bytes) (sort_key lf_name leaves))))"
proof -
  have "length (remdups (map lf_name (sort_key lf_name leaves))) = length (sort_key lf_name leaves)
      \<longleftrightarrow> distinct (map lf_name (sort_key lf_name leaves))"
    by (metis length_map length_remdups_eq distinct_remdups remdups_id_iff_distinct)
  also have "\<dots> \<longleftrightarrow> distinct (map lf_name leaves)"
    by (intro mset_eq_imp_distinct_iff) simp
  finally show ?thesis by (cases leaves) (auto simp: checkpoint_merkle_root_def Let_def)
qed


text \<open>Without a collision, lists of valid leaves with one root are the same list, whatever their lengths.\<close>

lemma merkle_leaves_agree:
  assumes "\<forall>l \<in> set ls \<union> set ms. checkpoint_leaf_new l = Inr l" "ls \<noteq> []" "length ls \<le> length ms"
    and "distinct (map lf_name ms)"
    and "no_collision (map leaf_bytes ls @ node_preimages (map (sha256 \<circ> leaf_bytes) ls))
           (map leaf_bytes ms @ node_preimages (map (sha256 \<circ> leaf_bytes) ms))"
    and "merkle_root (map (sha256 \<circ> leaf_bytes) ls) = merkle_root (map (sha256 \<circ> leaf_bytes) ms)"
  shows "ls = ms"
proof -
  let ?h = "map (sha256 \<circ> leaf_bytes)"
  have nodes: "\<exists>c d. q = node_bytes c d" if "q \<in> set (node_preimages (?h ks))" for q ks
    using node_preimages_parts [of "?h ks" q] that by auto
  have apart: "apart (?h ks) (node_preimages (?h ns))"
    if "no_collision (map leaf_bytes ks) (node_preimages (?h ns))" "\<forall>l \<in> set ks. checkpoint_leaf_new l = Inr l" for ks ns
    unfolding apart_def
  proof (intro ballI notI)
    fix x q
    assume "x \<in> set (?h ks)" "q \<in> set (node_preimages (?h ns))" "x = sha256 q"
    then obtain l where "l \<in> set ks" "sha256 (leaf_bytes l) = sha256 q" by auto
    with that \<open>q \<in> _\<close> have "leaf_bytes l = q" by (auto simp: no_collision_def collide_def)
    with that(2) \<open>l \<in> set ks\<close> nodes [OF \<open>q \<in> _\<close>] leaf_node_differ show False by blast
  qed
  have "\<exists>g. \<forall>j < length (?h ms). g j < length (?h ls) \<and> ?h ms ! j = ?h ls ! g j \<and> (j < length (?h ls) \<longrightarrow> g j = j)"
  proof (rule merkle_agree)
    show "no_collision (node_preimages (?h ls)) (node_preimages (?h ms))"
      using assms(5) by (auto simp: no_collision_def)
    show "apart (?h ls) (node_preimages (?h ms))"
      using assms(1,5) by (intro apart) (auto simp: no_collision_def)
    show "apart (?h ms) (node_preimages (?h ls))"
      using assms(1) no_collision_sym [OF assms(5)] by (intro apart) (auto simp: no_collision_def)
  qed (use assms(2,3,6) in auto)
  then obtain g where raw: "\<forall>j < length (?h ms). g j < length (?h ls) \<and> ?h ms ! j = ?h ls ! g j \<and> (j < length (?h ls) \<longrightarrow> g j = j)" ..
  have g: "g j < length ls \<and> sha256 (leaf_bytes (ms ! j)) = sha256 (leaf_bytes (ls ! g j)) \<and> (j < length ls \<longrightarrow> g j = j)"
    if "j < length ms" for j
    using raw that by (metis comp_apply length_map nth_map)
  have same: "ms ! j = ls ! g j" if j: "j < length ms" for j
  proof -
    have "leaf_bytes (ls ! g j) = leaf_bytes (ms ! j)"
    proof (rule ccontr)
      assume "leaf_bytes (ls ! g j) \<noteq> leaf_bytes (ms ! j)"
      then have "collide (leaf_bytes (ls ! g j)) (leaf_bytes (ms ! j))" using g [OF j] by (simp add: collide_def)
      then show False using assms(5) g [OF j] j by (simp add: no_collision_def)
    qed
    then show ?thesis using leaf_bytes_inject [of "ls ! g j" "ms ! j"] assms(1) g [OF j] j by simp
  qed
  have "length ms = length ls"
  proof (rule ccontr)
    assume "length ms \<noteq> length ls"
    then have lt: "length ls < length ms" using assms(3) by simp
    have "g (length ls) < length ls" using g [OF lt] by simp
    then have "ms ! g (length ls) = ms ! length ls" using same [of "g (length ls)"] same [OF lt] g [of "g (length ls)"] lt by simp
    then have "map lf_name ms ! g (length ls) = map lf_name ms ! length ls"
      using lt \<open>g (length ls) < length ls\<close> by simp
    then have "g (length ls) = length ls"
      using nth_eq_iff_index_eq [OF assms(4)] lt \<open>g (length ls) < length ls\<close> by simp
    then show False using \<open>g (length ls) < length ls\<close> by simp
  qed
  then show ?thesis using same g by (intro nth_equalityI) auto
qed

lemma sort_key_empty: "sort_key f xs = [] \<longleftrightarrow> xs = []"
  by (metis length_0_conv length_sort)

lemma distinct_names: "distinct (map f (sort_key g xs)) \<longleftrightarrow> distinct (map f xs)"
  by (rule mset_eq_imp_distinct_iff) simp

text \<open>
  C13: a checkpoint root commits to the leaves.  Two sets of valid leaves with distinct names
  have the same root exactly when they are the same set, however many leaves each has, or two
  of the byte strings hashed for them are an explicit SHA-256 collision.
\<close>

theorem checkpoint_root_binding:
  assumes "\<forall>l \<in> set ls \<union> set ms. checkpoint_leaf_new l = Inr l"
    and "checkpoint_merkle_root ls = Inr r" "checkpoint_merkle_root ms = Inr s"
  shows "(r = s \<longleftrightarrow> set ls = set ms)
     \<or> (\<exists>p \<in> set (checkpoint_preimages ls). \<exists>q \<in> set (checkpoint_preimages ms). collide p q)"
proof (rule disjCI)
  assume "\<not> (\<exists>p \<in> set (checkpoint_preimages ls). \<exists>q \<in> set (checkpoint_preimages ms). collide p q)"
  then have noc: "no_collision (checkpoint_preimages ls) (checkpoint_preimages ms)" by (auto simp: no_collision_def)
  let ?s = "sort_key lf_name"
  have ls: "ls \<noteq> []" "distinct (map lf_name ls)" and ms: "ms \<noteq> []" "distinct (map lf_name ms)"
    using assms(2,3) by (simp_all add: checkpoint_root_Inr)
  then have sorted: "?s ls \<noteq> []" "?s ms \<noteq> []" "distinct (map lf_name (?s ls))" "distinct (map lf_name (?s ms))"
    unfolding sort_key_empty distinct_names by simp_all
  have root: "r = s \<longleftrightarrow> merkle_root (map (sha256 \<circ> leaf_bytes) (?s ls)) = merkle_root (map (sha256 \<circ> leaf_bytes) (?s ms))"
    using assms(2,3) by (simp add: checkpoint_root_Inr)
  show "r = s \<longleftrightarrow> set ls = set ms"
  proof
    assume "r = s"
    then have eq: "merkle_root (map (sha256 \<circ> leaf_bytes) (?s ls)) = merkle_root (map (sha256 \<circ> leaf_bytes) (?s ms))"
      using root by blast
    have "?s ls = ?s ms"
    proof (cases "length (?s ls) \<le> length (?s ms)")
      case True
      then show ?thesis
        using merkle_leaves_agree [of "?s ls" "?s ms"] assms(1) sorted noc eq
        by (simp add: checkpoint_preimages_def Let_def)
    next
      case False
      then show ?thesis
        using merkle_leaves_agree [of "?s ms" "?s ls"] assms(1) sorted no_collision_sym [OF noc] eq
        by (simp add: checkpoint_preimages_def Let_def Un_commute)
    qed
    then show "set ls = set ms" by (metis set_sort)
  next
    assume set: "set ls = set ms"
    have "distinct ls" "distinct ms" using ls(2) ms(2) by (simp_all add: distinct_map)
    with set have "mset ls = mset ms" by (simp add: set_eq_iff_mset_eq_distinct)
    moreover have "inj_on lf_name (set ls)" using ls(2) by (simp add: distinct_map)
    ultimately have "?s ls = ?s ms" by (rule sort_key_eq_sort_key)
    then show "r = s" using root by simp
  qed
qed

definition sample_leaf :: "string \<Rightarrow> checkpoint_leaf" where
  "sample_leaf n = \<lparr>lf_name = n, lf_digest = sha256_id (utf8_encode n)\<rparr>"

lemma sample_leaf_ok: "n \<in> set [''a'', ''b'', ''c'', ''d''] \<Longrightarrow> checkpoint_leaf_new (sample_leaf n) = Inr (sample_leaf n)"
  by (auto simp: sample_leaf_def checkpoint_leaf_new_def tensor_name_def correctness_digest_def is_tensor_name_def char_class_defs)

theorem checkpoint_root_binding_witness:
  "\<exists>r s. checkpoint_merkle_root (map sample_leaf [''a'', ''b'', ''c'']) = Inr r
     \<and> checkpoint_merkle_root (map sample_leaf [''a'', ''b'', ''c'', ''d'']) = Inr s
     \<and> ((r = s) = False \<or> (\<exists>p q. p \<in> set (checkpoint_preimages (map sample_leaf [''a'', ''b'', ''c'']))
           \<and> q \<in> set (checkpoint_preimages (map sample_leaf [''a'', ''b'', ''c'', ''d''])) \<and> collide p q))"
proof -
  let ?l = "map sample_leaf [''a'', ''b'', ''c'']" and ?m = "map sample_leaf [''a'', ''b'', ''c'', ''d'']"
  obtain r s where rs: "checkpoint_merkle_root ?l = Inr r" "checkpoint_merkle_root ?m = Inr s"
    by (simp add: checkpoint_root_Inr sample_leaf_def)
  have "sample_leaf ''d'' \<in> set ?m" "sample_leaf ''d'' \<notin> set ?l" by (simp_all add: sample_leaf_def)
  moreover have "\<forall>l \<in> set ?l \<union> set ?m. checkpoint_leaf_new l = Inr l" using sample_leaf_ok by simp
  ultimately show ?thesis using checkpoint_root_binding [OF _ rs] rs by blast
qed

end
