(* ===== verification/Decimals.thy ===== *)
theory Decimals
  imports Complex_Main Merkle
begin

text \<open>
  Python's \<open>decimal\<close> numbers as \<open>src/gpuforge/correctness.py\<close> uses them, and
  \<open>NumericTolerance\<close>.  Arithmetic is in the default context: results are rounded, half to even,
  to 28 significant digits; comparisons are exact.  A finite number is a signed coefficient and
  an exponent of ten (a negative zero compares and computes as zero).  The exponents the program
  admits keep every result within the context's exponent range.
\<close>

datatype decimal = Finite int int | Non_Finite

definition decimal_digits :: "nat \<Rightarrow> nat" where
  "decimal_digits n = length (show_nat n)"

lemma decimal_digits_eval [simp]:
  "decimal_digits 0 = 1"
  "decimal_digits 1 = 1" "decimal_digits (Suc 0) = 1"
  "decimal_digits (numeral w) = (if numeral w < (10::nat) then 1 else 1 + decimal_digits (numeral w div 10))"
  by (simp_all add: decimal_digits_def show_nat.simps [of "numeral w"] show_nat.simps [of 0] show_nat.simps [of "Suc 0"])

definition decimal_check :: "decimal \<Rightarrow> correctness_error + unit" where
  "decimal_check d =
     (case d of
        Non_Finite \<Rightarrow> Inl Correctness_Invalid
      | Finite c e \<Rightarrow>
          (let n = decimal_digits (nat \<bar>c\<bar>) in
           require (n \<le> 64 \<and> in_range (- 1000) 1000 (e + int n - 1)) Correctness_Invalid))"

text \<open>Dropping \<open>k\<close> digits of a coefficient, rounding half to even.\<close>

definition drop_digits :: "nat \<Rightarrow> nat \<Rightarrow> nat" where
  "drop_digits k n =
     (let q = n div 10 ^ k; r = n mod 10 ^ k
      in if 2 * r > 10 ^ k \<or> 2 * r = 10 ^ k \<and> odd q then q + 1 else q)"

definition context_round :: "int \<times> int \<Rightarrow> int \<times> int" where
  "context_round x =
     (let (c, e) = x; n = nat \<bar>c\<bar>; d = decimal_digits n in
      if d \<le> 28 then (c, e)
      else
        (let q = drop_digits (d - 28) n in
         if q = 10 ^ 28 then (sgn c * 10 ^ 27, e + int d - 27) else (sgn c * int q, e + int d - 28)))"

text \<open>Two numbers brought to their smaller exponent.\<close>

definition align :: "int \<times> int \<Rightarrow> int \<times> int \<Rightarrow> int \<times> int" where
  "align x y =
     (let (c1, e1) = x; (c2, e2) = y; e = min e1 e2 in (c1 * 10 ^ nat (e1 - e), c2 * 10 ^ nat (e2 - e)))"

definition decimal_sub :: "int \<times> int \<Rightarrow> int \<times> int \<Rightarrow> int \<times> int" where
  "decimal_sub x y = (let (a, b) = align x y in context_round (a - b, min (snd x) (snd y)))"

definition decimal_abs :: "int \<times> int \<Rightarrow> int \<times> int" where
  "decimal_abs x = context_round (\<bar>fst x\<bar>, snd x)"

definition decimal_mul :: "int \<times> int \<Rightarrow> int \<times> int \<Rightarrow> int \<times> int" where
  "decimal_mul x y = context_round (fst x * fst y, snd x + snd y)"

definition decimal_le :: "int \<times> int \<Rightarrow> int \<times> int \<Rightarrow> bool" where
  "decimal_le x y = (let (a, b) = align x y in a \<le> b)"

definition decimal_max :: "int \<times> int \<Rightarrow> int \<times> int \<Rightarrow> int \<times> int" where
  "decimal_max x y = (if decimal_le y x then x else y)"

record numeric_tolerance =
  nt_absolute :: decimal
  nt_relative :: decimal

definition decimal_nonnegative :: "decimal \<Rightarrow> bool" where
  "decimal_nonnegative d = (case d of Finite c e \<Rightarrow> 0 \<le> c | Non_Finite \<Rightarrow> False)"

definition numeric_tolerance_new :: "numeric_tolerance \<Rightarrow> correctness_error + numeric_tolerance" where
  "numeric_tolerance_new t = passes
     [decimal_check (nt_absolute t), decimal_check (nt_relative t),
      require (decimal_nonnegative (nt_absolute t) \<and> decimal_nonnegative (nt_relative t)) Correctness_Invalid] t"

text \<open>The coefficient and exponent of a number that was checked to be finite.\<close>

definition decimal_parts :: "decimal \<Rightarrow> int \<times> int" where
  "decimal_parts d = (case d of Finite c e \<Rightarrow> (c, e) | Non_Finite \<Rightarrow> (0, 0))"

definition tolerance_accepts :: "numeric_tolerance \<Rightarrow> decimal \<Rightarrow> decimal \<Rightarrow> correctness_error + bool" where
  "tolerance_accepts t expected observed =
     bindE (decimal_check expected) (\<lambda>_.
     bindE (decimal_check observed) (\<lambda>_.
     let difference = decimal_abs (decimal_sub (decimal_parts observed) (decimal_parts expected));
         bound = decimal_max (decimal_parts (nt_absolute t))
                   (decimal_mul (decimal_parts (nt_relative t)) (decimal_abs (decimal_parts expected)))
     in Inr (decimal_le difference bound)))"

section \<open>Values\<close>

definition rat_value :: "int \<times> int \<Rightarrow> rat" where
  "rat_value x = of_int (fst x) * 10 powi (snd x)"

lemma shift_value:
  assumes "e' \<le> e"
  shows "(of_int (c * 10 ^ nat (e - e')) :: rat) * 10 powi e' = of_int c * 10 powi e"
proof -
  have "(10::rat) powi e = 10 powi (e - e') * 10 powi e'"
    by (simp add: power_int_add [symmetric])
  also have "(10::rat) powi (e - e') = 10 ^ nat (e - e')" using assms by (simp add: power_int_def)
  finally show ?thesis by simp
qed

lemma align_value:
  assumes "align x y = (a, b)"
  shows "rat_value x = of_int a * 10 powi (min (snd x) (snd y))"
    and "rat_value y = of_int b * 10 powi (min (snd x) (snd y))"
  using assms by (auto simp: align_def rat_value_def Let_def split: prod.splits
      simp del: of_int_mult intro!: shift_value [symmetric])

lemma decimal_le_value: "decimal_le x y \<longleftrightarrow> rat_value x \<le> rat_value y"
proof -
  obtain a b where ab: "align x y = (a, b)" by (cases "align x y")
  show ?thesis by (simp add: align_value [OF ab] decimal_le_def ab)
qed

lemma decimal_max_value: "rat_value (decimal_max x y) = max (rat_value x) (rat_value y)"
  by (simp add: decimal_max_def decimal_le_value max_def)

section \<open>The rounding error\<close>

lemma show_nat_bounds: "0 < n \<Longrightarrow> 10 ^ (length (show_nat n) - 1) \<le> n \<and> n < 10 ^ length (show_nat n)"
proof (induction n rule: less_induct)
  case (less n)
  show ?case
  proof (cases "n < 10")
    case True
    with less.prems show ?thesis by (simp add: show_nat.simps [of n])
  next
    case False
    let ?m = "n div 10" and ?k = "length (show_nat (n div 10))"
    have IH: "10 ^ (?k - 1) \<le> ?m" "?m < 10 ^ ?k" using less.IH [of ?m] False by auto
    have "?k \<noteq> 0" by simp
    then have "(10::nat) ^ ?k = 10 * 10 ^ (?k - 1)" by (simp add: power_eq_if)
    moreover have "n = 10 * ?m + n mod 10" "n mod 10 < 10" by simp_all
    ultimately have "10 ^ ?k \<le> n" "n < 10 * 10 ^ ?k" using IH by linarith+
    with False show ?thesis by (simp add: show_nat.simps [of n])
  qed
qed

lemma half_even_error:
  fixes q r p :: nat
  assumes "r < p"
  shows "2 * \<bar>int (if 2 * r > p \<or> 2 * r = p \<and> odd q then q + 1 else q) * int p - (int q * int p + int r)\<bar> \<le> int p"
  using assms by (auto simp: algebra_simps)

lemma drop_digits_error: "2 * \<bar>int (drop_digits k n) * 10 ^ k - int n\<bar> \<le> 10 ^ k"
proof -
  have "int n = int (n div 10 ^ k * 10 ^ k + n mod 10 ^ k)" by (simp only: div_mult_mod_eq)
  also have "\<dots> = int (n div 10 ^ k) * int (10 ^ k) + int (n mod 10 ^ k)" by (simp only: of_nat_add of_nat_mult)
  finally have n: "int n = int (n div 10 ^ k) * int (10 ^ k) + int (n mod 10 ^ k)" .
  have p: "(10::int) ^ k = int (10 ^ k)" by simp
  show ?thesis
    unfolding p drop_digits_def Let_def by (subst n, rule half_even_error) simp
qed

text \<open>Rounding to 28 digits changes a number by at most half a unit of the 28th digit.\<close>

definition rounds_to :: "rat \<Rightarrow> rat \<Rightarrow> bool" where
  "rounds_to v w \<longleftrightarrow> \<bar>w - v\<bar> \<le> 5 / 10 ^ 28 * \<bar>v\<bar>"

lemma context_round_parts:
  assumes "d = decimal_digits (nat \<bar>c\<bar>)" "28 < d"
  shows "rat_value (context_round (c, e)) = of_int (sgn c * int (drop_digits (d - 28) (nat \<bar>c\<bar>))) * 10 powi (e + int d - 28)"
proof -
  have "(10::rat) powi (e + int d - 27) = 10 powi (e + int d - 28) * 10"
    using power_int_add_1 [of "10::rat" "e + int d - 28"] by (simp add: algebra_simps)
  then show ?thesis using assms by (simp add: context_round_def rat_value_def Let_def)
qed

lemma context_round_value: "rounds_to (rat_value x) (rat_value (context_round x))"
proof -
  obtain c e where x: "x = (c, e)" by (cases x)
  define n d where "n = nat \<bar>c\<bar>" and "d = decimal_digits n"
  show ?thesis
  proof (cases "d \<le> 28")
    case True
    then show ?thesis by (simp add: x context_round_def rounds_to_def Let_def n_def d_def)
  next
    case False
    define k where "k = d - 28"
    have d: "int d - 28 = int k" "d = k + 28" using False by (auto simp: k_def)
    have "c \<noteq> 0" using False by (auto simp: d_def n_def decimal_digits_def show_nat_0)
    then have "0 < n" by (simp add: n_def)
    moreover have "length (show_nat n) - 1 = k + 27" using d by (simp add: d_def decimal_digits_def)
    ultimately have "10 ^ (k + 27) \<le> n" using show_nat_bounds [of n] by simp
    then have "int (10 ^ (k + 27)) \<le> int n" by (simp only: of_nat_le_iff)
    then have big: "10 ^ k * 10 ^ 27 \<le> \<bar>c\<bar>" by (simp add: n_def power_add)
    define q where "q = int (drop_digits k n)"
    have c: "c = sgn c * int n" by (simp add: n_def sgn_mult_abs)
    have err: "2 * \<bar>sgn c * q * 10 ^ k - c\<bar> \<le> 10 ^ k"
    proof -
      have "sgn c * q * 10 ^ k - c = sgn c * (q * 10 ^ k - int n)" using c by (simp add: right_diff_distrib mult_ac)
      then show ?thesis using drop_digits_error [of k n] \<open>c \<noteq> 0\<close> by (simp add: abs_mult q_def abs_sgn_eq)
    qed
    have val: "rat_value (context_round x) = of_int (sgn c * q * 10 ^ k) * 10 powi e"
    proof -
      have e: "e + int d - 28 = e + int k" using d by simp
      have "(10::rat) powi (e + int d - 28) = 10 ^ k * 10 powi e" unfolding e by (simp add: power_int_add)
      then show ?thesis
        using context_round_parts [OF d_def [unfolded n_def], of e] False
        by (simp add: x q_def n_def k_def)
    qed
    have "(of_int (2 * \<bar>sgn c * q * 10 ^ k - c\<bar>) :: rat) \<le> of_int (10 ^ k)" using err by (simp only: of_int_le_iff)
    moreover have "(of_int (10 ^ k * 10 ^ 27) :: rat) \<le> of_int \<bar>c\<bar>" using big by (simp only: of_int_le_iff)
    ultimately have "\<bar>of_int (sgn c * q * 10 ^ k - c)\<bar> \<le> 5 / 10 ^ 28 * \<bar>of_int c :: rat\<bar>"
      by (simp del: of_int_diff of_int_mult add: of_int_power)
    then have "\<bar>of_int (sgn c * q * 10 ^ k - c)\<bar> * 10 powi e \<le> 5 / 10 ^ 28 * \<bar>of_int c :: rat\<bar> * 10 powi e"
      by (rule mult_right_mono) simp
    moreover have "rat_value (context_round x) - rat_value x = of_int (sgn c * q * 10 ^ k - c) * 10 powi e"
      by (simp add: val [unfolded x] x rat_value_def [of "(c, e)"] left_diff_distrib)
    ultimately show ?thesis
      by (simp add: rounds_to_def abs_mult power_int_abs x rat_value_def [of "(c, e)"] del: of_int_diff)
  qed
qed

section \<open>The accuracy of the comparison\<close>

definition tolerance_difference :: "decimal \<Rightarrow> decimal \<Rightarrow> rat" where
  "tolerance_difference expected observed =
     \<bar>rat_value (decimal_parts observed) - rat_value (decimal_parts expected)\<bar>"

definition tolerance_bound :: "numeric_tolerance \<Rightarrow> decimal \<Rightarrow> rat" where
  "tolerance_bound t expected =
     max (rat_value (decimal_parts (nt_absolute t)))
       (rat_value (decimal_parts (nt_relative t)) * \<bar>rat_value (decimal_parts expected)\<bar>)"

lemma rounds_toD:
  assumes "rounds_to v w" "0 \<le> v"
  shows "(1 - 5 / 10 ^ 28) * v \<le> w" "w \<le> (1 + 5 / 10 ^ 28) * v"
proof -
  have "\<bar>w - v\<bar> \<le> 5 / 10 ^ 28 * v" using assms by (simp add: rounds_to_def)
  then have "w - v \<le> 5 / 10 ^ 28 * v" "v - w \<le> 5 / 10 ^ 28 * v" by linarith+
  then show "(1 - 5 / 10 ^ 28) * v \<le> w" "w \<le> (1 + 5 / 10 ^ 28) * v"
    by (simp_all add: left_diff_distrib distrib_right)
qed

lemma rounds_to_abs: "rounds_to v w \<Longrightarrow> rounds_to \<bar>v\<bar> \<bar>w\<bar>"
  unfolding rounds_to_def by (rule order_trans [OF abs_triangle_ineq3]) simp

lemma decimal_sub_value: "rounds_to (rat_value x - rat_value y) (rat_value (decimal_sub x y))"
proof -
  obtain a b where ab: "align x y = (a, b)" by (cases "align x y")
  show ?thesis
    using context_round_value [of "(a - b, min (snd x) (snd y))"]
    by (simp add: align_value [OF ab] decimal_sub_def ab rat_value_def [of "(a - b, min (snd x) (snd y))"] left_diff_distrib)
qed

lemma decimal_abs_value: "rounds_to \<bar>rat_value x\<bar> (rat_value (decimal_abs x))"
  using context_round_value [of "(\<bar>fst x\<bar>, snd x)"]
  by (simp add: decimal_abs_def rat_value_def [of "(\<bar>fst x\<bar>, snd x)"] rat_value_def [of x] abs_mult power_int_abs)

lemma decimal_mul_value: "rounds_to (rat_value x * rat_value y) (rat_value (decimal_mul x y))"
  using context_round_value [of "(fst x * fst y, snd x + snd y)"]
  by (simp add: decimal_mul_def rat_value_def [of "(fst x * fst y, snd x + snd y)"] rat_value_def [of x] rat_value_def [of y]
      power_int_add mult_ac)

lemma tolerance_new_nonnegative:
  "numeric_tolerance_new t = Inr t' \<Longrightarrow>
     0 \<le> rat_value (decimal_parts (nt_absolute t)) \<and> 0 \<le> rat_value (decimal_parts (nt_relative t))"
  by (auto simp: numeric_tolerance_new_def decimal_nonnegative_def rat_value_def decimal_parts_def
      split: decimal.splits)

lemma tolerance_error:
  fixes d m dif bnd :: rat
  assumes "(1 - 5 / 10 ^ 28) * ((1 - 5 / 10 ^ 28) * d) \<le> dif" "dif \<le> (1 + 5 / 10 ^ 28) * ((1 + 5 / 10 ^ 28) * d)"
    and "(1 - 5 / 10 ^ 28) * ((1 - 5 / 10 ^ 28) * m) \<le> bnd" "bnd \<le> (1 + 5 / 10 ^ 28) * ((1 + 5 / 10 ^ 28) * m)"
    and "0 \<le> d" "0 \<le> m"
  shows "dif \<le> bnd \<Longrightarrow> d \<le> (1 + 1 / 10 ^ 26) * m" "\<not> dif \<le> bnd \<Longrightarrow> m \<le> (1 + 1 / 10 ^ 26) * d"
  using assms by (simp_all add: algebra_simps)

lemma max_scaled:
  fixes a b b' c c' :: rat
  assumes "0 \<le> a" "c' * b \<le> b'" "b' \<le> c * b" "0 \<le> b" "c' \<le> 1" "1 \<le> c" "0 \<le> c'"
  shows "c' * max a b \<le> max a b'" "max a b' \<le> c * max a b"
proof -
  have "c' * a \<le> a" "a \<le> c * a" using assms by (simp_all add: mult_left_le_one_le mult_le_cancel_right1)
  then show "c' * max a b \<le> max a b'" using assms by (auto simp: max_def)
  have "c * a \<le> c * max a b" "c * b \<le> c * max a b" using assms by (auto intro!: mult_left_mono)
  then show "max a b' \<le> c * max a b" using assms \<open>a \<le> c * a\<close> by (auto intro: order_trans)
qed

text \<open>C40: the comparison of probe values is accurate although it is computed in rounding decimal
  arithmetic: \<open>accepts\<close> deviates from the exact test, difference at most bound, only for
  differences within a relative \<open>10^-26\<close> of the bound.\<close>

theorem tolerance_accuracy:
  assumes "numeric_tolerance_new t = Inr t'" "tolerance_accepts t expected observed = Inr b"
  shows "if b then tolerance_difference expected observed \<le> (1 + 1 / 10 ^ 26) * tolerance_bound t expected
         else tolerance_bound t expected \<le> (1 + 1 / 10 ^ 26) * tolerance_difference expected observed"
proof -
  let ?e = "decimal_parts expected" and ?o = "decimal_parts observed"
  let ?A = "decimal_parts (nt_absolute t)" and ?R = "decimal_parts (nt_relative t)"
  let ?dif = "rat_value (decimal_abs (decimal_sub ?o ?e))"
  let ?scaled = "rat_value (decimal_mul ?R (decimal_abs ?e))"
  define d where "d = rat_value ?o - rat_value ?e"
  note nonneg = tolerance_new_nonnegative [OF assms(1)]
  have b: "b \<longleftrightarrow> ?dif \<le> max (rat_value ?A) ?scaled"
    using assms(2) by (auto simp: tolerance_accepts_def decimal_le_value decimal_max_value Let_def)
  have sub: "rounds_to \<bar>d\<bar> \<bar>rat_value (decimal_sub ?o ?e)\<bar>"
    unfolding d_def by (intro rounds_to_abs decimal_sub_value)
  note sub = rounds_toD [OF this abs_ge_zero] rounds_toD [OF decimal_abs_value abs_ge_zero, of "decimal_sub ?o ?e"]
  have dif: "(1 - 5 / 10 ^ 28) * ((1 - 5 / 10 ^ 28) * \<bar>d\<bar>) \<le> ?dif" "?dif \<le> (1 + 5 / 10 ^ 28) * ((1 + 5 / 10 ^ 28) * \<bar>d\<bar>)"
    using sub by simp_all
  define m where "m = rat_value ?R * \<bar>rat_value ?e\<bar>"
  have abs: "(1 - 5 / 10 ^ 28) * m \<le> rat_value ?R * rat_value (decimal_abs ?e)"
    "rat_value ?R * rat_value (decimal_abs ?e) \<le> (1 + 5 / 10 ^ 28) * m"
    using nonneg rounds_toD [OF decimal_abs_value abs_ge_zero, of ?e, THEN mult_left_mono, of "rat_value ?R"]
    by (simp_all add: m_def mult_ac)
  have "0 \<le> m" using nonneg by (simp add: m_def)
  moreover have "0 \<le> rat_value ?R * rat_value (decimal_abs ?e)" using abs(1) \<open>0 \<le> m\<close> by simp
  note rounds_toD [OF decimal_mul_value this]
  ultimately have scaled: "(1 - 5 / 10 ^ 28) * ((1 - 5 / 10 ^ 28) * m) \<le> ?scaled"
    "?scaled \<le> (1 + 5 / 10 ^ 28) * ((1 + 5 / 10 ^ 28) * m)"
    using abs by simp_all
  have bound: "(1 - 5 / 10 ^ 28) * ((1 - 5 / 10 ^ 28) * max (rat_value ?A) m) \<le> max (rat_value ?A) ?scaled"
    "max (rat_value ?A) ?scaled \<le> (1 + 5 / 10 ^ 28) * ((1 + 5 / 10 ^ 28) * max (rat_value ?A) m)"
    using max_scaled [of "rat_value ?A" "(1 - 5 / 10 ^ 28) * (1 - 5 / 10 ^ 28)" m ?scaled "(1 + 5 / 10 ^ 28) * (1 + 5 / 10 ^ 28)"]
      nonneg scaled \<open>0 \<le> m\<close> unfolding mult.assoc [symmetric] by simp_all
  have "0 \<le> max (rat_value ?A) m" using nonneg by (auto simp: le_max_iff_disj)
  from tolerance_error [OF dif bound _ this] show ?thesis
    unfolding tolerance_difference_def tolerance_bound_def d_def [symmetric] m_def [symmetric] b by simp
qed

lemmas tolerance_eval = numeric_tolerance_new_def tolerance_accepts_def decimal_check_def decimal_nonnegative_def
  decimal_parts_def in_range_def require_def decimal_sub_def decimal_abs_def decimal_mul_def
  decimal_max_def decimal_le_def align_def context_round_def drop_digits_def

definition sample_tolerance :: numeric_tolerance where
  "sample_tolerance = \<lparr>nt_absolute = Finite 1 (- 6), nt_relative = Finite 1 (- 3)\<rparr>"

text \<open>With an expected 2.5 and the tolerances 1E-6 and 1E-3, 2.502 is accepted and 2.503 is not.\<close>

lemma sample_tolerance_accepts:
  "numeric_tolerance_new sample_tolerance = Inr sample_tolerance"
  "tolerance_accepts sample_tolerance (Finite 25 (- 1)) (Finite 2502 (- 3)) = Inr True"
  "tolerance_accepts sample_tolerance (Finite 25 (- 1)) (Finite 2503 (- 3)) = Inr False"
  by (simp_all add: sample_tolerance_def tolerance_eval)

theorem tolerance_accuracy_witness:
  "tolerance_difference (Finite 25 (- 1)) (Finite 2502 (- 3)) \<le> (1 + 1 / 10 ^ 26) * tolerance_bound sample_tolerance (Finite 25 (- 1))
   \<and> tolerance_bound sample_tolerance (Finite 25 (- 1)) \<le> (1 + 1 / 10 ^ 26) * tolerance_difference (Finite 25 (- 1)) (Finite 2503 (- 3))"
  using tolerance_accuracy [OF sample_tolerance_accepts(1) sample_tolerance_accepts(2)]
    tolerance_accuracy [OF sample_tolerance_accepts(1) sample_tolerance_accepts(3)] by simp

text \<open>The rounding can accept a value outside the bound: the absolute tolerance 1, an expected 0 and
  an observed \<open>1 + 10^-29\<close>, whose difference of 30 digits is rounded to 1.\<close>

lemma tolerance_accepts_outside:
  defines "t \<equiv> \<lparr>nt_absolute = Finite 1 0, nt_relative = Finite 0 0\<rparr>"
    and "observed \<equiv> Finite 100000000000000000000000000001 (- 29)"
  shows "tolerance_accepts t (Finite 0 0) observed = Inr True"
    and "tolerance_bound t (Finite 0 0) < tolerance_difference (Finite 0 0) observed"
  unfolding t_def observed_def
  by (simp add: tolerance_eval) (simp add: tolerance_bound_def tolerance_difference_def rat_value_def decimal_parts_def power_int_def power_divide)

end
