(* ===== verification/Correctness.thy ===== *)
theory Correctness
  imports Decimals "HOL-Library.Product_Lexorder"
begin

text \<open>
  The training-correctness challenges of \<open>src/gpuforge/correctness.py\<close>: the probe records and
  their constructors, the deterministic selection of steps and tensor slices
  (\<open>generate_correctness_challenge\<close> with \<open>_ranked\<close> and \<open>_sample_indices\<close>), the policy and
  \<open>TrainingCorrectnessVerifier.verify\<close>.  Text and numbers range over what the constructors admit;
  the type tests of the source are the types of the model.
\<close>

section \<open>The records\<close>

datatype proof_kind = Loss | Gradient | Parameter_Delta | Optimizer_State | Canary_Output

definition proof_kind_value :: "proof_kind \<Rightarrow> string" where
  "proof_kind_value k =
     (case k of
        Loss \<Rightarrow> ''loss''
      | Gradient \<Rightarrow> ''gradient''
      | Parameter_Delta \<Rightarrow> ''parameter_delta''
      | Optimizer_State \<Rightarrow> ''optimizer_state''
      | Canary_Output \<Rightarrow> ''canary_output'')"

definition proof_kinds :: "proof_kind list" where
  "proof_kinds = [Loss, Gradient, Parameter_Delta, Optimizer_State, Canary_Output]"

definition max_probes :: int where
  "max_probes = 4096"

definition max_values_per_probe :: int where
  "max_values_per_probe = 64"

definition max_candidate_steps :: int where
  "max_candidate_steps = 100000"

definition correctness_hex :: "string \<Rightarrow> correctness_error + unit" where
  "correctness_hex s = require (is_hex64 s) Correctness_Invalid"

definition correctness_integer :: "int \<Rightarrow> int \<Rightarrow> int \<Rightarrow> correctness_error + unit" where
  "correctness_integer i lo hi = require (in_range lo hi i) Correctness_Invalid"

record probe_target =
  tg_kind :: proof_kind
  tg_tensor_name :: string
  tg_element_count :: int

definition probe_target_new :: "probe_target \<Rightarrow> correctness_error + probe_target" where
  "probe_target_new t = passes
     [tensor_name (tg_tensor_name t), correctness_integer (tg_element_count t) 1 max_int64] t"

record probe_request =
  rq_kind :: proof_kind
  rq_step :: int
  rq_tensor_name :: string
  rq_indices :: "int list"

definition probe_request_new :: "probe_request \<Rightarrow> correctness_error + probe_request" where
  "probe_request_new r = passes
     ([correctness_integer (rq_step r) 1 max_int64,
       tensor_name (rq_tensor_name r),
       require (1 \<le> length (rq_indices r) \<and> int (length (rq_indices r)) \<le> max_values_per_probe) Correctness_Invalid]
      @ map (\<lambda>i. correctness_integer i 0 (max_int64 - 1)) (rq_indices r)
      @ [require (length (remdups (rq_indices r)) = length (rq_indices r)) Correctness_Invalid]) r"

definition request_key :: "probe_request \<Rightarrow> proof_kind \<times> int \<times> string \<times> int list" where
  "request_key r = (rq_kind r, rq_step r, rq_tensor_name r, rq_indices r)"

record correctness_challenge =
  ch_seed :: string
  ch_script_digest :: string
  ch_hyperparameters_digest :: string
  ch_checkpoint_step :: int
  ch_requests :: "probe_request list"

definition correctness_challenge_new :: "correctness_challenge \<Rightarrow> correctness_error + correctness_challenge" where
  "correctness_challenge_new c = passes
     [correctness_hex (ch_seed c),
      correctness_digest (ch_script_digest c),
      correctness_digest (ch_hyperparameters_digest c),
      correctness_integer (ch_checkpoint_step c) 1 max_int64,
      require (1 \<le> length (ch_requests c) \<and> int (length (ch_requests c)) \<le> max_probes) Correctness_Invalid,
      require (let keys = map request_key (ch_requests c) in length keys = length (remdups keys)) Correctness_Invalid,
      require (\<not> list_ex (\<lambda>r. rq_step r > ch_checkpoint_step c) (ch_requests c)) Correctness_Invalid] c"

record probe_result =
  pr_request :: probe_request
  pr_values :: "decimal list"

definition probe_result_new :: "probe_result \<Rightarrow> correctness_error + probe_result" where
  "probe_result_new p = passes
     (require (length (pr_values p) = length (rq_indices (pr_request p))) Correctness_Invalid
      # map decimal_check (pr_values p)) p"

record training_proof_bundle =
  tb_script_digest :: string
  tb_hyperparameters_digest :: string
  tb_checkpoint_step :: int
  tb_checkpoint_root :: string
  tb_probes :: "probe_result list"

definition training_proof_bundle_new :: "training_proof_bundle \<Rightarrow> correctness_error + training_proof_bundle" where
  "training_proof_bundle_new b = passes
     [correctness_digest (tb_script_digest b),
      correctness_digest (tb_hyperparameters_digest b),
      correctness_integer (tb_checkpoint_step b) 1 max_int64,
      correctness_digest (tb_checkpoint_root b),
      require (1 \<le> length (tb_probes b) \<and> int (length (tb_probes b)) \<le> max_probes) Correctness_Invalid,
      require (let keys = map (request_key \<circ> pr_request) (tb_probes b) in length keys = length (remdups keys)) Correctness_Invalid] b"

text \<open>The policy: every kind exactly once, each with its tolerance.\<close>

type_synonym correctness_policy = "(proof_kind \<times> numeric_tolerance) list"

definition correctness_policy_new :: "correctness_policy \<Rightarrow> correctness_error + correctness_policy" where
  "correctness_policy_new ts = passes
     [require (distinct (map fst ts)) Correctness_Invalid,
      require (set (map fst ts) = set proof_kinds) Correctness_Invalid] ts"

fun tolerance_for :: "correctness_policy \<Rightarrow> proof_kind \<Rightarrow> correctness_error + numeric_tolerance" where
  "tolerance_for [] k = Inl Correctness_Invalid"
| "tolerance_for ((k', t) # ts) k = (if k' = k then Inr t else tolerance_for ts k)"

section \<open>The selection\<close>

definition step_domain :: bytes where
  "step_domain = utf8_encode ''gpuforge/correctness/steps/v1'' @ [0]"

definition slice_domain :: bytes where
  "slice_domain = utf8_encode ''gpuforge/correctness/slice/v1'' @ [0]"

definition ranked :: "bytes \<Rightarrow> bytes \<Rightarrow> int list \<Rightarrow> int list" where
  "ranked seed domain values = sort_key (\<lambda>v. (hmac_sha256 seed (domain @ be_bytes 8 (nat v)), v)) values"

definition draw :: "bytes \<Rightarrow> bytes \<Rightarrow> nat \<Rightarrow> nat" where
  "draw seed domain counter = be_nat (hmac_sha256 seed (domain @ be_bytes 8 counter))"

definition unbiased_limit :: "nat \<Rightarrow> nat" where
  "unbiased_limit n = 2 ^ 256 - 2 ^ 256 mod n"

text \<open>The loop of \<open>_sample_indices\<close>; a counter beyond 64 bits has no eight-byte form.\<close>

function sample_loop ::
  "bytes \<Rightarrow> bytes \<Rightarrow> nat \<Rightarrow> nat \<Rightarrow> nat list \<Rightarrow> nat \<Rightarrow> correctness_error + nat list" where
  "sample_loop seed domain n wanted selected counter =
     (if length selected < wanted then
        (if 2 ^ 64 \<le> counter then Inl Counter_Overflow
         else
           (let candidate = draw seed domain counter in
            if candidate < unbiased_limit n
            then sample_loop seed domain n wanted (List.insert (candidate mod n) selected) (counter + 1)
            else sample_loop seed domain n wanted selected (counter + 1)))
      else Inr (sort selected))"
  by pat_completeness auto
termination
  by (relation "measure (\<lambda>(seed, domain, n, wanted, selected, counter). 2 ^ 64 - counter)") auto

declare sample_loop.simps [simp del]

definition sample_indices :: "bytes \<Rightarrow> bytes \<Rightarrow> nat \<Rightarrow> nat \<Rightarrow> correctness_error + nat list" where
  "sample_indices seed domain n wanted =
     (if n = 0 then Inl Zero_Division else sample_loop seed domain n wanted [] 0)"

text \<open>The keyword arguments of \<open>generate_correctness_challenge\<close>.\<close>

record challenge_plan =
  pl_seed :: string
  pl_script_digest :: string
  pl_hyperparameters_digest :: string
  pl_checkpoint_step :: int
  pl_candidate_steps :: "int list"
  pl_targets :: "probe_target list"
  pl_selected_step_count :: int
  pl_values_per_target :: int

definition plan_checks :: "challenge_plan \<Rightarrow> (correctness_error + unit) list" where
  "plan_checks p =
     [correctness_hex (pl_seed p),
      correctness_digest (pl_script_digest p),
      correctness_digest (pl_hyperparameters_digest p),
      correctness_integer (pl_checkpoint_step p) 1 max_int64,
      require (pl_candidate_steps p \<noteq> [] \<and> int (length (pl_candidate_steps p)) \<le> max_candidate_steps) Correctness_Invalid]
     @ map (\<lambda>s. correctness_integer s 1 (pl_checkpoint_step p)) (pl_candidate_steps p)
     @ [require (length (remdups (pl_candidate_steps p)) = length (pl_candidate_steps p)) Correctness_Invalid,
        require (pl_targets p \<noteq> []) Correctness_Invalid,
        require (let keys = map (\<lambda>t. (tg_kind t, tg_tensor_name t)) (pl_targets p) in length keys = length (remdups keys))
          Correctness_Invalid,
        require (set (map tg_kind (pl_targets p)) = set proof_kinds) Correctness_Invalid,
        correctness_integer (pl_selected_step_count p) 1 (int (length (pl_candidate_steps p))),
        correctness_integer (pl_values_per_target p) 1 max_values_per_probe,
        require (pl_selected_step_count p * int (length (pl_targets p)) \<le> max_probes) Correctness_Invalid]"

definition sample_domain :: "probe_target \<Rightarrow> int \<Rightarrow> bytes" where
  "sample_domain t s =
     slice_domain @ utf8_encode (proof_kind_value (tg_kind t) @ [CHR 0x00] @ tg_tensor_name t @ [CHR 0x00] @ show_int s) @ [0]"

definition plan_request :: "bytes \<Rightarrow> int \<Rightarrow> int \<times> probe_target \<Rightarrow> correctness_error + probe_request" where
  "plan_request seed values_per_target st =
     (let (s, t) = st; wanted = min values_per_target (tg_element_count t) in
      bindE (sample_indices seed (sample_domain t s) (nat (tg_element_count t)) (nat wanted)) (\<lambda>is.
      probe_request_new \<lparr>rq_kind = tg_kind t, rq_step = s, rq_tensor_name = tg_tensor_name t, rq_indices = map int (sort is)\<rparr>))"

definition selected_steps :: "challenge_plan \<Rightarrow> bytes \<Rightarrow> int list" where
  "selected_steps p seed = take (nat (pl_selected_step_count p)) (ranked seed step_domain (pl_candidate_steps p))"

text \<open>The two nested loops, in their order.\<close>

definition plan_slots :: "challenge_plan \<Rightarrow> bytes \<Rightarrow> (int \<times> probe_target) list" where
  "plan_slots p seed = List.product (sort (selected_steps p seed))
     (sort_key (\<lambda>t. (proof_kind_value (tg_kind t), tg_tensor_name t)) (pl_targets p))"

definition generate_correctness_challenge :: "challenge_plan \<Rightarrow> correctness_error + correctness_challenge" where
  "generate_correctness_challenge p =
     bindE (all_pass (plan_checks p)) (\<lambda>_.
     case from_hex (pl_seed p) of
       None \<Rightarrow> Inl Correctness_Invalid
     | Some seed \<Rightarrow>
         bindE (mapE (plan_request seed (pl_values_per_target p)) (plan_slots p seed)) (\<lambda>requests.
         correctness_challenge_new
           \<lparr>ch_seed = pl_seed p, ch_script_digest = pl_script_digest p,
            ch_hyperparameters_digest = pl_hyperparameters_digest p,
            ch_checkpoint_step = pl_checkpoint_step p, ch_requests = requests\<rparr>))"

section \<open>Verification\<close>

record correctness_result =
  cs_checked_probes :: nat
  cs_checked_values :: nat
  cs_checkpoint_root :: string

fun check_identity :: "correctness_challenge \<Rightarrow> training_proof_bundle list \<Rightarrow> correctness_error + unit" where
  "check_identity c [] = Inr ()"
| "check_identity c (b # bs) =
     (if tb_script_digest b \<noteq> ch_script_digest c \<or> tb_hyperparameters_digest b \<noteq> ch_hyperparameters_digest c
      then Inl Identity_Mismatch
      else if tb_checkpoint_step b \<noteq> ch_checkpoint_step c then Inl Stale_Checkpoint
      else check_identity c bs)"

text \<open>\<open>zip(..., strict=True)\<close> raises when one side ends before the other.\<close>

fun compare_values :: "numeric_tolerance \<Rightarrow> decimal list \<Rightarrow> decimal list \<Rightarrow> nat \<Rightarrow> correctness_error + nat" where
  "compare_values t [] [] checked = Inr checked"
| "compare_values t (e # es) (v # vs) checked =
     bindE (tolerance_accepts t e v) (\<lambda>ok.
     if ok then compare_values t es vs (checked + 1) else Inl Numeric_Mismatch)"
| "compare_values t _ _ checked = Inl Zip_Mismatch"

text \<open>A dictionary comprehension: of equal keys the last one stays.\<close>

definition probes_by_key :: "probe_result list \<Rightarrow> (proof_kind \<times> int \<times> string \<times> int list) \<Rightarrow> probe_result option" where
  "probes_by_key ps = map_of (rev (map (\<lambda>p. (request_key (pr_request p), p)) ps))"

text \<open>The comparison runs after every required key was found, so the lookups succeed.\<close>

fun compare_probes ::
  "correctness_policy \<Rightarrow> probe_result list \<Rightarrow> probe_result list \<Rightarrow> probe_request list \<Rightarrow> nat \<Rightarrow> correctness_error + nat" where
  "compare_probes policy es vs [] checked = Inr checked"
| "compare_probes policy es vs (r # rs) checked =
     (case (probes_by_key es (request_key r), probes_by_key vs (request_key r)) of
        (Some e, Some v) \<Rightarrow>
          bindE (tolerance_for policy (rq_kind r)) (\<lambda>t.
          bindE (compare_values t (pr_values e) (pr_values v) checked) (\<lambda>checked'.
          compare_probes policy es vs rs checked'))
      | _ \<Rightarrow> Inl Missing_Probe)"

definition correctness_verify ::
  "correctness_policy \<Rightarrow> correctness_challenge \<Rightarrow> training_proof_bundle \<Rightarrow> training_proof_bundle
     \<Rightarrow> correctness_error + correctness_result" where
  "correctness_verify policy c expected observed =
     bindE (check_identity c [expected, observed]) (\<lambda>_.
     if tb_checkpoint_root expected \<noteq> tb_checkpoint_root observed then Inl Checkpoint_Mismatch
     else
       (let required = map request_key (ch_requests c);
            expected_keys = map (request_key \<circ> pr_request) (tb_probes expected);
            observed_keys = map (request_key \<circ> pr_request) (tb_probes observed) in
        if \<not> set required \<subseteq> set expected_keys \<or> \<not> set required \<subseteq> set observed_keys then Inl Missing_Probe
        else if set expected_keys \<noteq> set required \<or> set observed_keys \<noteq> set required then Inl Unexpected_Probe
        else
          bindE (compare_probes policy (tb_probes expected) (tb_probes observed) (ch_requests c) 0) (\<lambda>checked.
          Inr \<lparr>cs_checked_probes = length (ch_requests c), cs_checked_values = checked,
               cs_checkpoint_root = tb_checkpoint_root observed\<rparr>)))"

section \<open>Sampling\<close>

text \<open>The residues the first draws contribute.\<close>

definition residues :: "bytes \<Rightarrow> bytes \<Rightarrow> nat \<Rightarrow> nat \<Rightarrow> nat set" where
  "residues seed domain n k = (\<lambda>c. draw seed domain c mod n) ` {c. c < k \<and> draw seed domain c < unbiased_limit n}"

lemma residues_0 [simp]: "residues seed domain n 0 = {}"
  by (simp add: residues_def)

lemma residues_Suc: "residues seed domain n (Suc k) =
     (if draw seed domain k < unbiased_limit n
      then insert (draw seed domain k mod n) (residues seed domain n k) else residues seed domain n k)"
  by (auto simp: residues_def less_Suc_eq)

lemma finite_residues [simp]: "finite (residues seed domain n k)"
  by (simp add: residues_def)

lemma residues_mono: "k \<le> k' \<Longrightarrow> residues seed domain n k \<subseteq> residues seed domain n k'"
  by (auto simp: residues_def)

lemma residues_less: "0 < n \<Longrightarrow> i \<in> residues seed domain n k \<Longrightarrow> i < n"
  by (auto simp: residues_def)

lemma sort_set_distinct: "distinct xs \<Longrightarrow> sort xs = sorted_list_of_set (set xs)"
  by (simp add: sorted_list_of_set_sort_remdups distinct_remdups_id)

text \<open>The number of draws after which enough distinct residues have appeared.\<close>

definition draws_needed :: "bytes \<Rightarrow> bytes \<Rightarrow> nat \<Rightarrow> nat \<Rightarrow> nat" where
  "draws_needed seed domain n wanted = (LEAST k. wanted \<le> card (residues seed domain n k))"

lemma sample_loop_result:
  assumes "set sel = residues seed domain n k" "distinct sel" "\<forall>j < k. card (residues seed domain n j) < wanted" "k \<le> 2 ^ 64"
  shows "sample_loop seed domain n wanted sel k =
     (if wanted \<le> card (residues seed domain n (2 ^ 64))
      then Inr (sorted_list_of_set (residues seed domain n (draws_needed seed domain n wanted)))
      else Inl Counter_Overflow)"
  using assms
proof (induction seed domain n wanted sel k rule: sample_loop.induct)
  case (1 seed domain n wanted sel k)
  let ?R = "residues seed domain n"
  have len: "length sel = card (?R k)" using "1.prems" by (metis distinct_card)
  show ?case
  proof (cases "length sel < wanted")
    case False
    then have "draws_needed seed domain n wanted = k"
      unfolding draws_needed_def using "1.prems"(3) len
      by (intro Least_equality) (auto simp: not_le dest: leI)
    moreover have "wanted \<le> card (?R (2 ^ 64))"
      using False len card_mono [OF finite_residues residues_mono [OF "1.prems"(4)]] by (simp add: not_less) (meson le_trans)
    ultimately show ?thesis using False "1.prems"(1,2) by (simp add: sample_loop.simps sort_set_distinct)
  next
    case less: True
    show ?thesis
    proof (cases "2 ^ 64 \<le> k")
      case True
      with "1.prems"(4) have "k = 2 ^ 64" by simp
      with less len show ?thesis by (simp add: sample_loop.simps)
    next
      case False
      have step: "\<forall>j < k + 1. card (?R j) < wanted" using "1.prems"(3) less len by (auto simp: less_Suc_eq)
      show ?thesis
      proof (cases "draw seed domain k < unbiased_limit n")
        case True
        from "1.IH"(1) [OF less False refl True] step False True "1.prems"(1,2) show ?thesis
          by (subst sample_loop.simps) (simp add: less residues_Suc)
      next
        case draw: False
        from "1.IH"(2) [OF less False refl draw] step False draw "1.prems"(1,2) show ?thesis
          by (subst sample_loop.simps) (simp add: less residues_Suc)
      qed
    qed
  qed
qed

lemma sample_indices_result:
  "sample_indices seed domain n wanted =
     (if n = 0 then Inl Zero_Division
      else if wanted \<le> card (residues seed domain n (2 ^ 64))
      then Inr (sorted_list_of_set (residues seed domain n (draws_needed seed domain n wanted)))
      else Inl Counter_Overflow)"
  using sample_loop_result [of "[]" seed domain n 0 wanted] by (simp add: sample_indices_def)

lemma residues_Suc_card: "card (residues seed domain n (Suc k)) \<le> Suc (card (residues seed domain n k))"
  by (simp add: residues_Suc card_insert_if)

lemma card_residues_needed:
  assumes "wanted \<le> card (residues seed domain n k)"
  shows "card (residues seed domain n (draws_needed seed domain n wanted)) = wanted"
proof -
  define m where "m = draws_needed seed domain n wanted"
  have ge: "wanted \<le> card (residues seed domain n m)"
    unfolding m_def draws_needed_def by (rule LeastI [of "\<lambda>k. wanted \<le> card (residues seed domain n k)", OF assms])
  have "card (residues seed domain n m) \<le> wanted"
  proof (cases m)
    case (Suc j)
    then have "\<not> wanted \<le> card (residues seed domain n j)"
      unfolding m_def draws_needed_def by (metis not_less_Least lessI)
    then show ?thesis using residues_Suc_card [of seed domain n j] Suc by simp
  qed simp
  with ge show ?thesis by (simp add: m_def)
qed

lemma sample_indices_valid:
  assumes "sample_indices seed domain n wanted = Inr is" "0 < n"
  shows "length is = wanted" "sorted is" "distinct is" "\<forall>i \<in> set is. i < n"
  using assms card_residues_needed [of wanted seed domain n "2 ^ 64"] residues_less [of n]
  by (auto simp: sample_indices_result split: if_splits)

text \<open>Every residue has the same number of candidates below the limit.\<close>

lemma residue_candidates:
  assumes "i < n"
  shows "card {c. c < unbiased_limit n \<and> c mod n = i} = 2 ^ 256 div n"
proof -
  have lim: "unbiased_limit n = n * (2 ^ 256 div n)" by (simp add: unbiased_limit_def minus_mod_eq_mult_div)
  have "{c. c < unbiased_limit n \<and> c mod n = i} = (\<lambda>q. q * n + i) ` {..< 2 ^ 256 div n}"
  proof (intro equalityI subsetI)
    fix c assume "c \<in> {c. c < unbiased_limit n \<and> c mod n = i}"
    then have "c = c div n * n + i" "c div n < 2 ^ 256 div n"
      using lim by (auto simp: less_mult_imp_div_less mult.commute)
    then show "c \<in> (\<lambda>q. q * n + i) ` {..< 2 ^ 256 div n}" by blast
  next
    fix c assume "c \<in> (\<lambda>q. q * n + i) ` {..< 2 ^ 256 div n}"
    then obtain q where q: "c = q * n + i" "q < 2 ^ 256 div n" by auto
    then have "Suc q * n \<le> 2 ^ 256 div n * n" by (intro mult_right_mono) auto
    with q assms lim show "c \<in> {c. c < unbiased_limit n \<and> c mod n = i}" by (simp add: mult.commute)
  qed
  moreover have "inj_on (\<lambda>q. q * n + i) {..< 2 ^ 256 div n}" using assms by (simp add: inj_on_def)
  ultimately show ?thesis by (simp add: card_image)
qed

section \<open>Generation\<close>

lemma probe_request_new_Inr: "probe_request_new r = Inr r' \<longleftrightarrow> r' = r
   \<and> in_range 1 max_int64 (rq_step r) \<and> is_tensor_name (rq_tensor_name r)
   \<and> 1 \<le> length (rq_indices r) \<and> length (rq_indices r) \<le> 64
   \<and> (\<forall>i \<in> set (rq_indices r). in_range 0 (max_int64 - 1) i) \<and> distinct (rq_indices r)"
  by (auto simp: probe_request_new_def correctness_integer_def tensor_name_def max_values_per_probe_def
      length_remdups_card_conv card_distinct distinct_card)

lemma probe_target_new_Inr: "probe_target_new t = Inr t' \<longleftrightarrow>
    t' = t \<and> is_tensor_name (tg_tensor_name t) \<and> in_range 1 max_int64 (tg_element_count t)"
  by (auto simp: probe_target_new_def tensor_name_def correctness_integer_def)

definition plan_ok :: "challenge_plan \<Rightarrow> bool" where
  "plan_ok p \<longleftrightarrow>
     is_hex64 (pl_seed p) \<and> is_digest (pl_script_digest p) \<and> is_digest (pl_hyperparameters_digest p)
   \<and> in_range 1 max_int64 (pl_checkpoint_step p)
   \<and> pl_candidate_steps p \<noteq> [] \<and> length (pl_candidate_steps p) \<le> 100000 \<and> distinct (pl_candidate_steps p)
   \<and> (\<forall>s \<in> set (pl_candidate_steps p). in_range 1 (pl_checkpoint_step p) s)
   \<and> distinct (map (\<lambda>t. (tg_kind t, tg_tensor_name t)) (pl_targets p))
   \<and> tg_kind ` set (pl_targets p) = set proof_kinds
   \<and> in_range 1 (int (length (pl_candidate_steps p))) (pl_selected_step_count p)
   \<and> in_range 1 64 (pl_values_per_target p)
   \<and> pl_selected_step_count p * int (length (pl_targets p)) \<le> 4096"

lemma length_remdups_distinct: "length (remdups xs) = length xs \<longleftrightarrow> distinct xs" "length xs = length (remdups xs) \<longleftrightarrow> distinct xs"
  by (simp_all add: length_remdups_eq eq_commute [of "length xs"])

lemma plan_checks_ok: "all_pass (plan_checks p) = Inr () \<longleftrightarrow> plan_ok p"
proof -
  have "tg_kind ` set (pl_targets p) = set proof_kinds \<Longrightarrow> pl_targets p \<noteq> []" by (auto simp: proof_kinds_def)
  then show ?thesis
    by (auto simp: plan_checks_def plan_ok_def correctness_hex_def correctness_digest_def correctness_integer_def
        max_candidate_steps_def max_values_per_probe_def max_probes_def length_remdups_distinct Let_def)
qed

lemma all_pass_error: "all_pass cs = Inl e \<Longrightarrow> Inl e \<in> set cs"
  by (induction cs) (auto simp: bindE_Inl_iff)

lemma require_error [simp]: "require ok e = Inl e' \<longleftrightarrow> \<not> ok \<and> e' = e"
  by (auto simp: require_def)

lemma plan_checks_error:
  assumes "all_pass (plan_checks p) = Inl e"
  shows "e = Correctness_Invalid"
proof -
  have "Inl e' \<in> set (plan_checks p) \<Longrightarrow> e' = Correctness_Invalid" for e'
    by (auto simp: plan_checks_def correctness_hex_def correctness_digest_def correctness_integer_def dest: sym)
  from this [OF all_pass_error [OF assms]] show ?thesis .
qed

definition slot_samples :: "challenge_plan \<Rightarrow> bytes \<Rightarrow> int \<times> probe_target \<Rightarrow> nat" where
  "slot_samples p seed st = nat (min (pl_values_per_target p) (tg_element_count (snd st)))"

definition slot_residues :: "bytes \<Rightarrow> int \<times> probe_target \<Rightarrow> nat \<Rightarrow> nat set" where
  "slot_residues seed st k = residues seed (sample_domain (snd st) (fst st)) (nat (tg_element_count (snd st))) k"

definition slot_request :: "challenge_plan \<Rightarrow> bytes \<Rightarrow> int \<times> probe_target \<Rightarrow> probe_request" where
  "slot_request p seed st =
     \<lparr>rq_kind = tg_kind (snd st), rq_step = fst st, rq_tensor_name = tg_tensor_name (snd st),
      rq_indices = map int (sorted_list_of_set
        (slot_residues seed st (draws_needed seed (sample_domain (snd st) (fst st)) (nat (tg_element_count (snd st))) (slot_samples p seed st))))\<rparr>"

lemma slot_indices:
  assumes "probe_target_new t = Inr t" "in_range 1 64 (pl_values_per_target p)"
    and "slot_samples p seed (s, t) \<le> card (slot_residues seed (s, t) (2 ^ 64))"
  shows "length (rq_indices (slot_request p seed (s, t))) = slot_samples p seed (s, t)"
    and "sorted (rq_indices (slot_request p seed (s, t)))" "distinct (rq_indices (slot_request p seed (s, t)))"
    and "\<forall>i \<in> set (rq_indices (slot_request p seed (s, t))). in_range 0 (tg_element_count t - 1) i"
    and "1 \<le> slot_samples p seed (s, t)" "slot_samples p seed (s, t) \<le> 64"
proof -
  have t: "in_range 1 max_int64 (tg_element_count t)" using assms(1) by (simp add: probe_target_new_Inr)
  show "1 \<le> slot_samples p seed (s, t)" "slot_samples p seed (s, t) \<le> 64"
    using t assms(2) by (auto simp: slot_samples_def in_range_def min_def)
  have n: "0 < nat (tg_element_count t)" using t by (simp add: in_range_def)
  have "sample_indices seed (sample_domain t s) (nat (tg_element_count t)) (slot_samples p seed (s, t))
      = Inr (sorted_list_of_set (slot_residues seed (s, t) (draws_needed seed (sample_domain t s) (nat (tg_element_count t)) (slot_samples p seed (s, t)))))"
    using assms(3) n by (simp add: sample_indices_result slot_residues_def)
  note v = sample_indices_valid [OF this n]
  show "length (rq_indices (slot_request p seed (s, t))) = slot_samples p seed (s, t)" using v(1) by (simp add: slot_request_def)
  show "sorted (rq_indices (slot_request p seed (s, t)))" using v(2) by (simp add: slot_request_def sorted_map)
  show "distinct (rq_indices (slot_request p seed (s, t)))" using v(3) by (simp add: slot_request_def distinct_map)
  show "\<forall>i \<in> set (rq_indices (slot_request p seed (s, t))). in_range 0 (tg_element_count t - 1) i"
    using v(4) by (auto simp: slot_request_def in_range_def)
qed

lemma slot_request_ok:
  assumes "probe_target_new t = Inr t" "in_range 1 64 (pl_values_per_target p)" "in_range 1 max_int64 s"
    and "slot_samples p seed (s, t) \<le> card (slot_residues seed (s, t) (2 ^ 64))"
  shows "probe_request_new (slot_request p seed (s, t)) = Inr (slot_request p seed (s, t))"
proof -
  have "i \<in> set (rq_indices (slot_request p seed (s, t))) \<Longrightarrow> in_range 0 (max_int64 - 1) i" for i
    using slot_indices(4) [OF assms(1,2,4)] assms(1) by (auto simp: in_range_def probe_target_new_Inr)
  moreover have "rq_kind (slot_request p seed (s, t)) = tg_kind t" "rq_step (slot_request p seed (s, t)) = s"
    "rq_tensor_name (slot_request p seed (s, t)) = tg_tensor_name t" by (simp_all add: slot_request_def)
  ultimately show ?thesis
    using slot_indices [OF assms(1,2,4)] assms(1,3) by (simp add: probe_request_new_Inr probe_target_new_Inr)
qed

lemma plan_request_result:
  assumes "probe_target_new t = Inr t" "in_range 1 64 (pl_values_per_target p)" "in_range 1 max_int64 s"
  shows "plan_request seed (pl_values_per_target p) (s, t) =
     (if slot_samples p seed (s, t) \<le> card (slot_residues seed (s, t) (2 ^ 64)) then Inr (slot_request p seed (s, t))
      else Inl Counter_Overflow)"
proof (cases "slot_samples p seed (s, t) \<le> card (slot_residues seed (s, t) (2 ^ 64))")
  have n: "\<not> tg_element_count t \<le> 0" using assms(1) by (simp add: probe_target_new_Inr in_range_def)
  case True
  then have "plan_request seed (pl_values_per_target p) (s, t) = probe_request_new (slot_request p seed (s, t))"
    by (simp add: plan_request_def slot_request_def slot_samples_def slot_residues_def sample_indices_result sort_set_distinct n)
  then show ?thesis using True slot_request_ok [OF assms True] by simp
next
  have n: "\<not> tg_element_count t \<le> 0" using assms(1) by (simp add: probe_target_new_Inr in_range_def)
  case False
  then show ?thesis by (simp add: plan_request_def slot_samples_def slot_residues_def sample_indices_result n)
qed

lemma selected_steps_facts:
  assumes "plan_ok p"
  shows "distinct (selected_steps p seed)" "length (selected_steps p seed) = nat (pl_selected_step_count p)"
    "set (selected_steps p seed) \<subseteq> set (pl_candidate_steps p)"
proof -
  show "distinct (selected_steps p seed)" using assms by (simp add: selected_steps_def ranked_def plan_ok_def)
  show "length (selected_steps p seed) = nat (pl_selected_step_count p)"
    using assms by (auto simp: selected_steps_def ranked_def plan_ok_def in_range_def min_def)
  show "set (selected_steps p seed) \<subseteq> set (pl_candidate_steps p)"
    using set_take_subset by (fastforce simp: selected_steps_def ranked_def)
qed

lemma plan_slot_facts:
  assumes "plan_ok p" "\<forall>t \<in> set (pl_targets p). probe_target_new t = Inr t" "st \<in> set (plan_slots p seed)"
  shows "probe_target_new (snd st) = Inr (snd st)" "in_range 1 (pl_checkpoint_step p) (fst st)" "in_range 1 max_int64 (fst st)"
proof -
  have "fst st \<in> set (pl_candidate_steps p)" "snd st \<in> set (pl_targets p)"
    using assms(3) selected_steps_facts(3) [OF assms(1), of seed] by (auto simp: plan_slots_def)
  then show "probe_target_new (snd st) = Inr (snd st)" "in_range 1 (pl_checkpoint_step p) (fst st)" "in_range 1 max_int64 (fst st)"
    using assms(1,2) by (auto simp: plan_ok_def in_range_def)
qed

definition slots_sampled :: "challenge_plan \<Rightarrow> bytes \<Rightarrow> bool" where
  "slots_sampled p seed \<longleftrightarrow> (\<forall>st \<in> set (plan_slots p seed). slot_samples p seed st \<le> card (slot_residues seed st (2 ^ 64)))"

lemma mapE_result:
  assumes "\<And>x. x \<in> set xs \<Longrightarrow> f x = (if P x then Inr (g x) else Inl e)"
  shows "mapE f xs = (if \<forall>x \<in> set xs. P x then Inr (map g xs) else Inl e)"
  using assms by (induction xs) auto

lemma plan_requests_result:
  assumes "plan_ok p" "\<forall>t \<in> set (pl_targets p). probe_target_new t = Inr t"
  shows "mapE (plan_request seed (pl_values_per_target p)) (plan_slots p seed) =
     (if slots_sampled p seed then Inr (map (slot_request p seed) (plan_slots p seed)) else Inl Counter_Overflow)"
  unfolding slots_sampled_def
proof (rule mapE_result)
  fix st assume st: "st \<in> set (plan_slots p seed)"
  have v: "in_range 1 64 (pl_values_per_target p)" using assms(1) by (simp add: plan_ok_def)
  show "plan_request seed (pl_values_per_target p) st =
      (if slot_samples p seed st \<le> card (slot_residues seed st (2 ^ 64)) then Inr (slot_request p seed st) else Inl Counter_Overflow)"
    using plan_request_result [OF plan_slot_facts(1) [OF assms st] v plan_slot_facts(3) [OF assms st], of seed] by simp
qed

lemma length_plan_slots:
  assumes "plan_ok p"
  shows "length (plan_slots p seed) = nat (pl_selected_step_count p) * length (pl_targets p)"
  using selected_steps_facts(2) [OF assms] by (simp add: plan_slots_def)

lemma distinct_plan_slots:
  assumes "plan_ok p"
  shows "distinct (map (\<lambda>st. (fst st, tg_kind (snd st), tg_tensor_name (snd st))) (plan_slots p seed))"
proof -
  have "distinct (map (\<lambda>t. (tg_kind t, tg_tensor_name t)) (pl_targets p))" using assms by (simp add: plan_ok_def)
  then have d: "distinct (pl_targets p)" "inj_on (\<lambda>t. (tg_kind t, tg_tensor_name t)) (set (pl_targets p))"
    by (simp_all add: distinct_map)
  have "distinct (plan_slots p seed)"
    using selected_steps_facts(1) [OF assms] d(1) by (simp add: plan_slots_def distinct_product)
  then show ?thesis using d(2) by (auto simp: distinct_map plan_slots_def inj_on_def)
qed

lemma generated_challenge_new:
  assumes "plan_ok p" "\<forall>t \<in> set (pl_targets p). probe_target_new t = Inr t" "slots_sampled p seed"
  defines "c \<equiv> \<lparr>ch_seed = pl_seed p, ch_script_digest = pl_script_digest p,
      ch_hyperparameters_digest = pl_hyperparameters_digest p, ch_checkpoint_step = pl_checkpoint_step p,
      ch_requests = map (slot_request p seed) (plan_slots p seed)\<rparr>"
  shows "correctness_challenge_new c = Inr c"
proof -
  let ?slots = "plan_slots p seed" and ?rs = "map (slot_request p seed) (plan_slots p seed)"
  have "pl_targets p \<noteq> []" using assms(1) by (auto simp: plan_ok_def proof_kinds_def)
  then have "1 \<le> nat (pl_selected_step_count p) * length (pl_targets p)"
    using assms(1) by (simp add: plan_ok_def in_range_def Suc_le_eq)
  moreover have "int (nat (pl_selected_step_count p) * length (pl_targets p)) \<le> 4096"
    using assms(1) by (simp add: plan_ok_def in_range_def)
  ultimately have len: "1 \<le> length ?rs" "int (length ?rs) \<le> 4096"
    by (simp_all only: length_map length_plan_slots [OF assms(1)])
  have keys: "distinct (map request_key ?rs)"
  proof (rule distinct_map [THEN iffD1, THEN conjunct1])
    have e: "map (\<lambda>(k, s, n, is). (s, k, n)) (map request_key ?rs)
        = map (\<lambda>st. (fst st, tg_kind (snd st), tg_tensor_name (snd st))) ?slots"
      by (simp add: request_key_def slot_request_def)
    show "distinct (map (\<lambda>(k, s, n, is). (s, k, n)) (map request_key ?rs))"
      unfolding e by (rule distinct_plan_slots [OF assms(1)])
  qed
  have "\<not> list_ex (\<lambda>r. rq_step r > pl_checkpoint_step p) ?rs"
    using plan_slot_facts(2) [OF assms(1,2)] by (fastforce simp: list_ex_iff slot_request_def in_range_def)
  with len keys assms(1) show ?thesis
    by (simp add: c_def correctness_challenge_new_def correctness_hex_def correctness_digest_def correctness_integer_def
        max_probes_def length_remdups_distinct plan_ok_def)
qed

text \<open>What the generator returns, on every plan.\<close>

lemma generate_result:
  assumes "\<forall>t \<in> set (pl_targets p). probe_target_new t = Inr t"
  shows "generate_correctness_challenge p =
     (if \<not> plan_ok p then Inl Correctness_Invalid
      else let seed = the (from_hex (pl_seed p)) in
        if slots_sampled p seed then Inr \<lparr>ch_seed = pl_seed p, ch_script_digest = pl_script_digest p,
          ch_hyperparameters_digest = pl_hyperparameters_digest p, ch_checkpoint_step = pl_checkpoint_step p,
          ch_requests = map (slot_request p seed) (plan_slots p seed)\<rparr>
        else Inl Counter_Overflow)"
proof (cases "plan_ok p")
  case False
  then obtain e where "all_pass (plan_checks p) = Inl e" using plan_checks_ok by (metis old.sum.exhaust old.unit.exhaust)
  then show ?thesis using False plan_checks_error by (simp add: generate_correctness_challenge_def)
next
  case True
  then have "list_all is_lower_hex (pl_seed p)" "length (pl_seed p) = 2 * 32"
    by (auto simp: plan_ok_def is_hex64_def match_class_def)
  then obtain seed where seed: "from_hex (pl_seed p) = Some seed" by (rule from_hex_lower)
  have "all_pass (plan_checks p) = Inr ()" using True plan_checks_ok by blast
  then show ?thesis
    using True generated_challenge_new [OF True assms]
    by (simp add: generate_correctness_challenge_def seed plan_requests_result [OF True assms] Let_def del: all_pass_Inr)
qed

section \<open>Comparison\<close>

lemma request_key_inject [simp]: "request_key r = request_key r' \<longleftrightarrow> r = r'"
  by (cases r; cases r') (simp add: request_key_def)

lemma correctness_challenge_new_Inr: "correctness_challenge_new c = Inr c' \<longleftrightarrow> c' = c
   \<and> is_hex64 (ch_seed c) \<and> is_digest (ch_script_digest c) \<and> is_digest (ch_hyperparameters_digest c)
   \<and> in_range 1 max_int64 (ch_checkpoint_step c) \<and> 1 \<le> length (ch_requests c) \<and> length (ch_requests c) \<le> 4096
   \<and> distinct (ch_requests c) \<and> (\<forall>r \<in> set (ch_requests c). rq_step r \<le> ch_checkpoint_step c)"
  by (auto simp: correctness_challenge_new_def correctness_hex_def correctness_digest_def correctness_integer_def
      max_probes_def length_remdups_distinct distinct_map inj_on_def list_ex_iff not_less Let_def)

text \<open>A bundle and its probes as their constructors leave them.\<close>

definition bundle_valid :: "training_proof_bundle \<Rightarrow> bool" where
  "bundle_valid b \<longleftrightarrow> training_proof_bundle_new b = Inr b \<and> list_all (\<lambda>p. probe_result_new p = Inr p) (tb_probes b)"

lemma bundle_validD:
  assumes "bundle_valid b"
  shows "distinct (map pr_request (tb_probes b))"
    and "p \<in> set (tb_probes b) \<Longrightarrow> length (pr_values p) = length (rq_indices (pr_request p))"
    and "p \<in> set (tb_probes b) \<Longrightarrow> \<forall>x \<in> set (pr_values p). decimal_check x = Inr ()"
proof -
  have "distinct (map (request_key \<circ> pr_request) (tb_probes b))"
    using assms by (simp add: bundle_valid_def training_proof_bundle_new_def length_remdups_distinct Let_def)
  then show "distinct (map pr_request (tb_probes b))" by (auto simp: distinct_map inj_on_def)
  show "p \<in> set (tb_probes b) \<Longrightarrow> length (pr_values p) = length (rq_indices (pr_request p))"
    "p \<in> set (tb_probes b) \<Longrightarrow> \<forall>x \<in> set (pr_values p). decimal_check x = Inr ()"
    using assms by (auto simp: bundle_valid_def list_all_iff probe_result_new_def)
qed

lemma probes_by_key_Some:
  assumes "distinct (map pr_request ps)"
  shows "probes_by_key ps (request_key q) = Some p \<longleftrightarrow> p \<in> set ps \<and> pr_request p = q"
proof -
  have "distinct (map (request_key \<circ> pr_request) ps)"
    using assms by (auto simp: distinct_map inj_on_def)
  then have "distinct (map fst (rev (map (\<lambda>p. (request_key (pr_request p), p)) ps)))"
    by (simp add: rev_map o_def distinct_map [of _ "rev ps"] distinct_map [of _ ps] inj_on_def)
  from map_of_eq_Some_iff [OF this, of "request_key q" p] show ?thesis
    by (auto simp: probes_by_key_def image_iff)
qed

lemma compare_values_Inr: "compare_values t es vs n = Inr m \<longleftrightarrow>
    list_all2 (\<lambda>e v. tolerance_accepts t e v = Inr True) es vs \<and> m = n + length es"
  by (induction t es vs n rule: compare_values.induct) auto

definition probe_agrees :: "correctness_policy \<Rightarrow> probe_result \<Rightarrow> probe_result \<Rightarrow> bool" where
  "probe_agrees policy e v \<longleftrightarrow>
     (\<exists>t. tolerance_for policy (rq_kind (pr_request e)) = Inr t
        \<and> list_all2 (\<lambda>x y. tolerance_accepts t x y = Inr True) (pr_values e) (pr_values v))"

lemma compare_probes_Inr:
  assumes "bundle_valid expected" "bundle_valid observed"
    and "set rs \<subseteq> pr_request ` set (tb_probes expected)" "set rs \<subseteq> pr_request ` set (tb_probes observed)"
  shows "compare_probes policy (tb_probes expected) (tb_probes observed) rs n = Inr m \<longleftrightarrow>
     (\<forall>e \<in> set (tb_probes expected). \<forall>v \<in> set (tb_probes observed).
        pr_request e \<in> set rs \<longrightarrow> pr_request v = pr_request e \<longrightarrow> probe_agrees policy e v)
   \<and> m = n + (\<Sum>r \<leftarrow> rs. length (rq_indices r))"
  using assms(3,4)
proof (induction rs arbitrary: n)
  case (Cons r rs)
  note d = bundle_validD(1) [OF assms(1)] bundle_validD(1) [OF assms(2)]
  obtain e v where ev: "e \<in> set (tb_probes expected)" "pr_request e = r" "v \<in> set (tb_probes observed)" "pr_request v = r"
    using Cons.prems by auto
  then have look: "probes_by_key (tb_probes expected) (request_key r) = Some e"
    "probes_by_key (tb_probes observed) (request_key r) = Some v" by (simp_all add: probes_by_key_Some d)
  have uniq: "e' = e" if "e' \<in> set (tb_probes expected)" "pr_request e' = r" for e'
    using that ev d(1) by (auto simp: distinct_map inj_on_def)
  have uniq': "v' = v" if "v' \<in> set (tb_probes observed)" "pr_request v' = r" for v'
    using that ev d(2) by (auto simp: distinct_map inj_on_def)
  have len: "length (pr_values e) = length (rq_indices r)" using bundle_validD(2) [OF assms(1) ev(1)] ev(2) by simp
  have step: "compare_probes policy (tb_probes expected) (tb_probes observed) (r # rs) n = Inr m \<longleftrightarrow>
      probe_agrees policy e v \<and> compare_probes policy (tb_probes expected) (tb_probes observed) rs (n + length (rq_indices r)) = Inr m"
    by (auto simp: look compare_values_Inr probe_agrees_def ev(2) len)
  let ?all = "\<lambda>R. \<forall>e \<in> set (tb_probes expected). \<forall>v \<in> set (tb_probes observed).
      pr_request e \<in> R \<longrightarrow> pr_request v = pr_request e \<longrightarrow> probe_agrees policy e v"
  have "?all (set (r # rs)) \<longleftrightarrow> probe_agrees policy e v \<and> ?all (set rs)"
  proof (intro iffI conjI)
    assume "?all (set (r # rs))"
    then show "probe_agrees policy e v" "?all (set rs)" using ev by simp_all
  next
    assume "probe_agrees policy e v \<and> ?all (set rs)"
    then show "?all (set (r # rs))" using uniq uniq' by (metis set_ConsD)
  qed
  moreover have "compare_probes policy (tb_probes expected) (tb_probes observed) rs (n + length (rq_indices r)) = Inr m \<longleftrightarrow>
      ?all (set rs) \<and> m = n + (\<Sum>r \<leftarrow> r # rs. length (rq_indices r))"
    using Cons.IH [of "n + length (rq_indices r)"] Cons.prems by (simp only: list.map sum_list.Cons add.assoc list.set insert_subset)
  ultimately show ?case unfolding step by blast
qed auto

lemma check_identity_Inr: "check_identity c bs = Inr u \<longleftrightarrow>
    (\<forall>b \<in> set bs. tb_script_digest b = ch_script_digest c \<and> tb_hyperparameters_digest b = ch_hyperparameters_digest c
       \<and> tb_checkpoint_step b = ch_checkpoint_step c)"
  by (induction c bs rule: check_identity.induct) auto

lemma correctness_verify_Inr:
  assumes "bundle_valid expected" "bundle_valid observed"
  shows "correctness_verify policy c expected observed = Inr res \<longleftrightarrow>
     (\<forall>b \<in> {expected, observed}. tb_script_digest b = ch_script_digest c
        \<and> tb_hyperparameters_digest b = ch_hyperparameters_digest c \<and> tb_checkpoint_step b = ch_checkpoint_step c
        \<and> pr_request ` set (tb_probes b) = set (ch_requests c))
   \<and> tb_checkpoint_root expected = tb_checkpoint_root observed
   \<and> (\<forall>e \<in> set (tb_probes expected). \<forall>v \<in> set (tb_probes observed).
        pr_request v = pr_request e \<longrightarrow> probe_agrees policy e v)
   \<and> res = \<lparr>cs_checked_probes = length (ch_requests c),
            cs_checked_values = (\<Sum>r \<leftarrow> ch_requests c. length (rq_indices r)),
            cs_checkpoint_root = tb_checkpoint_root observed\<rparr>"
proof -
  have keys: "set (map (request_key \<circ> pr_request) ps) = set (map request_key rs) \<longleftrightarrow> pr_request ` set ps = set rs" for ps rs
  proof -
    have "inj request_key" by (simp add: inj_on_def)
    from inj_image_eq_iff [OF this, of "pr_request ` set ps" "set rs"] show ?thesis by (simp add: image_comp)
  qed
  show ?thesis
  proof (cases "pr_request ` set (tb_probes expected) = set (ch_requests c) \<and> pr_request ` set (tb_probes observed) = set (ch_requests c)")
    case True
    then have "set (ch_requests c) \<subseteq> pr_request ` set (tb_probes expected)" "set (ch_requests c) \<subseteq> pr_request ` set (tb_probes observed)" by auto
    note cmp = compare_probes_Inr [OF assms this]
    have k: "set (map (request_key \<circ> pr_request) (tb_probes expected)) = set (map request_key (ch_requests c))"
      "set (map (request_key \<circ> pr_request) (tb_probes observed)) = set (map request_key (ch_requests c))" using True keys by blast+
    show ?thesis unfolding correctness_verify_def Let_def k using True
      by (auto simp: check_identity_Inr cmp del: compare_probes.simps)
  next
    case False
    then have "set (map (request_key \<circ> pr_request) (tb_probes expected)) \<noteq> set (map request_key (ch_requests c))
        \<or> set (map (request_key \<circ> pr_request) (tb_probes observed)) \<noteq> set (map request_key (ch_requests c))"
      unfolding keys by blast
    then have "correctness_verify policy c expected observed \<noteq> Inr res"
      unfolding correctness_verify_def Let_def bindE_Inr_iff by (metis sum.distinct(1))
    with False show ?thesis by auto
  qed
qed

text \<open>Policies as their constructors leave them.\<close>

definition policy_valid :: "correctness_policy \<Rightarrow> bool" where
  "policy_valid policy \<longleftrightarrow> correctness_policy_new policy = Inr policy
     \<and> list_all (\<lambda>(k, t). numeric_tolerance_new t = Inr t) policy"

lemma tolerance_for_total:
  assumes "policy_valid policy"
  obtains t where "tolerance_for policy k = Inr t" "numeric_tolerance_new t = Inr t"
proof -
  have "k \<in> fst ` set policy"
    using assms by (cases k) (auto simp: policy_valid_def correctness_policy_new_def proof_kinds_def)
  moreover have "\<forall>(k, t) \<in> set policy. numeric_tolerance_new t = Inr t"
    using assms by (auto simp: policy_valid_def list_all_iff)
  ultimately have "\<exists>t. tolerance_for policy k = Inr t \<and> numeric_tolerance_new t = Inr t"
    by (induction policy k rule: tolerance_for.induct) auto
  then show ?thesis using that by blast
qed

lemma tolerance_accepts_total:
  "decimal_check e = Inr () \<Longrightarrow> decimal_check v = Inr () \<Longrightarrow> \<exists>b. tolerance_accepts t e v = Inr b"
  by (simp add: tolerance_accepts_def Let_def)

lemma compare_values_error:
  assumes "compare_values t es vs n = Inl err" "length es = length vs"
    and "\<forall>x \<in> set es. decimal_check x = Inr ()" "\<forall>x \<in> set vs. decimal_check x = Inr ()"
  shows "err = Numeric_Mismatch"
  using assms
proof (induction t es vs n rule: compare_values.induct)
  case (2 t e es v vs n)
  then obtain b where "tolerance_accepts t e v = Inr b" using tolerance_accepts_total [of e v t] by auto
  with 2 show ?case by (auto split: if_splits)
qed auto

lemma compare_probes_error:
  assumes "bundle_valid expected" "bundle_valid observed" "policy_valid policy"
    and "set rs \<subseteq> pr_request ` set (tb_probes expected)" "set rs \<subseteq> pr_request ` set (tb_probes observed)"
    and "compare_probes policy (tb_probes expected) (tb_probes observed) rs n = Inl err"
  shows "err = Numeric_Mismatch"
  using assms(4-)
proof (induction rs arbitrary: n)
  case (Cons r rs)
  obtain e v where ev: "e \<in> set (tb_probes expected)" "pr_request e = r" "v \<in> set (tb_probes observed)" "pr_request v = r"
    using Cons.prems by auto
  then have look: "probes_by_key (tb_probes expected) (request_key r) = Some e"
    "probes_by_key (tb_probes observed) (request_key r) = Some v"
    using bundle_validD(1) [OF assms(1)] bundle_validD(1) [OF assms(2)] by (simp_all add: probes_by_key_Some)
  obtain t where t: "tolerance_for policy (rq_kind r) = Inr t" by (rule tolerance_for_total [OF assms(3)])
  have "length (pr_values e) = length (pr_values v)"
    using bundle_validD(2) [OF assms(1) ev(1)] bundle_validD(2) [OF assms(2) ev(3)] ev by simp
  then have "compare_values t (pr_values e) (pr_values v) n = Inl x \<Longrightarrow> x = Numeric_Mismatch" for x
    using compare_values_error bundle_validD(3) [OF assms(1) ev(1)] bundle_validD(3) [OF assms(2) ev(3)] by blast
  with Cons.IH Cons.prems show ?case by (auto simp: look t bindE_Inl_iff)
qed simp

section \<open>Properties\<close>

lemma residue_share: "card {c. c < unbiased_limit n \<and> c mod n = i} = (if i < n then 2 ^ 256 div n else 0)"
proof (cases "i < n")
  case False
  then have none: "\<not> (c < unbiased_limit n \<and> c mod n = i)" for c
    by (cases "n = 0") (auto simp: unbiased_limit_def)
  show ?thesis using False by (simp add: none)
qed (simp add: residue_candidates)

text \<open>
  C32: sampling tensor indices ends, without modulo bias.  The rejection loop returns the first
  \<open>wanted\<close> distinct residues of the accepted draws, in ascending order, and raises only if the
  \<open>2^64\<close> draws that have an eight-byte counter contain fewer (or \<open>n\<close>, the modulus, is 0); and every index below \<open>n\<close> is the
  residue of the same number of accepted 256-bit candidates.
\<close>

theorem sample_indices_terminates:
  "sample_indices seed domain n wanted =
     (if n = 0 then Inl Zero_Division
      else if wanted \<le> card (residues seed domain n (2 ^ 64))
      then Inr (sorted_list_of_set (residues seed domain n (draws_needed seed domain n wanted)))
      else Inl Counter_Overflow)
   \<and> card {c. c < unbiased_limit n \<and> c mod n = i} = (if i < n then 2 ^ 256 div n else 0)"
  by (simp only: sample_indices_result residue_share simp_thms)

text \<open>
  Which plans yield a challenge.  For constructed targets the generator returns a challenge
  exactly when the plan is well formed (its conditions written out in \<open>plan_ok\<close>) and every slice
  finds its indices within the 64-bit counter; a malformed plan is refused as invalid and nothing
  else is raised: the constructors it calls never refuse.
\<close>

theorem generate_accepts_iff:
  assumes "\<forall>t \<in> set (pl_targets p). probe_target_new t = Inr t"
  shows "(is_ok (generate_correctness_challenge p) \<longleftrightarrow> plan_ok p \<and> slots_sampled p (the (from_hex (pl_seed p))))
    \<and> (generate_correctness_challenge p = Inl e \<longleftrightarrow>
      (if plan_ok p then \<not> slots_sampled p (the (from_hex (pl_seed p))) \<and> e = Counter_Overflow else e = Correctness_Invalid))"
  using generate_result [OF assms] by (auto simp: Let_def)

definition sample_targets :: "probe_target list" where
  "sample_targets = map (\<lambda>k. \<lparr>tg_kind = k, tg_tensor_name = ''w'', tg_element_count = 1\<rparr>) proof_kinds"

definition sample_plan :: challenge_plan where
  "sample_plan = \<lparr>pl_seed = replicate 64 CHR ''a'', pl_script_digest = digest_text (replicate 64 CHR ''b''),
     pl_hyperparameters_digest = digest_text (replicate 64 CHR ''c''), pl_checkpoint_step = 10,
     pl_candidate_steps = [7], pl_targets = sample_targets, pl_selected_step_count = 1, pl_values_per_target = 1\<rparr>"

lemma sample_targets_ok: "\<forall>t \<in> set sample_targets. probe_target_new t = Inr t"
  by (simp add: sample_targets_def proof_kinds_def probe_target_new_Inr in_range_def is_tensor_name_def char_class_defs)

lemma sample_plan_ok: "plan_ok sample_plan"
  by (simp add: sample_plan_def plan_ok_def sample_targets_def proof_kinds_def in_range_def)

text \<open>A slice of one element takes its index from the first draw.\<close>

lemma residues_one: "residues seed domain 1 (2 ^ 64) = {0}"
proof -
  have "draw seed domain 0 < unbiased_limit 1"
    using be_nat_less [of "hmac_sha256 seed (domain @ be_bytes 8 0)"] by (simp add: draw_def unbiased_limit_def)
  then have "(0::nat) \<in> {c. c < 2 ^ 64 \<and> draw seed domain c < unbiased_limit 1}" by simp
  then show ?thesis unfolding residues_def by (auto simp: image_iff intro!: exI [of _ 0])
qed

lemma sample_slots_sampled: "slots_sampled sample_plan seed"
proof -
  have "tg_element_count (snd st) = 1" if "st \<in> set (plan_slots sample_plan seed)" for st
    using that by (auto simp: plan_slots_def sample_plan_def sample_targets_def)
  then show ?thesis using residues_one
    by (auto simp: slots_sampled_def slot_samples_def slot_residues_def sample_plan_def)
qed

theorem generate_accepts_iff_witness: "is_ok (generate_correctness_challenge sample_plan)"
  using generate_accepts_iff [of sample_plan Correctness_Invalid] sample_targets_ok sample_plan_ok sample_slots_sampled
  by (simp add: sample_plan_def)

text \<open>The order in which the generator visits the targets.\<close>

definition target_order :: "probe_target list \<Rightarrow> probe_target list" where
  "target_order = sort_key (\<lambda>t. (proof_kind_value (tg_kind t), tg_tensor_name t))"

definition request_fits :: "challenge_plan \<Rightarrow> int \<times> probe_target \<Rightarrow> probe_request \<Rightarrow> bool" where
  "request_fits p st r \<longleftrightarrow>
     rq_step r = fst st \<and> rq_kind r = tg_kind (snd st) \<and> rq_tensor_name r = tg_tensor_name (snd st)
   \<and> sorted (rq_indices r) \<and> distinct (rq_indices r)
   \<and> int (length (rq_indices r)) = min (pl_values_per_target p) (tg_element_count (snd st))
   \<and> list_all (in_range 0 (tg_element_count (snd st) - 1)) (rq_indices r)"

text \<open>
  C31: a generated challenge is well formed and covers the plan.  Its constructor and those of its
  requests accept it, it carries the identities of the plan, and its requests are, in order, one
  per chosen step and target: the steps are distinct candidates, ascending and as many as asked
  for, and each request asks for as many distinct indices of its tensor as the plan and the tensor
  allow, all in range.
\<close>

theorem generated_challenge_covers:
  assumes "\<forall>t \<in> set (pl_targets p). probe_target_new t = Inr t" "generate_correctness_challenge p = Inr c"
  shows "correctness_challenge_new c = Inr c \<and> list_all (\<lambda>r. probe_request_new r = Inr r) (ch_requests c)
   \<and> ch_seed c = pl_seed p \<and> ch_script_digest c = pl_script_digest p
   \<and> ch_hyperparameters_digest c = pl_hyperparameters_digest p \<and> ch_checkpoint_step c = pl_checkpoint_step p
   \<and> (\<exists>steps. sorted steps \<and> distinct steps \<and> int (length steps) = pl_selected_step_count p
        \<and> set steps \<subseteq> set (pl_candidate_steps p)
        \<and> list_all2 (request_fits p) (List.product steps (target_order (pl_targets p))) (ch_requests c))"
proof -
  define seed where "seed = the (from_hex (pl_seed p))"
  have ok: "plan_ok p" and sampled: "slots_sampled p seed"
    and c: "c = \<lparr>ch_seed = pl_seed p, ch_script_digest = pl_script_digest p,
      ch_hyperparameters_digest = pl_hyperparameters_digest p, ch_checkpoint_step = pl_checkpoint_step p,
      ch_requests = map (slot_request p seed) (plan_slots p seed)\<rparr>"
    using assms(2) generate_result [OF assms(1)] by (simp_all add: Let_def seed_def split: if_splits)
  have v: "in_range 1 64 (pl_values_per_target p)" using ok by (simp add: plan_ok_def)
  have slot: "probe_request_new (slot_request p seed st) = Inr (slot_request p seed st)"
    "request_fits p st (slot_request p seed st)" if st: "st \<in> set (plan_slots p seed)" for st
  proof -
    have enough: "slot_samples p seed (fst st, snd st) \<le> card (slot_residues seed (fst st, snd st) (2 ^ 64))"
      using sampled st by (simp add: slots_sampled_def)
    note t = plan_slot_facts [OF ok assms(1) st]
    show "probe_request_new (slot_request p seed st) = Inr (slot_request p seed st)"
      using slot_request_ok [OF t(1) v t(3) enough] by simp
    have "int (slot_samples p seed st) = min (pl_values_per_target p) (tg_element_count (snd st))"
      using v t(1) by (auto simp: slot_samples_def in_range_def probe_target_new_Inr)
    moreover have "rq_step (slot_request p seed st) = fst st" "rq_kind (slot_request p seed st) = tg_kind (snd st)"
      "rq_tensor_name (slot_request p seed st) = tg_tensor_name (snd st)" by (simp_all add: slot_request_def)
    ultimately show "request_fits p st (slot_request p seed st)"
      using slot_indices(1-4) [OF t(1) v enough] by (simp add: request_fits_def list_all_iff)
  qed
  let ?steps = "sort (selected_steps p seed)"
  have "int (length ?steps) = pl_selected_step_count p" using selected_steps_facts(2) [OF ok] ok by (simp add: plan_ok_def in_range_def)
  moreover have "list_all2 (request_fits p) (List.product ?steps (target_order (pl_targets p))) (ch_requests c)"
    using slot(2) by (simp add: c plan_slots_def target_order_def list_all2_map2 list_all2_same)
  moreover have "sorted ?steps" "distinct ?steps" "set ?steps \<subseteq> set (pl_candidate_steps p)"
    using selected_steps_facts [OF ok, of seed] by simp_all
  ultimately have "\<exists>steps. sorted steps \<and> distinct steps \<and> int (length steps) = pl_selected_step_count p
      \<and> set steps \<subseteq> set (pl_candidate_steps p)
      \<and> list_all2 (request_fits p) (List.product steps (target_order (pl_targets p))) (ch_requests c)" by blast
  moreover have "correctness_challenge_new c = Inr c" unfolding c by (rule generated_challenge_new [OF ok assms(1) sampled])
  moreover have "list_all (\<lambda>r. probe_request_new r = Inr r) (ch_requests c)" using slot(1) by (auto simp: c list_all_iff)
  ultimately show ?thesis by (simp add: c)
qed

theorem generated_challenge_covers_witness:
  "\<exists>c. generate_correctness_challenge sample_plan = Inr c \<and> correctness_challenge_new c = Inr c"
proof -
  have "generate_correctness_challenge sample_plan \<noteq> Inl e" for e
    using generate_result [of sample_plan] sample_targets_ok sample_plan_ok sample_slots_sampled
    by (simp add: sample_plan_def Let_def)
  then obtain c where c: "generate_correctness_challenge sample_plan = Inr c" by (metis old.sum.exhaust)
  have "\<forall>t \<in> set (pl_targets sample_plan). probe_target_new t = Inr t" using sample_targets_ok by (simp add: sample_plan_def)
  from generated_challenge_covers [OF this c] c show ?thesis by blast
qed

text \<open>
  C30: exactly when training evidence is accepted, and with which counts.  Reference and observation
  carry the identities and the checkpoint step of the challenge, answer exactly its requests,
  commit to the same checkpoint root, and every pair of values of a request passes the tolerance
  of its kind; then every probe and every value was checked.
\<close>

theorem correctness_accepts_iff:
  assumes "bundle_valid expected" "bundle_valid observed"
  shows "correctness_verify policy c expected observed = Inr res \<longleftrightarrow>
     (\<forall>b \<in> {expected, observed}. tb_script_digest b = ch_script_digest c
        \<and> tb_hyperparameters_digest b = ch_hyperparameters_digest c \<and> tb_checkpoint_step b = ch_checkpoint_step c
        \<and> pr_request ` set (tb_probes b) = set (ch_requests c))
   \<and> tb_checkpoint_root expected = tb_checkpoint_root observed
   \<and> (\<forall>e \<in> set (tb_probes expected). \<forall>v \<in> set (tb_probes observed).
        pr_request v = pr_request e \<longrightarrow> probe_agrees policy e v)
   \<and> res = \<lparr>cs_checked_probes = length (ch_requests c),
            cs_checked_values = (\<Sum>r \<leftarrow> ch_requests c. length (rq_indices r)),
            cs_checkpoint_root = tb_checkpoint_root observed\<rparr>"
  by (rule correctness_verify_Inr [OF assms])

definition sample_policy :: correctness_policy where
  "sample_policy = map (\<lambda>k. (k, sample_tolerance)) proof_kinds"

definition sample_request :: probe_request where
  "sample_request = \<lparr>rq_kind = Loss, rq_step = 7, rq_tensor_name = ''loss'', rq_indices = [0]\<rparr>"

definition sample_challenge :: correctness_challenge where
  "sample_challenge = \<lparr>ch_seed = replicate 64 CHR ''a'', ch_script_digest = digest_text (replicate 64 CHR ''b''),
     ch_hyperparameters_digest = digest_text (replicate 64 CHR ''c''), ch_checkpoint_step = 10,
     ch_requests = [sample_request]\<rparr>"

text \<open>A run whose one probe has the given value.\<close>

definition sample_run_bundle :: "decimal \<Rightarrow> training_proof_bundle" where
  "sample_run_bundle x = \<lparr>tb_script_digest = digest_text (replicate 64 CHR ''b''),
     tb_hyperparameters_digest = digest_text (replicate 64 CHR ''c''), tb_checkpoint_step = 10,
     tb_checkpoint_root = digest_text (replicate 64 CHR ''d''),
     tb_probes = [\<lparr>pr_request = sample_request, pr_values = [x]\<rparr>]\<rparr>"

lemma sample_run_bundle_valid: "decimal_check x = Inr () \<Longrightarrow> bundle_valid (sample_run_bundle x)"
  by (simp add: bundle_valid_def sample_run_bundle_def training_proof_bundle_new_def probe_result_new_def sample_request_def
      correctness_digest_def correctness_integer_def in_range_def max_probes_def)

lemma sample_decimals: "decimal_check (Finite 25 (- 1)) = Inr ()" "decimal_check (Finite 2502 (- 3)) = Inr ()"
  "decimal_check (Finite 2503 (- 3)) = Inr ()"
  by (simp_all add: decimal_check_def in_range_def)

theorem correctness_accepts_iff_witness:
  "correctness_verify sample_policy sample_challenge (sample_run_bundle (Finite 25 (- 1))) (sample_run_bundle (Finite 2502 (- 3)))
     = Inr \<lparr>cs_checked_probes = 1, cs_checked_values = 1, cs_checkpoint_root = digest_text (replicate 64 CHR ''d'')\<rparr>
   \<and> (\<nexists>res. correctness_verify sample_policy sample_challenge (sample_run_bundle (Finite 25 (- 1))) (sample_run_bundle (Finite 2503 (- 3)))
     = Inr res)"
  unfolding correctness_accepts_iff [OF sample_run_bundle_valid sample_run_bundle_valid, OF sample_decimals(1) sample_decimals(2)]
    correctness_accepts_iff [OF sample_run_bundle_valid sample_run_bundle_valid, OF sample_decimals(1) sample_decimals(3)]
  by (simp add: sample_run_bundle_def sample_challenge_def sample_request_def sample_policy_def proof_kinds_def
      probe_agrees_def sample_tolerance_accepts)

lemma decimal_accepts_itself:
  assumes "numeric_tolerance_new t = Inr t" "decimal_check x = Inr ()"
  shows "tolerance_accepts t x x = Inr True"
proof -
  have "rounds_to 0 (rat_value (decimal_sub (decimal_parts x) (decimal_parts x)))"
    using decimal_sub_value [of "decimal_parts x" "decimal_parts x"] by simp
  then have "rat_value (decimal_sub (decimal_parts x) (decimal_parts x)) = 0" by (simp add: rounds_to_def)
  then have "rounds_to 0 (rat_value (decimal_abs (decimal_sub (decimal_parts x) (decimal_parts x))))"
    using decimal_abs_value [of "decimal_sub (decimal_parts x) (decimal_parts x)"] by simp
  then have "rat_value (decimal_abs (decimal_sub (decimal_parts x) (decimal_parts x))) = 0" by (simp add: rounds_to_def)
  then show ?thesis
    using assms tolerance_new_nonnegative [OF assms(1)]
    by (simp add: tolerance_accepts_def decimal_le_value decimal_max_value le_max_iff_disj Let_def)
qed

text \<open>
  An exact reproduction is accepted.  Whatever the tolerances of the policy, a run that
  answers the challenge and reproduces the reference bit for bit passes.
\<close>

theorem correctness_reproduction_accepted:
  assumes "policy_valid policy" "bundle_valid b"
    and "tb_script_digest b = ch_script_digest c" "tb_hyperparameters_digest b = ch_hyperparameters_digest c"
    and "tb_checkpoint_step b = ch_checkpoint_step c" "pr_request ` set (tb_probes b) = set (ch_requests c)"
  shows "is_ok (correctness_verify policy c b b)"
proof -
  have "probe_agrees policy e v" if "e \<in> set (tb_probes b)" "v \<in> set (tb_probes b)" "pr_request v = pr_request e" for e v
  proof -
    have "v = e" using that bundle_validD(1) [OF assms(2)] by (auto simp: distinct_map inj_on_def)
    obtain t where t: "tolerance_for policy (rq_kind (pr_request e)) = Inr t" "numeric_tolerance_new t = Inr t"
      by (rule tolerance_for_total [OF assms(1)])
    then have "list_all2 (\<lambda>x y. tolerance_accepts t x y = Inr True) (pr_values e) (pr_values e)"
      using bundle_validD(3) [OF assms(2) that(1)] by (simp add: list_all2_same decimal_accepts_itself)
    with t(1) show ?thesis by (auto simp: probe_agrees_def \<open>v = e\<close>)
  qed
  then have "correctness_verify policy c b b = Inr \<lparr>cs_checked_probes = length (ch_requests c),
      cs_checked_values = (\<Sum>r \<leftarrow> ch_requests c. length (rq_indices r)), cs_checkpoint_root = tb_checkpoint_root b\<rparr>"
    unfolding correctness_verify_Inr [OF assms(2,2)] using assms(3-) by auto
  then show ?thesis by simp
qed

lemma sample_policy_valid: "policy_valid sample_policy"
  by (simp add: policy_valid_def correctness_policy_new_def sample_policy_def proof_kinds_def sample_tolerance_accepts)

theorem correctness_reproduction_accepted_witness:
  "is_ok (correctness_verify sample_policy sample_challenge (sample_run_bundle (Finite 25 (- 1))) (sample_run_bundle (Finite 25 (- 1))))"
  by (rule correctness_reproduction_accepted [OF sample_policy_valid sample_run_bundle_valid [OF sample_decimals(1)]])
    (simp_all add: sample_run_bundle_def sample_challenge_def)

text \<open>
  Verification fails with a stable code.  On constructed inputs it raises only the codes for
  wrong identities, a stale step, another checkpoint, missing or unexpected probes and deviating
  values: the strict \<open>zip\<close>, the decimals and the policy lookup never raise.
\<close>

theorem correctness_failure_codes:
  assumes "policy_valid policy" "bundle_valid expected" "bundle_valid observed"
    and "correctness_verify policy c expected observed = Inl err"
  shows "err \<in> {Identity_Mismatch, Stale_Checkpoint, Checkpoint_Mismatch, Missing_Probe, Unexpected_Probe, Numeric_Mismatch}"
proof -
  have ident: "check_identity c bs = Inl x \<Longrightarrow> x \<in> {Identity_Mismatch, Stale_Checkpoint}" for bs x
    by (induction c bs rule: check_identity.induct) (auto split: if_splits)
  have probes: "err = Numeric_Mismatch"
    if "set (map request_key (ch_requests c)) \<subseteq> set (map (request_key \<circ> pr_request) (tb_probes expected))"
      "set (map request_key (ch_requests c)) \<subseteq> set (map (request_key \<circ> pr_request) (tb_probes observed))"
      "compare_probes policy (tb_probes expected) (tb_probes observed) (ch_requests c) 0 = Inl err"
    by (rule compare_probes_error [OF assms(2,3,1) _ _ that(3)]) (use that(1,2) in auto)
  show ?thesis
    using assms(4) ident probes unfolding correctness_verify_def Let_def bindE_Inl_iff
    by (auto split: if_splits simp: bindE_Inl_iff)
qed

theorem correctness_failure_codes_witness:
  "\<exists>err. correctness_verify sample_policy sample_challenge (sample_run_bundle (Finite 25 (- 1)))
      (sample_run_bundle (Finite 2503 (- 3))) = Inl err
   \<and> err \<in> {Identity_Mismatch, Stale_Checkpoint, Checkpoint_Mismatch, Missing_Probe, Unexpected_Probe, Numeric_Mismatch}"
proof -
  let ?v = "correctness_verify sample_policy sample_challenge (sample_run_bundle (Finite 25 (- 1))) (sample_run_bundle (Finite 2503 (- 3)))"
  have "?v = Inl Numeric_Mismatch"
    by (simp add: correctness_verify_def sample_run_bundle_def sample_challenge_def sample_request_def sample_policy_def
        proof_kinds_def request_key_def probes_by_key_def sample_tolerance_accepts)
  from this correctness_failure_codes [OF sample_policy_valid sample_run_bundle_valid sample_run_bundle_valid this,
      OF sample_decimals(1) sample_decimals(3)]
  show ?thesis by blast
qed

end
