(* ===== verification/Runner.thy ===== *)
theory Runner
  imports Sizes
begin

text \<open>
  The trusted side of the training runner, \<open>src/gpuforge/runner.py\<close>: the contract, the canonical
  progress events, the frames of the process transport and \<open>TrainingSupervisor.run\<close>.  The process,
  the checkpoint store, the cancellation token and the clock are the environment: what they answer
  in one round of the loop is a \<open>tick\<close>, and what the supervisor asks of them is the list of its
  \<open>process_call\<close>s.  They are taken to answer; an exception of theirs that the source does not
  catch is not modelled.  The stack that the interpreter has left when an event is decoded is part
  of the environment too: an event nested too deeply for it makes \<open>json.loads\<close> raise.
\<close>

section \<open>The contract\<close>

datatype runner_code =
    Invalid_Event | Event_Limit | Log_Limit | Checkpoint_Limit | Checkpoint_Failed | Process_Failed
  | Cancellation_Ignored | Timed_Out

datatype runner_error =
    Runner_Failure runner_code
  | Runner_Value_Error string
  | Runner_Digit_Limit     \<comment> \<open>the \<open>ValueError\<close> of \<open>json.loads\<close>\<close>
  | Runner_Recursion       \<comment> \<open>a \<open>RecursionError\<close>\<close>

definition max_event_bytes :: int where
  "max_event_bytes = 16384"

definition max_frame_bytes :: int where
  "max_frame_bytes = 67108864"

definition runner_integer :: "string \<Rightarrow> int \<Rightarrow> int \<Rightarrow> int \<Rightarrow> runner_error + unit" where
  "runner_integer label i lo hi = require (in_range lo hi i) (Runner_Value_Error label)"

definition runner_digest :: "string \<Rightarrow> string \<Rightarrow> runner_error + unit" where
  "runner_digest label s = require (is_digest s) (Runner_Value_Error label)"

definition runner_code_text :: "string \<Rightarrow> string \<Rightarrow> runner_error + unit" where
  "runner_code_text label s = require (is_code s) (Runner_Value_Error label)"

record runner_contract =
  ct_job_digest :: string
  ct_lease_digest :: string
  ct_deterministic_seed :: int
  ct_max_steps :: int
  ct_checkpoint_interval_steps :: int
  ct_max_runtime_ms :: int
  ct_max_log_bytes :: int
  ct_max_checkpoint_bytes :: int
  ct_max_events :: int
  ct_cancellation_grace_frames :: int

definition runner_contract_new :: "runner_contract \<Rightarrow> runner_error + runner_contract" where
  "runner_contract_new c = passes
     [runner_digest ''job digest'' (ct_job_digest c),
      runner_digest ''lease digest'' (ct_lease_digest c),
      runner_integer ''deterministic seed'' (ct_deterministic_seed c) 0 max_int64,
      runner_integer ''maximum steps'' (ct_max_steps c) 1 max_int64,
      runner_integer ''checkpoint interval'' (ct_checkpoint_interval_steps c) 1 (ct_max_steps c),
      runner_integer ''maximum runtime'' (ct_max_runtime_ms c) 1000 86400000,
      runner_integer ''maximum log bytes'' (ct_max_log_bytes c) 0 67108864,
      runner_integer ''maximum checkpoint bytes'' (ct_max_checkpoint_bytes c) 1 1099511627776,
      runner_integer ''maximum events'' (ct_max_events c) 2 1000000,
      runner_integer ''cancellation grace frames'' (ct_cancellation_grace_frames c) 1 1000] c"

definition trusted_environment :: "runner_contract \<Rightarrow> (string \<times> string) list" where
  "trusted_environment c =
     [(''GPUFORGE_JOB_DIGEST'', ct_job_digest c),
      (''GPUFORGE_LEASE_DIGEST'', ct_lease_digest c),
      (''GPUFORGE_RUNNER_SEED'', show_int (ct_deterministic_seed c))]"

section \<open>Progress events\<close>

datatype event_kind = Started | Progress | Checkpointed | Completed | Failed | Cancelled

definition event_kind_value :: "event_kind \<Rightarrow> string" where
  "event_kind_value k =
     (case k of
        Started \<Rightarrow> ''started''
      | Progress \<Rightarrow> ''progress''
      | Checkpointed \<Rightarrow> ''checkpointed''
      | Completed \<Rightarrow> ''completed''
      | Failed \<Rightarrow> ''failed''
      | Cancelled \<Rightarrow> ''cancelled'')"

definition event_kinds :: "event_kind list" where
  "event_kinds = [Started, Progress, Checkpointed, Completed, Failed, Cancelled]"

text \<open>
  The stack that is left to the interpreter: how many containers inside the outermost one
  \<open>json.loads\<close> can enter, and \<open>repr\<close> in the message of a \<open>ValueError\<close>.
\<close>

record stack_room =
  sr_scan :: nat
  sr_repr :: nat

text \<open>\<open>EventKind(value)\<close>; its \<open>ValueError\<close> quotes the value.\<close>

definition event_kind_of :: "stack_room \<Rightarrow> json \<Rightarrow> runner_error + event_kind" where
  "event_kind_of room v =
     (case v of
        JStr s \<Rightarrow> (case find (\<lambda>k. event_kind_value k = s) event_kinds of
                     Some k \<Rightarrow> Inr k | None \<Rightarrow> Inl (Runner_Value_Error ''EventKind''))
      | _ \<Rightarrow> if json_nesting v > Suc (sr_repr room) then Inl Runner_Recursion
             else Inl (Runner_Value_Error ''EventKind''))"

record progress_event =
  pe_sequence :: int
  pe_kind :: event_kind
  pe_step :: int
  pe_elapsed_ms :: int
  pe_output_digest :: "string option"
  pe_error_code :: "string option"

definition event_shape :: "progress_event \<Rightarrow> bool" where
  "event_shape e =
     (if pe_kind e \<in> {Checkpointed, Completed} then pe_output_digest e \<noteq> None \<and> pe_error_code e = None
      else if pe_kind e = Failed then pe_error_code e \<noteq> None \<and> pe_output_digest e = None
      else pe_output_digest e = None \<and> pe_error_code e = None)"

definition progress_event_new :: "progress_event \<Rightarrow> runner_error + progress_event" where
  "progress_event_new e = passes
     [runner_integer ''event sequence'' (pe_sequence e) 0 max_int64,
      runner_integer ''event step'' (pe_step e) 0 max_int64,
      runner_integer ''event elapsed time'' (pe_elapsed_ms e) 0 86400000,
      (case pe_output_digest e of None \<Rightarrow> Inr () | Some d \<Rightarrow> runner_digest ''event output digest'' d),
      (case pe_error_code e of None \<Rightarrow> Inr () | Some s \<Rightarrow> runner_code_text ''event error code'' s),
      require (event_shape e) (Runner_Failure Invalid_Event),
      require (\<not> (pe_kind e = Started \<and> (pe_sequence e \<noteq> 0 \<or> pe_step e \<noteq> 0))) (Runner_Failure Invalid_Event)] e"

definition event_primitive :: "progress_event \<Rightarrow> json" where
  "event_primitive e = JObj
     [(''elapsed_ms'', JInt (pe_elapsed_ms e)),
      (''error_code'', optional_text (pe_error_code e)),
      (''kind'', JStr (event_kind_value (pe_kind e))),
      (''output_digest'', optional_text (pe_output_digest e)),
      (''sequence'', JInt (pe_sequence e)),
      (''step'', JInt (pe_step e))]"

definition event_bytes :: "progress_event \<Rightarrow> runner_error + bytes" where
  "event_bytes e =
     (let value = json_dumps True (event_primitive e) in
      if int (length value) > max_event_bytes then Inl (Runner_Failure Invalid_Event) else Inr value)"

text \<open>\<open>json.loads\<close> with the runner's \<open>_unique_object\<close>; floats and constants are decoded as usual.\<close>

definition runner_hooks :: "stack_room \<Rightarrow> json_hooks" where
  "runner_hooks room = \<lparr>float_hook = Inr \<circ> JFloat, const_hook = Inr \<circ> JConst, pairs_hook = unique_object,
     nesting_limit = Some (Suc (sr_scan room))\<rparr>"

definition raw_integer :: "json \<Rightarrow> runner_error + int" where
  "raw_integer v = (case v of JInt i \<Rightarrow> Inr i | _ \<Rightarrow> Inl (Runner_Failure Invalid_Event))"

definition raw_optional_text :: "json \<Rightarrow> runner_error + string option" where
  "raw_optional_text v =
     (case v of JNull \<Rightarrow> Inr None | JStr s \<Rightarrow> Inr (Some s) | _ \<Rightarrow> Inl (Runner_Failure Invalid_Event))"

definition event_of_fields :: "stack_room \<Rightarrow> (string \<times> json) list \<Rightarrow> runner_error + progress_event" where
  "event_of_fields room d =
     bindE (raw_integer (field d ''sequence'')) (\<lambda>sequence.
     bindE (event_kind_of room (field d ''kind'')) (\<lambda>kind.
     bindE (raw_integer (field d ''step'')) (\<lambda>step.
     bindE (raw_integer (field d ''elapsed_ms'')) (\<lambda>elapsed_ms.
     bindE (raw_optional_text (field d ''output_digest'')) (\<lambda>output_digest.
     bindE (raw_optional_text (field d ''error_code'')) (\<lambda>error_code.
     progress_event_new
       \<lparr>pe_sequence = sequence, pe_kind = kind, pe_step = step, pe_elapsed_ms = elapsed_ms,
        pe_output_digest = output_digest, pe_error_code = error_code\<rparr>))))))"

text \<open>\<open>except (TypeError, ValueError)\<close>; a \<open>RecursionError\<close> is neither.\<close>

definition hide_value_error :: "runner_error \<Rightarrow> runner_error" where
  "hide_value_error e = (case e of Runner_Failure c \<Rightarrow> Runner_Failure c | Runner_Recursion \<Rightarrow> Runner_Recursion | _ \<Rightarrow> Runner_Failure Invalid_Event)"

definition event_from_bytes :: "stack_room \<Rightarrow> bytes \<Rightarrow> runner_error + progress_event" where
  "event_from_bytes room value =
     (if \<not> (1 \<le> length value \<and> int (length value) \<le> max_event_bytes) then Inl (Runner_Failure Invalid_Event)
      else
        case json_loads_bytes (runner_hooks room) value of
          Inl Json_Int_Limit \<Rightarrow> Inl Runner_Digit_Limit
        | Inl Json_Recursion \<Rightarrow> Inl Runner_Recursion
        | Inl _ \<Rightarrow> Inl (Runner_Failure Invalid_Event)
        | Inr decoded \<Rightarrow>
            (case decoded of
               JObj d \<Rightarrow>
                 if \<not> has_keys d [''elapsed_ms'', ''error_code'', ''kind'', ''output_digest'', ''sequence'', ''step'']
                 then Inl (Runner_Failure Invalid_Event)
                 else
                   bindE (map_error hide_value_error (event_of_fields room d)) (\<lambda>event.
                   bindE (event_bytes event) (\<lambda>b.
                   if b \<noteq> value then Inl (Runner_Failure Invalid_Event) else Inr event))
             | _ \<Rightarrow> Inl (Runner_Failure Invalid_Event)))"

section \<open>Frames, checkpoints and outcomes\<close>

datatype frame_kind = Event_Frame | Log_Frame | Checkpoint_Frame

record runner_frame =
  fr_kind :: frame_kind
  fr_payload :: bytes
  fr_step :: "int option"

definition runner_frame_new :: "runner_frame \<Rightarrow> runner_error + runner_frame" where
  "runner_frame_new f = passes
     [require (int (length (fr_payload f)) \<le> max_frame_bytes) (Runner_Failure Invalid_Event),
      (if fr_kind f = Checkpoint_Frame
       then (case fr_step f of
               None \<Rightarrow> Inl (Runner_Failure Invalid_Event)
             | Some s \<Rightarrow> runner_integer ''checkpoint step'' s 1 max_int64)
       else require (fr_step f = None) (Runner_Failure Invalid_Event))] f"

record checkpoint_record =
  kr_step :: int
  kr_digest :: string
  kr_size :: int

definition checkpoint_record_new :: "checkpoint_record \<Rightarrow> runner_error + checkpoint_record" where
  "checkpoint_record_new r = passes
     [runner_integer ''checkpoint step'' (kr_step r) 1 max_int64,
      runner_digest ''checkpoint digest'' (kr_digest r),
      runner_integer ''checkpoint size'' (kr_size r) 0 1099511627776] r"

datatype runner_status = Run_Completed | Run_Cancelled

record training_outcome =
  to_status :: runner_status
  to_result_digest :: "string option"
  to_checkpoints :: "checkpoint_record list"
  to_event_count :: int
  to_log_bytes :: int
  to_log_digest :: string
  to_exit_code :: int
  to_terminal_error :: "runner_code option"

section \<open>The environment\<close>

text \<open>What \<open>checkpoint_sink.commit\<close> does when it is called.\<close>

datatype commit_outcome = Committed string | Commit_Failure runner_code | Commit_Raises

text \<open>
  One round: the clock, the cancellation token, the next frame (\<open>None\<close> when the transport has
  none), the answer of the checkpoint store and the stack that is left.
\<close>

record tick =
  tk_clock :: int
  tk_cancelled :: bool
  tk_frame :: "runner_frame option"
  tk_commit :: commit_outcome
  tk_room :: stack_room

datatype process_call = Request_Checkpoint | Request_Cancel | Terminate | Commit_Checkpoint int

section \<open>The supervisor\<close>

record supervisor =
  sv_expected_sequence :: int
  sv_last_step :: int
  sv_event_count :: int
  sv_log_bytes :: int
  sv_log :: bytes
  sv_checkpoints :: "(int \<times> checkpoint_record) list"
  sv_terminal :: "progress_event option"
  sv_cancel_requested :: bool
  sv_timed_out :: bool
  sv_grace_frames :: int
  sv_calls :: "process_call list"

text \<open>The state before the loop; \<open>sv_log\<close> is what the log hash has been fed.\<close>

definition supervisor_start :: supervisor where
  "supervisor_start = \<lparr>sv_expected_sequence = 0, sv_last_step = 0, sv_event_count = 0, sv_log_bytes = 0, sv_log = [],
     sv_checkpoints = [], sv_terminal = None, sv_cancel_requested = False, sv_timed_out = False, sv_grace_frames = 0,
     sv_calls = []\<rparr>"

datatype tick_result = Proceed | Stream_End | Raises runner_error

definition call_process :: "process_call list \<Rightarrow> supervisor \<Rightarrow> supervisor" where
  "call_process cs s = s\<lparr>sv_calls := sv_calls s @ cs\<rparr>"

definition abort_run :: "supervisor \<Rightarrow> runner_code \<Rightarrow> supervisor \<times> tick_result" where
  "abort_run s code = (call_process [Terminate] s, Raises (Runner_Failure code))"

definition poll_cancellation :: "runner_contract \<Rightarrow> int \<Rightarrow> tick \<Rightarrow> supervisor \<Rightarrow> supervisor" where
  "poll_cancellation c started_at t s =
     (if tk_clock t - started_at \<ge> ct_max_runtime_ms c \<and> \<not> sv_cancel_requested s
      then (call_process [Request_Checkpoint, Request_Cancel] s)\<lparr>sv_cancel_requested := True, sv_timed_out := True\<rparr>
      else if tk_cancelled t \<and> \<not> sv_cancel_requested s
      then (call_process [Request_Checkpoint, Request_Cancel] s)\<lparr>sv_cancel_requested := True\<rparr>
      else s)"

definition count_grace :: "supervisor \<Rightarrow> supervisor" where
  "count_grace s = (if sv_cancel_requested s then s\<lparr>sv_grace_frames := sv_grace_frames s + 1\<rparr> else s)"

definition handle_log :: "runner_contract \<Rightarrow> runner_frame \<Rightarrow> supervisor \<Rightarrow> supervisor \<times> tick_result" where
  "handle_log c f s =
     (let s = s\<lparr>sv_log_bytes := sv_log_bytes s + int (length (fr_payload f))\<rparr> in
      if sv_log_bytes s > ct_max_log_bytes c then abort_run s Log_Limit
      else (s\<lparr>sv_log := sv_log s @ fr_payload f\<rparr>, Proceed))"

definition checkpoint_refused :: "runner_contract \<Rightarrow> int \<Rightarrow> bytes \<Rightarrow> bool" where
  "checkpoint_refused c step payload \<longleftrightarrow>
     int (length payload) > ct_max_checkpoint_bytes c \<or> step > ct_max_steps c
   \<or> step mod ct_checkpoint_interval_steps c \<noteq> 0 \<and> step \<noteq> ct_max_steps c"

text \<open>\<open>_checkpoint\<close>: the calls it makes and its result.\<close>

definition take_checkpoint ::
  "runner_contract \<Rightarrow> runner_frame \<Rightarrow> commit_outcome \<Rightarrow> process_call list \<times> (runner_error + checkpoint_record)" where
  "take_checkpoint c f outcome =
     (case fr_step f of
        None \<Rightarrow> ([], Inl (Runner_Failure Invalid_Event))
      | Some step \<Rightarrow>
          if checkpoint_refused c step (fr_payload f) then ([], Inl (Runner_Failure Checkpoint_Limit))
          else
            ([Commit_Checkpoint step],
             case outcome of
               Commit_Failure code \<Rightarrow> Inl (Runner_Failure code)
             | Commit_Raises \<Rightarrow> Inl (Runner_Failure Checkpoint_Failed)
             | Committed digest \<Rightarrow>
                 if \<not> is_digest digest then Inl (Runner_Failure Checkpoint_Failed)
                 else checkpoint_record_new
                   \<lparr>kr_step = step, kr_digest = digest, kr_size = int (length (fr_payload f))\<rparr>))"

text \<open>Only a \<open>RunnerFailure\<close> is caught to terminate the process.\<close>

definition abort_on :: "supervisor \<Rightarrow> runner_error \<Rightarrow> supervisor \<times> tick_result" where
  "abort_on s e = (case e of Runner_Failure code \<Rightarrow> abort_run s code | _ \<Rightarrow> (s, Raises e))"

definition handle_checkpoint ::
  "runner_contract \<Rightarrow> runner_frame \<Rightarrow> commit_outcome \<Rightarrow> supervisor \<Rightarrow> supervisor \<times> tick_result" where
  "handle_checkpoint c f outcome s =
     (if sv_expected_sequence s = 0 then abort_run s Invalid_Event
      else
        (let (calls, r) = take_checkpoint c f outcome; s = call_process calls s in
         case r of
           Inl e \<Rightarrow> abort_on s e
         | Inr checkpoint \<Rightarrow>
             if map_of (sv_checkpoints s) (kr_step checkpoint) \<noteq> None then abort_run s Invalid_Event
             else (s\<lparr>sv_checkpoints := sv_checkpoints s @ [(kr_step checkpoint, checkpoint)]\<rparr>, Proceed)))"

definition handle_event :: "runner_contract \<Rightarrow> stack_room \<Rightarrow> runner_frame \<Rightarrow> supervisor \<Rightarrow> supervisor \<times> tick_result" where
  "handle_event c room f s =
     (let s = s\<lparr>sv_event_count := sv_event_count s + 1\<rparr> in
      if sv_event_count s > ct_max_events c then abort_run s Event_Limit
      else
        case event_from_bytes room (fr_payload f) of
          Inl e \<Rightarrow> abort_on s e
        | Inr event \<Rightarrow>
            if pe_sequence event \<noteq> sv_expected_sequence s then abort_run s Invalid_Event
            else if sv_expected_sequence s = 0 \<and> pe_kind event \<noteq> Started then abort_run s Invalid_Event
            else if sv_expected_sequence s > 0 \<and> pe_kind event = Started then abort_run s Invalid_Event
            else if pe_step event < sv_last_step s \<or> pe_step event > ct_max_steps c then abort_run s Invalid_Event
            else if pe_elapsed_ms event > ct_max_runtime_ms c then abort_run s Invalid_Event
            else if pe_kind event = Checkpointed
                 \<and> (case map_of (sv_checkpoints s) (pe_step event) of
                      None \<Rightarrow> True
                    | Some r \<Rightarrow> Some (kr_digest r) \<noteq> pe_output_digest event) then abort_run s Invalid_Event
            else
              (s\<lparr>sv_expected_sequence := sv_expected_sequence s + 1, sv_last_step := pe_step event,
                 sv_terminal := (if pe_kind event \<in> {Completed, Failed, Cancelled} then Some event else sv_terminal s)\<rparr>,
               Proceed))"

definition supervise_tick :: "runner_contract \<Rightarrow> int \<Rightarrow> tick \<Rightarrow> supervisor \<Rightarrow> supervisor \<times> tick_result" where
  "supervise_tick c started_at t s0 =
     (let s = poll_cancellation c started_at t s0 in
      case tk_frame t of
        None \<Rightarrow> (s, Stream_End)
      | Some f \<Rightarrow>
          (let s = count_grace s in
           if sv_cancel_requested s \<and> sv_grace_frames s > ct_cancellation_grace_frames c
           then abort_run s (if sv_timed_out s then Timed_Out else Cancellation_Ignored)
           else
             (case fr_kind f of
                Log_Frame \<Rightarrow> handle_log c f s
              | Checkpoint_Frame \<Rightarrow> handle_checkpoint c f (tk_commit t) s
              | Event_Frame \<Rightarrow> handle_event c (tk_room t) f s)))"

text \<open>
  The loop over the rounds the environment offers: \<open>None\<close> when it is still running after all of
  them, \<open>Some\<close> when it was left or raised.
\<close>

fun supervise ::
  "runner_contract \<Rightarrow> int \<Rightarrow> tick list \<Rightarrow> supervisor \<Rightarrow> supervisor \<times> (runner_error + unit) option" where
  "supervise c started_at ts s =
     (if sv_terminal s \<noteq> None then (s, Some (Inr ()))
      else
        case ts of
          [] \<Rightarrow> (s, None)
        | t # ts' \<Rightarrow>
            (case supervise_tick c started_at t s of
               (s', Proceed) \<Rightarrow> supervise c started_at ts' s'
             | (s', Stream_End) \<Rightarrow> (s', Some (Inr ()))
             | (s', Raises e) \<Rightarrow> (s', Some (Inl e))))"

declare supervise.simps [simp del]

definition run_outcome :: "supervisor \<Rightarrow> runner_status \<Rightarrow> string option \<Rightarrow> int \<Rightarrow> runner_code option \<Rightarrow> training_outcome" where
  "run_outcome s status result exit_code err =
     \<lparr>to_status = status, to_result_digest = result, to_checkpoints = map snd (sort_key fst (sv_checkpoints s)),
      to_event_count = sv_event_count s, to_log_bytes = sv_log_bytes s, to_log_digest = sha256_id (sv_log s),
      to_exit_code = exit_code, to_terminal_error = err\<rparr>"

text \<open>After the loop; \<open>exit\<close> is what \<open>process.wait\<close> returns.\<close>

definition finish_run :: "int option \<Rightarrow> supervisor \<Rightarrow> supervisor \<times> (runner_error + training_outcome)" where
  "finish_run exit s =
     (let missing = Runner_Failure (if sv_timed_out s then Timed_Out else Process_Failed) in
      case exit of
        None \<Rightarrow> (call_process [Terminate] s, Inl missing)
      | Some exit_code \<Rightarrow>
          (s,
           case sv_terminal s of
             None \<Rightarrow> Inl missing
           | Some terminal \<Rightarrow>
               if sv_timed_out s \<and> pe_kind terminal \<noteq> Cancelled then Inl (Runner_Failure Timed_Out)
               else if pe_kind terminal = Cancelled \<and> sv_cancel_requested s
               then Inr (run_outcome s Run_Cancelled None exit_code (if sv_timed_out s then Some Timed_Out else None))
               else if pe_kind terminal \<noteq> Completed \<or> exit_code \<noteq> 0 then Inl (Runner_Failure Process_Failed)
               else Inr (run_outcome s Run_Completed (pe_output_digest terminal) exit_code None)))"

definition run_training ::
  "runner_contract \<Rightarrow> int \<Rightarrow> tick list \<Rightarrow> int option \<Rightarrow> supervisor \<times> (runner_error + training_outcome) option" where
  "run_training c started_at ts exit =
     (case supervise c started_at ts supervisor_start of
        (s, None) \<Rightarrow> (s, None)
      | (s, Some (Inl e)) \<Rightarrow> (s, Some (Inl e))
      | (s, Some (Inr _)) \<Rightarrow> map_prod id Some (finish_run exit s))"

section \<open>Event encoding\<close>

interpretation runner_json: json_reader "runner_hooks room" for room
  by unfold_locales (simp add: runner_hooks_def unique_object_def)

lemma event_new_idem: "progress_event_new e = Inr e' \<Longrightarrow> e' = e"
  by (simp add: progress_event_new_def)

lemma event_ok_ints:
  assumes "progress_event_new e = Inr e"
  shows "in_range 0 max_int64 (pe_sequence e)" "in_range 0 max_int64 (pe_step e)" "in_range 0 max_int64 (pe_elapsed_ms e)"
  using assms by (auto simp: progress_event_new_def runner_integer_def in_range_def)

lemma event_kind_of_value [simp]: "event_kind_of room (JStr (event_kind_value k)) = Inr k"
  by (cases k) (simp_all add: event_kind_of_def event_kind_value_def event_kinds_def)

lemma raw_optional_text_of [simp]: "raw_optional_text (optional_text t) = Inr t"
  by (cases t) (simp_all add: raw_optional_text_def optional_text_def)

lemma event_primitive_sorted: "json_sort (event_primitive e) = event_primitive e"
  by (cases "pe_output_digest e"; cases "pe_error_code e") (simp_all add: event_primitive_def optional_text_def)

lemma event_primitive_plain:
  assumes "progress_event_new e = Inr e"
  shows "json_plain (event_primitive e)"
  using event_ok_ints [OF assms]
  by (cases "pe_output_digest e"; cases "pe_error_code e") (simp_all add: event_primitive_def optional_text_def)

lemma event_primitive_fields:
  obtains d where "event_primitive e = JObj d" "event_of_fields room d = progress_event_new e"
    "has_keys d [''elapsed_ms'', ''error_code'', ''kind'', ''output_digest'', ''sequence'', ''step'']"
  by (cases e) (simp add: event_primitive_def event_of_fields_def field_def raw_integer_def has_keys_def)

lemma event_from_bytes_Inr: "event_from_bytes room b = Inr e \<longleftrightarrow> progress_event_new e = Inr e \<and> event_bytes e = Inr b"
proof
  assume "event_from_bytes room b = Inr e"
  then obtain d where "event_of_fields room d = Inr e" "event_bytes e = Inr b"
    by (auto simp: event_from_bytes_def split: if_splits sum.splits json.splits json_error.splits)
  then show "progress_event_new e = Inr e \<and> event_bytes e = Inr b"
    using event_new_idem by (auto simp: event_of_fields_def)
next
  assume r: "progress_event_new e = Inr e \<and> event_bytes e = Inr b"
  then have b: "b = json_dumps True (event_primitive e)" "int (length b) \<le> max_event_bytes"
    by (auto simp: event_bytes_def Let_def split: if_splits)
  obtain d where d: "event_primitive e = JObj d" "event_of_fields room d = progress_event_new e"
    "has_keys d [''elapsed_ms'', ''error_code'', ''kind'', ''output_digest'', ''sequence'', ''step'']"
    using event_primitive_fields [of e room] by blast
  have "d \<noteq> []"
  proof
    assume "d = []"
    with d(3) show False by (simp add: has_keys_def)
  qed
  moreover have "may_nest (runner_hooks room) (json_nesting (event_primitive e))"
    by (cases "pe_output_digest e"; cases "pe_error_code e")
      (simp_all add: event_primitive_def optional_text_def may_nest_def runner_hooks_def)
  moreover have "json_plain (JObj d)" "json_sort (event_primitive e) = JObj d"
    using event_primitive_plain [of e] event_primitive_sorted [of e] r unfolding d(1) by blast+
  ultimately have "json_loads_bytes (runner_hooks room) (json_dumps True (event_primitive e)) = Inr (JObj d)"
    by (intro runner_json.loads_bytes_within) (simp_all only: d(1) simp_thms)
  then have "json_loads_bytes (runner_hooks room) b = Inr (event_primitive e)" by (simp only: b(1) d(1))
  moreover have "b \<noteq> []" unfolding b(1) d(1) by (rule json_dumps_nonempty)
  ultimately show "event_from_bytes room b = Inr e" using b(2) d r by (simp add: event_from_bytes_def Suc_le_eq)
qed


section \<open>What a run has consumed\<close>

text \<open>The frames of the rounds, by kind.\<close>

definition frames_of :: "frame_kind \<Rightarrow> tick list \<Rightarrow> runner_frame list" where
  "frames_of k ts = filter (\<lambda>f. fr_kind f = k) (List.map_filter tk_frame ts)"

definition log_of :: "tick list \<Rightarrow> bytes" where
  "log_of ts = concat (map fr_payload (frames_of Log_Frame ts))"

text \<open>A checkpoint that the store committed for a frame the contract allows.\<close>

definition checkpoint_taken :: "runner_contract \<Rightarrow> tick list \<Rightarrow> checkpoint_record \<Rightarrow> bool" where
  "checkpoint_taken c ts r \<longleftrightarrow>
     (\<exists>t \<in> set ts. \<exists>f. tk_frame t = Some f \<and> fr_kind f = Checkpoint_Frame \<and> fr_step f = Some (kr_step r)
        \<and> tk_commit t = Committed (kr_digest r) \<and> kr_size r = int (length (fr_payload f))
        \<and> \<not> checkpoint_refused c (kr_step r) (fr_payload f)) \<and> checkpoint_record_new r = Inr r"

definition final_event :: "progress_event \<Rightarrow> bool" where
  "final_event e \<longleftrightarrow> pe_kind e \<in> {Completed, Failed, Cancelled}"

text \<open>A log of events that follows the protocol.\<close>

definition events_ok :: "runner_contract \<Rightarrow> progress_event list \<Rightarrow> bool" where
  "events_ok c es \<longleftrightarrow>
     map pe_sequence es = map int [0..<length es] \<and> sorted (map pe_step es)
   \<and> map (\<lambda>e. pe_kind e = Started) es = map (\<lambda>i. i = 0) [0..<length es]
   \<and> (\<forall>e \<in> set es. 0 \<le> pe_step e \<and> pe_step e \<le> ct_max_steps c \<and> pe_elapsed_ms e \<le> ct_max_runtime_ms c)
   \<and> (\<forall>e \<in> set (butlast es). \<not> final_event e)"

definition checkpoints_ok :: "runner_contract \<Rightarrow> tick list \<Rightarrow> progress_event list \<Rightarrow> (int \<times> checkpoint_record) list \<Rightarrow> bool" where
  "checkpoints_ok c ts es cps \<longleftrightarrow>
     map (Some \<circ> fst) cps = map fr_step (frames_of Checkpoint_Frame ts) \<and> distinct (map fst cps)
   \<and> (\<forall>(k, r) \<in> set cps. kr_step r = k \<and> checkpoint_taken c ts r)
   \<and> (\<forall>e \<in> set es. pe_kind e = Checkpointed \<longrightarrow>
        (\<exists>r. (pe_step e, r) \<in> set cps \<and> pe_output_digest e = Some (kr_digest r)))"

definition consumed :: "runner_contract \<Rightarrow> tick list \<Rightarrow> progress_event list \<Rightarrow> supervisor \<Rightarrow> bool" where
  "consumed c ts es s \<longleftrightarrow>
     sv_log s = log_of ts \<and> sv_log_bytes s = int (length (log_of ts)) \<and> sv_log_bytes s \<le> ct_max_log_bytes c
   \<and> (\<forall>room. map (event_from_bytes room) (map fr_payload (frames_of Event_Frame ts)) = map Inr es)
   \<and> events_ok c es \<and> sv_expected_sequence s = int (length es)
   \<and> sv_event_count s = int (length es) \<and> sv_event_count s \<le> ct_max_events c
   \<and> sv_last_step s = (if es = [] then 0 else pe_step (last es))
   \<and> sv_terminal s = (if es \<noteq> [] \<and> final_event (last es) then Some (last es) else None)
   \<and> checkpoints_ok c ts es (sv_checkpoints s)"

lemma frames_of_simps [simp]:
  "frames_of k [] = []"
  "frames_of k (ts @ [t]) = frames_of k ts @ (case tk_frame t of None \<Rightarrow> [] | Some f \<Rightarrow> if fr_kind f = k then [f] else [])"
  by (auto simp: frames_of_def List.map_filter_def split: option.split)

lemma log_of_simps [simp]:
  "log_of [] = []"
  "log_of (ts @ [t]) = log_of ts @ (case tk_frame t of None \<Rightarrow> [] | Some f \<Rightarrow> if fr_kind f = Log_Frame then fr_payload f else [])"
  by (auto simp: log_of_def split: option.split)

lemma checkpoint_taken_snoc: "checkpoint_taken c ts r \<Longrightarrow> checkpoint_taken c (ts @ [t]) r"
  by (auto simp: checkpoint_taken_def)

lemma events_ok_snoc:
  assumes "events_ok c es" "pe_sequence e = int (length es)" "pe_kind e = Started \<longleftrightarrow> es = []"
    and "0 \<le> pe_step e" "es \<noteq> [] \<Longrightarrow> pe_step (last es) \<le> pe_step e" "es \<noteq> [] \<Longrightarrow> \<not> final_event (last es)"
    and "pe_step e \<le> ct_max_steps c" "pe_elapsed_ms e \<le> ct_max_runtime_ms c"
  shows "events_ok c (es @ [e])"
proof (cases es rule: rev_cases)
  case Nil
  then show ?thesis using assms by (simp add: events_ok_def)
next
  case (snoc ys y)
  then have "\<forall>x \<in> set ys. pe_step x \<le> pe_step y" "\<forall>x \<in> set ys. \<not> final_event x"
    using assms(1) by (auto simp: events_ok_def sorted_append)
  moreover have "pe_step y \<le> pe_step e" "\<not> final_event y" using assms(5,6) snoc by simp_all
  ultimately have "\<forall>x \<in> set es. pe_step x \<le> pe_step e" "\<forall>x \<in> set es. \<not> final_event x" using snoc by auto
  then show ?thesis using assms by (auto simp: events_ok_def sorted_append)
qed

lemma consumed_start [simp]: "0 \<le> ct_max_log_bytes c \<Longrightarrow> 0 \<le> ct_max_events c \<Longrightarrow> consumed c [] [] supervisor_start"
  by (simp add: consumed_def supervisor_start_def events_ok_def checkpoints_ok_def)

lemma consumed_poll [simp]: "consumed c ts es (poll_cancellation c t0 t s) \<longleftrightarrow> consumed c ts es s"
  by (simp add: consumed_def poll_cancellation_def call_process_def)

lemma consumed_grace [simp]: "consumed c ts es (count_grace s) \<longleftrightarrow> consumed c ts es s"
  by (simp add: consumed_def count_grace_def)

lemma terminal_poll [simp]: "sv_terminal (count_grace s) = sv_terminal s" "sv_terminal (poll_cancellation c t0 t s) = sv_terminal s"
  by (simp_all add: count_grace_def poll_cancellation_def call_process_def)

lemma checkpoints_ok_other:
  "checkpoints_ok c ts es cps \<Longrightarrow> (\<And>f. tk_frame t = Some f \<Longrightarrow> fr_kind f \<noteq> Checkpoint_Frame) \<Longrightarrow> checkpoints_ok c (ts @ [t]) es cps"
  by (fastforce simp: checkpoints_ok_def checkpoint_taken_snoc split: option.split)

lemma consumed_no_frame:
  assumes "consumed c ts es s" "tk_frame t = None"
  shows "consumed c (ts @ [t]) es s"
  using assms by (auto simp: consumed_def intro: checkpoints_ok_other)

lemma abort_run_result [simp]: "abort_run s code \<noteq> (s', Proceed)" "abort_run s code \<noteq> (s', Stream_End)"
  by (simp_all add: abort_run_def)

lemma abort_on_result [simp]: "abort_on s e \<noteq> (s', Proceed)" "abort_on s e \<noteq> (s', Stream_End)"
  by (simp_all add: abort_on_def split: runner_error.split)

lemma consumed_log:
  assumes "consumed c ts es s" "tk_frame t = Some f" "fr_kind f = Log_Frame" "handle_log c f s = (s', Proceed)"
  shows "consumed c (ts @ [t]) es s'"
  using assms by (auto simp: consumed_def handle_log_def Let_def split: if_splits intro: checkpoints_ok_other)

lemma take_checkpoint_Inr:
  assumes "take_checkpoint c f outcome = (calls, Inr r)"
  shows "fr_step f = Some (kr_step r)" "outcome = Committed (kr_digest r)" "kr_size r = int (length (fr_payload f))"
    "\<not> checkpoint_refused c (kr_step r) (fr_payload f)" "checkpoint_record_new r = Inr r"
  using assms by (auto simp: take_checkpoint_def checkpoint_record_new_def split: option.splits commit_outcome.splits if_splits)

lemma consumed_checkpoint:
  assumes "consumed c ts es s" "tk_frame t = Some f" "fr_kind f = Checkpoint_Frame"
    and "handle_checkpoint c f (tk_commit t) s = (s', Proceed)"
  shows "consumed c (ts @ [t]) es s'"
proof -
  obtain calls r where r: "take_checkpoint c f (tk_commit t) = (calls, Inr r)"
    and new: "map_of (sv_checkpoints s) (kr_step r) = None"
    and s': "s' = (call_process calls s)\<lparr>sv_checkpoints := sv_checkpoints s @ [(kr_step r, r)]\<rparr>"
    using assms(4) by (auto simp: handle_checkpoint_def call_process_def Let_def split: if_splits prod.splits sum.splits)
  have "checkpoint_taken c (ts @ [t]) r"
    using take_checkpoint_Inr [OF r] assms(2,3) by (auto simp: checkpoint_taken_def)
  moreover have "kr_step r \<notin> fst ` set (sv_checkpoints s)" using new by (simp add: map_of_eq_None_iff)
  moreover have "checkpoints_ok c ts es (sv_checkpoints s)" using assms(1) by (simp add: consumed_def)
  ultimately have "checkpoints_ok c (ts @ [t]) es (sv_checkpoints s @ [(kr_step r, r)])"
    using take_checkpoint_Inr(1) [OF r] assms(2,3) unfolding checkpoints_ok_def
    by (auto simp: checkpoint_taken_snoc)
  then show ?thesis using assms(1-3) by (simp add: consumed_def s' call_process_def)
qed

lemma consumed_event:
  assumes "consumed c ts es s" "sv_terminal s = None" "tk_frame t = Some f" "fr_kind f = Event_Frame"
    and "handle_event c room f s = (s', Proceed)"
  shows "\<exists>e. consumed c (ts @ [t]) (es @ [e]) s'"
proof -
  obtain e where e: "event_from_bytes room (fr_payload f) = Inr e" "pe_sequence e = sv_expected_sequence s"
      "sv_expected_sequence s = 0 \<Longrightarrow> pe_kind e = Started" "sv_expected_sequence s > 0 \<Longrightarrow> pe_kind e \<noteq> Started"
      "sv_last_step s \<le> pe_step e" "pe_step e \<le> ct_max_steps c" "pe_elapsed_ms e \<le> ct_max_runtime_ms c"
      "pe_kind e = Checkpointed \<Longrightarrow> \<exists>r. map_of (sv_checkpoints s) (pe_step e) = Some r \<and> pe_output_digest e = Some (kr_digest r)"
      "sv_event_count s + 1 \<le> ct_max_events c"
    and s': "s' = s\<lparr>sv_event_count := sv_event_count s + 1, sv_expected_sequence := sv_expected_sequence s + 1,
      sv_last_step := pe_step e, sv_terminal := (if pe_kind e \<in> {Completed, Failed, Cancelled} then Some e else sv_terminal s)\<rparr>"
    using assms(5) by (auto simp: handle_event_def Let_def split: if_splits sum.splits option.splits)
  have every: "event_from_bytes room' (fr_payload f) = Inr e" for room'
    using e(1) by (simp add: event_from_bytes_Inr)
  have "0 \<le> pe_step e" using e(1) event_ok_ints by (auto simp: event_from_bytes_Inr in_range_def)
  then have "events_ok c (es @ [e])"
    using assms(1,2) e by (intro events_ok_snoc) (auto simp: consumed_def split: if_splits)
  moreover have "checkpoints_ok c (ts @ [t]) (es @ [e]) (sv_checkpoints s)"
  proof -
    have "checkpoints_ok c (ts @ [t]) es (sv_checkpoints s)"
      using assms(1,3,4) by (intro checkpoints_ok_other) (simp_all add: consumed_def)
    then show ?thesis using e(8) by (auto simp: checkpoints_ok_def dest: map_of_SomeD)
  qed
  ultimately have "consumed c (ts @ [t]) (es @ [e]) s'"
    using assms(1-4) e every by (auto simp: consumed_def s' final_event_def)
  then show ?thesis ..
qed

lemma handlers_no_end [simp]:
  "handle_log c f s \<noteq> (s', Stream_End)" "handle_checkpoint c f oc s \<noteq> (s', Stream_End)" "handle_event c room f s \<noteq> (s', Stream_End)"
  by (auto simp: handle_log_def handle_checkpoint_def handle_event_def Let_def split: sum.split prod.split)

lemma supervise_tick_frame:
  assumes "supervise_tick c t0 t s = (s', r)" "r = Proceed \<or> r = Stream_End" "tk_frame t = Some f"
  shows "(case fr_kind f of Log_Frame \<Rightarrow> handle_log c f (count_grace (poll_cancellation c t0 t s))
     | Checkpoint_Frame \<Rightarrow> handle_checkpoint c f (tk_commit t) (count_grace (poll_cancellation c t0 t s))
     | Event_Frame \<Rightarrow> handle_event c (tk_room t) f (count_grace (poll_cancellation c t0 t s))) = (s', r)"
  using assms by (auto simp: supervise_tick_def Let_def split: if_splits)

lemma consumed_tick:
  assumes "consumed c ts es s" "sv_terminal s = None" "supervise_tick c t0 t s = (s', r)" "r = Proceed \<or> r = Stream_End"
  shows "\<exists>es'. consumed c (ts @ [t]) es' s'"
proof (cases "tk_frame t")
  case None
  then show ?thesis using assms consumed_no_frame [of c ts es "poll_cancellation c t0 t s" t]
    by (auto simp: supervise_tick_def)
next
  case (Some f)
  let ?s = "count_grace (poll_cancellation c t0 t s)"
  have s: "consumed c ts es ?s" "sv_terminal ?s = None" using assms(1,2) by simp_all
  show ?thesis
  proof (cases "fr_kind f")
    case Event_Frame
    with supervise_tick_frame [OF assms(3,4) Some] have "handle_event c (tk_room t) f ?s = (s', Proceed)" using assms(4) by auto
    with consumed_event [OF s Some Event_Frame] show ?thesis by blast
  next
    case Log_Frame
    with supervise_tick_frame [OF assms(3,4) Some] have "handle_log c f ?s = (s', Proceed)" using assms(4) by auto
    with consumed_log [OF s(1) Some Log_Frame] show ?thesis by blast
  next
    case Checkpoint_Frame
    with supervise_tick_frame [OF assms(3,4) Some] have "handle_checkpoint c f (tk_commit t) ?s = (s', Proceed)" using assms(4) by auto
    with consumed_checkpoint [OF s(1) Some Checkpoint_Frame] show ?thesis by blast
  qed
qed

lemma consumed_supervise:
  assumes "consumed c pre es s" "supervise c t0 ts s = (s', Some (Inr ()))"
  shows "\<exists>n es'. consumed c (pre @ take n ts) es' s'"
  using assms
proof (induction ts arbitrary: pre es s)
  case Nil
  then have "s' = s" by (simp add: supervise.simps split: if_splits)
  with Nil show ?case by auto
next
  case (Cons t ts)
  show ?case
  proof (cases "sv_terminal s = None")
    case False
    with Cons.prems have "s' = s" by (simp add: supervise.simps)
    then show ?thesis using Cons.prems(1) by (intro exI [of _ 0]) auto
  next
    case True
    obtain s1 r where t: "supervise_tick c t0 t s = (s1, r)" by (cases "supervise_tick c t0 t s")
    show ?thesis
    proof (cases r)
      case Proceed
      then obtain es1 where "consumed c (pre @ [t]) es1 s1" using consumed_tick [OF Cons.prems(1) True t] by auto
      moreover have "supervise c t0 ts s1 = (s', Some (Inr ()))"
        using Cons.prems(2) True t Proceed by (subst (asm) supervise.simps) simp
      ultimately obtain n es' where "consumed c ((pre @ [t]) @ take n ts) es' s'" using Cons.IH by blast
      then show ?thesis by (intro exI [of _ "Suc n"]) auto
    next
      case Stream_End
      then obtain es1 where "consumed c (pre @ [t]) es1 s1" using consumed_tick [OF Cons.prems(1) True t] by auto
      moreover have "s' = s1" using Cons.prems(2) True t Stream_End by (subst (asm) supervise.simps) simp
      ultimately show ?thesis by (intro exI [of _ 1]) auto
    next
      case (Raises e)
      then show ?thesis using Cons.prems(2) True t by (subst (asm) supervise.simps) simp
    qed
  qed
qed

text \<open>The encoding of an event is always within its limit.\<close>

lemma event_bytes_total:
  assumes "progress_event_new e = Inr e"
  shows "event_bytes e = Inr (json_dumps True (event_primitive e))"
proof -
  have "length s = 71" if "pe_output_digest e = Some s" for s
    using assms that is_digest_plain [of s] by (simp add: progress_event_new_def runner_digest_def)
  then have d: "json_size (optional_text (pe_output_digest e)) \<le> 430"
    by (cases "pe_output_digest e") (simp_all add: optional_text_def)
  have "length s \<le> 64" if "pe_error_code e = Some s" for s
    using assms that by (cases s) (auto simp: progress_event_new_def runner_code_text_def is_code_def)
  then have c: "json_size (optional_text (pe_error_code e)) \<le> 430"
    by (cases "pe_error_code e") (auto simp: optional_text_def intro: order_trans)
  have "length (event_kind_value (pe_kind e)) \<le> 12" by (cases "pe_kind e") (simp_all add: event_kind_value_def)
  then have "json_size (event_primitive e) \<le> 2000"
    using d c event_ok_ints [OF assms, THEN json_size_int] by (simp add: event_primitive_def json_size_obj del: json_size.simps(8))
  then have "int (length (json_dumps True (event_primitive e))) \<le> max_event_bytes"
    using length_json_dumps_le [of True "event_primitive e"] by (simp add: max_event_bytes_def)
  then show ?thesis by (simp add: event_bytes_def)
qed

section \<open>Properties\<close>

text \<open>
  C39: one encoding per event.  The supervisor decodes bytes to an event exactly when they are the
  canonical bytes of an event its constructor accepts; every such event has them.
\<close>

theorem event_from_bytes_iff:
  "event_from_bytes room b = Inr e \<longleftrightarrow> progress_event_new e = Inr e \<and> b = json_dumps True (event_primitive e)"
  using event_bytes_total by (auto simp: event_from_bytes_Inr)

lemma map_prod_Some [simp]: "map_prod id Some x = (s, Some r) \<longleftrightarrow> x = (s, r)"
  by (cases x) auto

lemma contract_ok:
  assumes "runner_contract_new c = Inr c"
  shows "0 \<le> ct_max_log_bytes c" "0 \<le> ct_max_events c" "1 \<le> ct_cancellation_grace_frames c" "1 \<le> ct_max_steps c"
  using assms by (simp_all add: runner_contract_new_def runner_integer_def in_range_def)

text \<open>
  C14: what an outcome certifies.  When the supervisor returns, some prefix of the rounds is exactly
  what it consumed: their event frames decode to a log of events that follows the protocol
  (\<open>events_ok\<close>: consecutive sequence numbers, started first and only first, ascending steps and
  times within the contract, nothing after the final event), the outcome's digest and size are
  those of the log frames, within the limit, its checkpoints are those the store committed for
  frames the contract allows, one per step, and every checkpoint event names one of them.  The run
  is completed exactly if the last event says so; then the process exited with 0 and had not timed
  out, and the result digest is that of the event.
\<close>

theorem run_outcome_sound:
  assumes "runner_contract_new c = Inr c" "run_training c t0 ts exit = (s, Some (Inr out))"
  shows "\<exists>n es cps. (\<forall>room. map (event_from_bytes room) (map fr_payload (frames_of Event_Frame (take n ts))) = map Inr es)
     \<and> events_ok c es \<and> es \<noteq> []
     \<and> pe_kind (last es) = (if to_status out = Run_Completed then Completed else Cancelled)
     \<and> to_result_digest out = pe_output_digest (last es)
     \<and> to_event_count out = int (length es) \<and> to_event_count out \<le> ct_max_events c
     \<and> checkpoints_ok c (take n ts) es cps \<and> to_checkpoints out = map snd (sort_key fst cps)
     \<and> to_log_digest out = sha256_id (log_of (take n ts))
     \<and> to_log_bytes out = int (length (log_of (take n ts))) \<and> to_log_bytes out \<le> ct_max_log_bytes c
     \<and> exit = Some (to_exit_code out)
     \<and> (to_status out = Run_Completed \<longrightarrow> to_exit_code out = 0 \<and> \<not> sv_timed_out s)
     \<and> to_terminal_error out = (if sv_timed_out s then Some Timed_Out else None)"
proof -
  obtain s1 where sup: "supervise c t0 ts supervisor_start = (s1, Some (Inr ()))" and fin: "finish_run exit s1 = (s, Inr out)"
    using assms(2) by (auto simp: run_training_def split: prod.splits option.splits sum.splits)
  obtain n es where con: "consumed c (take n ts) es s1"
    using consumed_supervise [OF consumed_start [OF contract_ok(1,2) [OF assms(1)]] sup] by auto
  obtain ex e where ex: "exit = Some ex" "s = s1" "sv_terminal s1 = Some e"
    using fin by (auto simp: finish_run_def Let_def split: option.splits if_splits)
  have es: "es \<noteq> []" "e = last es"
    using con ex(3) by (auto simp: consumed_def split: if_splits)
  have valid: "progress_event_new e = Inr e"
  proof -
    have "Inr e \<in> set (map Inr es)" using es by simp
    then have "Inr e \<in> set (map (event_from_bytes undefined) (map fr_payload (frames_of Event_Frame (take n ts))))"
      using con by (simp only: consumed_def)
    then show ?thesis by (auto simp: event_from_bytes_Inr dest: sym)
  qed
  have kind: "pe_kind e = (if to_status out = Run_Completed then Completed else Cancelled)"
    "to_result_digest out = pe_output_digest e"
    using fin ex valid
    by (auto simp: finish_run_def Let_def run_outcome_def progress_event_new_def event_shape_def split: if_splits)
  have "checkpoints_ok c (take n ts) es (sv_checkpoints s1)" "to_checkpoints out = map snd (sort_key fst (sv_checkpoints s1))"
    "to_log_digest out = sha256_id (sv_log s1)" "to_event_count out = sv_event_count s1" "to_log_bytes out = sv_log_bytes s1"
    "exit = Some (to_exit_code out)"
    "to_status out = Run_Completed \<longrightarrow> to_exit_code out = 0 \<and> \<not> sv_timed_out s"
    "to_terminal_error out = (if sv_timed_out s then Some Timed_Out else None)"
    using con fin ex by (auto simp: consumed_def finish_run_def Let_def run_outcome_def split: if_splits)
  with kind es con show ?thesis unfolding consumed_def by (intro exI [of _ n] exI [of _ es] exI [of _ "sv_checkpoints s1"]) simp
qed

lemma sample_digests_ok [simp]:
  "is_digest (sample_digest CHR ''a'')" "is_digest (sample_digest CHR ''b'')" "is_digest (sample_digest CHR ''c'')"
  by (simp_all add: sample_digest_def)

definition sample_contract :: runner_contract where
  "sample_contract = \<lparr>ct_job_digest = sample_digest CHR ''a'', ct_lease_digest = sample_digest CHR ''b'',
     ct_deterministic_seed = 7, ct_max_steps = 10, ct_checkpoint_interval_steps = 5, ct_max_runtime_ms = 60000,
     ct_max_log_bytes = 1024, ct_max_checkpoint_bytes = 4096, ct_max_events = 10, ct_cancellation_grace_frames = 2\<rparr>"

lemma sample_contract_ok: "runner_contract_new sample_contract = Inr sample_contract"
  by (simp add: runner_contract_new_def sample_contract_def runner_digest_def runner_integer_def in_range_def)

definition sample_event :: "event_kind \<Rightarrow> int \<Rightarrow> int \<Rightarrow> progress_event" where
  "sample_event k n step = \<lparr>pe_sequence = n, pe_kind = k, pe_step = step, pe_elapsed_ms = 10 * n,
     pe_output_digest = (if k \<in> {Checkpointed, Completed} then Some (sample_digest CHR ''c'') else None),
     pe_error_code = None\<rparr>"

lemma sample_event_fields [simp]:
  "pe_sequence (sample_event k n st) = n" "pe_kind (sample_event k n st) = k" "pe_step (sample_event k n st) = st"
  "pe_elapsed_ms (sample_event k n st) = 10 * n"
  "pe_output_digest (sample_event k n st) = (if k \<in> {Checkpointed, Completed} then Some (sample_digest CHR ''c'') else None)"
  by (simp_all add: sample_event_def)

definition sample_tick :: "int \<Rightarrow> frame_kind \<Rightarrow> bytes \<Rightarrow> int option \<Rightarrow> tick" where
  "sample_tick now k payload step = \<lparr>tk_clock = now, tk_cancelled = False,
     tk_frame = Some \<lparr>fr_kind = k, fr_payload = payload, fr_step = step\<rparr>, tk_commit = Committed (sample_digest CHR ''c''),
     tk_room = \<lparr>sr_scan = 100, sr_repr = 100\<rparr>\<rparr>"

definition event_payload :: "progress_event \<Rightarrow> bytes" where
  "event_payload e = json_dumps True (event_primitive e)"

text \<open>Started, a log line, a checkpoint at step 5 and its event, completed at step 10.\<close>

definition sample_ticks :: "tick list" where
  "sample_ticks =
     [sample_tick 100 Event_Frame (event_payload (sample_event Started 0 0)) None,
      sample_tick 200 Log_Frame [104, 105] None,
      sample_tick 300 Checkpoint_Frame [1, 2, 3] (Some 5),
      sample_tick 400 Event_Frame (event_payload (sample_event Checkpointed 1 5)) None,
      sample_tick 500 Event_Frame (event_payload (sample_event Completed 2 10)) None]"

lemma sample_payloads:
  "event_from_bytes room (event_payload (sample_event Started 0 0)) = Inr (sample_event Started 0 0)"
  "event_from_bytes room (event_payload (sample_event Checkpointed 1 5)) = Inr (sample_event Checkpointed 1 5)"
  "event_from_bytes room (event_payload (sample_event Completed 2 10)) = Inr (sample_event Completed 2 10)"
  unfolding event_payload_def event_from_bytes_Inr
  by (rule conjI [OF _ event_bytes_total];
      simp add: sample_event_def progress_event_new_def runner_integer_def runner_digest_def in_range_def event_shape_def)
    (rule conjI [OF _ event_bytes_total];
      simp add: sample_event_def progress_event_new_def runner_integer_def runner_digest_def in_range_def event_shape_def)+

lemmas tick_eval = supervise.simps supervise_tick_def poll_cancellation_def count_grace_def handle_log_def handle_checkpoint_def
  handle_event_def take_checkpoint_def checkpoint_refused_def call_process_def checkpoint_record_new_def runner_integer_def
  runner_digest_def in_range_def Let_def passes_def require_def

lemma sample_training:
  "\<exists>s out. run_training sample_contract 0 sample_ticks (Some 0) = (s, Some (Inr out)) \<and> to_status out = Run_Completed
     \<and> to_result_digest out = Some (sample_digest CHR ''c'')
     \<and> to_checkpoints out = [\<lparr>kr_step = 5, kr_digest = sample_digest CHR ''c'', kr_size = 3\<rparr>]"
  unfolding run_training_def supervisor_start_def sample_ticks_def
  by (simp add: tick_eval sample_tick_def sample_payloads sample_contract_def finish_run_def run_outcome_def)

theorem run_outcome_sound_witness:
  "\<exists>n es. (\<forall>room. map (event_from_bytes room) (map fr_payload (frames_of Event_Frame (take n sample_ticks))) = map Inr es)
     \<and> events_ok sample_contract es \<and> es \<noteq> [] \<and> pe_kind (last es) = Completed"
proof -
  obtain s out where r: "run_training sample_contract 0 sample_ticks (Some 0) = (s, Some (Inr out))" "to_status out = Run_Completed"
    using sample_training by blast
  from run_outcome_sound [OF sample_contract_ok r(1)] r(2) show ?thesis by auto
qed

section \<open>Cancellation\<close>

lemma tick_result_cases:
  obtains s' where "supervise_tick c t0 t s = (s', Proceed)" | s' where "supervise_tick c t0 t s = (s', Stream_End)"
  | s' e where "supervise_tick c t0 t s = (s', Raises e)"
  by (cases "supervise_tick c t0 t s"; cases "snd (supervise_tick c t0 t s)") auto

text \<open>The part of the state that only \<open>poll_cancellation\<close> and \<open>count_grace\<close> change.\<close>

definition cancellation :: "supervisor \<Rightarrow> bool \<times> bool \<times> int" where
  "cancellation s = (sv_cancel_requested s, sv_timed_out s, sv_grace_frames s)"

lemma abort_keeps [simp]: "cancellation (fst (abort_run s code)) = cancellation s" "cancellation (fst (abort_on s e)) = cancellation s"
  "cancellation (call_process cs s) = cancellation s"
  by (simp_all add: cancellation_def abort_run_def abort_on_def call_process_def split: runner_error.split)

lemma handle_log_keeps: "cancellation (fst (handle_log c f s)) = cancellation s"
  by (simp add: handle_log_def Let_def) (simp add: cancellation_def)

lemma handle_checkpoint_keeps: "cancellation (fst (handle_checkpoint c f oc s)) = cancellation s"
  by (simp add: handle_checkpoint_def Let_def split: prod.split sum.split) (simp add: cancellation_def call_process_def)

lemma handle_event_keeps: "cancellation (fst (handle_event c room f s)) = cancellation s"
  by (simp add: handle_event_def Let_def split: sum.split) (simp add: cancellation_def)

text \<open>After a round that proceeds: the request is never withdrawn, and counts the round.\<close>

lemma tick_grace:
  assumes "supervise_tick c t0 t s = (s', Proceed)"
  shows "sv_cancel_requested s' \<longleftrightarrow>
      sv_cancel_requested s \<or> tk_clock t - t0 \<ge> ct_max_runtime_ms c \<or> tk_cancelled t"
    and "sv_grace_frames s' = sv_grace_frames s + (if sv_cancel_requested s' then 1 else 0)"
    and "sv_cancel_requested s' \<Longrightarrow> sv_grace_frames s' \<le> ct_cancellation_grace_frames c"
proof -
  let ?s = "count_grace (poll_cancellation c t0 t s)"
  obtain f where f: "tk_frame t = Some f" using assms by (cases "tk_frame t") (auto simp: supervise_tick_def Let_def)
  have "cancellation s' = cancellation ?s"
    using supervise_tick_frame [OF assms _ f] handle_log_keeps [of c f ?s] handle_checkpoint_keeps [of c f "tk_commit t" ?s]
      handle_event_keeps [of c "tk_room t" f ?s] by (cases "fr_kind f") simp_all
  then have keep: "sv_cancel_requested s' = sv_cancel_requested ?s" "sv_grace_frames s' = sv_grace_frames ?s"
    by (simp_all add: cancellation_def)
  show "sv_cancel_requested s' \<longleftrightarrow> sv_cancel_requested s \<or> tk_clock t - t0 \<ge> ct_max_runtime_ms c \<or> tk_cancelled t"
    unfolding keep by (auto simp: poll_cancellation_def count_grace_def call_process_def)
  show "sv_grace_frames s' = sv_grace_frames s + (if sv_cancel_requested s' then 1 else 0)"
    unfolding keep by (simp add: poll_cancellation_def count_grace_def call_process_def)
  show "sv_grace_frames s' \<le> ct_cancellation_grace_frames c" if "sv_cancel_requested s'"
    using assms that f unfolding keep by (auto simp: supervise_tick_def Let_def split: if_splits)
qed

lemma supervise_stops_in_grace:
  assumes "sv_cancel_requested s" "ct_cancellation_grace_frames c < sv_grace_frames s + int (length ts)"
    and "sv_grace_frames s \<le> ct_cancellation_grace_frames c"
  shows "snd (supervise c t0 ts s) \<noteq> None"
  using assms
proof (induction ts arbitrary: s)
  case (Cons t ts)
  show ?case
  proof (cases "sv_terminal s = None")
    case True
    show ?thesis
    proof (cases rule: tick_result_cases [of c t0 t s])
      case (1 s')
      note g = tick_grace [OF 1]
      have "snd (supervise c t0 ts s') \<noteq> None" using Cons g by (intro Cons.IH) auto
      then show ?thesis using True 1 by (subst supervise.simps) simp
    qed (use True in \<open>subst supervise.simps, simp\<close>)+
  qed (subst supervise.simps, simp)
qed simp

lemma supervise_stops:
  assumes "i < length ts" "tk_clock (ts ! i) - t0 \<ge> ct_max_runtime_ms c \<or> tk_cancelled (ts ! i)"
    and "int i + ct_cancellation_grace_frames c < int (length ts)" "sv_grace_frames s \<le> ct_cancellation_grace_frames c"
    and "1 \<le> ct_cancellation_grace_frames c" "\<not> sv_cancel_requested s \<Longrightarrow> sv_grace_frames s = 0" "0 \<le> sv_grace_frames s"
  shows "snd (supervise c t0 ts s) \<noteq> None"
  using assms
proof (induction ts arbitrary: i s)
  case (Cons t ts)
  show ?case
  proof (cases "sv_terminal s = None")
    case True
    show ?thesis
    proof (cases rule: tick_result_cases [of c t0 t s])
      case (1 s')
      note g = tick_grace [OF 1]
      have next_s: "supervise c t0 (t # ts) s = supervise c t0 ts s'" using True 1 by (subst supervise.simps) simp
      show ?thesis
      proof (cases "sv_cancel_requested s'")
        case req: True
        with Cons.prems g show ?thesis unfolding next_s by (intro supervise_stops_in_grace) auto
      next
        case False
        then obtain j where "i = Suc j" using g(1) Cons.prems(2) by (cases i) auto
        with False Cons.prems g show ?thesis unfolding next_s by (intro Cons.IH [of j]) auto
      qed
    qed (use True in \<open>subst supervise.simps, simp\<close>)+
  qed (subst supervise.simps, simp)
qed simp

text \<open>
  C15: a run does not outlive its time.  If in some round the deadline of the contract has passed or
  the cancellation token is set, the supervisor has returned or raised after at most
  \<open>cancellation_grace_frames\<close> further rounds, whatever the process sends, even nothing but empty
  log frames.
\<close>

theorem run_stops_after_deadline:
  assumes "runner_contract_new c = Inr c" "i < length ts"
    and "tk_clock (ts ! i) - t0 \<ge> ct_max_runtime_ms c \<or> tk_cancelled (ts ! i)"
    and "int i + ct_cancellation_grace_frames c < int (length ts)"
  shows "snd (run_training c t0 ts exit) \<noteq> None"
proof -
  have "snd (supervise c t0 ts supervisor_start) \<noteq> None"
    by (rule supervise_stops [OF assms(2-4)])
      (use contract_ok(3) [OF assms(1)] in \<open>simp_all add: supervisor_start_def\<close>)
  then show ?thesis by (auto simp: run_training_def split: prod.splits option.splits sum.splits)
qed

text \<open>A process that only ever sends empty log lines is stopped.\<close>

definition idle_tick :: "int \<Rightarrow> tick" where
  "idle_tick now = sample_tick now Log_Frame [] None"

theorem run_stops_after_deadline_witness:
  "snd (run_training sample_contract 0 [idle_tick 1, idle_tick 60000, idle_tick 60001, idle_tick 60002] None) \<noteq> None"
  by (rule run_stops_after_deadline [OF sample_contract_ok, of 1])
    (simp_all add: idle_tick_def sample_tick_def sample_contract_def)

section \<open>Failures\<close>

text \<open>
  The exceptions of \<open>from_bytes\<close> that nothing catches, and a raise that is one of them or left the
  process terminated.
\<close>

definition escaping :: "runner_error \<Rightarrow> bool" where
  "escaping e \<longleftrightarrow> e = Runner_Digit_Limit \<or> e = Runner_Recursion"

definition clean_failure :: "supervisor \<Rightarrow> runner_error \<Rightarrow> bool" where
  "clean_failure s e \<longleftrightarrow>
     escaping e \<or> (\<exists>code. e = Runner_Failure code) \<and> sv_calls s \<noteq> [] \<and> last (sv_calls s) = Terminate"

definition frame_valid :: "tick \<Rightarrow> bool" where
  "frame_valid t \<longleftrightarrow> (case tk_frame t of None \<Rightarrow> True | Some f \<Rightarrow> runner_frame_new f = Inr f)"

lemma abort_clean: "abort_run s code = (s', Raises e) \<Longrightarrow> clean_failure s' e"
  by (auto simp: abort_run_def clean_failure_def call_process_def)

lemma abort_on_clean: "abort_on s x = (s', Raises e) \<Longrightarrow> escaping x \<or> (\<exists>code. x = Runner_Failure code) \<Longrightarrow> clean_failure s' e"
  by (auto simp: abort_on_def clean_failure_def dest: abort_clean split: runner_error.splits)

lemma event_from_bytes_Inl:
  assumes "event_from_bytes room b = Inl e"
  shows "escaping e \<or> (\<exists>code. e = Runner_Failure code)"
proof -
  have "hide_value_error x = e \<Longrightarrow> e = Runner_Recursion \<or> (\<exists>code. e = Runner_Failure code)" for x
    by (cases x) (auto simp: hide_value_error_def)
  moreover have "map_error hide_value_error r = Inl e \<Longrightarrow> \<exists>x. hide_value_error x = e" for r :: "runner_error + progress_event"
    by (cases r) auto
  ultimately show ?thesis using assms
    by (auto simp: escaping_def event_from_bytes_def event_bytes_def Let_def bindE_Inl_iff split: if_splits sum.splits json.splits json_error.splits)
qed

lemma take_checkpoint_Inl:
  assumes "runner_frame_new f = Inr f" "fr_kind f = Checkpoint_Frame" "take_checkpoint c f oc = (calls, Inl e)"
  shows "\<exists>code. e = Runner_Failure code"
proof -
  obtain step where step: "fr_step f = Some step" "in_range 1 max_int64 step" "int (length (fr_payload f)) \<le> max_frame_bytes"
    using assms(1,2) by (cases "fr_step f") (auto simp: runner_frame_new_def runner_integer_def)
  have "checkpoint_record_new \<lparr>kr_step = step, kr_digest = d, kr_size = int (length (fr_payload f))\<rparr>
      = Inr \<lparr>kr_step = step, kr_digest = d, kr_size = int (length (fr_payload f))\<rparr>" if "is_digest d" for d
    using step that by (simp add: checkpoint_record_new_def runner_integer_def runner_digest_def in_range_def max_frame_bytes_def)
  then show ?thesis using assms(3) step(1)
    by (auto simp: take_checkpoint_def split: if_splits commit_outcome.splits)
qed

lemma handle_event_clean: "handle_event c room f s = (s', Raises e) \<Longrightarrow> clean_failure s' e"
  unfolding handle_event_def Let_def
  by (auto split: if_splits sum.splits dest: abort_clean abort_on_clean event_from_bytes_Inl)

lemma handle_checkpoint_clean:
  "runner_frame_new f = Inr f \<Longrightarrow> fr_kind f = Checkpoint_Frame \<Longrightarrow> handle_checkpoint c f oc s = (s', Raises e) \<Longrightarrow> clean_failure s' e"
  unfolding handle_checkpoint_def Let_def
  by (auto split: if_splits sum.splits prod.splits dest: abort_clean abort_on_clean take_checkpoint_Inl)

lemma handle_log_clean: "handle_log c f s = (s', Raises e) \<Longrightarrow> clean_failure s' e"
  unfolding handle_log_def Let_def by (auto split: if_splits dest: abort_clean)

lemma supervise_tick_clean:
  assumes "frame_valid t" "supervise_tick c t0 t s = (s', Raises e)"
  shows "clean_failure s' e"
  using assms unfolding supervise_tick_def Let_def frame_valid_def
  by (auto split: option.splits if_splits frame_kind.splits
      dest: abort_clean handle_event_clean handle_checkpoint_clean handle_log_clean)

lemma supervise_clean:
  assumes "list_all frame_valid ts" "supervise c t0 ts s = (s', Some (Inl e))"
  shows "clean_failure s' e"
  using assms
proof (induction ts arbitrary: s)
  case Nil
  then show ?case by (simp add: supervise.simps split: if_splits)
next
  case (Cons t ts)
  then have "sv_terminal s = None" by (auto simp: supervise.simps split: if_splits)
  then show ?case
    using Cons supervise_tick_clean [of t c t0 s]
    by (cases rule: tick_result_cases [of c t0 t s]) (auto simp: supervise.simps [of c t0 "t # ts" s])
qed

text \<open>Only an event frame makes the loop raise an escaping exception.\<close>

definition undecodable :: "tick \<Rightarrow> runner_error \<Rightarrow> bool" where
  "undecodable t e \<longleftrightarrow>
     (\<exists>f. tk_frame t = Some f \<and> fr_kind f = Event_Frame \<and> event_from_bytes (tk_room t) (fr_payload f) = Inl e)"

lemma escaping_simps [simp]: "escaping Runner_Digit_Limit" "escaping Runner_Recursion" "\<not> escaping (Runner_Failure code)"
  by (simp_all add: escaping_def)

lemma abort_escaping: "abort_run s code = (s', Raises e) \<Longrightarrow> \<not> escaping e" "abort_on s x = (s', Raises e) \<Longrightarrow> escaping e \<Longrightarrow> x = e"
  by (auto simp: abort_run_def abort_on_def split: runner_error.splits)

lemma handle_event_escaping: "handle_event c room f s = (s', Raises e) \<Longrightarrow> escaping e \<Longrightarrow> event_from_bytes room (fr_payload f) = Inl e"
  unfolding handle_event_def Let_def
  by (auto split: if_splits sum.splits dest: abort_escaping)

lemma handle_checkpoint_escaping:
  "runner_frame_new f = Inr f \<Longrightarrow> fr_kind f = Checkpoint_Frame \<Longrightarrow> handle_checkpoint c f oc s = (s', Raises e) \<Longrightarrow> \<not> escaping e"
  unfolding handle_checkpoint_def Let_def
  by (auto split: if_splits sum.splits prod.splits dest: abort_escaping take_checkpoint_Inl)

lemma handle_log_escaping: "handle_log c f s = (s', Raises e) \<Longrightarrow> \<not> escaping e"
  unfolding handle_log_def Let_def by (auto split: if_splits dest: abort_escaping)

lemma supervise_tick_escaping:
  assumes "frame_valid t" "supervise_tick c t0 t s = (s', Raises e)" "escaping e"
  shows "undecodable t e"
  using assms unfolding supervise_tick_def Let_def frame_valid_def undecodable_def
  by (auto split: option.splits if_splits frame_kind.splits
      dest: abort_escaping(1) handle_event_escaping handle_checkpoint_escaping handle_log_escaping)

lemma supervise_escaping:
  assumes "list_all frame_valid ts" "supervise c t0 ts s = (s', Some (Inl e))" "escaping e"
  shows "\<exists>t \<in> set ts. undecodable t e"
  using assms
proof (induction ts arbitrary: s)
  case Nil
  then show ?case by (simp add: supervise.simps split: if_splits)
next
  case (Cons t ts)
  then have "sv_terminal s = None" by (auto simp: supervise.simps split: if_splits)
  then show ?case
    using Cons supervise_tick_escaping [of t c t0 s]
    by (cases rule: tick_result_cases [of c t0 t s]) (auto simp: supervise.simps [of c t0 "t # ts" s])
qed

text \<open>
  C16: a failed run leaves no process behind, but for two exceptions of \<open>json.loads\<close>.  When process,
  clock and token answer every call, the frames are those their constructor admits and the supervisor
  raises, it raises a stable code and has terminated the process or seen it exit.  Otherwise it raises one of the two exceptions that
  \<open>from_bytes\<close> does not catch, the conversion limit on number literals and the recursion limit, and
  it is the payload of an event frame, decoded with the stack that was left in that round, that raised it.
\<close>

theorem run_failure_terminates:
  assumes "list_all frame_valid ts" "run_training c t0 ts exit = (s, Some (Inl e))"
  shows "(e = Runner_Digit_Limit \<or> e = Runner_Recursion)
       \<and> (\<exists>t \<in> set ts. \<exists>f. tk_frame t = Some f \<and> fr_kind f = Event_Frame \<and> event_from_bytes (tk_room t) (fr_payload f) = Inl e)
     \<or> (\<exists>code. e = Runner_Failure code)
       \<and> (sv_calls s \<noteq> [] \<and> last (sv_calls s) = Terminate
          \<or> (\<exists>code. exit = Some code) \<and> supervise c t0 ts supervisor_start = (s, Some (Inr ())))"
proof -
  obtain s1 r where sup: "supervise c t0 ts supervisor_start = (s1, r)" by (cases "supervise c t0 ts supervisor_start")
  show ?thesis
  proof (cases r)
    case None
    then show ?thesis using assms(2) sup by (simp add: run_training_def)
  next
    case (Some x)
    show ?thesis
    proof (cases x)
      case (Inl e')
      then have run: "supervise c t0 ts supervisor_start = (s, Some (Inl e))" using assms(2) sup Some by (simp add: run_training_def)
      from supervise_clean [OF assms(1) this] supervise_escaping [OF assms(1) this] show ?thesis
        by (auto simp: clean_failure_def escaping_def undecodable_def)
    next
      case (Inr u)
      then have "finish_run exit s1 = (s, Inl e)" using assms(2) sup Some by (cases "finish_run exit s1") (simp add: run_training_def)
      then show ?thesis
        using sup Some Inr by (cases exit) (auto simp: finish_run_def Let_def call_process_def split: option.splits if_splits)
    qed
  qed
qed

theorem run_failure_terminates_witness:
  "\<exists>s. run_training sample_contract 0 [sample_tick 1 Log_Frame (replicate 1025 0) None] None = (s, Some (Inl (Runner_Failure Log_Limit)))
     \<and> last (sv_calls s) = Terminate"
proof -
  let ?ts = "[sample_tick 1 Log_Frame (replicate 1025 0) None]"
  obtain s where s: "run_training sample_contract 0 ?ts None = (s, Some (Inl (Runner_Failure Log_Limit)))"
    by (simp add: run_training_def supervisor_start_def tick_eval sample_tick_def sample_contract_def abort_run_def)
  have "list_all frame_valid ?ts"
    by (simp add: frame_valid_def sample_tick_def runner_frame_new_def max_frame_bytes_def)
  from run_failure_terminates [OF this s] s show ?thesis by auto
qed

text \<open>
  The workload can make the supervisor abandon it.  An event frame whose decoding raises an
  exception that nothing on the way catches ends the run with it, and the process is neither
  cancelled nor terminated.
\<close>

lemma undecodable_leaves_process:
  assumes "runner_contract_new c = Inr c" "now - t0 < ct_max_runtime_ms c"
    and "tk_clock t = now" "\<not> tk_cancelled t" "undecodable t e" "escaping e"
  shows "\<exists>s. run_training c t0 [t] exit = (s, Some (Inl e)) \<and> sv_calls s = []"
proof -
  have "2 \<le> ct_max_events c" using assms(1) by (simp add: runner_contract_new_def runner_integer_def in_range_def)
  then show ?thesis
    using assms(2-6) unfolding undecodable_def escaping_def
    by (elim exE conjE disjE) (simp_all add: run_training_def supervisor_start_def tick_eval abort_on_def)
qed

text \<open>\<open>json.loads\<close> on one ASCII character repeated.\<close>

lemma loads_repeated:
  assumes "of_char c < (128 :: nat)" "of_char c \<noteq> (0 :: nat)"
  shows "json_loads_bytes h (replicate n (of_nat (of_char c))) = json_loads_text h (replicate n c)"
proof -
  let ?x = "of_nat (of_char c) :: byte"
  have nz: "?x \<noteq> 0" "unat ?x < 128"
    using assms by (simp_all add: unat_of_nat word_of_nat_eq_0_iff nat_dvd_not_less)
  have "utf8_char c = [?x]" using assms(1) by (simp add: utf8_char_def)
  then have encoded: "utf8_encode (replicate n c) = replicate n ?x" by (induction n) (simp_all add: utf8_encode_def)
  have "json_decode (replicate n ?x) = utf8_decode (replicate n ?x)"
  proof (cases n)
    case (Suc m)
    note n = this
    show ?thesis
    proof (cases m)
      case 0
      with n show ?thesis by (simp add: json_decode_def)
    next
      case (Suc k)
      with n json_decode_utf8 [OF nz(1) nz(1) nz(2)] show ?thesis by simp
    qed
  qed (simp add: json_decode_def)
  then show ?thesis using utf8_round_trip [of "replicate n c"] by (simp add: json_loads_bytes_def encoded)
qed

text \<open>A number literal of more than 4300 digits does it.\<close>

theorem digit_literal_leaves_process:
  assumes "runner_contract_new c = Inr c" "4300 < n" "n \<le> 16384" "now - t0 < ct_max_runtime_ms c"
  shows "\<exists>s. run_training c t0 [sample_tick now Event_Frame (replicate n 0x31) None] exit
       = (s, Some (Inl Runner_Digit_Limit)) \<and> sv_calls s = []"
proof (rule undecodable_leaves_process [OF assms(1,4)])
  have "event_from_bytes room (replicate n 0x31) = Inl Runner_Digit_Limit" for room
    using assms(2,3) digits_parse [of n "runner_hooks room"] loads_repeated [of "CHR ''1''" "runner_hooks room" n] 
    by (simp add: event_from_bytes_def max_event_bytes_def max_str_digits_def)
  then show "undecodable (sample_tick now Event_Frame (replicate n 0x31) None) Runner_Digit_Limit"
    by (simp add: undecodable_def sample_tick_def)
qed (simp_all add: sample_tick_def)

theorem digit_literal_leaves_process_witness:
  "\<exists>s. run_training sample_contract 0 [sample_tick 1 Event_Frame (replicate 4301 0x31) None] None
       = (s, Some (Inl Runner_Digit_Limit)) \<and> sv_calls s = []"
  by (rule digit_literal_leaves_process [OF sample_contract_ok]) (simp_all add: sample_contract_def)

text \<open>So do opening brackets beyond the stack that is left.\<close>

theorem deep_nesting_leaves_process:
  assumes "runner_contract_new c = Inr c" "Suc (sr_scan room) < n" "n \<le> 16384" "now - t0 < ct_max_runtime_ms c"
  shows "\<exists>s. run_training c t0 [(sample_tick now Event_Frame (replicate n 0x5B) None)\<lparr>tk_room := room\<rparr>] exit
       = (s, Some (Inl Runner_Recursion)) \<and> sv_calls s = []"
proof (rule undecodable_leaves_process [OF assms(1,4)])
  have "json_loads_text (runner_hooks room) (replicate n CHR ''['') = Inl Json_Recursion"
    by (rule brackets_parse [of _ "Suc (sr_scan room)"]) (use assms(2) in \<open>simp_all add: runner_hooks_def\<close>)
  then have "event_from_bytes room (replicate n 0x5B) = Inl Runner_Recursion"
    using assms(2,3) loads_repeated [of "CHR ''[''" "runner_hooks room" n] 
    by (simp add: event_from_bytes_def max_event_bytes_def)
  then show "undecodable ((sample_tick now Event_Frame (replicate n 0x5B) None)\<lparr>tk_room := room\<rparr>) Runner_Recursion"
    by (simp add: undecodable_def sample_tick_def)
qed (simp_all add: sample_tick_def)

theorem deep_nesting_leaves_process_witness:
  "\<exists>s. run_training sample_contract 0 [(sample_tick 1 Event_Frame (replicate 1100 0x5B) None)\<lparr>tk_room := \<lparr>sr_scan = 990, sr_repr = 990\<rparr>\<rparr>] None
       = (s, Some (Inl Runner_Recursion)) \<and> sv_calls s = []"
  by (rule deep_nesting_leaves_process [OF sample_contract_ok]) (simp_all add: sample_contract_def)

end
