(* ===== verification/Texts.thy ===== *)
theory Texts
  imports Checks
begin

text \<open>
  The text operations of Python that \<open>capability.py\<close>, \<open>sandbox.py\<close> and \<open>artifacts.py\<close> use, on ASCII
  text: \<open>casefold\<close>, \<open>split\<close>, \<open>strip\<close>, \<open>join\<close>, \<open>in\<close> and the name of a path.
\<close>

section \<open>Operations\<close>

definition fold_char :: "char \<Rightarrow> char" where
  "fold_char c = (if is_upper c then char_of (of_char c + 32 :: nat) else c)"

text \<open>
  \<open>s.casefold()\<close> as far as it yields ASCII: U+00DF becomes \<open>ss\<close>; the other letters beyond ASCII,
  whose images are none of ASCII, are kept.
\<close>

definition fold_case :: "string \<Rightarrow> string" where
  "fold_case s = concat (map (\<lambda>c. if c = CHR 0xDF then ''ss'' else [fold_char c]) s)"

text \<open>\<open>sep.split\<close>: the parts between the separators, empty ones included.\<close>

fun split_on :: "char \<Rightarrow> string \<Rightarrow> string list" where
  "split_on d [] = [[]]"
| "split_on d (c # cs) =
     (if c = d then [] # split_on d cs
      else case split_on d cs of [] \<Rightarrow> [[c]] | p # ps \<Rightarrow> (c # p) # ps)"

definition is_space :: "char \<Rightarrow> bool" where
  "is_space c \<longleftrightarrow> (let n = of_char c :: nat in 9 \<le> n \<and> n \<le> 13 \<or> 28 \<le> n \<and> n \<le> 32)"

text \<open>\<open>s.split()\<close> and \<open>s.strip()\<close>\<close>

definition words :: "string \<Rightarrow> string list" where
  "words s = filter (\<lambda>w. w \<noteq> []) (split_on CHR '' '' (map (\<lambda>c. if is_space c then CHR '' '' else c) s))"

definition strip :: "string \<Rightarrow> string" where
  "strip s = rev (dropWhile is_space (rev (dropWhile is_space s)))"

fun join :: "string \<Rightarrow> string list \<Rightarrow> string" where
  "join d [] = []"
| "join d [w] = w"
| "join d (w # ws) = w @ d @ join d ws"

text \<open>\<open>needle in s\<close>\<close>

fun contains_text :: "string \<Rightarrow> string \<Rightarrow> bool" where
  "contains_text needle [] = (needle = [])"
| "contains_text needle (c # cs) = (take (length needle) (c # cs) = needle \<or> contains_text needle cs)"

definition canonical_words :: "string \<Rightarrow> string" where
  "canonical_words s = join '' '' (words (map (\<lambda>c. if c = CHR ''-'' then CHR '' '' else c) (fold_case s)))"

text \<open>\<open>Path(s).name\<close> for POSIX paths: the last component, empty and \<open>.\<close> components dropped.\<close>

definition path_name :: "string \<Rightarrow> string" where
  "path_name s =
     (case rev (filter (\<lambda>p. p \<noteq> [] \<and> p \<noteq> ''.'') (split_on CHR ''/'' s)) of [] \<Rightarrow> [] | p # ps \<Rightarrow> p)"

section \<open>Laws\<close>

lemma split_on_nonempty [simp]: "split_on d s \<noteq> []"
  by (induction s) (auto split: list.split)

lemma split_on_append:
  "d \<notin> set w \<Longrightarrow> split_on d (w @ d # s) = w # split_on d s"
  "d \<notin> set w \<Longrightarrow> split_on d w = [w]"
  by (induction w) auto

lemma split_join: "ws \<noteq> [] \<Longrightarrow> \<forall>w \<in> set ws. d \<notin> set w \<Longrightarrow> split_on d (join [d] ws) = ws"
proof (induction ws rule: induct_list012)
  case (3 w w' ws)
  then show ?case by (simp add: split_on_append)
qed (simp_all add: split_on_append)

lemma strip_id: "\<forall>c \<in> set s. \<not> is_space c \<Longrightarrow> strip s = s"
proof -
  assume a: "\<forall>c \<in> set s. \<not> is_space c"
  then have "dropWhile is_space s = s" "dropWhile is_space (rev s) = rev s"
    by (cases s; simp) (cases "rev s"; use a in \<open>auto simp: dropWhile_eq_self_iff hd_rev dest: last_in_set\<close>)
  then show ?thesis by (simp add: strip_def)
qed

lemma set_join: "set (join d ws) \<subseteq> \<Union> (set ` set ws) \<union> set d"
  by (induction d ws rule: join.induct) auto

end
