(* ===== verification/Capability.thy ===== *)
theory Capability
  imports Identity Texts
begin

text \<open>
  GPU capability discovery, \<open>src/gpuforge/capability.py\<close>: observations and policies with their
  checks, the normalisation of one observation, the inventory and the signed capability claim.
  The provider is its answer: \<open>None\<close> if it raises, else the observations it returns.
\<close>

section \<open>Observations and policies\<close>

datatype capability_error =
    Not_Ascii string
  | Text_Bounds string
  | Gpu_Memory_Invalid
  | Runtime_Major_Invalid
  | Minimum_Driver_Invalid
  | No_Rules
  | Majors_Not_Unique
  | Minimum_Memory_Invalid
  | Device_Count_Invalid
  | Runtime_Not_Approved
  | Provider_Failed
  | Device_Count_Outside
  | Not_Approved_Class
  | Not_Homogeneous
  | Memory_Below_Minimum
  | Versions_Required
  | Interconnect_Required
  | Driver_Incompatible
  | Interconnect_Inconsistent
  | Variant_Unknown
  | Interconnect_Unsupported
  | Version_Invalid string

datatype gpu_class = H100_Sxm | H100_Pcie | H100_Nvl | Unsupported

datatype gpu_interconnect = Nvlink | Pcie

definition interconnect_value :: "gpu_interconnect \<Rightarrow> string" where
  "interconnect_value i = (case i of Nvlink \<Rightarrow> ''nvlink'' | Pcie \<Rightarrow> ''pcie'')"

definition max_device_name_bytes :: int where
  "max_device_name_bytes = 128"

definition max_devices :: int where
  "max_devices = 8"

definition max_memory_mb :: int where
  "max_memory_mb = 1048576"

definition bounded_ascii :: "string \<Rightarrow> string \<Rightarrow> int \<Rightarrow> capability_error + unit" where
  "bounded_ascii label s maximum =
     (if \<not> is_ascii s then Inl (Not_Ascii label)
      else require (1 \<le> length s \<and> int (length s) \<le> maximum
             \<and> \<not> list_ex (\<lambda>c. (of_char c :: nat) < 32 \<or> (of_char c :: nat) = 127) s) (Text_Bounds label))"

definition optional_ascii :: "string \<Rightarrow> string option \<Rightarrow> capability_error + unit" where
  "optional_ascii label t = (case t of None \<Rightarrow> Inr () | Some s \<Rightarrow> bounded_ascii label s 64)"

record gpu_observation =
  go_name :: string
  go_memory_mb :: int
  go_driver_version :: "string option"
  go_runtime_version :: "string option"
  go_interconnect :: "string option"

definition gpu_observation_new :: "gpu_observation \<Rightarrow> capability_error + gpu_observation" where
  "gpu_observation_new g = passes
     [bounded_ascii ''GPU name'' (go_name g) max_device_name_bytes,
      require (in_range 0 max_memory_mb (go_memory_mb g)) Gpu_Memory_Invalid,
      optional_ascii ''driver version'' (go_driver_version g),
      optional_ascii ''runtime version'' (go_runtime_version g),
      optional_ascii ''interconnect'' (go_interconnect g)] g"

record compatibility_rule =
  cr_runtime_major :: int
  cr_minimum_driver :: "int list"

definition compatibility_rule_new :: "compatibility_rule \<Rightarrow> capability_error + compatibility_rule" where
  "compatibility_rule_new r = passes
     [require (in_range 1 99 (cr_runtime_major r)) Runtime_Major_Invalid,
      require (2 \<le> length (cr_minimum_driver r) \<and> length (cr_minimum_driver r) \<le> 3
        \<and> list_all (in_range 0 9999) (cr_minimum_driver r)) Minimum_Driver_Invalid] r"

record capability_policy =
  cy_runtime_rules :: "compatibility_rule list"
  cy_minimum_memory_mb :: int
  cy_max_devices :: int

definition capability_policy_new :: "capability_policy \<Rightarrow> capability_error + capability_policy" where
  "capability_policy_new p = passes
     [require (cy_runtime_rules p \<noteq> []) No_Rules,
      require (distinct (map cr_runtime_major (cy_runtime_rules p))) Majors_Not_Unique,
      require (in_range 1024 max_memory_mb (cy_minimum_memory_mb p)) Minimum_Memory_Invalid,
      require (in_range 1 max_devices (cy_max_devices p)) Device_Count_Invalid] p"

fun minimum_driver_in :: "compatibility_rule list \<Rightarrow> int \<Rightarrow> capability_error + int list" where
  "minimum_driver_in [] major = Inl Runtime_Not_Approved"
| "minimum_driver_in (r # rs) major =
     (if cr_runtime_major r = major then Inr (cr_minimum_driver r) else minimum_driver_in rs major)"

definition minimum_driver_for :: "capability_policy \<Rightarrow> int \<Rightarrow> capability_error + int list" where
  "minimum_driver_for p major = minimum_driver_in (cy_runtime_rules p) major"

section \<open>Normalisation\<close>

definition normalize_model :: "string \<Rightarrow> capability_error + gpu_class \<times> string" where
  "normalize_model name =
     (let n = canonical_words name in
      if \<not> contains_text ''nvidia'' n \<or> \<not> contains_text ''h100'' n then Inr (Unsupported, ''Unsupported GPU'')
      else if contains_text ''nvl'' n then Inr (H100_Nvl, ''NVIDIA H100 NVL'')
      else if contains_text ''pcie'' n \<or> contains_text ''pci express'' n then Inr (H100_Pcie, ''NVIDIA H100 PCIe'')
      else if contains_text ''sxm'' n \<or> contains_text ''80gb hbm3'' n then Inr (H100_Sxm, ''NVIDIA H100 SXM'')
      else Inl Variant_Unknown)"

definition normalize_interconnect :: "string \<Rightarrow> capability_error + gpu_interconnect" where
  "normalize_interconnect s =
     (let n = canonical_words s in
      if n \<in> {''nvlink'', ''nvswitch'', ''nvlink nvswitch''} then Inr Nvlink
      else if n \<in> {''pcie'', ''pci express''} then Inr Pcie
      else Inl Interconnect_Unsupported)"

text \<open>\<open>[0-9]{1,4}(\.[0-9]{1,4}){1,2}\<close>\<close>

definition is_version :: "string \<Rightarrow> bool" where
  "is_version s \<longleftrightarrow>
     (let ps = split_on CHR ''.'' s in 2 \<le> length ps \<and> length ps \<le> 3 \<and> list_all (match_class is_digit 1 4) ps)"

definition normalize_version :: "string \<Rightarrow> string \<Rightarrow> capability_error + int list \<times> string" where
  "normalize_version value label =
     (if \<not> is_version (strip value) then Inl (Version_Invalid label)
      else
        (let parts = map (\<lambda>p. int (nat_of_digits p)) (split_on CHR ''.'' (strip value))
         in Inr (parts, join ''.'' (map show_int parts))))"

definition version_padded :: "int list \<Rightarrow> int list" where
  "version_padded v = take 3 (v @ [0, 0, 0])"

record normalized_gpu =
  ng_gpu_class :: gpu_class
  ng_model :: string
  ng_memory_mb :: int
  ng_driver_version :: string
  ng_runtime_version :: string
  ng_interconnect :: gpu_interconnect

definition normalize_supported ::
  "gpu_observation \<Rightarrow> capability_policy \<Rightarrow> gpu_class \<Rightarrow> string \<Rightarrow> capability_error + normalized_gpu" where
  "normalize_supported g p cls model =
     (if go_memory_mb g < cy_minimum_memory_mb p then Inl Memory_Below_Minimum
      else
        case (go_driver_version g, go_runtime_version g) of
          (Some driver_text, Some runtime_text) \<Rightarrow>
            (case go_interconnect g of
               None \<Rightarrow> Inl Interconnect_Required
             | Some interconnect_text \<Rightarrow>
                 bindE (normalize_version driver_text ''driver'') (\<lambda>(driver_parts, driver).
                 bindE (normalize_version runtime_text ''runtime'') (\<lambda>(runtime_parts, runtime).
                 bindE (minimum_driver_for p (hd runtime_parts)) (\<lambda>minimum.
                 if version_padded driver_parts < version_padded minimum then Inl Driver_Incompatible
                 else
                   bindE (normalize_interconnect interconnect_text) (\<lambda>interconnect.
                   let expected = (if cls \<in> {H100_Sxm, H100_Nvl} then Nvlink else Pcie) in
                   if interconnect \<noteq> expected then Inl Interconnect_Inconsistent
                   else Inr \<lparr>ng_gpu_class = cls, ng_model = model, ng_memory_mb = go_memory_mb g,
                             ng_driver_version = driver, ng_runtime_version = runtime, ng_interconnect = interconnect\<rparr>)))))
        | _ \<Rightarrow> Inl Versions_Required)"

definition normalize_gpu :: "gpu_observation \<Rightarrow> capability_policy \<Rightarrow> capability_error + normalized_gpu" where
  "normalize_gpu g p =
     bindE (normalize_model (go_name g)) (\<lambda>(cls, model).
     if cls = Unsupported
     then Inr \<lparr>ng_gpu_class = cls, ng_model = ''Unsupported GPU'', ng_memory_mb = go_memory_mb g,
               ng_driver_version = ''0.0'', ng_runtime_version = ''0.0'', ng_interconnect = Pcie\<rparr>
     else normalize_supported g p cls model)"

section \<open>The inventory\<close>

record normalized_inventory =
  ni_gpu_class :: gpu_class
  ni_model :: string
  ni_count :: int
  ni_memory_mb :: int
  ni_driver_version :: string
  ni_runtime_version :: string
  ni_interconnect :: gpu_interconnect

definition same_device :: "normalized_gpu \<Rightarrow> normalized_gpu \<Rightarrow> bool" where
  "same_device a b \<longleftrightarrow>
     ng_gpu_class b = ng_gpu_class a \<and> ng_memory_mb b = ng_memory_mb a \<and> ng_driver_version b = ng_driver_version a
   \<and> ng_runtime_version b = ng_runtime_version a \<and> ng_interconnect b = ng_interconnect a"

definition discover_inventory ::
  "gpu_observation list option \<Rightarrow> capability_policy \<Rightarrow> capability_error + normalized_inventory" where
  "discover_inventory provider p =
     (case provider of
        None \<Rightarrow> Inl Provider_Failed
      | Some observed \<Rightarrow>
          if \<not> (1 \<le> length observed \<and> int (length observed) \<le> cy_max_devices p) then Inl Device_Count_Outside
          else
            bindE (mapE (\<lambda>g. normalize_gpu g p) observed) (\<lambda>normalized.
            let first = hd normalized in
            if ng_gpu_class first = Unsupported then Inl Not_Approved_Class
            else if \<not> list_all (same_device first) (tl normalized) then Inl Not_Homogeneous
            else Inr \<lparr>ni_gpu_class = ng_gpu_class first, ni_model = ng_model first, ni_count = int (length normalized),
                      ni_memory_mb = ng_memory_mb first, ni_driver_version = ng_driver_version first,
                      ni_runtime_version = ng_runtime_version first, ni_interconnect = ng_interconnect first\<rparr>))"

definition unsigned_signature :: string where
  "unsigned_signature = replicate 128 CHR ''0''"

text \<open>The claim; the nonce is the given one or the one \<open>generate_nonce\<close> draws.\<close>

datatype claim_error = Discovery capability_error | Claim_Invalid protocol_error | Claim_Signing auth_error

definition build_capability_claim ::
  "gpu_observation list option \<Rightarrow> capability_policy \<Rightarrow> keypair \<Rightarrow> int \<Rightarrow> int \<Rightarrow> evidence_tier list \<Rightarrow> string
     \<Rightarrow> claim_error + message" where
  "build_capability_claim provider p signer observed_at_block available_gpu_seconds tiers nonce =
     bindE (map_error Discovery (discover_inventory provider p)) (\<lambda>inventory.
     bindE (map_error Claim_Signing (adapter_hotkey signer)) (\<lambda>hotkey.
     bindE (map_error Claim_Invalid (software_version_new \<lparr>sv_name = ''cuda'', sv_version = ni_runtime_version inventory\<rparr>)) (\<lambda>cuda.
     bindE (map_error Claim_Invalid (software_version_new \<lparr>sv_name = ''driver'', sv_version = ni_driver_version inventory\<rparr>)) (\<lambda>driver.
     bindE (map_error Claim_Invalid (capability_claim_new
       \<lparr>cc_miner_hotkey = hotkey, cc_gpu_count = ni_count inventory, cc_gpu_model = ni_model inventory,
        cc_gpu_memory_mb = ni_memory_mb inventory, cc_gpu_interconnect = interconnect_value (ni_interconnect inventory),
        cc_discovery_trust = Self_Reported, cc_runtime_versions = [cuda, driver], cc_supported_evidence_tiers = tiers,
        cc_available_gpu_seconds = available_gpu_seconds, cc_nonce = nonce, cc_observed_at_block = observed_at_block,
        cc_signature = unsigned_signature, cc_protocol_version = 1\<rparr>)) (\<lambda>unsigned.
     map_error Claim_Signing (sign_message (Capability_Claim unsigned) signer))))))"

section \<open>Versions\<close>

lemma show_int_digits: "0 \<le> i \<Longrightarrow> list_all is_digit (show_int i)"
  by (simp add: show_int_def show_nat_digits)

lemma digit_no_dot: "is_digit c \<Longrightarrow> c \<noteq> CHR ''.''" "is_digit c \<Longrightarrow> \<not> is_space c"
  by (auto simp: is_digit_iff is_space_def Let_def)

text \<open>A version is normalised once: its canonical text denotes the same parts.\<close>

lemma nat_of_digits_less: "list_all is_digit s \<Longrightarrow> nat_of_digits s < 10 ^ length s"
proof (induction s rule: rev_induct)
  case Nil
  then show ?case by (simp add: nat_of_digits_def)
next
  case (snoc c s)
  then have "of_char c - 48 \<le> (9::nat)" "nat_of_digits s < 10 ^ length s" by (auto simp: is_digit_iff)
  then show ?case by (simp add: nat_of_digits_snoc)
qed

lemma normalize_version_parts:
  assumes "normalize_version v l = Inr (parts, s)"
  shows "2 \<le> length parts" "length parts \<le> 3" "\<forall>i \<in> set parts. 0 \<le> i \<and> i < 10000" "s = join ''.'' (map show_int parts)"
proof -
  let ?ps = "split_on CHR ''.'' (strip v)"
  have ps: "parts = map (\<lambda>p. int (nat_of_digits p)) ?ps" "s = join ''.'' (map show_int parts)" "is_version (strip v)"
    using assms by (auto simp: normalize_version_def Let_def split: if_splits)
  show "2 \<le> length parts" "length parts \<le> 3" "s = join ''.'' (map show_int parts)"
    using ps by (auto simp: is_version_def Let_def)
  have "nat_of_digits p < 10000" if "p \<in> set ?ps" for p
  proof -
    have "list_all is_digit p" "length p \<le> 4"
      using ps(3) that by (auto simp: is_version_def Let_def list_all_iff match_class_def)
    then have "nat_of_digits p < 10 ^ length p" "(10::nat) ^ length p \<le> 10 ^ 4"
      using nat_of_digits_less by (blast, intro power_increasing) simp_all
    then show ?thesis by simp
  qed
  then show "\<forall>i \<in> set parts. 0 \<le> i \<and> i < 10000" using ps(1) by force
qed

lemma version_canonical:
  assumes "normalize_version v l = Inr (parts, s)"
  shows "normalize_version s l' = Inr (parts, s)"
proof -
  note parts = normalize_version_parts [OF assms]
  let ?ws = "map show_int parts"
  have digits: "\<forall>w \<in> set ?ws. list_all is_digit w" using parts(3) by (auto simp: show_int_digits)
  have "\<forall>w \<in> set ?ws. CHR ''.'' \<notin> set w" using digits digit_no_dot(1) by (fastforce simp: list_all_iff)
  moreover have "?ws \<noteq> []" using parts(1) by auto
  ultimately have split: "split_on CHR ''.'' s = ?ws" unfolding parts(4) by (intro split_join)
  have "\<not> is_space c" if "c \<in> set s" for c
    using that set_join [of "''.''" ?ws] digits digit_no_dot(2) unfolding parts(4)
    by (fastforce simp: list_all_iff is_space_def Let_def)
  then have strip: "strip s = s" by (simp add: strip_id)
  have "length (show_int i) \<le> 4 \<and> 1 \<le> length (show_int i)" if "i \<in> set parts" for i
    using parts(3) that length_show_nat [of "nat i" 4] show_nat_nonempty [of "nat i"] by (auto simp: show_int_def Suc_le_eq)
  then have "list_all (match_class is_digit 1 4) ?ws" using digits by (auto simp: list_all_iff match_class_def)
  then have "is_version s" using parts(1,2) by (simp add: is_version_def split)
  moreover have "map (\<lambda>p. int (nat_of_digits p)) ?ws = parts"
    using parts(3) by (auto simp: show_int_def intro!: map_idI)
  ultimately show ?thesis
    unfolding normalize_version_def Let_def strip split using parts(4) [symmetric] by simp
qed

section \<open>Properties\<close>

text \<open>What the inventory says of one observation.\<close>

definition device_meets :: "capability_policy \<Rightarrow> normalized_inventory \<Rightarrow> gpu_observation \<Rightarrow> bool" where
  "device_meets p i g \<longleftrightarrow>
     go_memory_mb g = ni_memory_mb i \<and> cy_minimum_memory_mb p \<le> go_memory_mb g
   \<and> contains_text ''nvidia'' (canonical_words (go_name g)) \<and> contains_text ''h100'' (canonical_words (go_name g))
   \<and> map_option (\<lambda>v. normalize_interconnect v) (go_interconnect g) = Some (Inr (ni_interconnect i))
   \<and> ni_interconnect i = (if ni_gpu_class i \<in> {H100_Sxm, H100_Nvl} then Nvlink else Pcie)
   \<and> (\<exists>driver runtime minimum.
        map_option (\<lambda>v. normalize_version v ''driver'') (go_driver_version g) = Some (Inr (driver, ni_driver_version i))
      \<and> map_option (\<lambda>v. normalize_version v ''runtime'') (go_runtime_version g) = Some (Inr (runtime, ni_runtime_version i))
      \<and> minimum_driver_for p (hd runtime) = Inr minimum \<and> version_padded minimum \<le> version_padded driver)"

lemma normalize_model_class: "normalize_model name = Inr (cls, model) \<Longrightarrow> cls \<noteq> Unsupported \<Longrightarrow>
    contains_text ''nvidia'' (canonical_words name) \<and> contains_text ''h100'' (canonical_words name)"
  by (auto simp: normalize_model_def Let_def split: if_splits)

lemma normalize_gpu_meets:
  assumes "normalize_gpu g p = Inr n" "ng_gpu_class n \<noteq> Unsupported"
    and "ni_gpu_class i = ng_gpu_class n" "ni_memory_mb i = ng_memory_mb n" "ni_driver_version i = ng_driver_version n"
      "ni_runtime_version i = ng_runtime_version n" "ni_interconnect i = ng_interconnect n"
  shows "device_meets p i g"
proof -
  obtain cls model where m: "normalize_model (go_name g) = Inr (cls, model)" "cls \<noteq> Unsupported"
    and n: "normalize_supported g p cls model = Inr n"
    using assms(1,2) by (auto simp: normalize_gpu_def split: if_splits)
  obtain d r ic where texts: "go_driver_version g = Some d" "go_runtime_version g = Some r" "go_interconnect g = Some ic"
    and mem: "cy_minimum_memory_mb p \<le> go_memory_mb g"
    using n by (auto simp: normalize_supported_def split: if_splits option.splits)
  obtain dp dv rp rv minimum where v: "normalize_version d ''driver'' = Inr (dp, dv)" "normalize_version r ''runtime'' = Inr (rp, rv)"
    "minimum_driver_for p (hd rp) = Inr minimum" "version_padded minimum \<le> version_padded dp"
    and w: "normalize_interconnect ic = Inr (ng_interconnect n)" "ng_gpu_class n = cls" "ng_memory_mb n = go_memory_mb g"
      "ng_driver_version n = dv" "ng_runtime_version n = rv"
      "ng_interconnect n = (if cls \<in> {H100_Sxm, H100_Nvl} then Nvlink else Pcie)"
    using n mem unfolding normalize_supported_def
    by (auto simp: texts Let_def not_less split: if_splits prod.splits)
  show ?thesis
    using normalize_model_class [OF m] mem v w assms(3-) by (simp add: device_meets_def texts)
qed

text \<open>
  C34: what a discovered inventory certifies.  Its count is the number of observations, within the
  policy, and every single observation is an H100 of the inventory's memory, at least the policy's
  minimum, with the inventory's versions and interconnect, the interconnect of its class, and a
  driver no older than the minimum approved for its runtime.
\<close>

theorem discovered_inventory_sound:
  assumes "discover_inventory (Some observed) p = Inr i"
  shows "ni_gpu_class i \<noteq> Unsupported \<and> 1 \<le> ni_count i \<and> ni_count i = int (length observed)
     \<and> ni_count i \<le> cy_max_devices p \<and> list_all (device_meets p i) observed"
proof -
  obtain ns where ns: "mapE (\<lambda>g. normalize_gpu g p) observed = Inr ns" "ng_gpu_class (hd ns) \<noteq> Unsupported"
      "list_all (same_device (hd ns)) (tl ns)"
    and i: "i = \<lparr>ni_gpu_class = ng_gpu_class (hd ns), ni_model = ng_model (hd ns), ni_count = int (length ns),
      ni_memory_mb = ng_memory_mb (hd ns), ni_driver_version = ng_driver_version (hd ns),
      ni_runtime_version = ng_runtime_version (hd ns), ni_interconnect = ng_interconnect (hd ns)\<rparr>"
    and len: "1 \<le> length observed" "int (length observed) \<le> cy_max_devices p"
    using assms by (auto simp: discover_inventory_def Let_def split: if_splits)
  have l: "length ns = length observed" using ns(1) by (rule mapE_length)
  have "list_all (same_device (hd ns)) ns"
    using ns(3) l len by (cases ns) (auto simp: same_device_def)
  then have "device_meets p i (observed ! k)" if "k < length observed" for k
    using ns(1,2) that l unfolding i mapE_Inr_list_all2
    by (intro normalize_gpu_meets [of _ p "ns ! k"])
      (auto simp: list_all2_conv_all_nth list_all_length same_device_def)
  then show ?thesis using len l ns(2) by (simp add: i list_all_length)
qed

definition sample_gpu :: gpu_observation where
  "sample_gpu = \<lparr>go_name = ''NVIDIA H100 80GB HBM3'', go_memory_mb = 81559, go_driver_version = Some ''550.54.15'',
     go_runtime_version = Some ''12.4'', go_interconnect = Some ''NVLink''\<rparr>"

definition sample_capability_policy :: capability_policy where
  "sample_capability_policy = \<lparr>cy_runtime_rules = [\<lparr>cr_runtime_major = 12, cr_minimum_driver = [525, 60]\<rparr>],
     cy_minimum_memory_mb = 75000, cy_max_devices = 8\<rparr>"

lemma sample_texts:
  "normalize_model ''NVIDIA H100 80GB HBM3'' = Inr (H100_Sxm, ''NVIDIA H100 SXM'')"
  "normalize_version ''550.54.15'' l = Inr ([550, 54, 15], ''550.54.15'')"
  "normalize_version ''12.4'' l = Inr ([12, 4], ''12.4'')"
  "normalize_interconnect ''NVLink'' = Inr Nvlink"
  by code_simp+

lemma sample_discovery:
  "discover_inventory (Some [sample_gpu, sample_gpu]) sample_capability_policy = Inr
     \<lparr>ni_gpu_class = H100_Sxm, ni_model = ''NVIDIA H100 SXM'', ni_count = 2, ni_memory_mb = 81559,
      ni_driver_version = ''550.54.15'', ni_runtime_version = ''12.4'', ni_interconnect = Nvlink\<rparr>"
  by (simp add: discover_inventory_def sample_gpu_def sample_capability_policy_def normalize_gpu_def normalize_supported_def
      sample_texts minimum_driver_for_def version_padded_def same_device_def)

theorem discovered_inventory_sound_witness:
  "\<exists>i. list_all (device_meets sample_capability_policy i) [sample_gpu, sample_gpu] \<and> ni_count i = 2"
  using discovered_inventory_sound [OF sample_discovery] by auto

end
