(* ===== verification/Sandbox.thy ===== *)
theory Sandbox
  imports Texts
begin

text \<open>
  The container sandbox, \<open>src/gpuforge/sandbox.py\<close>: the checks of jobs and policies, the command
  line that \<open>LinuxContainerBackend\<close> builds and its \<open>run\<close>.  A path is its normalised POSIX text, as
  \<open>str\<close> prints it.  The command runner is its answers, one per call; the container name, drawn from
  a random source, and the elapsed time, computed from two floating-point clock readings, are
  arguments.  \<open>SubprocessSandboxRunner.run\<close> is the function \<open>subprocess_run\<close> of what its process
  does, on a POSIX system.
\<close>

section \<open>Jobs and policies\<close>

datatype sandbox_error =
    Image_Not_Pinned
  | Argument_Count
  | Argument_Bounds
  | Host_Mounts_Prohibited
  | Devices_Prohibited
  | Sandbox_Int string
  | Seccomp_Not_Absolute
  | Seccomp_Unconfined
  | Apparmor_Invalid
  | Executable_Invalid
  | Container_Name_Invalid
  | Network_Needs_Mediation
  | Sandbox_Not_Enabled
  | Runtime_Unavailable
  | Output_Bound_Invalid

definition max_arguments :: nat where
  "max_arguments = 256"

definition max_argument_bytes :: int where
  "max_argument_bytes = 4096"

definition max_capture_bytes :: int where
  "max_capture_bytes = 1048576"

definition sandbox_int :: "string \<Rightarrow> int \<Rightarrow> int \<Rightarrow> int \<Rightarrow> sandbox_error + unit" where
  "sandbox_int label i lo hi = require (in_range lo hi i) (Sandbox_Int label)"

text \<open>\<open>[A-Za-z0-9][A-Za-z0-9._:/-]{0,254}@sha256:[0-9a-f]{64}\<close>\<close>

definition is_pinned_image :: "string \<Rightarrow> bool" where
  "is_pinned_image s \<longleftrightarrow>
     (let n = length s - 72 in
      72 < length s
    \<and> match_head is_alnum (\<lambda>c. is_alnum c \<or> c = CHR ''.'' \<or> c = CHR ''_'' \<or> c = CHR '':'' \<or> c = CHR ''/'' \<or> c = CHR ''-'')
        254 (take n s)
    \<and> take 1 (drop n s) = ''@'' \<and> is_digest (drop (Suc n) s))"

text \<open>\<open>gpuforge-[0-9a-f]{16}\<close> and \<open>[A-Za-z0-9][A-Za-z0-9_.-]{0,127}\<close>\<close>

definition is_container_name :: "string \<Rightarrow> bool" where
  "is_container_name s \<longleftrightarrow> take 9 s = ''gpuforge-'' \<and> match_class is_lower_hex 16 16 (drop 9 s)"

definition is_profile :: "string \<Rightarrow> bool" where
  "is_profile s \<longleftrightarrow> match_head is_alnum (\<lambda>c. is_alnum c \<or> c = CHR ''_'' \<or> c = CHR ''.'' \<or> c = CHR ''-'') 127 s"

definition safe_argument :: "string \<Rightarrow> sandbox_error + unit" where
  "safe_argument s =
     (let n = length (utf8_encode s) in
      require (1 \<le> n \<and> int n \<le> max_argument_bytes \<and> \<not> list_ex (\<lambda>c. c \<in> {CHR 0x00, CHR 0x0D, CHR 0x0A}) s)
        Argument_Bounds)"

record container_job =
  cj_image :: string
  cj_argv :: "string list"
  cj_host_mounts :: "string list"
  cj_device_requests :: "string list"

definition container_job_new :: "container_job \<Rightarrow> sandbox_error + container_job" where
  "container_job_new j = passes
     ([require (is_pinned_image (cj_image j)) Image_Not_Pinned,
       require (1 \<le> length (cj_argv j) \<and> length (cj_argv j) \<le> max_arguments) Argument_Count]
      @ map safe_argument (cj_argv j)
      @ [require (cj_host_mounts j = []) Host_Mounts_Prohibited,
         require (cj_device_requests j = []) Devices_Prohibited]) j"

record sandbox_policy =
  sp_cpu_cores :: int
  sp_memory_mb :: int
  sp_gpu_count :: int
  sp_pids_limit :: int
  sp_writable_bytes :: int
  sp_max_runtime_seconds :: int
  sp_network_policy :: network_policy
  sp_seccomp_profile :: "string option"
  sp_apparmor_profile :: "string option"

definition seccomp_check :: "string option \<Rightarrow> sandbox_error + unit" where
  "seccomp_check p =
     (case p of
        None \<Rightarrow> Inr ()
      | Some s \<Rightarrow>
          if take 1 s \<noteq> ''/'' then Inl Seccomp_Not_Absolute
          else require (fold_case (path_name s) \<noteq> ''unconfined'') Seccomp_Unconfined)"

definition apparmor_check :: "string option \<Rightarrow> sandbox_error + unit" where
  "apparmor_check p =
     (case p of
        None \<Rightarrow> Inr ()
      | Some s \<Rightarrow> require (is_profile s \<and> fold_case s \<noteq> ''unconfined'') Apparmor_Invalid)"

definition sandbox_policy_new :: "sandbox_policy \<Rightarrow> sandbox_error + sandbox_policy" where
  "sandbox_policy_new p = passes
     [sandbox_int ''CPU limit'' (sp_cpu_cores p) 1 256,
      sandbox_int ''memory limit'' (sp_memory_mb p) 1024 2097152,
      sandbox_int ''GPU limit'' (sp_gpu_count p) 0 8,
      sandbox_int ''PID limit'' (sp_pids_limit p) 64 65536,
      sandbox_int ''writable byte limit'' (sp_writable_bytes p) 1 1099511627776,
      sandbox_int ''runtime limit'' (sp_max_runtime_seconds p) 1 86400,
      seccomp_check (sp_seccomp_profile p),
      apparmor_check (sp_apparmor_profile p)] p"

section \<open>The command\<close>

record container_backend =
  cb_enabled :: bool
  cb_executable :: string
  cb_platform :: string

definition container_backend_new :: "container_backend \<Rightarrow> sandbox_error + container_backend" where
  "container_backend_new b = passes
     [require (path_name (cb_executable b) \<in> {''docker'', ''podman''}) Executable_Invalid] b"

definition runtime_flags :: "container_backend \<Rightarrow> sandbox_policy \<Rightarrow> string \<Rightarrow> string list" where
  "runtime_flags b p name =
     [cb_executable b, ''run'', ''--rm'', ''--name'', name, ''--pull'', ''never'', ''--user'', ''65532:65532'',
      ''--read-only'', ''--cap-drop'', ''ALL'', ''--security-opt'', ''no-new-privileges=true'',
      ''--pids-limit'', show_int (sp_pids_limit p), ''--cpus'', show_int (sp_cpu_cores p),
      ''--memory'', show_int (sp_memory_mb p) @ ''m'', ''--memory-swap'', show_int (sp_memory_mb p) @ ''m'',
      ''--network'', ''none'', ''--ipc'', ''none'', ''--tmpfs'', ''/tmp:rw,noexec,nosuid,nodev,size=67108864'',
      ''--tmpfs'', ''/job/scratch:rw,noexec,nosuid,nodev,size='' @ show_int (sp_writable_bytes p),
      ''--workdir'', ''/job/scratch'']
     @ (case sp_seccomp_profile p of None \<Rightarrow> [] | Some s \<Rightarrow> [''--security-opt'', ''seccomp='' @ s])
     @ (case sp_apparmor_profile p of None \<Rightarrow> [] | Some s \<Rightarrow> [''--security-opt'', ''apparmor='' @ s])
     @ (if sp_gpu_count p \<noteq> 0 then [''--gpus'', ''count='' @ show_int (sp_gpu_count p)] else [])"

definition build_command ::
  "container_backend \<Rightarrow> container_job \<Rightarrow> sandbox_policy \<Rightarrow> string \<Rightarrow> sandbox_error + string list" where
  "build_command b j p name =
     (if \<not> is_container_name name then Inl Container_Name_Invalid
      else if sp_network_policy p \<noteq> Net_Deny then Inl Network_Needs_Mediation
      else Inr (runtime_flags b p name @ [cj_image j] @ cj_argv j))"

section \<open>Running\<close>

record command_result =
  cm_returncode :: int
  cm_stdout :: bytes
  cm_stderr :: bytes
  cm_stdout_truncated :: bool
  cm_stderr_truncated :: bool

record sandbox_result =
  sr_exit_code :: "int option"
  sr_timed_out :: bool
  sr_duration_ms :: int
  sr_stdout_digest :: string
  sr_stderr_digest :: string
  sr_stdout_truncated :: bool
  sr_stderr_truncated :: bool

text \<open>The command runner: a result, a timeout or one of its errors.\<close>

datatype command_outcome = Command_Result command_result | Command_Timeout | Command_Raises sandbox_error

text \<open>\<open>_read_bounded\<close>: at most \<open>maximum\<close> bytes of a file, and whether it has more.\<close>

definition read_bounded :: "bytes \<Rightarrow> nat \<Rightarrow> bytes \<times> bool" where
  "read_bounded contents maximum =
     (let value = take (maximum + 1) contents in (take maximum value, length value > maximum))"

text \<open>
  \<open>SubprocessSandboxRunner.run\<close>.  The process cannot be started, exits before the timeout with what
  it has written to the two temporary files, or is still running then; the calls are those on the
  process.
\<close>

datatype process_behaviour = Process_Not_Started | Process_Exits int bytes bytes | Process_Still_Running

datatype client_call = Process_Started "string list" | Process_Awaited int | Process_Group_Killed | Process_Reaped

definition subprocess_run :: "string list \<Rightarrow> int \<Rightarrow> int \<Rightarrow> process_behaviour \<Rightarrow> client_call list \<times> command_outcome" where
  "subprocess_run argv timeout_seconds max_output_bytes behaviour =
     (if \<not> (1 \<le> max_output_bytes \<and> max_output_bytes \<le> max_capture_bytes) then ([], Command_Raises Output_Bound_Invalid)
      else
        case behaviour of
          Process_Not_Started \<Rightarrow> ([], Command_Raises Runtime_Unavailable)
        | Process_Still_Running \<Rightarrow>
            ([Process_Started argv, Process_Awaited timeout_seconds, Process_Group_Killed, Process_Reaped], Command_Timeout)
        | Process_Exits code out err \<Rightarrow>
            let (stdout, stdout_truncated) = read_bounded out (nat max_output_bytes);
                (stderr, stderr_truncated) = read_bounded err (nat max_output_bytes)
            in ([Process_Started argv, Process_Awaited timeout_seconds],
                Command_Result \<lparr>cm_returncode = code, cm_stdout = stdout, cm_stderr = stderr,
                  cm_stdout_truncated = stdout_truncated, cm_stderr_truncated = stderr_truncated\<rparr>))"

definition force_remove :: "container_backend \<Rightarrow> string \<Rightarrow> string list list" where
  "force_remove b name = [[cb_executable b, ''kill'', name], [cb_executable b, ''rm'', ''--force'', name]]"

definition duration_ms :: "int \<Rightarrow> int" where
  "duration_ms elapsed = max 0 elapsed"

text \<open>The commands executed and the result; the outcomes of the removal are ignored.\<close>

definition sandbox_run ::
  "container_backend \<Rightarrow> container_job \<Rightarrow> sandbox_policy \<Rightarrow> string \<Rightarrow> command_outcome \<Rightarrow> int
     \<Rightarrow> string list list \<times> (sandbox_error + sandbox_result)" where
  "sandbox_run b j p name outcome elapsed =
     (if \<not> cb_enabled b \<or> cb_platform b \<noteq> ''linux'' then ([], Inl Sandbox_Not_Enabled)
      else
        case build_command b j p name of
          Inl e \<Rightarrow> ([], Inl e)
        | Inr command \<Rightarrow>
            (case outcome of
               Command_Raises e \<Rightarrow> ([command], Inl e)
             | Command_Timeout \<Rightarrow>
                 (command # force_remove b name,
                  Inr \<lparr>sr_exit_code = None, sr_timed_out = True, sr_duration_ms = duration_ms elapsed,
                       sr_stdout_digest = sha256_id [], sr_stderr_digest = sha256_id [],
                       sr_stdout_truncated = False, sr_stderr_truncated = False\<rparr>)
             | Command_Result r \<Rightarrow>
                 ([command],
                  Inr \<lparr>sr_exit_code = Some (cm_returncode r), sr_timed_out = False, sr_duration_ms = duration_ms elapsed,
                       sr_stdout_digest = sha256_id (cm_stdout r), sr_stderr_digest = sha256_id (cm_stderr r),
                       sr_stdout_truncated = cm_stdout_truncated r, sr_stderr_truncated = cm_stderr_truncated r\<rparr>)))"

text \<open>The run of the backend with this runner, whose calls are those of the first command.\<close>

definition sandbox_subprocess_run ::
  "container_backend \<Rightarrow> container_job \<Rightarrow> sandbox_policy \<Rightarrow> string \<Rightarrow> process_behaviour \<Rightarrow> int
     \<Rightarrow> client_call list \<times> string list list \<times> (sandbox_error + sandbox_result)" where
  "sandbox_subprocess_run b j p name behaviour elapsed =
     (let command = (case build_command b j p name of Inl _ \<Rightarrow> [] | Inr c \<Rightarrow> c);
          (calls, outcome) = subprocess_run command (sp_max_runtime_seconds p) max_capture_bytes behaviour;
          (commands, r) = sandbox_run b j p name outcome elapsed
      in (if commands = [] then [] else calls, commands, r))"

section \<open>The process\<close>

text \<open>
  A started process has exited when the run is over, by itself or because its group was killed, and
  what is kept of its output is a beginning of at most the bound, marked when more was written.
\<close>

lemma subprocess_run_cases:
  assumes "subprocess_run argv timeout m behaviour = (calls, outcome)"
  shows "calls = [] \<and> (\<exists>e. outcome = Command_Raises e)
     \<or> calls = [Process_Started argv, Process_Awaited timeout, Process_Group_Killed, Process_Reaped] \<and> outcome = Command_Timeout
     \<or> calls = [Process_Started argv, Process_Awaited timeout] \<and>
       (\<exists>code out err. behaviour = Process_Exits code out err \<and> outcome = Command_Result
          \<lparr>cm_returncode = code, cm_stdout = take (nat m) out, cm_stderr = take (nat m) err,
           cm_stdout_truncated = (nat m < length out), cm_stderr_truncated = (nat m < length err)\<rparr>)"
  using assms
  by (auto simp: subprocess_run_def read_bounded_def Let_def min_def split: if_splits process_behaviour.splits)

lemma subprocess_run_bounded:
  assumes "subprocess_run argv timeout m behaviour = (calls, Command_Result c)"
  shows "int (length (cm_stdout c)) \<le> max_capture_bytes" "int (length (cm_stderr c)) \<le> max_capture_bytes"
  using assms subprocess_run_cases [OF assms] by (auto simp: subprocess_run_def split: if_splits)

text \<open>A job that does not end within its runtime has its client killed and its container removed.\<close>

lemma sandbox_timeout_removes:
  assumes "sandbox_subprocess_run b j p name Process_Still_Running elapsed = (calls, commands, Inr r)"
  shows "sr_timed_out r \<and> tl commands = force_remove b name
     \<and> calls = [Process_Started (hd commands), Process_Awaited (sp_max_runtime_seconds p), Process_Group_Killed, Process_Reaped]"
  using assms
  by (auto simp: sandbox_subprocess_run_def sandbox_run_def subprocess_run_def max_capture_bytes_def split: if_splits sum.splits)

lemma sandbox_exit_reported:
  assumes "sandbox_subprocess_run b j p name (Process_Exits code out err) elapsed = (calls, commands, Inr r)"
  shows "sr_exit_code r = Some code \<and> \<not> sr_timed_out r \<and> length commands = 1
     \<and> sr_stdout_digest r = sha256_id (take (nat max_capture_bytes) out) \<and> (sr_stdout_truncated r \<longleftrightarrow> max_capture_bytes < int (length out))"
  using assms
  by (auto simp: sandbox_subprocess_run_def sandbox_run_def subprocess_run_def read_bounded_def max_capture_bytes_def Let_def
      split: if_splits sum.splits)

section \<open>Properties\<close>

lemma pinned_image_start:
  assumes "is_pinned_image s"
  obtains c cs where "s = c # cs" "is_alnum c"
proof -
  have "match_head is_alnum (\<lambda>c. is_alnum c \<or> c = CHR ''.'' \<or> c = CHR ''_'' \<or> c = CHR '':'' \<or> c = CHR ''/'' \<or> c = CHR ''-'')
      254 (take (length s - 72) s)"
    using assms by (simp add: is_pinned_image_def Let_def)
  then show ?thesis using that by (cases s; cases "length s - 72") auto
qed

text \<open>A flag of the container client starts with a dash.\<close>

definition is_flag :: "string \<Rightarrow> bool" where
  "is_flag s \<longleftrightarrow> take 1 s = ''-''"

text \<open>The value that follows a flag.\<close>

fun flag_values :: "string \<Rightarrow> string list \<Rightarrow> string list" where
  "flag_values f (x # y # xs) = (if x = f then y # flag_values f (y # xs) else flag_values f (y # xs))"
| "flag_values f _ = []"

lemma show_int_not_option [simp]:
  "show_int i \<noteq> CHR ''-'' # CHR ''-'' # s" "CHR ''-'' # CHR ''-'' # s \<noteq> show_int i"
  "show_int i @ t \<noteq> CHR ''-'' # CHR ''-'' # s" "CHR ''-'' # CHR ''-'' # s \<noteq> show_int i @ t"
proof -
  have "show_int i @ t \<noteq> CHR ''-'' # CHR ''-'' # s" for t
    using show_nat_not_minus [of "nat i" t] show_nat_not_minus [of "nat (- i)" t]
    by (auto simp: show_int_def is_digit_def)
  from this [of "[]"] this [of t]
  show "show_int i \<noteq> CHR ''-'' # CHR ''-'' # s" "CHR ''-'' # CHR ''-'' # s \<noteq> show_int i"
    "show_int i @ t \<noteq> CHR ''-'' # CHR ''-'' # s" "CHR ''-'' # CHR ''-'' # s \<noteq> show_int i @ t" by auto
qed

lemma executable_no_option:
  assumes "container_backend_new b = Inr b" "\<forall>c \<in> set s. c \<noteq> CHR ''/''"
  shows "cb_executable b \<noteq> CHR ''-'' # s"
proof
  assume a: "cb_executable b = CHR ''-'' # s"
  have "split_on CHR ''/'' (CHR ''-'' # s) = [CHR ''-'' # s]" using assms(2) by (intro split_on_append(2)) auto
  then have "path_name (cb_executable b) = CHR ''-'' # s" by (simp add: a path_name_def)
  with assms(1) show False by (simp add: container_backend_new_def)
qed

lemma container_name_no_option: "is_container_name n \<Longrightarrow> n \<noteq> CHR ''-'' # s"
  by (auto simp: is_container_name_def)

text \<open>
  C33: a publisher cannot loosen the sandbox.  Whatever the job asks for, the commands a run
  executes are one container command and, only on a timeout, the removal of that container.  The
  container command is the flags of the operator's policy, which do not depend on the job, followed
  by the pinned image, which is not read as a flag, so that everything after it is given to the
  container; the flags confine it: no network, no capabilities, a read-only root, the memory and
  process limits of the policy.
\<close>

theorem sandbox_confines_job:
  assumes "container_job_new j = Inr j" "container_backend_new b = Inr b" "sandbox_run b j p name outcome elapsed = (calls, r)" "calls \<noteq> []"
  shows "\<exists>flags. flags = runtime_flags b p name \<and> hd calls = flags @ cj_image j # cj_argv j
     \<and> \<not> is_flag (cj_image j) \<and> (\<exists>d. is_digest d \<and> drop (length (cj_image j) - 71) (cj_image j) = d)
     \<and> tl calls = (if outcome = Command_Timeout then force_remove b name else [])
     \<and> flag_values ''--network'' flags = [''none''] \<and> flag_values ''--cap-drop'' flags = [''ALL'']
     \<and> ''--read-only'' \<in> set flags \<and> ''--privileged'' \<notin> set flags
     \<and> flag_values ''--memory'' flags = [show_int (sp_memory_mb p) @ ''m'']
     \<and> flag_values ''--pids-limit'' flags = [show_int (sp_pids_limit p)]"
proof -
  have enabled: "cb_enabled b" "cb_platform b = ''linux''" "is_container_name name" "sp_network_policy p = Net_Deny"
    using assms(3,4) by (auto simp: sandbox_run_def build_command_def split: if_splits)
  have calls: "calls = (runtime_flags b p name @ cj_image j # cj_argv j) # (if outcome = Command_Timeout then force_remove b name else [])"
    using assms(3,4) enabled by (auto simp: sandbox_run_def build_command_def split: if_splits command_outcome.splits)
  have image: "is_pinned_image (cj_image j)" using assms(1) by (simp add: container_job_new_def)
  obtain c cs where c: "cj_image j = c # cs" "is_alnum c" by (rule pinned_image_start [OF image])
  then have "\<not> is_flag (cj_image j)" by (auto simp: is_flag_def char_class_defs)
  moreover have "is_digest (drop (length (cj_image j) - 71) (cj_image j))"
  proof -
    have "72 < length (cj_image j)" using image by (simp add: is_pinned_image_def Let_def)
    then have "Suc (length (cj_image j) - 72) = length (cj_image j) - 71" by linarith
    with image show ?thesis by (simp add: is_pinned_image_def Let_def)
  qed
  moreover note ex = executable_no_option [OF assms(2)] container_name_no_option [OF enabled(3)]
  ultimately show ?thesis
    unfolding calls runtime_flags_def
    by (cases "sp_seccomp_profile p"; cases "sp_apparmor_profile p"; cases "sp_gpu_count p = 0") (simp_all add: ex not_sym [OF ex(1)] not_sym [OF ex(2)])
qed

definition sample_job :: container_job where
  "sample_job = \<lparr>cj_image = ''trainer@'' @ digest_text (replicate 64 CHR ''a''), cj_argv = [''--network'', ''host''],
     cj_host_mounts = [], cj_device_requests = []\<rparr>"

definition sample_backend :: container_backend where
  "sample_backend = \<lparr>cb_enabled = True, cb_executable = ''/usr/bin/docker'', cb_platform = ''linux''\<rparr>"

definition sample_sandbox_policy :: sandbox_policy where
  "sample_sandbox_policy = \<lparr>sp_cpu_cores = 8, sp_memory_mb = 4096, sp_gpu_count = 1, sp_pids_limit = 64,
     sp_writable_bytes = 1024, sp_max_runtime_seconds = 60, sp_network_policy = Net_Deny,
     sp_seccomp_profile = Some ''/etc/seccomp.json'', sp_apparmor_profile = None\<rparr>"

definition sample_name :: string where
  "sample_name = ''gpuforge-'' @ replicate 16 CHR ''a''"

lemma sample_job_ok: "container_job_new sample_job = Inr sample_job" "container_backend_new sample_backend = Inr sample_backend"
  by (simp_all add: container_job_new_def sample_job_def is_pinned_image_def char_class_defs max_arguments_def
      safe_argument_def max_argument_bytes_def utf8_encode_def utf8_char_def container_backend_new_def sample_backend_def
      path_name_def digest_text_def is_digest_def Let_def)

text \<open>A job that tries to pass \<open>--network host\<close> gives it to its container.\<close>

theorem sandbox_confines_job_witness:
  "\<exists>flags calls r. sandbox_run sample_backend sample_job sample_sandbox_policy sample_name Command_Timeout 60000 = (calls, r)
     \<and> hd calls = flags @ cj_image sample_job # [''--network'', ''host''] \<and> flag_values ''--network'' flags = [''none'']
     \<and> length calls = 3"
proof -
  obtain calls r where run: "sandbox_run sample_backend sample_job sample_sandbox_policy sample_name Command_Timeout 60000 = (calls, r)"
    by (cases "sandbox_run sample_backend sample_job sample_sandbox_policy sample_name Command_Timeout 60000")
  have "is_container_name sample_name" by (simp add: sample_name_def is_container_name_def)
  then have "length calls = 3"
    using run by (auto simp: sandbox_run_def sample_backend_def sample_sandbox_policy_def build_command_def force_remove_def)
  moreover from this have "calls \<noteq> []" by auto
  from sandbox_confines_job [OF sample_job_ok run this] obtain flags
    where "hd calls = flags @ cj_image sample_job # cj_argv sample_job" "flag_values ''--network'' flags = [''none'']" by blast
  ultimately show ?thesis using run by (auto simp: sample_job_def)
qed

end
