(* ===== verification/Config.thy ===== *)
theory Config
  imports Texts
begin

text \<open>
  The runtime configuration, \<open>src/gpuforge/config.py\<close>: the settings records with their checks, the
  construction from an untrusted mapping, the load of a file, the safe dictionary and the scan for
  sensitive field names.  The values a TOML document or a caller provides are of type \<open>json\<close> (a
  table is \<open>JObj\<close>; dates and times, which no setting accepts, stand as \<open>JNull\<close>); \<open>tomllib\<close>'s
  result on the file is an argument.  Paths are POSIX paths.
\<close>

section \<open>Errors and primitive checks\<close>

datatype config_error =
    Config_Type string
  | Config_Value string
  | Config_Range string
  | Config_Unknown string string
  | Config_Missing string
  | Config_Sensitive string
  | Config_Root
  | Config_Checkpoint_Above_Artifact
  | Config_Miner_Without_Gpu
  | Config_Tier_C_Not_Local
  | Config_Fails_Open
  | Config_Too_Large
  | Config_Unavailable
  | Config_Not_Toml
  | Config_Role_Mismatch

definition max_config_bytes :: int where
  "max_config_bytes = 65536"

definition max_netuid :: int where
  "max_netuid = 65535"

definition max_artifact_bytes :: int where
  "max_artifact_bytes = 1099511627776"

definition config_int :: "string \<Rightarrow> int \<Rightarrow> int \<Rightarrow> int \<Rightarrow> config_error + unit" where
  "config_int name i lo hi = require (in_range lo hi i) (Config_Range name)"

definition sensitive_field_names :: "string list" where
  "sensitive_field_names =
     [''accesstoken'', ''accesskey'', ''apikey'', ''apisecret'', ''authtoken'', ''bearertoken'', ''clientsecret'',
      ''credential'', ''credentials'', ''mnemonic'', ''password'', ''passwd'', ''privatekey'', ''refreshtoken'',
      ''secret'', ''secrets'', ''seedphrase'', ''token'']"

definition sensitive_field_markers :: "string list" where
  "sensitive_field_markers =
     [''accesskey'', ''accesstoken'', ''apikey'', ''apisecret'', ''authtoken'', ''bearertoken'', ''clientsecret'',
      ''credential'', ''mnemonic'', ''password'', ''passwd'', ''privatekey'', ''refreshtoken'', ''secret'', ''seedphrase'']"

definition compact_key :: "string \<Rightarrow> string" where
  "compact_key k = filter (\<lambda>c. is_lower c \<or> is_digit c) (fold_case k)"

definition sensitive_key :: "string \<Rightarrow> bool" where
  "sensitive_key k \<longleftrightarrow>
     (let c = compact_key k in c \<in> set sensitive_field_names \<or> list_ex (\<lambda>m. contains_text m c) sensitive_field_markers)"

text \<open>\<open>reject_secret_like_fields\<close>\<close>

fun has_sensitive_field :: "json \<Rightarrow> bool" where
  "has_sensitive_field (JObj kvs) = list_ex (\<lambda>(k, v). sensitive_key k \<or> has_sensitive_field v) kvs"
| "has_sensitive_field (JArr vs) = list_ex has_sensitive_field vs"
| "has_sensitive_field _ = False"

definition reject_secret_like_fields :: "json \<Rightarrow> string \<Rightarrow> config_error + unit" where
  "reject_secret_like_fields v context = require (\<not> has_sensitive_field v) (Config_Sensitive context)"

section \<open>Secrets\<close>

record runtime_secrets =
  rs_artifact_access_token :: "string option"
  rs_attestation_access_token :: "string option"

definition env_value :: "(string \<times> string) list \<Rightarrow> string \<Rightarrow> string option" where
  "env_value environ name =
     (case map_of environ name of None \<Rightarrow> None | Some s \<Rightarrow> if s = [] then None else Some s)"

definition secrets_from_environment :: "(string \<times> string) list \<Rightarrow> runtime_secrets" where
  "secrets_from_environment environ =
     \<lparr>rs_artifact_access_token = env_value environ ''GPUFORGE_ARTIFACT_ACCESS_TOKEN'',
      rs_attestation_access_token = env_value environ ''GPUFORGE_ATTESTATION_ACCESS_TOKEN''\<rparr>"

definition secrets_values :: "runtime_secrets \<Rightarrow> string list" where
  "secrets_values s =
     filter (\<lambda>v. v \<noteq> []) (List.map_filter id [rs_artifact_access_token s, rs_attestation_access_token s])"

definition secrets_to_safe :: "runtime_secrets \<Rightarrow> json" where
  "secrets_to_safe s = JObj
     [(''artifact_access_token_configured'', JBool (rs_artifact_access_token s \<noteq> None)),
      (''attestation_access_token_configured'', JBool (rs_attestation_access_token s \<noteq> None))]"

definition redacted_text :: "string option \<Rightarrow> string" where
  "redacted_text t = (case t of Some (c # cs) \<Rightarrow> ''<redacted>'' | _ \<Rightarrow> ''<unset>'')"

definition secrets_repr :: "runtime_secrets \<Rightarrow> string" where
  "secrets_repr s = ''RuntimeSecrets(artifact_access_token='' @ redacted_text (rs_artifact_access_token s)
     @ '', attestation_access_token='' @ redacted_text (rs_attestation_access_token s) @ '')''"

section \<open>Settings\<close>

datatype role = Miner | Validator | Publisher

definition role_value :: "role \<Rightarrow> string" where
  "role_value r = (case r of Miner \<Rightarrow> ''miner'' | Validator \<Rightarrow> ''validator'' | Publisher \<Rightarrow> ''publisher'')"

datatype network = Local | Test | Finney

definition network_name :: "network \<Rightarrow> string" where
  "network_name n = (case n of Local \<Rightarrow> ''local'' | Test \<Rightarrow> ''test'' | Finney \<Rightarrow> ''finney'')"

record timeout_settings =
  tm_request_seconds :: int
  tm_job_seconds :: int
  tm_shutdown_seconds :: int

definition timeout_settings_new :: "timeout_settings \<Rightarrow> config_error + timeout_settings" where
  "timeout_settings_new t = passes
     [config_int ''timeouts.request_seconds'' (tm_request_seconds t) 1 300,
      config_int ''timeouts.job_seconds'' (tm_job_seconds t) 60 86400,
      config_int ''timeouts.shutdown_seconds'' (tm_shutdown_seconds t) 1 300] t"

text \<open>A path: whether it is absolute, and its parts.\<close>

record path =
  pa_absolute :: bool
  pa_parts :: "string list"

definition path_of :: "string \<Rightarrow> path" where
  "path_of s = \<lparr>pa_absolute = (take 1 s = ''/''), pa_parts = filter (\<lambda>p. p \<noteq> [] \<and> p \<noteq> ''.'') (split_on CHR ''/'' s)\<rparr>"

text \<open>\<open>as_posix\<close> of a relative path\<close>

definition path_text :: "path \<Rightarrow> string" where
  "path_text p = (if pa_parts p = [] then ''.'' else join ''/'' (pa_parts p))"

record storage_settings =
  st_root :: path
  st_max_artifact_bytes :: int
  st_max_checkpoint_bytes :: int

definition storage_settings_new :: "storage_settings \<Rightarrow> config_error + storage_settings" where
  "storage_settings_new s = passes
     [require (\<not> (pa_absolute (st_root s) \<or> ''..'' \<in> set (pa_parts (st_root s)) \<or> pa_parts (st_root s) = [])) Config_Root,
      config_int ''storage.max_artifact_bytes'' (st_max_artifact_bytes s) 1 max_artifact_bytes,
      config_int ''storage.max_checkpoint_bytes'' (st_max_checkpoint_bytes s) 1 max_artifact_bytes,
      require (\<not> st_max_checkpoint_bytes s > st_max_artifact_bytes s) Config_Checkpoint_Above_Artifact] s"

record evidence_settings =
  ev_minimum_tier :: evidence_tier
  ev_fail_closed :: bool
  ev_max_age_seconds :: int

definition evidence_settings_new :: "evidence_settings \<Rightarrow> config_error + evidence_settings" where
  "evidence_settings_new e = passes [config_int ''evidence.max_age_seconds'' (ev_max_age_seconds e) 1 3600] e"

record sandbox_settings =
  sx_cpu_cores :: int
  sx_memory_mb :: int
  sx_gpu_count :: int
  sx_pids_limit :: int
  sx_writable_bytes :: int
  sx_network_policy :: network_policy

definition sandbox_settings_new :: "sandbox_settings \<Rightarrow> config_error + sandbox_settings" where
  "sandbox_settings_new s = passes
     [config_int ''sandbox.cpu_cores'' (sx_cpu_cores s) 1 256,
      config_int ''sandbox.memory_mb'' (sx_memory_mb s) 1024 2097152,
      config_int ''sandbox.gpu_count'' (sx_gpu_count s) 0 8,
      config_int ''sandbox.pids_limit'' (sx_pids_limit s) 64 65536,
      config_int ''sandbox.writable_bytes'' (sx_writable_bytes s) 1 max_artifact_bytes] s"

record runtime_settings =
  rt_role :: role
  rt_network :: network
  rt_netuid :: int
  rt_timeouts :: timeout_settings
  rt_storage :: storage_settings
  rt_evidence :: evidence_settings
  rt_sandbox :: sandbox_settings
  rt_secrets :: runtime_secrets

definition runtime_settings_new :: "runtime_settings \<Rightarrow> config_error + runtime_settings" where
  "runtime_settings_new r = passes
     [config_int ''netuid'' (rt_netuid r) 1 max_netuid,
      require (\<not> (rt_role r = Miner \<and> sx_gpu_count (rt_sandbox r) < 1)) Config_Miner_Without_Gpu,
      (if rt_network r \<noteq> Local
       then all_pass [require (ev_minimum_tier (rt_evidence r) \<noteq> Tier_C) Config_Tier_C_Not_Local,
                      require (ev_fail_closed (rt_evidence r)) Config_Fails_Open]
       else Inr ())] r"

section \<open>Construction from a mapping\<close>

type_synonym mapping = "(string \<times> json) list"

definition reject_unknown_keys :: "mapping \<Rightarrow> string list \<Rightarrow> string \<Rightarrow> config_error + unit" where
  "reject_unknown_keys data allowed section =
     (case sort (filter (\<lambda>k. k \<notin> set allowed) (map fst data)) of
        [] \<Rightarrow> Inr () | k # ks \<Rightarrow> Inl (Config_Unknown section k))"

definition required_value :: "mapping \<Rightarrow> string \<Rightarrow> config_error + json" where
  "required_value data name = (case map_of data name of None \<Rightarrow> Inl (Config_Missing name) | Some v \<Rightarrow> Inr v)"

definition optional_section :: "mapping \<Rightarrow> string \<Rightarrow> config_error + mapping" where
  "optional_section data name =
     (case map_of data name of
        None \<Rightarrow> Inr []
      | Some v \<Rightarrow> (case v of JObj kvs \<Rightarrow> Inr kvs | _ \<Rightarrow> Inl (Config_Type name)))"

text \<open>An enumeration is the list of its members with their values.\<close>

definition parse_enum :: "(string \<times> 'a) list \<Rightarrow> json \<Rightarrow> string \<Rightarrow> config_error + 'a" where
  "parse_enum members v name =
     (case v of
        JStr s \<Rightarrow> (case map_of members s of None \<Rightarrow> Inl (Config_Value name) | Some x \<Rightarrow> Inr x)
      | _ \<Rightarrow> Inl (Config_Type name))"

definition parse_int :: "json \<Rightarrow> string \<Rightarrow> config_error + int" where
  "parse_int v name = (case v of JInt i \<Rightarrow> Inr i | _ \<Rightarrow> Inl (Config_Type name))"

text \<open>\<open>_optional_int\<close>, \<open>_optional_enum\<close>: the default when the name is absent.\<close>

definition optional_value :: "(json \<Rightarrow> string \<Rightarrow> config_error + 'a) \<Rightarrow> mapping \<Rightarrow> string \<Rightarrow> 'a \<Rightarrow> config_error + 'a" where
  "optional_value parse data name fallback =
     (case map_of data name of None \<Rightarrow> Inr fallback | Some v \<Rightarrow> parse v name)"

definition parse_bool :: "json \<Rightarrow> string \<Rightarrow> config_error + bool" where
  "parse_bool v name = (case v of JBool b \<Rightarrow> Inr b | _ \<Rightarrow> Inl (Config_Type name))"

definition parse_path :: "json \<Rightarrow> string \<Rightarrow> config_error + path" where
  "parse_path v name =
     (case v of
        JStr s \<Rightarrow> if s = [] \<or> length s > 200 then Inl (Config_Value name) else Inr (path_of s)
      | _ \<Rightarrow> Inl (Config_Type name))"

definition roles :: "(string \<times> role) list" where
  "roles = map (\<lambda>r. (role_value r, r)) [Miner, Validator, Publisher]"

definition networks :: "(string \<times> network) list" where
  "networks = map (\<lambda>n. (network_name n, n)) [Local, Test, Finney]"

definition tiers :: "(string \<times> evidence_tier) list" where
  "tiers = map (\<lambda>t. (tier_value t, t)) [Tier_A, Tier_B, Tier_C]"

definition network_policies :: "(string \<times> network_policy) list" where
  "network_policies = map (\<lambda>p. (network_value p, p)) [Net_Deny, Net_Allowlist]"

definition timeouts_of :: "mapping \<Rightarrow> config_error + timeout_settings" where
  "timeouts_of d =
     bindE (optional_value parse_int d ''request_seconds'' 30) (\<lambda>rq.
     bindE (optional_value parse_int d ''job_seconds'' 3600) (\<lambda>jb.
     bindE (optional_value parse_int d ''shutdown_seconds'' 30) (\<lambda>sh.
     timeout_settings_new \<lparr>tm_request_seconds = rq, tm_job_seconds = jb, tm_shutdown_seconds = sh\<rparr>)))"

definition storage_of :: "mapping \<Rightarrow> config_error + storage_settings" where
  "storage_of d =
     bindE (optional_value parse_path d ''root'' (path_of ''.gpuforge/runtime'')) (\<lambda>root.
     bindE (optional_value parse_int d ''max_artifact_bytes'' 21474836480) (\<lambda>ab.
     bindE (optional_value parse_int d ''max_checkpoint_bytes'' 8589934592) (\<lambda>cb.
     storage_settings_new \<lparr>st_root = root, st_max_artifact_bytes = ab, st_max_checkpoint_bytes = cb\<rparr>)))"

definition evidence_of :: "mapping \<Rightarrow> config_error + evidence_settings" where
  "evidence_of d =
     bindE (optional_value (parse_enum tiers) d ''minimum_tier'' Tier_C) (\<lambda>tier.
     bindE (optional_value parse_bool d ''fail_closed'' True) (\<lambda>fc.
     bindE (optional_value parse_int d ''max_age_seconds'' 300) (\<lambda>age.
     evidence_settings_new \<lparr>ev_minimum_tier = tier, ev_fail_closed = fc, ev_max_age_seconds = age\<rparr>)))"

definition sandbox_of :: "mapping \<Rightarrow> config_error + sandbox_settings" where
  "sandbox_of d =
     bindE (optional_value parse_int d ''cpu_cores'' 8) (\<lambda>cpu.
     bindE (optional_value parse_int d ''memory_mb'' 32768) (\<lambda>mem.
     bindE (optional_value parse_int d ''gpu_count'' 1) (\<lambda>gpu.
     bindE (optional_value parse_int d ''pids_limit'' 512) (\<lambda>pids.
     bindE (optional_value parse_int d ''writable_bytes'' 21474836480) (\<lambda>wb.
     bindE (optional_value (parse_enum network_policies) d ''network_policy'' Net_Deny) (\<lambda>np.
     sandbox_settings_new \<lparr>sx_cpu_cores = cpu, sx_memory_mb = mem, sx_gpu_count = gpu, sx_pids_limit = pids,
       sx_writable_bytes = wb, sx_network_policy = np\<rparr>))))))"

definition settings_from_mapping :: "mapping \<Rightarrow> (string \<times> string) list \<Rightarrow> config_error + runtime_settings" where
  "settings_from_mapping data environ =
     bindE (reject_secret_like_fields (JObj data) ''configuration'') (\<lambda>_.
     bindE (reject_unknown_keys data [''role'', ''network'', ''netuid'', ''timeouts'', ''storage'', ''evidence'', ''sandbox'']
              ''configuration'') (\<lambda>_.
     bindE (bindE (required_value data ''role'') (\<lambda>v. parse_enum roles v ''role'')) (\<lambda>role.
     bindE (bindE (required_value data ''network'') (\<lambda>v. parse_enum networks v ''network'')) (\<lambda>network.
     bindE (bindE (required_value data ''netuid'') (\<lambda>v. parse_int v ''netuid'')) (\<lambda>netuid.
     bindE (optional_section data ''timeouts'') (\<lambda>timeouts_data.
     bindE (optional_section data ''storage'') (\<lambda>storage_data.
     bindE (optional_section data ''evidence'') (\<lambda>evidence_data.
     bindE (optional_section data ''sandbox'') (\<lambda>sandbox_data.
     bindE (reject_unknown_keys timeouts_data [''request_seconds'', ''job_seconds'', ''shutdown_seconds''] ''timeouts'') (\<lambda>_.
     bindE (reject_unknown_keys storage_data [''root'', ''max_artifact_bytes'', ''max_checkpoint_bytes''] ''storage'') (\<lambda>_.
     bindE (reject_unknown_keys evidence_data [''minimum_tier'', ''fail_closed'', ''max_age_seconds''] ''evidence'') (\<lambda>_.
     bindE (reject_unknown_keys sandbox_data
              [''cpu_cores'', ''memory_mb'', ''gpu_count'', ''pids_limit'', ''writable_bytes'', ''network_policy''] ''sandbox'') (\<lambda>_.
     bindE (timeouts_of timeouts_data) (\<lambda>timeouts.
     bindE (storage_of storage_data) (\<lambda>storage.
     bindE (evidence_of evidence_data) (\<lambda>evidence.
     bindE (sandbox_of sandbox_data) (\<lambda>sandbox.
     runtime_settings_new
       \<lparr>rt_role = role, rt_network = network, rt_netuid = netuid, rt_timeouts = timeouts, rt_storage = storage,
        rt_evidence = evidence, rt_sandbox = sandbox, rt_secrets = secrets_from_environment environ\<rparr>)))))))))))))))))"

text \<open>
  The file as \<open>stat\<close> and \<open>read_bytes\<close> find it: its size and the result of decoding and parsing its
  content, \<open>None\<close> for a \<open>UnicodeDecodeError\<close> or \<open>TOMLDecodeError\<close>.
\<close>

datatype config_file = Config_Missing_File | Config_File int "mapping option"

definition settings_from_toml ::
  "config_file \<Rightarrow> role option \<Rightarrow> (string \<times> string) list \<Rightarrow> config_error + runtime_settings" where
  "settings_from_toml f expected_role environ =
     (case f of
        Config_Missing_File \<Rightarrow> Inl Config_Unavailable
      | Config_File n parsed \<Rightarrow>
          if n > max_config_bytes then Inl Config_Too_Large
          else
            case parsed of
              None \<Rightarrow> Inl Config_Not_Toml
            | Some data \<Rightarrow>
                bindE (settings_from_mapping data environ) (\<lambda>settings.
                if expected_role \<noteq> None \<and> expected_role \<noteq> Some (rt_role settings) then Inl Config_Role_Mismatch
                else Inr settings))"

definition settings_safe_mapping :: "runtime_settings \<Rightarrow> mapping" where
  "settings_safe_mapping r =
     [(''role'', JStr (role_value (rt_role r))),
      (''network'', JStr (network_name (rt_network r))),
      (''netuid'', JInt (rt_netuid r)),
      (''timeouts'', JObj
         [(''request_seconds'', JInt (tm_request_seconds (rt_timeouts r))),
          (''job_seconds'', JInt (tm_job_seconds (rt_timeouts r))),
          (''shutdown_seconds'', JInt (tm_shutdown_seconds (rt_timeouts r)))]),
      (''storage'', JObj
         [(''root'', JStr (path_text (st_root (rt_storage r)))),
          (''max_artifact_bytes'', JInt (st_max_artifact_bytes (rt_storage r))),
          (''max_checkpoint_bytes'', JInt (st_max_checkpoint_bytes (rt_storage r)))]),
      (''evidence'', JObj
         [(''minimum_tier'', JStr (tier_value (ev_minimum_tier (rt_evidence r)))),
          (''fail_closed'', JBool (ev_fail_closed (rt_evidence r))),
          (''max_age_seconds'', JInt (ev_max_age_seconds (rt_evidence r)))]),
      (''sandbox'', JObj
         [(''cpu_cores'', JInt (sx_cpu_cores (rt_sandbox r))),
          (''memory_mb'', JInt (sx_memory_mb (rt_sandbox r))),
          (''gpu_count'', JInt (sx_gpu_count (rt_sandbox r))),
          (''pids_limit'', JInt (sx_pids_limit (rt_sandbox r))),
          (''writable_bytes'', JInt (sx_writable_bytes (rt_sandbox r))),
          (''network_policy'', JStr (network_value (sx_network_policy (rt_sandbox r))))])]"

definition settings_to_safe_dict :: "runtime_settings \<Rightarrow> json" where
  "settings_to_safe_dict r = JObj (settings_safe_mapping r @ [(''secrets'', secrets_to_safe (rt_secrets r))])"

section \<open>Laws\<close>

lemma parse_enum_role [simp]: "parse_enum roles (JStr (role_value r)) name = Inr r"
  by (cases r) (simp_all add: parse_enum_def roles_def role_value_def)

lemma parse_enum_network [simp]: "parse_enum networks (JStr (network_name n)) name = Inr n"
  by (cases n) (simp_all add: parse_enum_def networks_def network_name_def)

lemma parse_enum_tier [simp]: "parse_enum tiers (JStr (tier_value t)) name = Inr t"
  by (cases t) (simp_all add: parse_enum_def tiers_def)

lemma parse_enum_policy [simp]: "parse_enum network_policies (JStr (network_value p)) name = Inr p"
  by (cases p) (simp_all add: parse_enum_def network_policies_def)

lemma optional_value_simps [simp]:
  "optional_value parse [] k d = Inr d"
  "optional_value parse ((k, v) # kvs) k d = parse v k"
  "k \<noteq> k' \<Longrightarrow> optional_value parse ((k', v) # kvs) k d = optional_value parse kvs k d"
  by (simp_all add: optional_value_def)

lemma parse_simps [simp]: "parse_int (JInt i) n = Inr i" "parse_bool (JBool b) n = Inr b"
  by (simp_all add: parse_int_def parse_bool_def)

text \<open>The parts of a path are those of its text.\<close>

definition path_ok :: "path \<Rightarrow> bool" where
  "path_ok p \<longleftrightarrow> (\<forall>w \<in> set (pa_parts p). w \<noteq> [] \<and> w \<noteq> ''.'' \<and> CHR ''/'' \<notin> set w)"

lemma path_of_ok [simp]: "path_ok (path_of s)"
proof -
  have "w \<in> set (split_on c s) \<Longrightarrow> c \<notin> set w" for c w
    by (induction s arbitrary: w) (auto split: if_splits list.splits)
  then show ?thesis by (auto simp: path_ok_def path_of_def)
qed

lemma join_Cons: "\<exists>r. join d (w # ws) = w @ r"
  by (cases ws) auto

lemma path_text_start:
  assumes "path_ok p" "pa_parts p \<noteq> []"
  obtains c cs where "path_text p = c # cs" "c \<noteq> CHR ''/''"
proof -
  obtain w ws where w: "pa_parts p = w # ws" using assms(2) by (cases "pa_parts p") auto
  moreover obtain c cs where "w = c # cs" "c \<noteq> CHR ''/''" using assms(1) w by (cases w) (auto simp: path_ok_def)
  moreover obtain r where "join ''/'' (w # ws) = w @ r" using join_Cons by blast
  ultimately show ?thesis using that by (simp add: path_text_def)
qed

lemma path_of_text:
  assumes "path_ok p" "\<not> pa_absolute p" "pa_parts p \<noteq> []"
  shows "path_of (path_text p) = p"
proof -
  have split: "split_on CHR ''/'' (path_text p) = pa_parts p"
    using assms unfolding path_text_def by (simp add: split_join path_ok_def)
  have "filter (\<lambda>w. w \<noteq> [] \<and> w \<noteq> ''.'') (pa_parts p) = pa_parts p" using assms(1) by (simp add: path_ok_def)
  moreover obtain c cs where "path_text p = c # cs" "c \<noteq> CHR ''/''" by (rule path_text_start [OF assms(1,3)])
  then have "take 1 (path_text p) \<noteq> ''/''" by simp
  ultimately show ?thesis using assms(2) by (intro path.equality) (simp_all add: path_of_def split)
qed

text \<open>Settings as the constructors leave them, with a root that a configuration can name.\<close>

definition settings_valid :: "runtime_settings \<Rightarrow> bool" where
  "settings_valid r \<longleftrightarrow>
     runtime_settings_new r = Inr r \<and> timeout_settings_new (rt_timeouts r) = Inr (rt_timeouts r)
   \<and> storage_settings_new (rt_storage r) = Inr (rt_storage r) \<and> evidence_settings_new (rt_evidence r) = Inr (rt_evidence r)
   \<and> sandbox_settings_new (rt_sandbox r) = Inr (rt_sandbox r) \<and> path_ok (st_root (rt_storage r))"

lemma safe_mapping_not_sensitive: "\<not> has_sensitive_field (JObj (settings_safe_mapping r))"
proof -
  have keys: "\<not> list_ex sensitive_key [''role'', ''network'', ''netuid'', ''timeouts'', ''storage'', ''evidence'', ''sandbox'',
    ''request_seconds'', ''job_seconds'', ''shutdown_seconds'', ''root'', ''max_artifact_bytes'', ''max_checkpoint_bytes'',
    ''minimum_tier'', ''fail_closed'', ''max_age_seconds'', ''cpu_cores'', ''memory_mb'', ''gpu_count'', ''pids_limit'',
    ''writable_bytes'', ''network_policy'']"
    by code_simp
  then show ?thesis by (simp add: settings_safe_mapping_def)
qed

lemma timeouts_of_fields:
  "timeout_settings_new t = Inr t \<Longrightarrow> timeouts_of
     [(''request_seconds'', JInt (tm_request_seconds t)), (''job_seconds'', JInt (tm_job_seconds t)),
      (''shutdown_seconds'', JInt (tm_shutdown_seconds t))] = Inr t"
  by (cases t) (simp add: timeouts_of_def)

lemma storage_of_fields:
  assumes "storage_settings_new s = Inr s" "path_ok (st_root s)" "length (path_text (st_root s)) \<le> 200"
  shows "storage_of
     [(''root'', JStr (path_text (st_root s))), (''max_artifact_bytes'', JInt (st_max_artifact_bytes s)),
      (''max_checkpoint_bytes'', JInt (st_max_checkpoint_bytes s))] = Inr s"
proof -
  have root: "\<not> pa_absolute (st_root s)" "pa_parts (st_root s) \<noteq> []" using assms(1) by (simp_all add: storage_settings_new_def)
  obtain c cs where "path_text (st_root s) = c # cs" "c \<noteq> CHR ''/''" by (rule path_text_start [OF assms(2) root(2)])
  then have "parse_path (JStr (path_text (st_root s))) n = Inr (st_root s)" for n
    using assms(3) path_of_text [OF assms(2) root] by (simp add: parse_path_def)
  then show ?thesis using assms(1) by (cases s) (simp add: storage_of_def)
qed

lemma evidence_of_fields:
  "evidence_settings_new e = Inr e \<Longrightarrow> evidence_of
     [(''minimum_tier'', JStr (tier_value (ev_minimum_tier e))), (''fail_closed'', JBool (ev_fail_closed e)),
      (''max_age_seconds'', JInt (ev_max_age_seconds e))] = Inr e"
  by (cases e) (simp add: evidence_of_def)

lemma sandbox_of_fields:
  "sandbox_settings_new s = Inr s \<Longrightarrow> sandbox_of
     [(''cpu_cores'', JInt (sx_cpu_cores s)), (''memory_mb'', JInt (sx_memory_mb s)), (''gpu_count'', JInt (sx_gpu_count s)),
      (''pids_limit'', JInt (sx_pids_limit s)), (''writable_bytes'', JInt (sx_writable_bytes s)),
      (''network_policy'', JStr (network_value (sx_network_policy s)))] = Inr s"
  by (cases s) (simp add: sandbox_of_def)

lemma settings_reload:
  assumes "settings_valid r" "length (path_text (st_root (rt_storage r))) \<le> 200"
  shows "settings_from_mapping (settings_safe_mapping r) environ = Inr (r\<lparr>rt_secrets := secrets_from_environment environ\<rparr>)"
proof -
  have "runtime_settings_new r = Inr r" using assms(1) by (simp add: settings_valid_def)
  then have new: "runtime_settings_new \<lparr>rt_role = rt_role r, rt_network = rt_network r, rt_netuid = rt_netuid r, rt_timeouts = rt_timeouts r,
      rt_storage = rt_storage r, rt_evidence = rt_evidence r, rt_sandbox = rt_sandbox r, rt_secrets = x\<rparr>
      = Inr \<lparr>rt_role = rt_role r, rt_network = rt_network r, rt_netuid = rt_netuid r, rt_timeouts = rt_timeouts r,
      rt_storage = rt_storage r, rt_evidence = rt_evidence r, rt_sandbox = rt_sandbox r, rt_secrets = x\<rparr>" for x
    unfolding runtime_settings_new_def passes_Inr by (auto split: if_splits)
  have eq: "r\<lparr>rt_secrets := x\<rparr> = \<lparr>rt_role = rt_role r, rt_network = rt_network r, rt_netuid = rt_netuid r, rt_timeouts = rt_timeouts r,
      rt_storage = rt_storage r, rt_evidence = rt_evidence r, rt_sandbox = rt_sandbox r, rt_secrets = x\<rparr>" for x
    by (cases r) simp
  have "reject_secret_like_fields (JObj (settings_safe_mapping r)) ''configuration'' = Inr ()"
    using safe_mapping_not_sensitive by (simp add: reject_secret_like_fields_def)
  moreover have "timeout_settings_new (rt_timeouts r) = Inr (rt_timeouts r)" "storage_settings_new (rt_storage r) = Inr (rt_storage r)"
    "evidence_settings_new (rt_evidence r) = Inr (rt_evidence r)" "sandbox_settings_new (rt_sandbox r) = Inr (rt_sandbox r)"
    "path_ok (st_root (rt_storage r))" using assms(1) by (simp_all add: settings_valid_def)
  note sections = timeouts_of_fields [OF this(1)] storage_of_fields [OF this(2,5) assms(2)] evidence_of_fields [OF this(3)]
    sandbox_of_fields [OF this(4)]
  ultimately show ?thesis
    using new unfolding settings_from_mapping_def eq
    by (simp add: settings_safe_mapping_def reject_unknown_keys_def required_value_def optional_section_def del: has_sensitive_field.simps)
qed

section \<open>Properties\<close>

text \<open>
  Settings survive export and reload.  The safe dictionary of valid settings, without its
  \<open>secrets\<close> entry, is accepted as a configuration and yields the same settings, with the secrets of
  the environment it is loaded in, provided the root path has at most 200 characters.
\<close>

theorem settings_round_trip:
  assumes "settings_valid r" "length (path_text (st_root (rt_storage r))) \<le> 200"
  shows "settings_from_mapping (settings_safe_mapping r) environ = Inr (r\<lparr>rt_secrets := secrets_from_environment environ\<rparr>)"
  by (rule settings_reload [OF assms])

definition sample_settings :: runtime_settings where
  "sample_settings = \<lparr>rt_role = Miner, rt_network = Finney, rt_netuid = 47,
     rt_timeouts = \<lparr>tm_request_seconds = 30, tm_job_seconds = 3600, tm_shutdown_seconds = 30\<rparr>,
     rt_storage = \<lparr>st_root = \<lparr>pa_absolute = False, pa_parts = [''.gpuforge'', ''runtime'']\<rparr>,
       st_max_artifact_bytes = 21474836480, st_max_checkpoint_bytes = 8589934592\<rparr>,
     rt_evidence = \<lparr>ev_minimum_tier = Tier_B, ev_fail_closed = True, ev_max_age_seconds = 300\<rparr>,
     rt_sandbox = \<lparr>sx_cpu_cores = 8, sx_memory_mb = 32768, sx_gpu_count = 1, sx_pids_limit = 512,
       sx_writable_bytes = 21474836480, sx_network_policy = Net_Deny\<rparr>,
     rt_secrets = secrets_from_environment []\<rparr>"

lemma sample_settings_valid: "settings_valid sample_settings" "length (path_text (st_root (rt_storage sample_settings))) \<le> 200"
  by (simp_all add: settings_valid_def sample_settings_def runtime_settings_new_def timeout_settings_new_def storage_settings_new_def
      evidence_settings_new_def sandbox_settings_new_def config_int_def in_range_def max_netuid_def max_artifact_bytes_def
      path_ok_def path_text_def)

theorem settings_round_trip_witness:
  "settings_from_mapping (settings_safe_mapping sample_settings) [] = Inr sample_settings"
  using settings_round_trip [OF sample_settings_valid, of "[]"] by (simp add: sample_settings_def)

text \<open>
  C35: what an accepted configuration guarantees.  Whatever the mapping and the environment, the
  settings it yields have passed all their checks, so they are in range; no field name anywhere in
  the mapping looks like a credential; the storage root is a relative path that stays below the
  working directory; off the local network evidence of tier C is not accepted and verification
  fails closed; a miner has a GPU.
\<close>

theorem settings_fail_closed:
  assumes "settings_from_mapping data environ = Inr r"
  shows "settings_valid r \<and> \<not> has_sensitive_field (JObj data)
     \<and> \<not> pa_absolute (st_root (rt_storage r)) \<and> ''..'' \<notin> set (pa_parts (st_root (rt_storage r)))
     \<and> pa_parts (st_root (rt_storage r)) \<noteq> []
     \<and> (rt_network r = Local \<or> ev_minimum_tier (rt_evidence r) \<noteq> Tier_C \<and> ev_fail_closed (rt_evidence r))
     \<and> (rt_role r = Miner \<longrightarrow> 1 \<le> sx_gpu_count (rt_sandbox r))
     \<and> rt_secrets r = secrets_from_environment environ"
proof -
  obtain td sd ed xd where t: "timeouts_of td = Inr (rt_timeouts r)" and s: "storage_of sd = Inr (rt_storage r)"
    and e: "evidence_of ed = Inr (rt_evidence r)" and x: "sandbox_of xd = Inr (rt_sandbox r)"
    and new: "runtime_settings_new r = Inr r" and sens: "reject_secret_like_fields (JObj data) ''configuration'' = Inr ()"
    and sec: "rt_secrets r = secrets_from_environment environ"
    using assms unfolding settings_from_mapping_def bindE_Inr_iff by (auto simp: runtime_settings_new_def)
  have "timeout_settings_new (rt_timeouts r) = Inr (rt_timeouts r)" using t by (auto simp: timeouts_of_def timeout_settings_new_def)
  moreover have st: "storage_settings_new (rt_storage r) = Inr (rt_storage r)" using s by (auto simp: storage_of_def storage_settings_new_def)
  moreover have "evidence_settings_new (rt_evidence r) = Inr (rt_evidence r)" using e by (auto simp: evidence_of_def evidence_settings_new_def)
  moreover have "sandbox_settings_new (rt_sandbox r) = Inr (rt_sandbox r)" using x by (auto simp: sandbox_of_def sandbox_settings_new_def)
  moreover have "path_ok (st_root (rt_storage r))"
    using s by (auto simp: storage_of_def storage_settings_new_def optional_value_def parse_path_def split: option.splits json.splits if_splits)
  ultimately have "settings_valid r" using new by (simp add: settings_valid_def)
  then show ?thesis
    using st new sens sec
    by (auto simp: storage_settings_new_def runtime_settings_new_def reject_secret_like_fields_def split: if_splits)
qed

theorem settings_fail_closed_witness:
  "settings_valid sample_settings \<and> \<not> has_sensitive_field (JObj (settings_safe_mapping sample_settings))
     \<and> ev_fail_closed (rt_evidence sample_settings)"
proof -
  have "settings_from_mapping (settings_safe_mapping sample_settings) [] = Inr sample_settings"
    using settings_reload [OF sample_settings_valid, of "[]"] by (simp add: sample_settings_def)
  from settings_fail_closed [OF this] show ?thesis by (simp add: sample_settings_def)
qed

end
