(* ===== verification/Artifacts.thy ===== *)
theory Artifacts
  imports Texts "HOL-Library.Sublist"
begin

text \<open>
  Content-addressed artifacts, \<open>src/gpuforge/artifacts.py\<close>: references and grants, the local store
  and the resumable, verified transfer \<open>fetch_verified\<close>.  A binary stream is the list of the
  answers of its \<open>read\<close> calls; a directory entry is a \<open>node\<close>; the outcomes of the calls to the
  operating system are arguments.  \<open>hashlib\<close>'s incremental digest is the digest of the bytes given
  to it so far.
\<close>

section \<open>References and grants\<close>

datatype artifact_cause =
    Digest_Invalid
  | Size_Out_Of_Range
  | Byte_Limit_Invalid
  | Root_Symlink
  | Root_Unavailable
  | Root_Not_Directory
  | Kind_Symlink
  | Kind_Unavailable
  | Grant_Token_Invalid
  | Grant_Expiry_Invalid
  | Not_Authorized
  | Token_Unavailable
  | Stored_Size_Mismatch
  | Stored_Digest_Mismatch
  | Store_Failed
  | Offset_Invalid
  | Reference_Unavailable
  | Stored_Wrong_Size
  | Open_Failed
  | Over_Byte_Limit
  | Existing_Unsafe
  | Existing_Unverified
  | Existing_Mismatch
  | Stream_Interrupted
  | Stream_Non_Bytes
  | Retry_Limit_Invalid
  | Destination_Symlink
  | Partial_Unsafe
  | Destination_Unavailable
  | Not_Completed
  | Partial_Too_Large
  | Transfer_Truncated
  | Transfer_Exceeded
  | Digest_Verification_Failed
  | Partial_Unverified
  | Transfer_Interrupted

text \<open>
  The exception classes; \<open>Retry_Limit e\<close> is the transfer error whose message is that of \<open>e\<close> with
  \<open>; retry limit reached\<close>.
\<close>

datatype artifact_error =
    Artifact_Error artifact_cause
  | Authorization_Error artifact_cause
  | Transfer_Error artifact_cause
  | Retry_Limit artifact_error

text \<open>Whatever may be raised on the way: an artifact error, an \<open>OSError\<close>, another \<open>ValueError\<close>.\<close>

datatype failure = Artifact_Failure artifact_error | Os_Failure | Value_Failure

datatype artifact_kind = Image | Script | Dataset_Shard | Checkpoint_Artifact

datatype artifact_operation = Fetch | Store

definition artifact_bytes_limit :: int where
  "artifact_bytes_limit = 1024 ^ 4"

definition max_fetch_attempts :: int where
  "max_fetch_attempts = 5"

definition chunk_bytes :: nat where
  "chunk_bytes = 1024 * 1024"

record artifact_reference =
  ar_kind :: artifact_kind
  ar_digest :: string
  ar_size :: int

definition artifact_reference_new :: "artifact_reference \<Rightarrow> artifact_error + artifact_reference" where
  "artifact_reference_new r = passes
     [require (is_digest (ar_digest r)) (Artifact_Error Digest_Invalid),
      require (in_range 0 artifact_bytes_limit (ar_size r)) (Artifact_Error Size_Out_Of_Range)] r"

record access_grant =
  ag_token :: string
  ag_expires_at :: int

definition access_grant_new :: "access_grant \<Rightarrow> artifact_error + access_grant" where
  "access_grant_new g = passes
     [require (1 \<le> length (utf8_encode (ag_token g)) \<and> length (utf8_encode (ag_token g)) \<le> 4096
         \<and> \<not> list_ex (\<lambda>c. of_char c < (32 :: nat)) (ag_token g)) (Authorization_Error Grant_Token_Invalid),
      require (\<not> ag_expires_at g < 0) (Authorization_Error Grant_Expiry_Invalid)] g"

definition access_grant_repr :: "access_grant \<Rightarrow> string" where
  "access_grant_repr g =
     ''AccessGrant(token=<redacted>, expires_at_epoch_s='' @ show_int (ag_expires_at g) @ '')''"

section \<open>Streams\<close>

datatype read_event = Chunk bytes | Not_Bytes | Read_Os | Read_Value

text \<open>\<open>stream_sha256\<close>: the bytes read, on which digest and size are computed.\<close>

fun stream_loop :: "int \<Rightarrow> bytes \<Rightarrow> read_event list \<Rightarrow> failure + bytes" where
  "stream_loop limit acc [] = Inr acc"
| "stream_loop limit acc (Chunk c # es) =
     (if c = [] then Inr acc
      else if int (length acc + length c) > limit then Inl (Artifact_Failure (Transfer_Error Over_Byte_Limit))
      else stream_loop limit (acc @ c) es)"
| "stream_loop limit acc (Not_Bytes # es) = Inl (Artifact_Failure (Transfer_Error Stream_Non_Bytes))"
| "stream_loop limit acc (Read_Os # es) = Inl (Artifact_Failure (Transfer_Error Stream_Interrupted))"
| "stream_loop limit acc (Read_Value # es) = Inl Value_Failure"

definition stream_sha256 :: "int \<Rightarrow> read_event list \<Rightarrow> failure + string \<times> int" where
  "stream_sha256 limit es = bindE (stream_loop limit [] es) (\<lambda>m. Inr (sha256_id m, int (length m)))"

text \<open>A write to a file that can grow to \<open>disk\<close> bytes.\<close>

definition write_disk :: "int \<Rightarrow> bytes \<Rightarrow> bytes \<Rightarrow> bytes \<times> (failure + unit)" where
  "write_disk disk f c =
     (if int (length f + length c) \<le> disk then (f @ c, Inr ())
      else (f @ take (nat disk - length f) c, Inl Os_Failure))"

text \<open>\<open>_copy_and_hash\<close>: the new file \<open>acc\<close> holds the bytes given to the digest.\<close>

fun copy_and_hash :: "int \<Rightarrow> int \<Rightarrow> bytes \<Rightarrow> read_event list \<Rightarrow> bytes \<times> (failure + string \<times> int)" where
  "copy_and_hash limit disk acc [] = (acc, Inr (sha256_id acc, int (length acc)))"
| "copy_and_hash limit disk acc (Chunk c # es) =
     (if c = [] then (acc, Inr (sha256_id acc, int (length acc)))
      else if int (length acc + length c) > limit
      then (acc, Inl (Artifact_Failure (Transfer_Error Over_Byte_Limit)))
      else case write_disk disk acc c of
             (f, Inl e) \<Rightarrow> (f, Inl e)
           | (f, Inr _) \<Rightarrow> copy_and_hash limit disk f es)"
| "copy_and_hash limit disk acc (Not_Bytes # es) = (acc, Inl (Artifact_Failure (Transfer_Error Stream_Non_Bytes)))"
| "copy_and_hash limit disk acc (Read_Os # es) = (acc, Inl (Artifact_Failure (Transfer_Error Stream_Interrupted)))"
| "copy_and_hash limit disk acc (Read_Value # es) = (acc, Inl Value_Failure)"

fun copy_remaining :: "int \<Rightarrow> int \<Rightarrow> int \<Rightarrow> int \<Rightarrow> bytes \<Rightarrow> read_event list \<Rightarrow> bytes \<times> (failure + unit)" where
  "copy_remaining expected limit disk got f [] = (f, Inr ())"
| "copy_remaining expected limit disk got f (Chunk c # es) =
     (if c = [] then (f, Inr ())
      else if got + int (length c) > expected \<or> got + int (length c) > limit
      then (f, Inl (Artifact_Failure (Transfer_Error Transfer_Exceeded)))
      else case write_disk disk f c of
             (f', Inl e) \<Rightarrow> (f', Inl e)
           | (f', Inr _) \<Rightarrow> copy_remaining expected limit disk (got + int (length c)) f' es)"
| "copy_remaining expected limit disk got f (Not_Bytes # es) =
     (f, Inl (Artifact_Failure (Transfer_Error Stream_Non_Bytes)))"
| "copy_remaining expected limit disk got f (Read_Os # es) = (f, Inl Os_Failure)"
| "copy_remaining expected limit disk got f (Read_Value # es) = (f, Inl Value_Failure)"

text \<open>
  The answers of a file opened for reading: pieces of at most \<open>chunk_bytes\<close>, with an \<open>OSError\<close> at
  the read that \<open>fault\<close> names.
\<close>

function file_chunks :: "bytes \<Rightarrow> bytes list" where
  "file_chunks f = (if f = [] then [] else take chunk_bytes f # file_chunks (drop chunk_bytes f))"
  by auto
termination by (relation "measure length") (auto simp: chunk_bytes_def)

declare file_chunks.simps [simp del]

definition file_reads :: "nat option \<Rightarrow> bytes \<Rightarrow> read_event list" where
  "file_reads fault f =
     (case fault of
        None \<Rightarrow> map Chunk (file_chunks f)
      | Some n \<Rightarrow> map Chunk (take n (file_chunks f)) @ [Read_Os])"

section \<open>The local store\<close>

text \<open>
  A directory entry: a regular file, a symbolic link (with the file it leads to, if there is one) or
  something else.
\<close>

datatype node = Regular bytes | Link "bytes option" | Special

fun node_content :: "node option \<Rightarrow> bytes option" where
  "node_content (Some (Regular f)) = Some f"
| "node_content (Some (Link t)) = t"
| "node_content _ = None"

text \<open>\<open>exists\<close> follows links, so a dangling link does not exist.\<close>

definition node_exists :: "node option \<Rightarrow> bool" where
  "node_exists n \<longleftrightarrow> n \<noteq> None \<and> n \<noteq> Some (Link None)"

definition safe_file :: "node option \<Rightarrow> bool" where
  "safe_file n \<longleftrightarrow> (case n of Some (Regular _) \<Rightarrow> True | _ \<Rightarrow> False)"

definition is_link :: "node option \<Rightarrow> bool" where
  "is_link n \<longleftrightarrow> (case n of Some (Link _) \<Rightarrow> True | _ \<Rightarrow> False)"

text \<open>The entry of a kind's directory; a dangling link counts as \<open>Other_Entry\<close>.\<close>

datatype entry = No_Entry | Directory_Entry | Link_Entry | Other_Entry

type_synonym authorizer = "access_grant \<Rightarrow> artifact_operation \<Rightarrow> artifact_reference \<Rightarrow> bool option"

record adapter =
  ad_max_bytes :: int
  ad_authorizer :: "authorizer option"
  ad_kinds :: "artifact_kind \<Rightarrow> entry"
  ad_objects :: "artifact_kind \<times> string \<Rightarrow> node option"

text \<open>\<open>__init__\<close>: the root's entry, whether it can be made and resolved; an empty directory's objects.\<close>

definition adapter_open ::
  "int \<Rightarrow> authorizer option \<Rightarrow> entry \<Rightarrow> bool \<Rightarrow> (artifact_kind \<Rightarrow> entry) \<Rightarrow> (artifact_kind \<times> string \<Rightarrow> node option)
     \<Rightarrow> artifact_error + adapter" where
  "adapter_open max_bytes authorizer root_entry available kinds objects = passes
     [require (in_range 1 artifact_bytes_limit max_bytes) (Artifact_Error Byte_Limit_Invalid),
      require (root_entry \<noteq> Link_Entry) (Artifact_Error Root_Symlink),
      require (available \<and> root_entry \<noteq> Other_Entry) (Artifact_Error Root_Unavailable)]
     \<lparr>ad_max_bytes = max_bytes, ad_authorizer = authorizer, ad_kinds = kinds, ad_objects = objects\<rparr>"

definition validate_reference :: "adapter \<Rightarrow> artifact_reference \<Rightarrow> artifact_error + unit" where
  "validate_reference a r = require (\<not> ar_size r > ad_max_bytes a) (Transfer_Error Over_Byte_Limit)"

text \<open>\<open>_authorize\<close>; an authorizer that raises answers \<open>None\<close>.\<close>

definition authorize ::
  "adapter \<Rightarrow> int \<Rightarrow> access_grant option \<Rightarrow> artifact_operation \<Rightarrow> artifact_reference \<Rightarrow> artifact_error + unit" where
  "authorize a now grant operation r =
     (case ad_authorizer a of
        None \<Rightarrow> Inr ()
      | Some permits \<Rightarrow>
          (case grant of
             None \<Rightarrow> Inl (Authorization_Error Not_Authorized)
           | Some g \<Rightarrow>
               require (\<not> ag_expires_at g < now \<and> permits g operation r = Some True) (Authorization_Error Not_Authorized)))"

definition kind_directory :: "adapter \<Rightarrow> artifact_kind \<Rightarrow> bool \<Rightarrow> adapter \<times> (artifact_error + unit)" where
  "kind_directory a k can_make =
     (case ad_kinds a k of
        Link_Entry \<Rightarrow> (a, Inl (Artifact_Error Kind_Symlink))
      | Other_Entry \<Rightarrow> (a, Inl (Artifact_Error Kind_Unavailable))
      | Directory_Entry \<Rightarrow> (a, Inr ())
      | No_Entry \<Rightarrow>
          if can_make then (a\<lparr>ad_kinds := (ad_kinds a)(k := Directory_Entry)\<rparr>, Inr ())
          else (a, Inl (Artifact_Error Kind_Unavailable)))"

definition artifact_path :: "artifact_reference \<Rightarrow> artifact_kind \<times> string" where
  "artifact_path r = (ar_kind r, if take 7 (ar_digest r) = ''sha256:'' then drop 7 (ar_digest r) else ar_digest r)"

text \<open>
  The answers of the operating system in one call: can the kind's directory be made, the suffix of
  the upload's name, the space for it, can it be moved and removed, can a stored file be opened, and
  the read of it that fails.
\<close>

record store_io =
  io_make :: bool
  io_upload :: "string option"
  io_disk :: int
  io_replace :: bool
  io_unlink :: bool
  io_open :: bool
  io_fault :: "nat option"

definition verify_existing :: "adapter \<Rightarrow> node option \<Rightarrow> artifact_reference \<Rightarrow> store_io \<Rightarrow> failure + unit" where
  "verify_existing a n r io =
     (case n of
        Some (Regular f) \<Rightarrow>
          if \<not> io_open io then Inl (Artifact_Failure (Transfer_Error Existing_Unverified))
          else bindE (stream_sha256 (ad_max_bytes a) (file_reads (io_fault io) f)) (\<lambda>(d, s).
            require (\<not> (d \<noteq> ar_digest r \<or> s \<noteq> ar_size r)) (Artifact_Failure (Transfer_Error Existing_Mismatch)))
      | _ \<Rightarrow> Inl (Artifact_Failure (Transfer_Error Existing_Unsafe)))"

definition put_object :: "adapter \<Rightarrow> artifact_kind \<times> string \<Rightarrow> node option \<Rightarrow> adapter" where
  "put_object a p n = a\<lparr>ad_objects := (ad_objects a)(p := n)\<rparr>"

text \<open>The prefix of \<open>NamedTemporaryFile\<close>\<close>

definition upload_name :: "string \<Rightarrow> string" where
  "upload_name t = ''.upload-'' @ t"

text \<open>The upload of \<open>store\<close>, with its exception handlers.\<close>

definition upload :: "adapter \<Rightarrow> artifact_reference \<Rightarrow> read_event list \<Rightarrow> store_io \<Rightarrow> adapter \<times> (failure + artifact_reference)" where
  "upload a r source io =
     (case io_upload io of
        None \<Rightarrow> (a, Inl (Artifact_Failure (Transfer_Error Store_Failed)))
      | Some tmp \<Rightarrow>
          let temporary = (ar_kind r, upload_name tmp);
              (f, copied) = copy_and_hash (ad_max_bytes a) (io_disk io) [] source;
              a1 = put_object a temporary (Some (Regular f));
              removed = (if io_unlink io then put_object a1 temporary None else a1);
              checked = bindE copied (\<lambda>(d, s).
                all_pass [require (s = ar_size r) (Artifact_Failure (Transfer_Error Stored_Size_Mismatch)),
                          require (d = ar_digest r) (Artifact_Failure (Transfer_Error Stored_Digest_Mismatch)),
                          require (io_replace io) Os_Failure])
          in case checked of
               Inr _ \<Rightarrow> (put_object (put_object a1 temporary None) (artifact_path r) (Some (Regular f)), Inr r)
             | Inl (Artifact_Failure e) \<Rightarrow> (removed, Inl (Artifact_Failure e))
             | Inl _ \<Rightarrow> (removed, Inl (Artifact_Failure (Transfer_Error Store_Failed))))"

definition store ::
  "adapter \<Rightarrow> int \<Rightarrow> artifact_reference \<Rightarrow> read_event list \<Rightarrow> access_grant option \<Rightarrow> store_io
     \<Rightarrow> adapter \<times> (failure + artifact_reference)" where
  "store a now r source grant io =
     (case bindE (validate_reference a r) (\<lambda>_. authorize a now grant Store r) of
        Inl e \<Rightarrow> (a, Inl (Artifact_Failure e))
      | Inr _ \<Rightarrow>
          (case kind_directory a (ar_kind r) (io_make io) of
             (a1, Inl e) \<Rightarrow> (a1, Inl (Artifact_Failure e))
           | (a1, Inr _) \<Rightarrow>
               let n = ad_objects a1 (artifact_path r) in
               if node_exists n then (a1, bindE (verify_existing a1 n r io) (\<lambda>_. Inr r))
               else upload a1 r source io))"

definition open_read ::
  "adapter \<Rightarrow> int \<Rightarrow> artifact_reference \<Rightarrow> int \<Rightarrow> access_grant option \<Rightarrow> store_io
     \<Rightarrow> adapter \<times> (failure + read_event list)" where
  "open_read a now r offset grant io =
     (case bindE (validate_reference a r) (\<lambda>_. bindE (authorize a now grant Fetch r) (\<lambda>_.
             require (in_range 0 (ar_size r) offset) (Transfer_Error Offset_Invalid))) of
        Inl e \<Rightarrow> (a, Inl (Artifact_Failure e))
      | Inr _ \<Rightarrow>
          (case kind_directory a (ar_kind r) (io_make io) of
             (a1, Inl e) \<Rightarrow> (a1, Inl (Artifact_Failure e))
           | (a1, Inr _) \<Rightarrow>
               (a1, case ad_objects a1 (artifact_path r) of
                      Some (Regular f) \<Rightarrow>
                        if int (length f) \<noteq> ar_size r then Inl (Artifact_Failure (Transfer_Error Stored_Wrong_Size))
                        else if \<not> io_open io then Inl (Artifact_Failure (Transfer_Error Open_Failed))
                        else Inr (file_reads (io_fault io) (drop (nat offset) f))
                    | _ \<Rightarrow> Inl (Artifact_Failure (Transfer_Error Reference_Unavailable)))))"

section \<open>The verified transfer\<close>

record transfer =
  tr_partial :: "node option"
  tr_destination :: "node option"

text \<open>
  The environment of one attempt: the token provider's answer (\<open>None\<close> without a provider, \<open>Some
  None\<close> when it raises or returns no grant), the reader, the space for the partial file and the
  outcomes of its opening, hashing, replacement and removal.
\<close>

record attempt =
  at_grant :: "access_grant option option"
  at_reader :: "int \<Rightarrow> access_grant option \<Rightarrow> failure + read_event list"
  at_disk :: int
  at_append :: bool
  at_open :: bool
  at_fault :: "nat option"
  at_replace :: bool
  at_unlink :: bool

definition attempt_grant :: "attempt \<Rightarrow> failure + access_grant option" where
  "attempt_grant w =
     (case at_grant w of
        None \<Rightarrow> Inr None
      | Some None \<Rightarrow> Inl (Artifact_Failure (Authorization_Error Token_Unavailable))
      | Some (Some g) \<Rightarrow> Inr (Some g))"

definition unlink_partial :: "attempt \<Rightarrow> transfer \<Rightarrow> transfer" where
  "unlink_partial w t = (if at_unlink w then t\<lparr>tr_partial := None\<rparr> else t)"

text \<open>Opening a file for appending creates it, through a dangling link too.\<close>

definition set_content :: "bytes \<Rightarrow> node option \<Rightarrow> node option" where
  "set_content f n = (case n of Some (Link _) \<Rightarrow> Some (Link (Some f)) | _ \<Rightarrow> Some (Regular f))"

definition hash_path :: "int \<Rightarrow> attempt \<Rightarrow> bytes \<Rightarrow> failure + string \<times> int" where
  "hash_path limit w f =
     (if \<not> at_open w then Inl (Artifact_Failure (Transfer_Error Partial_Unverified))
      else stream_sha256 limit (file_reads (at_fault w) f))"

text \<open>The part of an attempt after the copy: \<open>f\<close> is the content of the partial file.\<close>

definition publish_partial :: "artifact_reference \<Rightarrow> int \<Rightarrow> attempt \<Rightarrow> bytes \<Rightarrow> transfer \<Rightarrow> transfer \<times> (failure + unit)" where
  "publish_partial r limit w f t =
     (case hash_path limit w f of
        Inl e \<Rightarrow> (t, Inl e)
      | Inr (d, s) \<Rightarrow>
          if s < ar_size r then (t, Inl (Artifact_Failure (Transfer_Error Transfer_Truncated)))
          else if s > ar_size r then (unlink_partial w t, Inl (Artifact_Failure (Transfer_Error Transfer_Exceeded)))
          else if d \<noteq> ar_digest r
          then (unlink_partial w t, Inl (Artifact_Failure (Transfer_Error Digest_Verification_Failed)))
          else if at_replace w
          then (\<lparr>tr_partial = None, tr_destination = tr_partial t\<rparr>, Inr ())
          else (t, Inl Os_Failure))"

definition fetch_attempt :: "artifact_reference \<Rightarrow> int \<Rightarrow> attempt \<Rightarrow> transfer \<Rightarrow> transfer \<times> (failure + unit)" where
  "fetch_attempt r limit w t =
     (let f = (case node_content (tr_partial t) of None \<Rightarrow> [] | Some f \<Rightarrow> f);
          offset = int (length f)
      in if offset > ar_size r \<or> offset > limit
         then (unlink_partial w t, Inl (Artifact_Failure (Transfer_Error Partial_Too_Large)))
         else case bindE (attempt_grant w) (at_reader w offset) of
                Inl e \<Rightarrow> (t, Inl e)
              | Inr source \<Rightarrow>
                  if \<not> at_append w then (t, Inl Os_Failure)
                  else (case copy_remaining (ar_size r) limit (at_disk w) offset f source of
                          (f', copied) \<Rightarrow>
                            let t' = t\<lparr>tr_partial := set_content f' (tr_partial t)\<rparr> in
                            case copied of Inl e \<Rightarrow> (t', Inl e) | Inr _ \<Rightarrow> publish_partial r limit w f' t'))"

text \<open>The retry loop, over the environments of the attempts that are left.\<close>

fun fetch_loop :: "artifact_reference \<Rightarrow> int \<Rightarrow> artifact_error \<Rightarrow> transfer \<Rightarrow> attempt list \<Rightarrow> transfer \<times> (failure + unit)" where
  "fetch_loop r limit last_error t [] = (t, Inl (Artifact_Failure (Retry_Limit last_error)))"
| "fetch_loop r limit last_error t (w # ws) =
     (case fetch_attempt r limit w t of
        (t', Inr _) \<Rightarrow> (t', Inr ())
      | (t', Inl (Artifact_Failure (Transfer_Error c))) \<Rightarrow> fetch_loop r limit (Transfer_Error c) t' ws
      | (t', Inl (Artifact_Failure (Retry_Limit e))) \<Rightarrow> fetch_loop r limit (Retry_Limit e) t' ws
      | (t', Inl Os_Failure) \<Rightarrow> fetch_loop r limit (Transfer_Error Transfer_Interrupted) t' ws
      | (t', Inl e) \<Rightarrow> (t', Inl e))"

text \<open>\<open>env i\<close> is the environment of attempt \<open>i\<close>; \<open>parent\<close>, whether the destination's directory can be made.\<close>

definition fetch_verified ::
  "artifact_reference \<Rightarrow> int \<Rightarrow> int \<Rightarrow> bool \<Rightarrow> (nat \<Rightarrow> attempt) \<Rightarrow> transfer \<Rightarrow> transfer \<times> (failure + unit)" where
  "fetch_verified r limit max_attempts parent env t =
     (case all_pass
        [require (\<not> ar_size r > limit) Over_Byte_Limit,
         require (in_range 1 max_fetch_attempts max_attempts) Retry_Limit_Invalid,
         require (\<not> is_link (tr_destination t)) Destination_Symlink,
         require (\<not> (node_exists (tr_partial t) \<and> \<not> safe_file (tr_partial t))) Partial_Unsafe,
         require parent Destination_Unavailable] of
        Inl c \<Rightarrow> (t, Inl (Artifact_Failure (Transfer_Error c)))
      | Inr _ \<Rightarrow> fetch_loop r limit (Transfer_Error Not_Completed) t (map env [0..<nat max_attempts]))"

section \<open>Streams and hashes\<close>

lemma concat_file_chunks [simp]: "concat (file_chunks f) = f"
  by (induction f rule: file_chunks.induct) (subst file_chunks.simps, simp)

lemma file_chunks_nonempty [simp]: "[] \<notin> set (file_chunks f)"
proof (induction f rule: file_chunks.induct)
  case (1 f)
  then show ?case by (cases "f = []"; subst file_chunks.simps) (simp_all add: chunk_bytes_def)
qed

lemma stream_loop_chunks:
  "[] \<notin> set cs \<Longrightarrow> stream_loop limit acc (map Chunk cs @ es) =
     (if cs \<noteq> [] \<and> int (length (acc @ concat cs)) > limit then Inl (Artifact_Failure (Transfer_Error Over_Byte_Limit))
      else stream_loop limit (acc @ concat cs) es)"
proof (induction cs arbitrary: acc)
  case (Cons c cs)
  then show ?case by (cases cs) auto
qed simp

text \<open>A successful hash of a file is the hash of its content; a small readable file has one.\<close>

lemma file_hash_sound:
  assumes "stream_sha256 limit (file_reads fault f) = Inr (d, s)"
  shows "d = sha256_id f \<and> s = int (length f)"
proof (cases fault)
  case None
  with assms show ?thesis
    using stream_loop_chunks [of "file_chunks f" limit "[]" "[]"]
    by (auto simp: stream_sha256_def file_reads_def simp del: sha256_id_eq_iff split: if_splits)
next
  case (Some n)
  have "[] \<notin> set (take n (file_chunks f))" by (meson file_chunks_nonempty in_set_takeD)
  then show ?thesis
    using assms Some stream_loop_chunks [of "take n (file_chunks f)" limit "[]" "[Read_Os]"]
    by (auto simp: stream_sha256_def file_reads_def split: if_splits)
qed

lemma file_hash_complete:
  "int (length f) \<le> limit \<Longrightarrow> stream_sha256 limit (file_reads None f) = Inr (sha256_id f, int (length f))"
  using stream_loop_chunks [of "file_chunks f" limit "[]" "[]"] by (simp add: stream_sha256_def file_reads_def)

lemma copy_and_hash_sound:
  "copy_and_hash limit disk acc es = (f, Inr (d, s)) \<Longrightarrow> d = sha256_id f \<and> s = int (length f)"
  by (induction limit disk acc es rule: copy_and_hash.induct)
    (auto simp: write_disk_def simp del: sha256_id_eq_iff split: if_splits)

text \<open>Copying the pieces of a stream appends a prefix of them, all of them if there is space.\<close>

lemma copy_remaining_prefix:
  assumes "[] \<notin> set cs" "got + int (length (concat cs)) \<le> expected" "got + int (length (concat cs)) \<le> limit"
    "copy_remaining expected limit disk got f (map Chunk cs @ es) = (f', res)" "es \<in> {[], [Read_Os]}"
  shows "prefix f f' \<and> prefix f' (f @ concat cs) \<and> (res = Inl Os_Failure \<or> es = [] \<and> res = Inr ())"
  using assms
proof (induction cs arbitrary: got f)
  case (Cons c cs)
  then have small: "\<not> (expected < got + int (length c) \<or> limit < got + int (length c))" and c: "c \<noteq> []" by auto
  show ?case
  proof (cases "int (length f + length c) \<le> disk")
    case True
    with Cons.prems small c
    have "copy_remaining expected limit disk (got + int (length c)) (f @ c) (map Chunk cs @ es) = (f', res)"
      by (simp add: write_disk_def)
    with Cons.IH [of "got + int (length c)" "f @ c"] Cons.prems show ?thesis by (auto intro: append_prefixD)
  next
    case False
    have "prefix (take n c) (c @ concat cs)" for n unfolding prefix_def by (metis append.assoc append_take_drop_id)
    with False Cons.prems small c show ?thesis by (auto simp: write_disk_def)
  qed
qed auto

lemma copy_remaining_all:
  assumes "[] \<notin> set cs" "got + int (length (concat cs)) \<le> expected" "got + int (length (concat cs)) \<le> limit"
    "int (length (f @ concat cs)) \<le> disk"
  shows "copy_remaining expected limit disk got f (map Chunk cs) = (f @ concat cs, Inr ())"
  using assms
proof (induction cs arbitrary: got f)
  case (Cons c cs)
  then have "\<not> (expected < got + int (length c) \<or> limit < got + int (length c))" "c \<noteq> []" "int (length f + length c) \<le> disk" by auto
  with Cons.IH [of "got + int (length c)" "f @ c"] Cons.prems show ?case by (simp add: write_disk_def)
qed simp

section \<open>The store keeps verified content\<close>

text \<open>
  Calls on the store: each constructs its reference.  \<open>addressed\<close>, the invariant: a stored regular
  file has the digest that is its name.  \<open>keeps\<close>, the order: a stored file stays as it is.
\<close>

datatype adapter_call =
    Store_Call int artifact_reference "read_event list" "access_grant option" store_io
  | Read_Call int artifact_reference int "access_grant option" store_io

datatype adapter_result = Stored artifact_reference | Opened "read_event list"

fun adapter_step :: "adapter \<Rightarrow> adapter_call \<Rightarrow> adapter \<times> (failure + adapter_result)" where
  "adapter_step a (Store_Call now r source grant io) =
     (case artifact_reference_new r of
        Inl e \<Rightarrow> (a, Inl (Artifact_Failure e))
      | Inr r \<Rightarrow> (case store a now r source grant io of (a', res) \<Rightarrow> (a', bindE res (\<lambda>r. Inr (Stored r)))))"
| "adapter_step a (Read_Call now r offset grant io) =
     (case artifact_reference_new r of
        Inl e \<Rightarrow> (a, Inl (Artifact_Failure e))
      | Inr r \<Rightarrow> (case open_read a now r offset grant io of (a', res) \<Rightarrow> (a', bindE res (\<lambda>es. Inr (Opened es)))))"

definition addressed :: "adapter \<Rightarrow> bool" where
  "addressed a \<longleftrightarrow> (\<forall>k h f. is_hex64 h \<longrightarrow> ad_objects a (k, h) = Some (Regular f) \<longrightarrow> to_hex (sha256 f) = h)"

definition keeps :: "adapter \<Rightarrow> adapter \<Rightarrow> bool" where
  "keeps a b \<longleftrightarrow>
     (\<forall>k h f. is_hex64 h \<longrightarrow> ad_objects a (k, h) = Some (Regular f) \<longrightarrow> ad_objects b (k, h) = Some (Regular f))"

lemma upload_name_not_hex: "\<not> is_hex64 (upload_name s)"
  by (simp add: upload_name_def is_hex64_def match_class_def char_class_defs)

lemma artifact_path_hex: "is_digest (ar_digest r) \<Longrightarrow> artifact_path r = (ar_kind r, digest_hex (ar_digest r))"
  by (simp add: artifact_path_def is_digest_def digest_hex_def)

lemma kind_directory_objects:
  "kind_directory a k m = (a', res) \<Longrightarrow> ad_objects a' = ad_objects a \<and> ad_max_bytes a' = ad_max_bytes a"
  by (auto simp: kind_directory_def split: entry.splits if_splits)

text \<open>An upload changes its temporary file, and on success the object, which then has its digest.\<close>

lemma upload_effect:
  assumes "upload a r source io = (a', res)"
  shows "(\<exists>p n. ad_objects a' = (ad_objects a)(p := n) \<and> (\<exists>k t. p = (k, upload_name t))) \<and> (\<exists>e. res = Inl e)
     \<or> (\<exists>t f. ad_objects a' = (ad_objects a)((ar_kind r, upload_name t) := None, artifact_path r := Some (Regular f))
        \<and> res = Inr r \<and> sha256_id f = ar_digest r \<and> int (length f) = ar_size r)
     \<or> a' = a \<and> (\<exists>e. res = Inl e)"
proof (cases "io_upload io")
  case None
  with assms show ?thesis by (auto simp: upload_def)
next
  case (Some t)
  obtain f copied where copy: "copy_and_hash (ad_max_bytes a) (io_disk io) [] source = (f, copied)" by force
  define a1 where "a1 = put_object a (ar_kind r, upload_name t) (Some (Regular f))"
  define removed where "removed = (if io_unlink io then put_object a1 (ar_kind r, upload_name t) None else a1)"
  have removed: "\<exists>n. ad_objects removed = (ad_objects a)((ar_kind r, upload_name t) := n)"
    by (auto simp: removed_def a1_def put_object_def)
  define checked where "checked = bindE copied (\<lambda>(d, s).
      all_pass [require (s = ar_size r) (Artifact_Failure (Transfer_Error Stored_Size_Mismatch)),
                require (d = ar_digest r) (Artifact_Failure (Transfer_Error Stored_Digest_Mismatch)),
                require (io_replace io) Os_Failure])"
  have up: "(a', res) = (case checked of
      Inr _ \<Rightarrow> (put_object (put_object a1 (ar_kind r, upload_name t) None) (artifact_path r) (Some (Regular f)), Inr r)
    | Inl (Artifact_Failure e) \<Rightarrow> (removed, Inl (Artifact_Failure e))
    | Inl _ \<Rightarrow> (removed, Inl (Artifact_Failure (Transfer_Error Store_Failed))))"
    using assms [symmetric] by (simp only: upload_def Some copy Let_def option.case prod.case a1_def removed_def checked_def)
  show ?thesis
  proof (cases checked)
    case (Inl e)
    with up have "a' = removed" "\<exists>e. res = Inl e" by (cases e; simp)+
    with removed show ?thesis by blast
  next
    case (Inr u)
    then obtain d s where "copied = Inr (d, s)" and ds: "s = ar_size r" "d = ar_digest r" by (auto simp: checked_def)
    with copy_and_hash_sound copy have "d = sha256_id f \<and> s = int (length f)" by blast
    moreover from Inr up have "res = Inr r"
      "ad_objects a' = (ad_objects a)((ar_kind r, upload_name t) := None, artifact_path r := Some (Regular f))"
      by (simp_all add: a1_def put_object_def)
    ultimately show ?thesis using ds by blast
  qed
qed

text \<open>
  What a call of \<open>store\<close> does: it fails and changes at most a temporary file; or it puts an object
  with its digest where nothing was; or it finds the object there, verified.
\<close>

lemma store_effect:
  assumes "store a now r source grant io = (a', res)"
  shows "(\<exists>p n. ad_objects a' = (ad_objects a)(p := n) \<and> (\<exists>k t. p = (k, upload_name t))) \<and> (\<exists>e. res = Inl e)
     \<or> (\<exists>t f. ad_objects a' = (ad_objects a)((ar_kind r, upload_name t) := None, artifact_path r := Some (Regular f))
        \<and> \<not> node_exists (ad_objects a (artifact_path r)) \<and> res = Inr r \<and> sha256_id f = ar_digest r \<and> int (length f) = ar_size r)
     \<or> ad_objects a' = ad_objects a \<and> (\<exists>e. res = Inl e)
     \<or> (\<exists>f. ad_objects a' = ad_objects a \<and> ad_objects a (artifact_path r) = Some (Regular f)
        \<and> res = Inr r \<and> sha256_id f = ar_digest r \<and> int (length f) = ar_size r)"
proof -
  obtain a1 made where make: "kind_directory a (ar_kind r) (io_make io) = (a1, made)" by force
  note same = kind_directory_objects [OF this]
  consider (stop) "ad_objects a' = ad_objects a" "\<exists>e. res = Inl e"
    | (old) "a' = a1" "res = bindE (verify_existing a1 (ad_objects a (artifact_path r)) r io) (\<lambda>_. Inr r)"
    | (new) "\<not> node_exists (ad_objects a (artifact_path r))" "upload a1 r source io = (a', res)"
  proof (cases "bindE (validate_reference a r) (\<lambda>_. authorize a now grant Store r)")
    case Inl
    with assms show ?thesis by (intro stop) (auto simp: store_def)
  next
    case (Inr u)
    then show ?thesis
      using assms make same stop old new
      by (cases made; cases "node_exists (ad_objects a (artifact_path r))") (auto simp: store_def Let_def)
  qed
  then show ?thesis
  proof cases
    case stop
    then show ?thesis by blast
  next
    case old
    show ?thesis
    proof (cases "verify_existing a1 (ad_objects a (artifact_path r)) r io")
      case (Inl e)
      with old same show ?thesis by simp
    next
      case (Inr u)
      then obtain f d s where f: "ad_objects a (artifact_path r) = Some (Regular f)"
        and "stream_sha256 (ad_max_bytes a1) (file_reads (io_fault io) f) = Inr (d, s)" "d = ar_digest r" "s = ar_size r"
        by (auto simp: verify_existing_def split: option.splits node.splits if_splits)
      with file_hash_sound have "sha256_id f = ar_digest r" "int (length f) = ar_size r" by metis+
      with old same f Inr show ?thesis by simp
    qed
  next
    case new
    from upload_effect [OF new(2)] new(1) same show ?thesis by auto
  qed
qed

lemma store_keeps:
  assumes "store a now r source grant io = (a', res)" "is_digest (ar_digest r)" "addressed a"
  shows "addressed a' \<and> keeps a a'"
  using store_effect [OF assms(1)]
proof (elim disjE exE conjE)
  fix p n k t e
  assume "ad_objects a' = (ad_objects a)(p := n)" "p = (k, upload_name t)"
  with assms(3) show ?thesis using upload_name_not_hex [of t] by (auto simp: addressed_def keeps_def)
next
  fix t f
  assume new: "ad_objects a' = (ad_objects a)((ar_kind r, upload_name t) := None, artifact_path r := Some (Regular f))"
    "\<not> node_exists (ad_objects a (artifact_path r))" "sha256_id f = ar_digest r"
  have "ad_objects a (artifact_path r) \<noteq> Some (Regular g)" for g using new(2) by (auto simp: node_exists_def)
  moreover have "to_hex (sha256 f) = digest_hex (ar_digest r)" by (simp add: new(3) [symmetric] sha256_id_def)
  ultimately show ?thesis
    using new(1) assms(3) upload_name_not_hex [of t] artifact_path_hex [OF assms(2)]
    by (auto simp: addressed_def keeps_def)
qed (use assms(3) in \<open>auto simp: addressed_def keeps_def\<close>)

lemma open_read_objects: "open_read a now r off grant io = (a', res) \<Longrightarrow> ad_objects a' = ad_objects a"
  by (auto simp: open_read_def dest: kind_directory_objects split: sum.splits prod.splits)

lemma adapter_step_keeps:
  assumes "addressed a"
  shows "addressed (fst (adapter_step a c)) \<and> keeps a (fst (adapter_step a c))"
proof (cases c)
  case (Store_Call now r source grant io)
  obtain a' res where st: "store a now r source grant io = (a', res)" by force
  show ?thesis
  proof (cases "artifact_reference_new r")
    case (Inr r')
    then have "r' = r" "is_digest (ar_digest r)" by (simp_all add: artifact_reference_new_def)
    with store_keeps [OF st _ assms] Inr st show ?thesis by (simp add: Store_Call)
  qed (use assms in \<open>simp add: Store_Call keeps_def\<close>)
next
  case (Read_Call now r off grant io)
  obtain a' res where st: "open_read a now r off grant io = (a', res)" by force
  show ?thesis
  proof (cases "artifact_reference_new r")
    case (Inr r')
    then have "r' = r" by (simp add: artifact_reference_new_def)
    with open_read_objects [OF st] Inr st assms show ?thesis by (simp add: Read_Call addressed_def keeps_def)
  qed (use assms in \<open>simp add: Read_Call keeps_def\<close>)
qed

interpretation artifact_store: progressing_machine adapter_step addressed keeps
proof unfold_locales
  show "addressed a \<Longrightarrow> addressed (fst (adapter_step a c))" for a c using adapter_step_keeps by blast
  show "keeps a a" for a by (simp add: keeps_def)
  show "keeps a b \<Longrightarrow> keeps b c \<Longrightarrow> keeps a c" for a b c by (simp add: keeps_def)
  show "addressed a \<Longrightarrow> keeps a (fst (adapter_step a c))" for a c using adapter_step_keeps by blast
qed

section \<open>The transfer publishes verified content\<close>

lemma set_content_content [simp]: "node_content (set_content f n) = Some f"
  by (cases n; simp add: set_content_def split: node.splits)

text \<open>The partial file after an attempt is no new link.\<close>

definition file_or_none :: "node option \<Rightarrow> bool" where
  "file_or_none n \<longleftrightarrow> n = None \<or> safe_file n"

lemma file_or_none_simps [simp]:
  "file_or_none None" "file_or_none (Some (Regular f))" "\<not> file_or_none (Some (Link l))" "\<not> file_or_none (Some Special)"
  by (simp_all add: file_or_none_def safe_file_def)

lemma set_content_file [simp]: "file_or_none n \<Longrightarrow> set_content f n = Some (Regular f)"
  by (auto simp: file_or_none_def safe_file_def set_content_def split: option.splits node.splits)

text \<open>What an attempt may do to partial file and destination.\<close>

definition attempt_effect :: "artifact_reference \<Rightarrow> transfer \<Rightarrow> transfer \<Rightarrow> failure + unit \<Rightarrow> bool" where
  "attempt_effect r t t' res \<longleftrightarrow>
     (case res of
        Inl _ \<Rightarrow> tr_destination t' = tr_destination t \<and> (file_or_none (tr_partial t) \<longrightarrow> file_or_none (tr_partial t'))
      | Inr _ \<Rightarrow> tr_partial t' = None
          \<and> (\<exists>f. node_content (tr_destination t') = Some f \<and> sha256_id f = ar_digest r \<and> int (length f) = ar_size r)
          \<and> (file_or_none (tr_partial t) \<longrightarrow> safe_file (tr_destination t')))"

lemma publish_effect:
  assumes "publish_partial r limit w f t = (t', res)" "node_content (tr_partial t) = Some f"
  shows "attempt_effect r t t' res"
proof (cases "hash_path limit w f")
  case (Inl e)
  with assms show ?thesis by (auto simp: publish_partial_def attempt_effect_def)
next
  case (Inr ds)
  then have ds: "ds = (sha256_id f, int (length f))"
    by (cases ds) (auto simp: hash_path_def simp del: sha256_id_eq_iff dest: file_hash_sound split: if_splits)
  show ?thesis
    using assms Inr
    by (cases "tr_partial t")
      (auto simp: publish_partial_def ds attempt_effect_def unlink_partial_def file_or_none_def simp del: sha256_id_eq_iff split: if_splits)
qed

lemma fetch_attempt_effect:
  assumes "fetch_attempt r limit w t = (t', res)"
  shows "attempt_effect r t t' res"
proof -
  define f where "f = (case node_content (tr_partial t) of None \<Rightarrow> [] | Some f \<Rightarrow> f)"
  have stay: "attempt_effect r t t (Inl e)" "attempt_effect r t (unlink_partial w t) (Inl e)" for e
    by (simp_all add: attempt_effect_def unlink_partial_def)
  show ?thesis
  proof (cases "int (length f) > ar_size r \<or> int (length f) > limit")
    case True
    with assms stay show ?thesis by (auto simp: fetch_attempt_def f_def Let_def)
  next
    case small: False
    show ?thesis
    proof (cases "bindE (attempt_grant w) (at_reader w (int (length f)))")
      case (Inl e)
      with small assms stay show ?thesis by (auto simp: fetch_attempt_def f_def Let_def)
    next
      case (Inr source)
      obtain f' copied where copy: "copy_remaining (ar_size r) limit (at_disk w) (int (length f)) f source = (f', copied)"
        by force
      define t1 where "t1 = t\<lparr>tr_partial := set_content f' (tr_partial t)\<rparr>"
      have "(t', res) = (if \<not> at_append w then (t, Inl Os_Failure) else
          case copied of Inl e \<Rightarrow> (t1, Inl e) | Inr _ \<Rightarrow> publish_partial r limit w f' t1)"
        using assms small Inr copy by (cases "at_append w"; cases copied) (auto simp: fetch_attempt_def f_def [symmetric] Let_def t1_def)
      moreover have "attempt_effect r t t1 (Inl e)" for e by (simp add: t1_def attempt_effect_def)
      moreover have "attempt_effect r t x y" if "publish_partial r limit w f' t1 = (x, y)" for x y
      proof -
        have "attempt_effect r t1 x y" using that by (rule publish_effect) (simp add: t1_def)
        then show ?thesis by (cases y) (simp_all add: attempt_effect_def t1_def)
      qed
      ultimately show ?thesis using stay(1) by (cases copied) (metis prod.inject sum.case)+
    qed
  qed
qed

lemma fetch_loop_effect:
  "fetch_loop r limit e t ws = (t', res) \<Longrightarrow> attempt_effect r t t' res"
proof (induction ws arbitrary: e t)
  case Nil
  then show ?case by (auto simp: attempt_effect_def)
next
  case (Cons w ws)
  obtain t1 res1 where one: "fetch_attempt r limit w t = (t1, res1)" by force
  note first = fetch_attempt_effect [OF this]
  have again: "attempt_effect r t t' res" if "fetch_loop r limit e' t1 ws = (t', res)" "res1 = Inl x" for e' x
    using Cons.IH [OF that(1)] first by (cases res) (auto simp: attempt_effect_def that(2))
  show ?case
  proof (cases res1)
    case (Inr u)
    with Cons.prems one first show ?thesis by auto
  next
    case (Inl x)
    show ?thesis
    proof (cases x)
      case (Artifact_Failure y)
      show ?thesis
        by (cases y) (use Cons.prems one first again [OF _ Inl] Inl Artifact_Failure in auto)
    qed (use Cons.prems one first again [OF _ Inl] Inl in auto)
  qed
qed

section \<open>The transfer resumes and recovers\<close>

text \<open>
  An attempt of a source that holds \<open>c\<close>: from any offset it answers with pieces of the rest of \<open>c\<close>,
  all of it when \<open>whole\<close>, or a part and then an \<open>OSError\<close>.
\<close>

definition serves :: "bytes \<Rightarrow> bool \<Rightarrow> attempt \<Rightarrow> bool" where
  "serves c whole w \<longleftrightarrow>
     (\<exists>g. attempt_grant w = Inr g \<and>
       (\<forall>off. 0 \<le> off \<and> off \<le> int (length c) \<longrightarrow>
         (\<exists>cs. [] \<notin> set cs \<and> prefix (concat cs) (drop (nat off) c) \<and> (whole \<longrightarrow> concat cs = drop (nat off) c)
            \<and> at_reader w off g = Inr (map Chunk cs @ (if whole then [] else [Read_Os])))))"

definition clean :: "bytes \<Rightarrow> attempt \<Rightarrow> bool" where
  "clean c w \<longleftrightarrow> serves c True w \<and> at_append w \<and> at_open w \<and> at_fault w = None \<and> at_replace w \<and> at_unlink w
     \<and> int (length c) \<le> at_disk w"

text \<open>An interrupted attempt: the connection breaks, the disk may be full.\<close>

definition honest :: "bytes \<Rightarrow> attempt \<Rightarrow> bool" where
  "honest c w \<longleftrightarrow> clean c w \<or> serves c False w"

definition names :: "artifact_reference \<Rightarrow> bytes \<Rightarrow> bool" where
  "names r c \<longleftrightarrow> ar_digest r = sha256_id c \<and> ar_size r = int (length c)"

definition partial_bytes :: "transfer \<Rightarrow> bytes" where
  "partial_bytes t = (case node_content (tr_partial t) of None \<Rightarrow> [] | Some f \<Rightarrow> f)"

definition ready :: "transfer \<Rightarrow> bool" where
  "ready t \<longleftrightarrow> file_or_none (tr_partial t)"

definition resumable :: "bytes \<Rightarrow> transfer \<Rightarrow> bool" where
  "resumable c t \<longleftrightarrow> ready t \<and> prefix (partial_bytes t) c"

text \<open>
  A clean attempt fills the partial file up; what it then holds is published if it has the digest
  and removed if it has not.  A partial file that is too large is removed.
\<close>

lemma clean_attempt:
  assumes "clean c w" "names r c" "int (length c) \<le> limit" "ready t"
  shows "fetch_attempt r limit w t =
     (let f = partial_bytes t; d = f @ drop (length f) c in
      if length f \<le> length c \<and> sha256 d = sha256 c then (\<lparr>tr_partial = None, tr_destination = Some (Regular d)\<rparr>, Inr ())
      else (t\<lparr>tr_partial := None\<rparr>, Inl (Artifact_Failure (Transfer_Error
              (if length f \<le> length c then Digest_Verification_Failed else Partial_Too_Large)))))"
proof (cases "length (partial_bytes t) \<le> length c")
  case False
  with assms show ?thesis
    by (simp add: fetch_attempt_def partial_bytes_def [symmetric] names_def unlink_partial_def clean_def Let_def)
next
  case True
  let ?f = "partial_bytes t" and ?d = "partial_bytes t @ drop (length (partial_bytes t)) c"
  obtain g cs where g: "attempt_grant w = Inr g" and cs: "[] \<notin> set cs" "concat cs = drop (length ?f) c"
      "at_reader w (int (length ?f)) g = Inr (map Chunk cs)"
    using assms(1) True unfolding clean_def serves_def
    by (metis append_Nil2 nat_int of_nat_0_le_iff of_nat_le_iff)
  have "copy_remaining (ar_size r) limit (at_disk w) (int (length ?f)) ?f (map Chunk cs) = (?f @ concat cs, Inr ())"
    by (rule copy_remaining_all) (use assms True cs in \<open>simp_all add: names_def clean_def\<close>)
  moreover have "length ?d = length c" using True by simp
  ultimately show ?thesis
    using assms True g cs
    by (simp add: fetch_attempt_def partial_bytes_def [symmetric] names_def clean_def Let_def publish_partial_def hash_path_def
        file_hash_complete ready_def unlink_partial_def)
qed

lemma interrupted_attempt:
  assumes "serves c False w" "names r c" "int (length c) \<le> limit" "ready t"
  shows "\<exists>t'. (fetch_attempt r limit w t = (t', Inl Os_Failure) \<or> (\<exists>x. fetch_attempt r limit w t = (t', Inl (Artifact_Failure (Transfer_Error x)))))
     \<and> ready t' \<and> tr_destination t' = tr_destination t \<and> (resumable c t \<longrightarrow> resumable c t')"
proof (cases "length (partial_bytes t) \<le> length c")
  case False
  then have "\<not> resumable c t" by (auto simp: resumable_def dest: prefix_length_le)
  with False assms show ?thesis
    by (simp add: fetch_attempt_def partial_bytes_def [symmetric] names_def unlink_partial_def ready_def Let_def)
next
  case True
  let ?f = "partial_bytes t"
  obtain g cs where g: "attempt_grant w = Inr g" and cs: "[] \<notin> set cs" "prefix (concat cs) (drop (length ?f) c)"
      "at_reader w (int (length ?f)) g = Inr (map Chunk cs @ [Read_Os])"
    using assms(1) True unfolding serves_def by (metis nat_int of_nat_0_le_iff of_nat_le_iff)
  obtain f' res where copy: "copy_remaining (ar_size r) limit (at_disk w) (int (length ?f)) ?f (map Chunk cs @ [Read_Os]) = (f', res)"
    by force
  have "length (concat cs) \<le> length c - length ?f" using prefix_length_le [OF cs(2)] by simp
  then have res: "res = Inl Os_Failure" "prefix f' (?f @ concat cs)"
    using copy_remaining_prefix [OF cs(1) _ _ copy] assms(2,3) True by (auto simp: names_def)
  have "prefix f' c" if "prefix ?f c"
  proof -
    from that have "c = ?f @ drop (length ?f) c" by (auto simp: prefix_def)
    with cs(2) have "prefix (?f @ concat cs) c" by (metis same_prefix_prefix)
    with res(2) show ?thesis by (rule prefix_order.trans)
  qed
  with assms g cs copy res True show ?thesis
    by (cases "at_append w")
      (simp_all add: fetch_attempt_def partial_bytes_def [symmetric] names_def Let_def ready_def resumable_def, simp_all add: partial_bytes_def)
qed

lemma clean_resumes:
  assumes "clean c w" "names r c" "int (length c) \<le> limit" "resumable c t"
  shows "fetch_attempt r limit w t = (\<lparr>tr_partial = None, tr_destination = Some (Regular c)\<rparr>, Inr ())"
proof -
  have "partial_bytes t @ drop (length (partial_bytes t)) c = c" "length (partial_bytes t) \<le> length c"
    using assms(4) by (auto simp: resumable_def prefix_def)
  then show ?thesis using clean_attempt [OF assms(1-3), of t] assms(4) by (simp add: resumable_def Let_def)
qed

lemma loop_resumes:
  assumes "names r c" "int (length c) \<le> limit" "\<forall>w \<in> set ws. honest c w" "\<exists>w \<in> set ws. clean c w" "resumable c t"
  shows "fetch_loop r limit e t ws = (\<lparr>tr_partial = None, tr_destination = Some (Regular c)\<rparr>, Inr ())"
  using assms(3-5)
proof (induction ws arbitrary: e t)
  case (Cons w ws)
  show ?case
  proof (cases "clean c w")
    case True
    with clean_resumes [OF True assms(1,2) Cons.prems(3)] show ?thesis by simp
  next
    case False
    with Cons.prems have "serves c False w" "ready t" by (auto simp: honest_def resumable_def)
    from interrupted_attempt [OF this(1) assms(1,2) this(2)] Cons.IH Cons.prems False
    show ?thesis by auto
  qed
qed simp

lemma loop_recovers:
  assumes "names r c" "int (length c) \<le> limit" "\<forall>w \<in> set (us @ w # vs). honest c w" "clean c w" "\<exists>v \<in> set vs. clean c v" "ready t"
  shows "\<exists>d. fetch_loop r limit e t (us @ w # vs) = (\<lparr>tr_partial = None, tr_destination = Some (Regular d)\<rparr>, Inr ())
     \<and> names r d"
  using assms(3,6)
proof (induction us arbitrary: e t)
  case Nil
  let ?d = "partial_bytes t @ drop (length (partial_bytes t)) c"
  have empty: "resumable c (t\<lparr>tr_partial := None\<rparr>)"
    using Nil.prems(2) by (simp add: resumable_def ready_def partial_bytes_def)
  note again = loop_resumes [OF assms(1,2) _ assms(5) this]
  show ?case
    using clean_attempt [OF assms(4,1,2) Nil.prems(2)] again Nil.prems(1) assms(1)
    by (auto simp: Let_def names_def sha256_id_def)
next
  case (Cons u us)
  note from_here = Cons.IH [OF _]
  show ?case
  proof (cases "clean c u")
    case True
    have empty: "resumable c (t\<lparr>tr_partial := None\<rparr>)"
      using Cons.prems(2) by (simp add: resumable_def ready_def partial_bytes_def)
    have "\<forall>x \<in> set (us @ w # vs). honest c x" "\<exists>x \<in> set (us @ w # vs). clean c x" using Cons.prems(1) assms(4) by auto
    note again = loop_resumes [OF assms(1,2) this empty]
    show ?thesis
      using clean_attempt [OF True assms(1,2) Cons.prems(2)] again assms(1)
      by (auto simp: Let_def names_def sha256_id_def)
  next
    case False
    with Cons.prems have "serves c False u" by (auto simp: honest_def)
    from interrupted_attempt [OF this assms(1,2) Cons.prems(2)] Cons.IH Cons.prems(1)
    show ?thesis by fastforce
  qed
qed

lemma fetch_verified_loop:
  assumes "ar_size r \<le> limit" "in_range 1 max_fetch_attempts n" "\<not> is_link (tr_destination t)" "file_or_none (tr_partial t)"
  shows "fetch_verified r limit n True env t = fetch_loop r limit (Transfer_Error Not_Completed) t (map env [0..<nat n])"
  using assms by (auto simp: fetch_verified_def require_def file_or_none_def node_exists_def)

section \<open>The reader's interface\<close>

text \<open>An attempt that a reader answers, with a grant it honours, and that nothing disturbs.\<close>

definition undisturbed ::
  "(artifact_reference \<Rightarrow> int \<Rightarrow> access_grant option \<Rightarrow> failure + read_event list)
     \<Rightarrow> (artifact_reference \<Rightarrow> access_grant option \<Rightarrow> bool) \<Rightarrow> artifact_reference \<Rightarrow> attempt \<Rightarrow> bool" where
  "undisturbed read_at grants r w \<longleftrightarrow> at_reader w = read_at r \<and> (\<exists>g. attempt_grant w = Inr g \<and> grants r g)
     \<and> at_append w \<and> at_open w \<and> at_fault w = None \<and> at_replace w \<and> at_unlink w \<and> ar_size r \<le> at_disk w"

text \<open>
  What the transfer relies on: a reader answers, to a holder of a grant, with the rest of what is
  stored under the reference.  The local store is such a reader.
\<close>

locale artifact_reader =
  fixes read_at :: "artifact_reference \<Rightarrow> int \<Rightarrow> access_grant option \<Rightarrow> failure + read_event list"
    and stored :: "artifact_reference \<Rightarrow> bytes \<Rightarrow> bool"
    and grants :: "artifact_reference \<Rightarrow> access_grant option \<Rightarrow> bool"
  assumes read_rest: "stored r c \<Longrightarrow> grants r g \<Longrightarrow> 0 \<le> off \<Longrightarrow> off \<le> int (length c)
    \<Longrightarrow> \<exists>cs. [] \<notin> set cs \<and> concat cs = drop (nat off) c \<and> read_at r off g = Inr (map Chunk cs)"
begin

lemma undisturbed_clean:
  assumes "undisturbed read_at grants r w" "stored r c" "names r c"
  shows "clean c w"
proof -
  from assms(1) obtain g where g: "attempt_grant w = Inr g" "grants r g" "at_reader w = read_at r" by (auto simp: undisturbed_def)
  have "serves c True w"
    unfolding serves_def g(3)
    by (rule exI [of _ g]) (use g read_rest [OF assms(2) g(2)] in force)
  with assms show ?thesis by (simp add: clean_def undisturbed_def names_def)
qed

text \<open>One undisturbed attempt is enough.\<close>

lemma fetch_stored:
  assumes "stored r c" "names r c" "undisturbed read_at grants r (env 0)" "ar_size r \<le> limit" "in_range 1 max_fetch_attempts n"
    "tr_partial t = None" "\<not> is_link (tr_destination t)"
  shows "fetch_verified r limit n True env t = (\<lparr>tr_partial = None, tr_destination = Some (Regular c)\<rparr>, Inr ())"
proof -
  have "clean c (env 0)" using assms(1-3) by (rule undisturbed_clean [rotated 1]) 
  moreover have "resumable c t" using assms(6) by (simp add: resumable_def ready_def partial_bytes_def)
  ultimately have "fetch_attempt r limit (env 0) t = (\<lparr>tr_partial = None, tr_destination = Some (Regular c)\<rparr>, Inr ())"
    using assms(2,4) by (intro clean_resumes) (simp_all add: names_def)
  moreover have "map env [0..<nat n] = env 0 # map env [1..<nat n]"
    using assms(5) by (subst upt_conv_Cons) (auto simp: in_range_def)
  ultimately show ?thesis
    using assms by (simp add: fetch_verified_loop)
qed

end

definition local_stored :: "adapter \<Rightarrow> store_io \<Rightarrow> artifact_reference \<Rightarrow> bytes \<Rightarrow> bool" where
  "local_stored a io r c \<longleftrightarrow>
     ad_objects a (artifact_path r) = Some (Regular c) \<and> int (length c) = ar_size r \<and> ar_size r \<le> ad_max_bytes a
   \<and> ad_kinds a (ar_kind r) = Directory_Entry \<and> io_open io \<and> io_fault io = None"

definition local_read :: "adapter \<Rightarrow> int \<Rightarrow> store_io \<Rightarrow> artifact_reference \<Rightarrow> int \<Rightarrow> access_grant option \<Rightarrow> failure + read_event list" where
  "local_read a now io r off g = snd (open_read a now r off g io)"

definition local_grants :: "adapter \<Rightarrow> int \<Rightarrow> artifact_reference \<Rightarrow> access_grant option \<Rightarrow> bool" where
  "local_grants a now r g \<longleftrightarrow> authorize a now g Fetch r = Inr ()"

interpretation local_reader: artifact_reader "local_read a now io" "local_stored a io" "local_grants a now" for a now io
proof
  fix r c g off
  assume h: "local_stored a io r c" "local_grants a now r g" "0 \<le> off" "off \<le> int (length c)"
  have "local_read a now io r off g = Inr (map Chunk (file_chunks (drop (nat off) c)))"
    using h by (simp add: local_read_def open_read_def validate_reference_def kind_directory_def local_stored_def local_grants_def
        in_range_def file_reads_def require_def)
  then show "\<exists>cs. [] \<notin> set cs \<and> concat cs = drop (nat off) c \<and> local_read a now io r off g = Inr (map Chunk cs)"
    by (intro exI [of _ "file_chunks (drop (nat off) c)"]) simp
qed

lemma kind_directory_made: "kind_directory a k m = (a', Inr u) \<Longrightarrow> ad_kinds a' k = Directory_Entry"
  by (auto simp: kind_directory_def split: entry.splits if_splits)

lemma upload_frame: "upload a r source io = (a', res) \<Longrightarrow> ad_kinds a' = ad_kinds a \<and> ad_max_bytes a' = ad_max_bytes a"
  by (auto simp: upload_def Let_def put_object_def split: option.splits prod.splits sum.splits failure.splits)

lemma store_frame:
  assumes "store a now r source g io = (a', Inr r')"
  shows "ad_kinds a' (ar_kind r) = Directory_Entry \<and> ad_max_bytes a' = ad_max_bytes a \<and> ar_size r \<le> ad_max_bytes a"
proof -
  obtain a1 made where make: "kind_directory a (ar_kind r) (io_make io) = (a1, made)" by force
  have valid: "validate_reference a r = Inr ()" "authorize a now g Store r = Inr ()" and "made = Inr ()"
    using assms make by (auto simp: store_def split: sum.splits)
  moreover from this make assms have "a' = a1 \<or> upload a1 r source io = (a', Inr r')"
    by (auto simp: store_def Let_def split: if_splits)
  ultimately show ?thesis
    using make kind_directory_made kind_directory_objects [OF make] upload_frame [of a1 r source io a' "Inr r'"]
    by (auto simp: validate_reference_def)
qed

lemma store_stored:
  assumes "store a now r source g io = (a', Inr r')" "io_open io'" "io_fault io' = None"
  shows "\<exists>c. local_stored a' io' r c \<and> names r c"
  using store_effect [OF assms(1)] store_frame [OF assms(1)] assms(2,3)
  by (auto simp: local_stored_def names_def simp del: sha256_id_eq_iff)

section \<open>Properties\<close>

text \<open>
  C17: nothing is published unverified.  \<open>fetch_verified\<close> either fails and leaves the destination as
  it was, whatever reader, disk and previous partial file do, or the destination holds exactly
  the referenced number of bytes with the referenced digest and no partial file is left.  The
  destination is then a regular file, unless the partial path was a dangling symbolic link, the one
  kind of entry that the check of the partial path lets through.
\<close>

theorem fetch_publishes_verified:
  assumes "fetch_verified r limit n parent env t = (t', res)"
  shows "case res of
      Inl _ \<Rightarrow> tr_destination t' = tr_destination t
    | Inr _ \<Rightarrow> tr_partial t' = None \<and> ar_size r \<le> limit
        \<and> (\<exists>f. node_content (tr_destination t') = Some f \<and> sha256_id f = ar_digest r \<and> int (length f) = ar_size r
            \<and> (tr_destination t' = Some (Regular f) \<or> tr_partial t = Some (Link None)))"
proof (cases "fetch_loop r limit (Transfer_Error Not_Completed) t (map env [0..<nat n]) = (t', res)
    \<and> ar_size r \<le> limit \<and> \<not> (node_exists (tr_partial t) \<and> \<not> safe_file (tr_partial t))")
  case False
  with assms have "t' = t" "\<exists>e. res = Inl e"
    by (auto simp: fetch_verified_def require_def split: if_splits sum.splits)
  then show ?thesis by auto
next
  case True
  then have "file_or_none (tr_partial t) \<or> tr_partial t = Some (Link None)" by (auto simp: node_exists_def file_or_none_def)
  moreover from True have "attempt_effect r t t' res" by (blast intro: fetch_loop_effect)
  ultimately show ?thesis using True
    by (auto simp: attempt_effect_def safe_file_def simp del: sha256_id_eq_iff split: sum.splits option.splits node.splits)
qed

text \<open>The exception is real: through a dangling link the transfer publishes a link.\<close>

definition sample_attempt :: "bytes \<Rightarrow> attempt" where
  "sample_attempt c = \<lparr>at_grant = None, at_reader = (\<lambda>off g. Inr (map Chunk (file_chunks (drop (nat off) c)))),
     at_disk = int (length c), at_append = True, at_open = True, at_fault = None, at_replace = True, at_unlink = True\<rparr>"

definition broken_attempt :: "bytes \<Rightarrow> attempt" where
  "broken_attempt c = (sample_attempt c)\<lparr>at_reader := (\<lambda>off g. Inr [Read_Os])\<rparr>"

definition sample_reference :: "bytes \<Rightarrow> artifact_reference" where
  "sample_reference c = \<lparr>ar_kind = Script, ar_digest = sha256_id c, ar_size = int (length c)\<rparr>"

lemma fetch_follows_dangling_link:
  "fetch_verified (sample_reference [1]) 1 1 True (\<lambda>_. sample_attempt [1]) \<lparr>tr_partial = Some (Link None), tr_destination = None\<rparr>
     = (\<lparr>tr_partial = None, tr_destination = Some (Link (Some [1]))\<rparr>, Inr ())"
proof -
  have "file_chunks [1] = [[1]]" by (simp add: file_chunks.simps chunk_bytes_def)
  then show ?thesis
    by (simp add: fetch_verified_def in_range_def max_fetch_attempts_def is_link_def node_exists_def sample_reference_def
        fetch_attempt_def attempt_grant_def sample_attempt_def write_disk_def set_content_def publish_partial_def hash_path_def
        file_hash_complete require_def)
qed

theorem fetch_publishes_verified_witness:
  "\<exists>f. sha256_id f = sha256_id [1] \<and> node_content (Some (Link (Some [1]))) = Some f"
  using fetch_publishes_verified [OF fetch_follows_dangling_link] by (auto simp: sample_reference_def simp del: sha256_id_eq_iff)

text \<open>
  C18: the transfer resumes and recovers.  Let the source hold the referenced content and every
  attempt be undisturbed or interrupted (the connection breaks, the disk fills up).  If the partial
  file is a prefix of the content, as interrupted transfers leave it, one undisturbed attempt
  suffices to publish the content; from any other partial file, corrupt or too large, two suffice.
\<close>

theorem fetch_recovers:
  assumes "names r c" "ar_size r \<le> limit" "in_range 1 max_fetch_attempts n" "ready t" "\<not> is_link (tr_destination t)"
    and "\<forall>i < nat n. honest c (env i)" "j < nat n" "clean c (env j)"
    and "resumable c t \<or> (\<exists>i < j. clean c (env i))"
  shows "\<exists>d. fetch_verified r limit n True env t = (\<lparr>tr_partial = None, tr_destination = Some (Regular d)\<rparr>, Inr ())
     \<and> names r d \<and> (resumable c t \<longrightarrow> d = c)"
proof -
  let ?ws = "map env [0..<nat n]"
  have limit: "int (length c) \<le> limit" using assms(1,2) by (simp add: names_def)
  have all: "\<forall>w \<in> set ?ws. honest c w" using assms(6) by auto
  have loop: "fetch_verified r limit n True env t = fetch_loop r limit (Transfer_Error Not_Completed) t ?ws"
    using assms by (intro fetch_verified_loop) (simp_all add: ready_def)
  show ?thesis
  proof (cases "resumable c t")
    case True
    have "\<exists>w \<in> set ?ws. clean c w" using assms(7,8) by auto
    with loop_resumes [OF assms(1) limit all _ True] loop assms(1) show ?thesis by simp
  next
    case False
    with assms(9) obtain i where i: "i < j" "clean c (env i)" by auto
    then have split: "?ws = map env [0..<i] @ env i # map env [Suc i..<nat n]"
      using assms(7) by (metis le_add_diff_inverse list.simps(9) map_append order_less_trans le_less upt_add_eq_append upt_conv_Cons zero_le)
    have "\<exists>v \<in> set (map env [Suc i..<nat n]). clean c v" using i assms(7,8) by auto
    from loop_recovers [OF assms(1) limit all [unfolded split] i(2) this assms(4)] loop split False show ?thesis by metis
  qed
qed

lemma sample_attempts: "clean c (sample_attempt c)" "honest c (broken_attempt c)"
proof -
  show "clean c (sample_attempt c)"
    unfolding clean_def serves_def
    by (auto simp: sample_attempt_def attempt_grant_def intro!: exI [of _ "file_chunks (drop _ c)"])
  have "serves c False (broken_attempt c)"
    unfolding serves_def by (auto simp: broken_attempt_def sample_attempt_def attempt_grant_def intro!: exI [of _ "[]"])
  then show "honest c (broken_attempt c)" by (simp add: honest_def)
qed

text \<open>A partial file with other content, one undisturbed attempt, one that breaks, one undisturbed.\<close>

theorem fetch_recovers_witness:
  "\<exists>d. fetch_verified (sample_reference [1]) 1 3 True (\<lambda>i. if i = 1 then broken_attempt [1] else sample_attempt [1])
       \<lparr>tr_partial = Some (Regular [2]), tr_destination = None\<rparr>
     = (\<lparr>tr_partial = None, tr_destination = Some (Regular d)\<rparr>, Inr ()) \<and> names (sample_reference [1]) d"
proof -
  let ?env = "\<lambda>i :: nat. if i = 1 then broken_attempt [1] else sample_attempt [1]"
  have "honest [1] (sample_attempt [1])" using sample_attempts by (simp add: honest_def)
  then have "\<forall>i < nat 3. honest [1] (?env i)" using sample_attempts by simp
  moreover have "clean [1] (?env 2)" "\<exists>i < 2. clean [1] (?env i)" using sample_attempts by (auto intro: exI [of _ 0])
  ultimately show ?thesis
    using fetch_recovers [of "sample_reference [1]" "[1]" 1 3 "\<lparr>tr_partial = Some (Regular [2]), tr_destination = None\<rparr>" ?env 2]
    by (simp add: names_def sample_reference_def in_range_def max_fetch_attempts_def ready_def is_link_def del: One_nat_def) blast
qed

text \<open>
  C19: stored artifacts are verified and stay.  In any sequence of calls on the store, failing
  uploads, mismatching content and repeated stores included, every stored file keeps the digest
  that names it; and what a successful \<open>store\<close> returned is there, unchanged, after all later calls.
\<close>

theorem stored_artifacts_stay:
  assumes "addressed a"
    and "adapter_step (run adapter_step a before) (Store_Call now r source g io) = (b, Inr (Stored r'))"
  shows "addressed (run adapter_step b later)
     \<and> (\<exists>f. ad_objects (run adapter_step b later) (artifact_path r) = Some (Regular f) \<and> names r f)"
proof -
  have inv: "addressed (run adapter_step a before)" by (rule artifact_store.run_inv [OF assms(1)])
  from artifact_store.step_inv [OF this, of "Store_Call now r source g io"] assms(2) have b: "addressed b" by simp
  have valid: "is_digest (ar_digest r)" "store (run adapter_step a before) now r source g io = (b, Inr r')"
    using assms(2) by (auto simp: artifact_reference_new_def split: sum.splits prod.splits)
  from store_stored [OF valid(2), of "io\<lparr>io_open := True, io_fault := None\<rparr>"] obtain f
    where "ad_objects b (artifact_path r) = Some (Regular f)" "names r f" by (auto simp: local_stored_def)
  moreover from artifact_store.run_before [OF b] have "keeps b (run adapter_step b later)" .
  ultimately show ?thesis
    using b artifact_path_hex [OF valid(1)] is_digest_hex64 [OF valid(1)]
    by (auto simp: artifact_store.run_inv keeps_def)
qed

definition sample_adapter :: adapter where
  "sample_adapter = \<lparr>ad_max_bytes = 8, ad_authorizer = Some (\<lambda>g op r. Some (op = Store)), ad_kinds = (\<lambda>_. No_Entry), ad_objects = (\<lambda>_. None)\<rparr>"

definition sample_io :: store_io where
  "sample_io = \<lparr>io_make = True, io_upload = Some ''x'', io_disk = 8, io_replace = True, io_unlink = True, io_open = True, io_fault = None\<rparr>"

definition sample_grant :: "access_grant option" where
  "sample_grant = Some \<lparr>ag_token = ''t'', ag_expires_at = 10\<rparr>"

lemma sample_store:
  "\<exists>b. store sample_adapter 5 (sample_reference [1]) [Chunk [1]] sample_grant sample_io = (b, Inr (sample_reference [1]))"
  by (simp add: store_def validate_reference_def authorize_def sample_adapter_def sample_reference_def sample_grant_def sample_io_def
      kind_directory_def node_exists_def upload_def write_disk_def require_def put_object_def Let_def)

theorem stored_artifacts_stay_witness:
  "\<exists>b f. adapter_step sample_adapter (Store_Call 5 (sample_reference [1]) [Chunk [1]] sample_grant sample_io) = (b, Inr (Stored (sample_reference [1])))
     \<and> ad_objects (run adapter_step b [Store_Call 5 (sample_reference [2]) [Read_Os] sample_grant sample_io]) (artifact_path (sample_reference [1]))
       = Some (Regular f) \<and> names (sample_reference [1]) f"
proof -
  obtain b where b: "store sample_adapter 5 (sample_reference [1]) [Chunk [1]] sample_grant sample_io = (b, Inr (sample_reference [1]))"
    using sample_store by blast
  have "artifact_reference_new (sample_reference [1]) = Inr (sample_reference [1])"
    by (simp add: artifact_reference_new_def sample_reference_def in_range_def artifact_bytes_limit_def)
  with b have step: "adapter_step sample_adapter (Store_Call 5 (sample_reference [1]) [Chunk [1]] sample_grant sample_io)
      = (b, Inr (Stored (sample_reference [1])))" by simp
  have "addressed sample_adapter" by (simp add: addressed_def sample_adapter_def)
  from stored_artifacts_stay [OF this, of "[]"] step show ?thesis by (metis run.simps(1))
qed

text \<open>
  C20: what is stored can be fetched.  After a successful \<open>store\<close> under the reference of \<open>m\<close>, a
  transfer that reads from the store with a grant it honours, and whose first attempt is undisturbed,
  publishes \<open>m\<close>, unless the store had an object with the same digest, which is then a collision.
\<close>

theorem store_then_fetch:
  assumes "names r m" "store a now r source g io = (b, Inr r')" "io_open io'" "io_fault io' = None"
    and "undisturbed (local_read b now' io') (local_grants b now') r (env 0)"
    and "ar_size r \<le> limit" "in_range 1 max_fetch_attempts n"
    and "tr_partial t = None" "\<not> is_link (tr_destination t)"
  shows "\<exists>c. fetch_verified r limit n True env t = (\<lparr>tr_partial = None, tr_destination = Some (Regular c)\<rparr>, Inr ())
     \<and> (c = m \<or> collide c m)"
proof -
  from store_stored [OF assms(2-4)] obtain c where c: "local_stored b io' r c" "names r c" by blast
  moreover from assms(1) c(2) have "c = m \<or> collide c m" by (auto simp: names_def collide_def)
  ultimately show ?thesis using local_reader.fetch_stored [of b io' r c now' env, OF c assms(5-9)] by blast
qed

theorem store_then_fetch_witness:
  "\<exists>b c. store (sample_adapter\<lparr>ad_authorizer := None\<rparr>) 5 (sample_reference [1]) [Chunk [1]] None sample_io = (b, Inr (sample_reference [1]))
     \<and> fetch_verified (sample_reference [1]) 1 1 True (\<lambda>_. (sample_attempt [1])\<lparr>at_reader := local_read b 6 sample_io (sample_reference [1])\<rparr>)
         \<lparr>tr_partial = None, tr_destination = None\<rparr> = (\<lparr>tr_partial = None, tr_destination = Some (Regular c)\<rparr>, Inr ())"
proof -
  have "\<exists>b. store (sample_adapter\<lparr>ad_authorizer := None\<rparr>) 5 (sample_reference [1]) [Chunk [1]] None sample_io
      = (b, Inr (sample_reference [1])) \<and> ad_authorizer b = None"
    by (simp add: store_def validate_reference_def authorize_def sample_adapter_def sample_reference_def sample_io_def
        kind_directory_def node_exists_def upload_def write_disk_def require_def put_object_def Let_def)
  then obtain b where b: "store (sample_adapter\<lparr>ad_authorizer := None\<rparr>) 5 (sample_reference [1]) [Chunk [1]] None sample_io
      = (b, Inr (sample_reference [1]))" and auth: "ad_authorizer b = None" by blast
  have "undisturbed (local_read b 6 sample_io) (local_grants b 6) (sample_reference [1])
      ((sample_attempt [1])\<lparr>at_reader := local_read b 6 sample_io (sample_reference [1])\<rparr>)"
    by (simp add: undisturbed_def sample_attempt_def attempt_grant_def local_grants_def authorize_def auth sample_reference_def)
  with store_then_fetch [OF _ b, of "[1]" sample_io 6
      "\<lambda>_. (sample_attempt [1])\<lparr>at_reader := local_read b 6 sample_io (sample_reference [1])\<rparr>" 1 1 "\<lparr>tr_partial = None, tr_destination = None\<rparr>"]
  show ?thesis
    using b by (auto simp: names_def sample_reference_def sample_io_def in_range_def max_fetch_attempts_def is_link_def)
qed

end
