(* ===== verification/Publisher.thy ===== *)
theory Publisher
  imports Capability Sandbox Config Files
begin

text \<open>
  The publisher's packaging of jobs, \<open>src/gpuforge/publisher.py\<close>: the checks of declared files, the
  input root and the construction of a signed manifest.  The package root is a tree of nodes by
  their path components, with the paths whose examination or reading fails; the signer is the keypair of
  \<open>Identity\<close>.  The predicates of \<open>pathlib\<close> let some failures escape on Python before 3.13.  Windows paths are read as \<open>ntpath\<close> of Python 3.12 does.
\<close>

section \<open>Requests and packages\<close>

datatype packaging_error =
    Block_Out_Of_Range
  | Expiry_Not_After_Block
  | Input_Count
  | Package_Root_Link
  | Package_Root_Missing
  | Package_Root_File
  | Package_Os_Error       \<comment> \<open>an \<open>OSError\<close> of \<open>is_symlink\<close>, \<open>is_dir\<close> or \<open>is_file\<close>\<close>
  | Package_Link_Loop      \<comment> \<open>the \<open>RuntimeError\<close> of \<open>resolve\<close>\<close>
  | Path_Not_Normalized string
  | Path_Through_Link string
  | File_Unavailable string
  | File_Not_Regular string
  | Input_Unavailable
  | Input_Too_Large
  | File_Not_Hashed
  | Input_Paths_Not_Unique
  | Image_Not_Pinned_By_Digest
  | Package_Protocol protocol_error
  | Package_Signing auth_error
  | Manifest_Not_Written
  | Manifest_Path_Unnamed
  | Wallet_Names_Missing
  | Hotkey_Not_Loaded

definition input_root_domain :: bytes where
  "input_root_domain = utf8_encode ''gpuforge-input-root-v1'' @ [0]"

definition max_inputs :: nat where
  "max_inputs = 4096"

definition max_input_bytes :: int where
  "max_input_bytes = 1024 ^ 4"

record input_record =
  ir_path :: string
  ir_digest :: string
  ir_size :: int

definition input_record_to_primitive :: "input_record \<Rightarrow> json" where
  "input_record_to_primitive r = JObj
     [(''digest'', JStr (ir_digest r)), (''path'', JStr (ir_path r)), (''size'', JInt (ir_size r))]"

record packaged_job =
  pk_manifest :: job_manifest
  pk_inputs :: "input_record list"

definition package_digest :: "packaged_job \<Rightarrow> protocol_error + string" where
  "package_digest p = content_digest (Job_Manifest (pk_manifest p))"

record package_request =
  rq_entrypoint :: path
  rq_inputs :: "path list"
  rq_container_image :: string
  rq_job_id :: string
  rq_framework :: string
  rq_resource_policy :: resource_policy
  rq_verification_policy :: verification_policy
  rq_lease_seconds :: int
  rq_current_block :: int
  rq_expires_at_block :: int

section \<open>The package root\<close>

datatype tree_node = Tree_File bytes | Tree_Directory | Tree_Link | Tree_Other

datatype resolution = Resolved | Unresolved | Looping

text \<open>
  The request's root: whether it is a link and whether that can be told, how it resolves, the node of
  every path below it, and which calls on them fail for another reason than that nothing is there (a
  name that is too long, a directory that cannot be searched): the \<open>lstat\<close> of \<open>is_symlink\<close> and \<open>resolve\<close>, the
  \<open>stat\<close> of \<open>is_dir\<close> and \<open>is_file\<close>, that of the size, and reading.  Before Python 3.13 the predicates
  raise such an error again (\<open>pt_reraises\<close>), later they answer \<open>False\<close>.
\<close>

record package_tree =
  pt_reraises :: bool
  pt_link :: bool
  pt_link_fails :: bool
  pt_resolution :: resolution
  pt_node :: "string list \<Rightarrow> tree_node option"
  pt_lstat_fails :: "string list \<Rightarrow> bool"
  pt_kind_fails :: "string list \<Rightarrow> bool"
  pt_stat :: "string list \<Rightarrow> bool"
  pt_read :: "string list \<Rightarrow> bool"

text \<open>A predicate of \<open>pathlib\<close>: whether its system call fails, and what it answers otherwise.\<close>

definition examined :: "package_tree \<Rightarrow> bool \<Rightarrow> bool \<Rightarrow> packaging_error + bool" where
  "examined t fails answer =
     (if \<not> fails then Inr answer else if pt_reraises t then Inl Package_Os_Error else Inr False)"

text \<open>A loop of links is a \<open>RuntimeError\<close> before Python 3.13, and an \<open>OSError\<close> since.\<close>

definition safe_root :: "package_tree \<Rightarrow> packaging_error + unit" where
  "safe_root t =
     bindE (examined t (pt_link_fails t) (pt_link t)) (\<lambda>link.
       if link then Inl Package_Root_Link
       else
         case pt_resolution t of
           Unresolved \<Rightarrow> Inl Package_Root_Missing
         | Looping \<Rightarrow> Inl (if pt_reraises t then Package_Link_Loop else Package_Root_Missing)
         | Resolved \<Rightarrow>
             bindE (examined t (pt_kind_fails t []) (pt_node t [] = Some Tree_Directory)) (\<lambda>directory.
               require directory Package_Root_File))"

text \<open>\<open>PureWindowsPath(s).anchor\<close> is not empty: a drive or a root.\<close>

definition windows_anchored :: "string \<Rightarrow> bool" where
  "windows_anchored s \<longleftrightarrow> take 1 s \<in> {''/'', [CHR 0x5C]} \<or> take 1 (drop 1 s) = '':''"

text \<open>No component of the path is a link.\<close>

definition no_links :: "package_tree \<Rightarrow> string list \<Rightarrow> string \<Rightarrow> packaging_error + unit" where
  "no_links t parts label = all_pass
     (map (\<lambda>i. bindE (examined t (pt_lstat_fails t (take i parts)) (pt_node t (take i parts) = Some Tree_Link))
                (\<lambda>link. require (\<not> link) (Path_Through_Link label)))
       [1..<Suc (length parts)])"

text \<open>
  \<open>resolve(strict=True)\<close> of a path without links below the resolved root: its components can be
  examined, its directories exist, and so does it.
\<close>

definition path_resolves :: "package_tree \<Rightarrow> string list \<Rightarrow> bool" where
  "path_resolves t parts \<longleftrightarrow>
     list_all (\<lambda>i. \<not> pt_lstat_fails t (take i parts)) [1..<Suc (length parts)]
   \<and> list_all (\<lambda>i. pt_node t (take i parts) = Some Tree_Directory) [1..<length parts] \<and> pt_node t parts \<noteq> None"

definition safe_regular_file :: "package_tree \<Rightarrow> path \<Rightarrow> string \<Rightarrow> packaging_error + (string list \<times> bytes) \<times> string" where
  "safe_regular_file t p label =
     (if pa_absolute p \<or> windows_anchored (path_text p) \<or> pa_parts p = []
         \<or> list_ex (\<lambda>q. q = [] \<or> q = ''.'' \<or> q = ''..'') (pa_parts p)
      then Inl (Path_Not_Normalized label)
      else
        bindE (no_links t (pa_parts p) label) (\<lambda>_.
        if \<not> path_resolves t (pa_parts p) then Inl (File_Unavailable label)
        else
          case pt_node t (pa_parts p) of
            Some (Tree_File f) \<Rightarrow>
              bindE (examined t (pt_kind_fails t (pa_parts p)) True) (\<lambda>regular.
                if regular then Inr ((pa_parts p, f), path_text p) else Inl (File_Not_Regular label))
          | _ \<Rightarrow> bindE (examined t (pt_kind_fails t (pa_parts p)) False) (\<lambda>_. Inl (File_Not_Regular label))))"

definition hash_file :: "package_tree \<Rightarrow> string list \<times> bytes \<Rightarrow> packaging_error + string" where
  "hash_file t file = (case file of (parts, f) \<Rightarrow>
     if pt_read t parts then Inr (sha256_id f) else Inl File_Not_Hashed)"

definition input_record_of :: "package_tree \<Rightarrow> path \<Rightarrow> packaging_error + input_record" where
  "input_record_of t p =
     bindE (safe_regular_file t p ''input'') (\<lambda>(file, normalized).
       if \<not> pt_stat t (fst file) then Inl Input_Unavailable
       else if \<not> in_range 0 max_input_bytes (int (length (snd file))) then Inl Input_Too_Large
       else bindE (hash_file t file) (\<lambda>d.
         Inr \<lparr>ir_path = normalized, ir_digest = d, ir_size = int (length (snd file))\<rparr>))"

section \<open>Packaging\<close>

text \<open>\<open>container_digest\<close>: the expression is the one of \<open>sandbox.py\<close>.\<close>

definition container_digest :: "string \<Rightarrow> packaging_error + string" where
  "container_digest reference =
     (if is_pinned_image reference then Inr (drop (length reference - 71) reference) else Inl Image_Not_Pinned_By_Digest)"

definition input_root_bytes :: "input_record list \<Rightarrow> bytes" where
  "input_root_bytes rs = input_root_domain @ json_dumps False (JArr (map input_record_to_primitive rs))"

definition input_root :: "input_record list \<Rightarrow> string" where
  "input_root rs = sha256_id (input_root_bytes rs)"

definition package_job :: "package_tree \<Rightarrow> package_request \<Rightarrow> keypair \<Rightarrow> packaging_error + packaged_job" where
  "package_job t q k =
     bindE (all_pass
       [require (\<not> rq_current_block q < 0) Block_Out_Of_Range,
        require (\<not> rq_expires_at_block q \<le> rq_current_block q) Expiry_Not_After_Block,
        require (rq_inputs q \<noteq> [] \<and> length (rq_inputs q) \<le> max_inputs) Input_Count,
        safe_root t]) (\<lambda>_.
     bindE (safe_regular_file t (rq_entrypoint q) ''entrypoint'') (\<lambda>(entry, _).
     bindE (mapE (input_record_of t) (rq_inputs q)) (\<lambda>found.
       let records = sort_key ir_path found in
     bindE (require (distinct (map ir_path records)) Input_Paths_Not_Unique) (\<lambda>_.
     bindE (container_digest (rq_container_image q)) (\<lambda>container.
     bindE (hash_file t entry) (\<lambda>entry_digest.
     bindE (map_error Package_Signing (adapter_hotkey k)) (\<lambda>hotkey.
     bindE (map_error Package_Protocol (job_manifest_new
       \<lparr>jm_job_id = rq_job_id q, jm_container_digest = container, jm_entrypoint_digest = entry_digest,
        jm_input_root = input_root records, jm_framework = rq_framework q, jm_resource_policy = rq_resource_policy q,
        jm_verification_policy = rq_verification_policy q, jm_lease_seconds = rq_lease_seconds q,
        jm_publisher_hotkey = hotkey, jm_expires_at_block = rq_expires_at_block q, jm_signature = unsigned_signature,
        jm_protocol_version = 1\<rparr>)) (\<lambda>unsigned.
     bindE (map_error Package_Signing (sign_message (Job_Manifest unsigned) k)) (\<lambda>signed.
       case signed of
         Job_Manifest m \<Rightarrow> Inr \<lparr>pk_manifest = m, pk_inputs = records\<rparr>
       | _ \<Rightarrow> Inl (Package_Signing Signer_Mismatch))))))))))"

section \<open>Manifest and key files\<close>

text \<open>
  \<open>write_manifest\<close>.  The size limit of \<open>canonical_bytes\<close> is no \<open>OSError\<close> and is raised as it is; \<open>with_name\<close>
  raises for a destination without a name.
\<close>

definition write_manifest :: "packaged_job \<Rightarrow> path \<Rightarrow> write_io \<Rightarrow> file_pair \<Rightarrow> file_pair \<times> packaging_error io_result" where
  "write_manifest p destination io f =
     (if pa_parts destination = [] then (f, Io_Raised Manifest_Path_Unnamed)
      else case make_parent io f of
        (f', Io_Done) \<Rightarrow>
          (case canonical_bytes (Job_Manifest (pk_manifest p)) of
             Inl e \<Rightarrow> (f', Io_Raised (Package_Protocol e))
           | Inr b \<Rightarrow> io_raise Manifest_Not_Written (io_sequence [write_temporary io b, replace_destination io] f'))
      | r \<Rightarrow> io_raise Manifest_Not_Written r)"

lemma write_manifest_replaces:
  assumes "canonical_bytes (Job_Manifest (pk_manifest p)) = Inr b" "pa_parts destination \<noteq> []"
  shows "write_manifest p destination io f = io_raise Manifest_Not_Written (replace_atomically io b f)"
  using assms by (cases "wi_parent io") (simp_all add: write_manifest_def replace_atomically_def make_parent_def)

text \<open>The wallet library is its answer: \<open>None\<close> for any exception.\<close>

definition load_bittensor_hotkey :: "(string \<Rightarrow> string \<Rightarrow> keypair option) \<Rightarrow> string \<Rightarrow> string \<Rightarrow> packaging_error + keypair" where
  "load_bittensor_hotkey wallet wallet_name hotkey_name =
     (if wallet_name = [] \<or> hotkey_name = [] then Inl Wallet_Names_Missing
      else case wallet wallet_name hotkey_name of None \<Rightarrow> Inl Hotkey_Not_Loaded | Some k \<Rightarrow> Inr k)"

section \<open>Declared files\<close>

text \<open>A regular file below the root, reached without a link by a relative path without \<open>..\<close>.\<close>

definition contained_file :: "package_tree \<Rightarrow> path \<Rightarrow> bytes \<Rightarrow> bool" where
  "contained_file t p f \<longleftrightarrow>
     \<not> pa_absolute p \<and> pa_parts p \<noteq> [] \<and> ''..'' \<notin> set (pa_parts p)
   \<and> pt_node t (pa_parts p) = Some (Tree_File f)
   \<and> (\<forall>i \<in> {1..length (pa_parts p)}. pt_node t (take i (pa_parts p)) \<noteq> Some Tree_Link)"

definition describes :: "package_tree \<Rightarrow> path \<Rightarrow> input_record \<Rightarrow> bool" where
  "describes t p r \<longleftrightarrow>
     (\<exists>f. contained_file t p f \<and> r = \<lparr>ir_path = path_text p, ir_digest = sha256_id f, ir_size = int (length f)\<rparr>)
   \<and> in_range 0 max_input_bytes (ir_size r)"

lemma examined_Inr: "examined t fails answer = Inr b \<longleftrightarrow> b = (\<not> fails \<and> answer) \<and> (fails \<longrightarrow> \<not> pt_reraises t)"
  by (auto simp: examined_def)

lemma all_pass_Inr_map: "all_pass (map f xs) = Inr u \<longleftrightarrow> (\<forall>x \<in> set xs. f x = Inr ())"
  by (induction xs) (auto simp: bindE_Inr_iff)

lemma no_links_sound:
  assumes "no_links t parts label = Inr u" "path_resolves t parts" "i \<in> {1..length parts}"
  shows "pt_node t (take i parts) \<noteq> Some Tree_Link"
proof -
  have i: "i \<in> set [1..<Suc (length parts)]" using assms(3) by auto
  with assms(2) have "\<not> pt_lstat_fails t (take i parts)" by (auto simp: path_resolves_def list_all_iff simp del: upt_Suc)
  with assms(1) i show ?thesis
    by (fastforce simp: no_links_def all_pass_Inr_map bindE_Inr_iff examined_Inr simp del: upt_Suc)
qed

lemma safe_regular_file_sound:
  assumes "safe_regular_file t p label = Inr ((parts, f), s)"
  shows "parts = pa_parts p \<and> s = path_text p \<and> contained_file t p f"
proof -
  have ok: "no_links t (pa_parts p) label = Inr ()" "path_resolves t (pa_parts p)"
    and rest: "parts = pa_parts p" "s = path_text p" "\<not> pa_absolute p" "pa_parts p \<noteq> []" "''..'' \<notin> set (pa_parts p)"
      "pt_node t (pa_parts p) = Some (Tree_File f)"
    using assms by (auto simp: safe_regular_file_def bindE_Inr_iff list_ex_iff split: if_splits option.splits tree_node.splits)
  from no_links_sound [OF ok] rest show ?thesis by (simp add: contained_file_def)
qed

lemma input_record_describes:
  assumes "input_record_of t p = Inr r"
  shows "describes t p r"
proof -
  from assms obtain parts f s where f: "safe_regular_file t p ''input'' = Inr ((parts, f), s)"
    and r: "in_range 0 max_input_bytes (int (length f))" "r = \<lparr>ir_path = s, ir_digest = sha256_id f, ir_size = int (length f)\<rparr>"
    by (auto simp: input_record_of_def hash_file_def simp del: sha256_id_eq_iff split: if_splits)
  from safe_regular_file_sound [OF f] r show ?thesis by (auto simp: describes_def)
qed

lemma signed_manifest:
  assumes "sign_message (Job_Manifest u) k = Inr m'"
  obtains payload sig where "adapter_hotkey k = Inr (jm_publisher_hotkey u)" "signing_bytes (Job_Manifest (u\<lparr>jm_signature := to_hex sig\<rparr>)) = Inr payload"
    "adapter_sign k payload = Inr sig" "m' = Job_Manifest (u\<lparr>jm_signature := to_hex sig\<rparr>)"
    "job_manifest_new (u\<lparr>jm_signature := to_hex sig\<rparr>) = Inr (u\<lparr>jm_signature := to_hex sig\<rparr>)"
proof -
  from assms obtain payload sig where "adapter_hotkey k = Inr (jm_publisher_hotkey u)" "signing_bytes (Job_Manifest u) = Inr payload"
    "adapter_sign k payload = Inr sig" "message_new (with_signature (to_hex sig) (Job_Manifest u)) = Inr m'"
    by (auto simp: sign_message_def simp del: with_signature.simps split: if_splits)
  moreover have "signing_bytes (Job_Manifest (u\<lparr>jm_signature := to_hex sig\<rparr>)) = signing_bytes (Job_Manifest u)"
    using content_with_signature(1) [of "to_hex sig" "Job_Manifest u"] by simp
  ultimately show ?thesis by (intro that [of sig payload]) (auto simp: job_manifest_new_def)
qed

text \<open>What a successful run of \<open>package_job\<close> has computed.\<close>

lemma package_job_cases:
  assumes "package_job t q k = Inr p"
  obtains parts f n found container own payload sig where
    "0 \<le> rq_current_block q" "rq_current_block q < rq_expires_at_block q" "rq_inputs q \<noteq> []" "length (rq_inputs q) \<le> max_inputs"
    "safe_root t = Inr ()" "safe_regular_file t (rq_entrypoint q) ''entrypoint'' = Inr ((parts, f), n)" "pt_read t parts"
    "mapE (input_record_of t) (rq_inputs q) = Inr found" "distinct (map ir_path found)" "pk_inputs p = sort_key ir_path found"
    "container_digest (rq_container_image q) = Inr container" "adapter_hotkey k = Inr own"
    "job_manifest_new (pk_manifest p) = Inr (pk_manifest p)"
    "signing_bytes (Job_Manifest (pk_manifest p)) = Inr payload" "adapter_sign k payload = Inr sig"
    "pk_manifest p = \<lparr>jm_job_id = rq_job_id q, jm_container_digest = container, jm_entrypoint_digest = sha256_id f,
        jm_input_root = input_root (sort_key ir_path found), jm_framework = rq_framework q, jm_resource_policy = rq_resource_policy q,
        jm_verification_policy = rq_verification_policy q, jm_lease_seconds = rq_lease_seconds q,
        jm_publisher_hotkey = own, jm_expires_at_block = rq_expires_at_block q, jm_signature = to_hex sig, jm_protocol_version = 1\<rparr>"
proof -
  from assms obtain parts f n found container own signed where
    guards: "\<not> rq_current_block q < 0" "\<not> rq_expires_at_block q \<le> rq_current_block q" "rq_inputs q \<noteq> []" "length (rq_inputs q) \<le> max_inputs"
      "safe_root t = Inr ()"
    and files: "safe_regular_file t (rq_entrypoint q) ''entrypoint'' = Inr ((parts, f), n)" "pt_read t parts"
      "mapE (input_record_of t) (rq_inputs q) = Inr found" "distinct (map ir_path found)"
    and rest: "container_digest (rq_container_image q) = Inr container" "adapter_hotkey k = Inr own"
      "sign_message (Job_Manifest \<lparr>jm_job_id = rq_job_id q, jm_container_digest = container, jm_entrypoint_digest = sha256_id f,
        jm_input_root = input_root (sort_key ir_path found), jm_framework = rq_framework q, jm_resource_policy = rq_resource_policy q,
        jm_verification_policy = rq_verification_policy q, jm_lease_seconds = rq_lease_seconds q,
        jm_publisher_hotkey = own, jm_expires_at_block = rq_expires_at_block q, jm_signature = unsigned_signature, jm_protocol_version = 1\<rparr>) k
        = Inr signed"
      "(case signed of Job_Manifest m \<Rightarrow> Inr \<lparr>pk_manifest = m, pk_inputs = sort_key ir_path found\<rparr>
         | _ \<Rightarrow> Inl (Package_Signing Signer_Mismatch)) = Inr p"
    unfolding package_job_def bindE_Inr_iff Let_def
    by (auto simp: hash_file_def job_manifest_new_def simp del: sha256_id_eq_iff split: if_splits)
  obtain payload sig where "signing_bytes (Job_Manifest (pk_manifest p)) = Inr payload" "adapter_sign k payload = Inr sig"
    "job_manifest_new (pk_manifest p) = Inr (pk_manifest p)" "pk_inputs p = sort_key ir_path found"
    "pk_manifest p = \<lparr>jm_job_id = rq_job_id q, jm_container_digest = container, jm_entrypoint_digest = sha256_id f,
        jm_input_root = input_root (sort_key ir_path found), jm_framework = rq_framework q, jm_resource_policy = rq_resource_policy q,
        jm_verification_policy = rq_verification_policy q, jm_lease_seconds = rq_lease_seconds q,
        jm_publisher_hotkey = own, jm_expires_at_block = rq_expires_at_block q, jm_signature = to_hex sig, jm_protocol_version = 1\<rparr>"
    using rest(4) by (rule_tac signed_manifest [OF rest(3)]) auto
  note computed = this
  show ?thesis
    by (rule that [OF _ _ guards(3-5) files computed(4) rest(1,2) computed(3,1,2,5)]) (use guards(1,2) in simp_all)
qed

lemma pinned_image_split:
  assumes "container_digest s = Inr d"
  shows "\<exists>name. s = name @ ''@'' @ d"
proof -
  have image: "72 < length s" "take 1 (drop (length s - 72) s) = ''@''" and d: "d = drop (length s - 71) s"
    using assms by (auto simp: container_digest_def is_pinned_image_def Let_def split: if_splits)
  have "s = take (length s - 72) s @ take 1 (drop (length s - 72) s) @ drop (Suc (length s - 72)) s"
    by (metis One_nat_def append_take_drop_id drop_drop plus_1_eq_Suc)
  moreover have "Suc (length s - 72) = length s - 71" using image(1) by linarith
  ultimately show ?thesis using image(2) d by metis
qed

section \<open>Input roots\<close>

lemma describes_printable: "describes t p r \<Longrightarrow> int_printable (ir_size r)"
  by (rule int_printable_int64) (auto simp: describes_def in_range_def max_input_bytes_def)

lemma json_sort_record [simp]: "json_sort (input_record_to_primitive r) = input_record_to_primitive r"
  by (simp add: input_record_to_primitive_def)

lemma input_record_to_primitive_inject [simp]:
  "input_record_to_primitive r = input_record_to_primitive r' \<longleftrightarrow> r = r'"
  by (auto simp: input_record_to_primitive_def)

lemma json_plain_record [simp]: "json_plain (input_record_to_primitive r) \<longleftrightarrow> int_printable (ir_size r)"
  by (simp add: input_record_to_primitive_def)

text \<open>An input root determines its records, up to a collision.\<close>

lemma input_root_binding:
  assumes "\<forall>r \<in> set rs \<union> set rs'. int_printable (ir_size r)" "input_root rs = input_root rs'"
  shows "rs = rs' \<or> collide (input_root_bytes rs) (input_root_bytes rs')"
proof -
  have "json_plain (JArr (map input_record_to_primitive rs))" "json_plain (JArr (map input_record_to_primitive rs'))"
    using assms(1) by (simp_all add: ball_Un)
  from json_dumps_inject [OF this, of False]
  have "input_root_bytes rs = input_root_bytes rs' \<longleftrightarrow> map input_record_to_primitive rs = map input_record_to_primitive rs'"
    by (simp add: input_root_bytes_def comp_def)
  then have "input_root_bytes rs = input_root_bytes rs' \<longleftrightarrow> rs = rs'"
    by (simp add: inj_map_eq_map inj_def)
  with assms(2) show ?thesis using sha256_eqD by (auto simp: input_root_def)
qed

lemma mapE_projr: "mapE f xs = Inr ys \<longleftrightarrow> (\<forall>x \<in> set xs. \<exists>y. f x = Inr y) \<and> ys = map (projr \<circ> f) xs"
  by (induction xs arbitrary: ys) auto

lemma mapE_permuted:
  assumes "mapE f xs = Inr ys" "mset xs' = mset xs"
  shows "\<exists>ys'. mapE f xs' = Inr ys' \<and> mset ys' = mset ys"
  using assms mset_eq_setD [OF assms(2)] by (auto simp: mapE_projr)

lemma sort_key_distinct: "mset ys = mset xs \<Longrightarrow> distinct (map f xs) \<Longrightarrow> sort_key f ys = sort_key f xs"
  by (rule sort_key_inj_key_eq) (auto simp: distinct_map dest: mset_eq_setD)

lemma package_job_manifest:
  assumes "package_job t q k = Inr p"
  shows "job_manifest_new (pk_manifest p) = Inr (pk_manifest p)" "jm_input_root (pk_manifest p) = input_root (pk_inputs p)"
    "\<forall>r \<in> set (pk_inputs p). int_printable (ir_size r)"
proof -
  obtain found where found: "mapE (input_record_of t) (rq_inputs q) = Inr found" "pk_inputs p = sort_key ir_path found"
    and "job_manifest_new (pk_manifest p) = Inr (pk_manifest p)" "jm_input_root (pk_manifest p) = input_root (sort_key ir_path found)"
    by (rule package_job_cases [OF assms]) simp
  then show "job_manifest_new (pk_manifest p) = Inr (pk_manifest p)" "jm_input_root (pk_manifest p) = input_root (pk_inputs p)" by simp_all
  show "\<forall>r \<in> set (pk_inputs p). int_printable (ir_size r)"
    using found by (auto simp: mapE_projr) (metis describes_printable input_record_describes sum.sel(2))
qed

text \<open>
  Packages do not depend on the order of the declarations: the same inputs in another order yield
  the same records and the same signed manifest.
\<close>

lemma package_job_permuted:
  assumes "package_job t q k = Inr p" "mset inputs = mset (rq_inputs q)"
  shows "package_job t (q\<lparr>rq_inputs := inputs\<rparr>) k = Inr p"
proof -
  obtain found where found: "mapE (input_record_of t) (rq_inputs q) = Inr found" "distinct (map ir_path found)"
    by (rule package_job_cases [OF assms(1)])
  from mapE_permuted [OF found(1) assms(2)] obtain found'
    where found': "mapE (input_record_of t) inputs = Inr found'" "mset found' = mset found" by blast
  have same: "sort_key ir_path found' = sort_key ir_path found"
    by (rule sort_key_distinct [OF found'(2) found(2)])
  have "inputs = [] \<longleftrightarrow> rq_inputs q = []" "length inputs = length (rq_inputs q)"
    using assms(2) mset_eq_length by fastforce+
  then have "package_job t (q\<lparr>rq_inputs := inputs\<rparr>) k = package_job t q k"
    by (simp add: package_job_def found(1) found'(1) same del: distinct_map_sort_key)
  with assms(1) show ?thesis by simp
qed

section \<open>A package\<close>

definition sample_tree :: package_tree where
  "sample_tree = \<lparr>pt_reraises = True, pt_link = False, pt_link_fails = False, pt_resolution = Resolved,
     pt_node = (\<lambda>parts. if parts = [] then Some Tree_Directory else if parts = [''train.py''] then Some (Tree_File [1])
       else if parts = [''data''] then Some Tree_Directory else if parts = [''data'', ''a''] then Some (Tree_File [2]) else None),
     pt_lstat_fails = (\<lambda>_. False), pt_kind_fails = (\<lambda>_. False), pt_stat = (\<lambda>_. True), pt_read = (\<lambda>_. True)\<rparr>"

definition sample_package_request :: package_request where
  "sample_package_request = \<lparr>rq_entrypoint = path_of ''train.py'', rq_inputs = [path_of ''train.py'', path_of ''data/a''],
     rq_container_image = ''trainer@'' @ digest_text (replicate 64 CHR ''a''), rq_job_id = ''job'', rq_framework = ''torch'',
     rq_resource_policy = \<lparr>rp_gpu_count = 1, rp_gpu_memory_mb = 81920, rp_cpu_cores = 8, rp_memory_mb = 65536,
       rp_max_runtime_seconds = 3600, rp_network_policy = Net_Deny\<rparr>,
     rq_verification_policy = \<lparr>vp_minimum_evidence_tier = Tier_B, vp_challenge_kind = ''replay'', vp_checkpoint_interval_steps = 10\<rparr>,
     rq_lease_seconds = 600, rq_current_block = 5, rq_expires_at_block = 100\<rparr>"

lemma sample_files:
  "safe_regular_file sample_tree (path_of ''train.py'') l = Inr (([''train.py''], [1]), ''train.py'')"
  "safe_regular_file sample_tree (path_of ''data/a'') l = Inr (([''data'', ''a''], [2]), ''data/a'')"
  "safe_root sample_tree = Inr ()" "pt_stat sample_tree x" "pt_read sample_tree x"
  by (simp_all add: safe_regular_file_def sample_tree_def path_of_def path_text_def windows_anchored_def no_links_def
      examined_def path_resolves_def upt_rec safe_root_def)

definition sample_unsigned :: job_manifest where
  "sample_unsigned = \<lparr>jm_job_id = ''job'', jm_container_digest = digest_text (replicate 64 CHR ''a''), jm_entrypoint_digest = sha256_id [1],
     jm_input_root = input_root [\<lparr>ir_path = ''data/a'', ir_digest = sha256_id [2], ir_size = 1\<rparr>,
       \<lparr>ir_path = ''train.py'', ir_digest = sha256_id [1], ir_size = 1\<rparr>],
     jm_framework = ''torch'', jm_resource_policy = rq_resource_policy sample_package_request,
     jm_verification_policy = rq_verification_policy sample_package_request, jm_lease_seconds = 600,
     jm_publisher_hotkey = ''validator'', jm_expires_at_block = 100, jm_signature = unsigned_signature, jm_protocol_version = 1\<rparr>"

lemma sample_unsigned_ok: "message_ok (Job_Manifest sample_unsigned)"
  by (simp add: message_ok_def message_valid_def sample_unsigned_def job_manifest_new_def sample_package_request_def unsigned_signature_def
      resource_policy_new_def verification_policy_new_def is_identifier_def is_hotkey_def is_software_name_def char_class_defs
      match_class_def bounded_text_def in_range_def input_root_def is_prohibited_def Let_def is_ascii_def)

lemma sample_package: "\<exists>p. package_job sample_tree sample_package_request sample_keypair = Inr p
   \<and> parts_valid (Job_Manifest (pk_manifest p)) \<and> map ir_path (pk_inputs p) = [''data/a'', ''train.py'']"
proof -
  define payload where "payload = signature_domain @ json_dumps False (unsigned_primitive (Job_Manifest sample_unsigned))"
  have "signing_bytes (Job_Manifest sample_unsigned) = Inr payload"
    using wire_ok_canonical [OF unsigned_primitive_wire [OF sample_unsigned_ok]] by (simp add: signing_bytes_def payload_def)
  from sign_then_verify [OF sample_unsigned_ok this, of sample_keypair "hmac_sha256 [1] payload @ hmac_sha256 [2] payload"]
  obtain s where signed: "sign_message (Job_Manifest sample_unsigned) sample_keypair = Inr (Job_Manifest (sample_unsigned\<lparr>jm_signature := s\<rparr>))"
    "message_ok (Job_Manifest (sample_unsigned\<lparr>jm_signature := s\<rparr>))"
    by (auto simp: sample_keypair_def sample_unsigned_def)
  have "container_digest (rq_container_image sample_package_request) = Inr (digest_text (replicate 64 CHR ''a''))"
    by (simp add: container_digest_def sample_package_request_def is_pinned_image_def char_class_defs digest_text_def is_digest_def Let_def)
  moreover have key: "adapter_hotkey sample_keypair = Inr ''validator''" by (simp add: adapter_hotkey_def sample_keypair_def)
  moreover have "job_manifest_new sample_unsigned = Inr sample_unsigned"
    using sample_unsigned_ok by (auto simp: message_ok_def message_valid_def)
  ultimately have "package_job sample_tree sample_package_request sample_keypair =
      Inr \<lparr>pk_manifest = sample_unsigned\<lparr>jm_signature := s\<rparr>, pk_inputs = [\<lparr>ir_path = ''data/a'', ir_digest = sha256_id [2], ir_size = 1\<rparr>,
       \<lparr>ir_path = ''train.py'', ir_digest = sha256_id [1], ir_size = 1\<rparr>]\<rparr>"
    using signed(1)
    by (simp add: package_job_def sample_package_request_def sample_unsigned_def max_inputs_def input_record_of_def hash_file_def
        sample_files key in_range_def max_input_bytes_def Let_def require_def)
  with signed(2) show ?thesis by (auto simp: message_ok_def)
qed

section \<open>Properties\<close>

text \<open>
  C22: what a package promises.  If packaging succeeds, every declared input and the entrypoint are
  regular files below the root, reached without a symbolic link; the records are those of the
  declared inputs, sorted by their paths, which are distinct, with sizes and digests of the files'
  content; the manifest commits to them, to the entrypoint and to the digest that pins the image,
  expires after the current block, has passed its checks, and carries the signature that the key of
  its publisher makes on its signing bytes.
\<close>

theorem package_job_sound:
  assumes "package_job t q k = Inr p"
  shows "(\<exists>found. list_all2 (describes t) (rq_inputs q) found \<and> pk_inputs p = sort_key ir_path found)
     \<and> distinct (map ir_path (pk_inputs p)) \<and> jm_input_root (pk_manifest p) = input_root (pk_inputs p)
     \<and> (\<exists>f. contained_file t (rq_entrypoint q) f \<and> jm_entrypoint_digest (pk_manifest p) = sha256_id f)
     \<and> (\<exists>name. rq_container_image q = name @ ''@'' @ jm_container_digest (pk_manifest p))
     \<and> 0 \<le> rq_current_block q \<and> rq_current_block q < jm_expires_at_block (pk_manifest p)
     \<and> job_manifest_new (pk_manifest p) = Inr (pk_manifest p)
     \<and> kp_address k = Some (jm_publisher_hotkey (pk_manifest p))
     \<and> (\<exists>payload sig. signing_bytes (Job_Manifest (pk_manifest p)) = Inr payload \<and> kp_sign k payload = Some sig
          \<and> jm_signature (pk_manifest p) = to_hex sig)"
proof -
  obtain parts f n found container own payload sig where
    run: "0 \<le> rq_current_block q" "rq_current_block q < rq_expires_at_block q" "rq_inputs q \<noteq> []" "length (rq_inputs q) \<le> max_inputs"
      "safe_root t = Inr ()" "safe_regular_file t (rq_entrypoint q) ''entrypoint'' = Inr ((parts, f), n)" "pt_read t parts"
      "mapE (input_record_of t) (rq_inputs q) = Inr found" "distinct (map ir_path found)" "pk_inputs p = sort_key ir_path found"
      "container_digest (rq_container_image q) = Inr container" "adapter_hotkey k = Inr own"
      "job_manifest_new (pk_manifest p) = Inr (pk_manifest p)"
      "signing_bytes (Job_Manifest (pk_manifest p)) = Inr payload" "adapter_sign k payload = Inr sig"
      "pk_manifest p = \<lparr>jm_job_id = rq_job_id q, jm_container_digest = container, jm_entrypoint_digest = sha256_id f,
        jm_input_root = input_root (sort_key ir_path found), jm_framework = rq_framework q, jm_resource_policy = rq_resource_policy q,
        jm_verification_policy = rq_verification_policy q, jm_lease_seconds = rq_lease_seconds q,
        jm_publisher_hotkey = own, jm_expires_at_block = rq_expires_at_block q, jm_signature = to_hex sig, jm_protocol_version = 1\<rparr>"
    by (rule package_job_cases [OF assms])
  have "list_all2 (describes t) (rq_inputs q) found"
    using run(8) by (auto simp: mapE_Inr_list_all2 intro: list_all2_mono input_record_describes)
  moreover have "contained_file t (rq_entrypoint q) f" using safe_regular_file_sound [OF run(6)] by simp
  moreover have "\<exists>name. rq_container_image q = name @ ''@'' @ container"
    by (rule pinned_image_split [OF run(11)])
  ultimately show ?thesis
    using run(1,2,9,10,12-15)
    by (auto simp: run(16) adapter_hotkey_def adapter_sign_def simp del: sha256_id_eq_iff split: option.splits if_splits)
qed

theorem package_job_sound_witness:
  "\<exists>p. package_job sample_tree sample_package_request sample_keypair = Inr p \<and> jm_input_root (pk_manifest p) = input_root (pk_inputs p)
     \<and> kp_address sample_keypair = Some (jm_publisher_hotkey (pk_manifest p)) \<and> map ir_path (pk_inputs p) = [''data/a'', ''train.py'']"
proof -
  obtain p where p: "package_job sample_tree sample_package_request sample_keypair = Inr p" "map ir_path (pk_inputs p) = [''data/a'', ''train.py'']"
    using sample_package by (elim exE conjE)
  note sound = package_job_sound [OF p(1)]
  have "jm_input_root (pk_manifest p) = input_root (pk_inputs p)" using sound by (elim conjE)
  moreover have "kp_address sample_keypair = Some (jm_publisher_hotkey (pk_manifest p))" using sound by (elim conjE)
  ultimately show ?thesis using p by (intro exI [of _ p] conjI)
qed

text \<open>
  A package digest identifies the package.  Two packages with the same digest have the same
  manifest but for the signature and the same input records, unless two explicit byte strings, the
  signed contents or the encodings of the input records, have the same SHA-256 digest.
\<close>

theorem package_digest_binding:
  assumes "package_job t q k = Inr p" "package_job t' q' k' = Inr p'"
    and "parts_valid (Job_Manifest (pk_manifest p))" "parts_valid (Job_Manifest (pk_manifest p'))"
    and "package_digest p = package_digest p'"
  shows "pk_manifest p' = (pk_manifest p)\<lparr>jm_signature := jm_signature (pk_manifest p')\<rparr> \<and> pk_inputs p' = pk_inputs p
     \<or> collide (content_domain @ json_dumps False (unsigned_primitive (Job_Manifest (pk_manifest p))))
               (content_domain @ json_dumps False (unsigned_primitive (Job_Manifest (pk_manifest p'))))
     \<or> collide (input_root_bytes (pk_inputs p)) (input_root_bytes (pk_inputs p'))"
  (is "?same \<and> _ \<or> ?content \<or> ?root")
proof -
  note one = package_job_manifest [OF assms(1)] and two = package_job_manifest [OF assms(2)]
  have ok: "message_ok (Job_Manifest (pk_manifest p))" "message_ok (Job_Manifest (pk_manifest p'))"
    using one(1) two(1) assms(3,4) by (simp_all add: message_ok_def message_valid_def)
  have "pk_manifest p' = (pk_manifest p)\<lparr>jm_signature := jm_signature (pk_manifest p')\<rparr> \<or> ?content"
    using content_digest_binding [OF ok refl refl] assms(5) by (simp add: package_digest_def)
  moreover have "pk_inputs p = pk_inputs p' \<or> ?root"
    if "pk_manifest p' = (pk_manifest p)\<lparr>jm_signature := jm_signature (pk_manifest p')\<rparr>"
  proof (rule input_root_binding)
    show "\<forall>r \<in> set (pk_inputs p) \<union> set (pk_inputs p'). int_printable (ir_size r)" using one(3) two(3) by blast
    from that have "jm_input_root (pk_manifest p') = jm_input_root (pk_manifest p)" by (metis job_manifest.select_convs(4) job_manifest.surjective job_manifest.update_convs(11))
    then show "input_root (pk_inputs p) = input_root (pk_inputs p')" using one(2) two(2) by simp
  qed
  ultimately show ?thesis by auto
qed

theorem package_digest_binding_witness:
  "\<exists>p p'. package_job sample_tree sample_package_request sample_keypair = Inr p
     \<and> package_job sample_tree (sample_package_request\<lparr>rq_inputs := [path_of ''data/a'', path_of ''train.py'']\<rparr>) sample_keypair = Inr p'
     \<and> package_digest p = package_digest p' \<and> pk_inputs p' = pk_inputs p"
proof -
  obtain p where p: "package_job sample_tree sample_package_request sample_keypair = Inr p" "parts_valid (Job_Manifest (pk_manifest p))"
    using sample_package by blast
  have "mset [path_of ''data/a'', path_of ''train.py''] = mset (rq_inputs sample_package_request)"
    by (simp add: sample_package_request_def add_mset_commute)
  note again = package_job_permuted [OF p(1) this]
  from package_digest_binding [OF p(1) again p(2) p(2) refl] p(1) again show ?thesis by (auto simp: collide_def)
qed

end
