(* ===== verification/Nvidia.thy ===== *)
theory Nvidia
  imports Attestation Texts Sizes
begin

text \<open>
  The NVIDIA adapter, \<open>src/gpuforge/nvidia_attestation.py\<close>: the collection of evidence and the
  verifier backend that run the \<open>nvattest\<close> program, the appraisal of its claims and the cache of
  collateral.  The program is a function of its arguments; the staging of the evidence file is an
  outcome; \<open>datetime.fromisoformat\<close>, whose formats differ between the Python versions the project
  supports, and the texts of floats are arguments.
\<close>

section \<open>The command line\<close>

text \<open>\<open>AttestationBackendFailure\<close> with its reason, or any other exception.\<close>

datatype nvat_error = Nvat_Failure verification_reason | Nvat_Raises

definition nvat_require :: "bool \<Rightarrow> verification_reason \<Rightarrow> nvat_error + unit" where
  "nvat_require ok reason = require ok (Nvat_Failure reason)"

definition nvat_evidence_format :: string where
  "nvat_evidence_format = ''nvidia_nvat_evidence_v1''"

definition nvat_claims_version :: string where
  "nvat_claims_version = ''3.0''"

definition nvat_policy_digest :: string where
  "nvat_policy_digest = sha256_id (utf8_encode ''nvidia-nvat-v1-claims-v3-rim-and-certificate-policy'')"

definition max_cli_output_bytes :: nat where
  "max_cli_output_bytes = 4 * 1024 * 1024"

definition max_collateral_bytes :: nat where
  "max_collateral_bytes = 2 * 1024 * 1024"

definition required_true_claims :: "string list" where
  "required_true_claims =
     [''x-nvidia-gpu-arch-check'', ''x-nvidia-gpu-attestation-report-cert-chain-fwid-match'',
      ''x-nvidia-gpu-attestation-report-parsed'', ''x-nvidia-gpu-attestation-report-nonce-match'',
      ''x-nvidia-gpu-attestation-report-signature-verified'', ''x-nvidia-gpu-driver-rim-fetched'',
      ''x-nvidia-gpu-driver-rim-schema-validated'', ''x-nvidia-gpu-driver-rim-signature-verified'',
      ''x-nvidia-gpu-driver-rim-version-match'', ''x-nvidia-gpu-driver-rim-measurements-available'',
      ''x-nvidia-gpu-vbios-rim-fetched'', ''x-nvidia-gpu-vbios-rim-schema-validated'',
      ''x-nvidia-gpu-vbios-rim-signature-verified'', ''x-nvidia-gpu-vbios-rim-version-match'',
      ''x-nvidia-gpu-vbios-rim-measurements-available'', ''x-nvidia-gpu-vbios-index-no-conflict'']"

definition certificate_claims :: "string list" where
  "certificate_claims =
     [''x-nvidia-gpu-attestation-report-cert-chain'', ''x-nvidia-gpu-driver-rim-cert-chain'',
      ''x-nvidia-gpu-vbios-rim-cert-chain'']"

record nvat_result =
  nr_returncode :: int
  nr_stdout :: bytes
  nr_stderr :: bytes

text \<open>\<open>SubprocessNvatRunner.run\<close> on the outcome of the process, \<open>None\<close> when it does not run to its end.\<close>

definition subprocess_result :: "nvat_result option \<Rightarrow> nvat_error + nvat_result" where
  "subprocess_result outcome =
     (case outcome of
        None \<Rightarrow> Inl (Nvat_Failure Provider_Unavailable)
      | Some r \<Rightarrow>
          if length (nr_stdout r) > max_cli_output_bytes \<or> length (nr_stderr r) > max_cli_output_bytes
          then Inl (Nvat_Failure Evidence_Invalid) else Inr r)"

type_synonym nvat_runner = "string list \<Rightarrow> int \<Rightarrow> nvat_error + nvat_result"

datatype nvat_setting_error = Nvat_Executable | Nvat_Timeout | Nvat_Collateral_Age

record nvat_settings =
  nv_enabled :: bool
  nv_executable :: string
  nv_timeout_seconds :: int
  nv_collateral_max_age :: int

definition validate_cli_settings :: "nvat_settings \<Rightarrow> nvat_setting_error + unit" where
  "validate_cli_settings s = all_pass
     [require (path_name (nv_executable s) \<in> {''nvattest'', ''nvattest.exe''}) Nvat_Executable,
      require (in_range 1 300 (nv_timeout_seconds s)) Nvat_Timeout]"

definition nvat_backend_new :: "nvat_settings \<Rightarrow> nvat_setting_error + nvat_settings" where
  "nvat_backend_new s = passes
     [validate_cli_settings s, require (in_range 60 86400 (nv_collateral_max_age s)) Nvat_Collateral_Age] s"

section \<open>Decoded output\<close>

definition nvat_mapping :: "json option \<Rightarrow> nvat_error + (string \<times> json) list" where
  "nvat_mapping v = (case v of Some (JObj kvs) \<Rightarrow> Inr kvs | _ \<Rightarrow> Inl (Nvat_Failure Evidence_Invalid))"

definition nvat_list :: "json option \<Rightarrow> nvat_error + json list" where
  "nvat_list v = (case v of Some (JArr vs) \<Rightarrow> Inr vs | _ \<Rightarrow> Inl (Nvat_Failure Evidence_Invalid))"

text \<open>
  \<open>v == 0\<close> for a number; a float is zero when it rounds to zero, up to half the least subnormal
  double.
\<close>

definition json_eq_zero :: "json option \<Rightarrow> bool" where
  "json_eq_zero v =
     (case v of
        Some (JInt i) \<Rightarrow> i = 0
      | Some (JFloat s) \<Rightarrow> \<bar>decimal_value s\<bar> \<le> 1 / 2 ^ 1075
      | _ \<Rightarrow> False)"

text \<open>\<open>_successful_json\<close>; an integer of more than 4300 digits raises a plain \<open>ValueError\<close>.\<close>

definition successful_json :: "nvat_result \<Rightarrow> nvat_error + (string \<times> json) list" where
  "successful_json r =
     (if nr_returncode r \<noteq> 0 \<or> nr_stdout r = [] then Inl (Nvat_Failure Provider_Unavailable)
      else if length (nr_stdout r) > max_cli_output_bytes then Inl (Nvat_Failure Evidence_Invalid)
      else case json_loads_bytes default_hooks (nr_stdout r) of
             Inl Json_Int_Limit \<Rightarrow> Inl Nvat_Raises
           | Inl _ \<Rightarrow> Inl (Nvat_Failure Evidence_Invalid)
           | Inr v \<Rightarrow>
               bindE (nvat_mapping (Some v)) (\<lambda>data.
               bindE (nvat_require (json_eq_zero (map_of data ''result_code'')) Evidence_Invalid) (\<lambda>_.
               Inr data)))"

section \<open>Appraised claims\<close>

text \<open>
  The standard library on a date text: a \<open>ValueError\<close>, a time without zone, an \<open>OverflowError\<close> of
  the conversion, or the whole seconds since the epoch.
\<close>

datatype iso_result = Iso_Malformed | Iso_Naive | Iso_Overflow | Iso_Seconds int

definition utc_offset :: "string \<Rightarrow> string" where
  "utc_offset s = concat (map (\<lambda>c. if c = CHR ''Z'' then ''+00:00'' else [c]) s)"

definition iso8601_epoch :: "(string \<Rightarrow> iso_result) \<Rightarrow> string \<Rightarrow> nvat_error + int" where
  "iso8601_epoch from_iso s =
     (case from_iso (utc_offset s) of
        Iso_Malformed \<Rightarrow> Inl (Nvat_Failure Evidence_Invalid)
      | Iso_Naive \<Rightarrow> Inl (Nvat_Failure Evidence_Invalid)
      | Iso_Overflow \<Rightarrow> Inl Nvat_Raises
      | Iso_Seconds t \<Rightarrow> if t < 0 then Inl (Nvat_Failure Evidence_Invalid) else Inr t)"

definition certificate_expiry :: "(string \<Rightarrow> iso_result) \<Rightarrow> (string \<times> json) list \<Rightarrow> string \<Rightarrow> nvat_error + int" where
  "certificate_expiry from_iso claim name =
     bindE (nvat_mapping (map_of claim name)) (\<lambda>certificate.
       let status = map_of certificate ''x-nvidia-cert-status'';
           ocsp = map_of certificate ''x-nvidia-cert-ocsp-status''
       in bindE (nvat_require (\<not> (status = Some (JStr ''revoked'') \<or> ocsp = Some (JStr ''revoked''))) Collateral_Revoked) (\<lambda>_.
          bindE (nvat_require (\<not> (status \<noteq> Some (JStr ''valid'') \<or> ocsp \<noteq> Some (JStr ''good''))) Certificate_Chain_Invalid) (\<lambda>_.
            case map_of certificate ''x-nvidia-cert-expiration-date'' of
              Some (JStr s) \<Rightarrow> iso8601_epoch from_iso s
            | _ \<Rightarrow> Inl (Nvat_Failure Evidence_Invalid))))"

text \<open>\<open>v in {"success", "Success"}\<close>: a list or an object is not hashable.\<close>

definition measurement_result :: "json option \<Rightarrow> nvat_error + unit" where
  "measurement_result v =
     (case v of
        Some (JArr _) \<Rightarrow> Inl Nvat_Raises
      | Some (JObj _) \<Rightarrow> Inl Nvat_Raises
      | _ \<Rightarrow> nvat_require (v \<in> {Some (JStr ''success''), Some (JStr ''Success'')}) Measurement_Untrusted)"

definition is_h100_model :: "json option \<Rightarrow> bool" where
  "is_h100_model v =
     (case v of Some (JStr s) \<Rightarrow> list_ex (\<lambda>m. contains_text m (fold_case s)) [''gh100'', ''h100''] | _ \<Rightarrow> False)"

text \<open>One round of the loop over the claims: the expiries it appends.\<close>

definition claim_expiries :: "(string \<Rightarrow> iso_result) \<Rightarrow> string \<Rightarrow> json \<Rightarrow> nvat_error + int list" where
  "claim_expiries from_iso nonce raw =
     bindE (nvat_mapping (Some raw)) (\<lambda>claim.
     bindE (all_pass
       [nvat_require (map_of claim ''x-nvidia-device-type'' = Some (JStr ''gpu'')) Gpu_Class_Mismatch,
        nvat_require (map_of claim ''x-nvidia-gpu-claims-version'' = Some (JStr nvat_claims_version)) Format_Unsupported,
        nvat_require (map_of claim ''eat_nonce'' = Some (JStr nonce)) Nonce_Mismatch,
        measurement_result (map_of claim ''measres''),
        nvat_require (map_of claim ''x-nvidia-mismatch-measurement-records'' \<in> {None, Some JNull, Some (JArr [])})
          Measurement_Untrusted,
        nvat_require (list_all (\<lambda>name. map_of claim name = Some (JBool True)) required_true_claims) Evidence_Invalid,
        nvat_require (map_of claim ''secboot'' = Some (JBool True) \<and> map_of claim ''dbgstat'' = Some (JStr ''disabled''))
          Evidence_Invalid,
        nvat_require (is_h100_model (map_of claim ''hwmodel'')) Gpu_Class_Mismatch]) (\<lambda>_.
     mapE (certificate_expiry from_iso claim) certificate_claims))"

definition raises :: "'e + 'a \<Rightarrow> nvat_error + 'a" where
  "raises r = map_error (\<lambda>_. Nvat_Raises) r"

definition verified_claims ::
  "(string \<Rightarrow> iso_result) \<Rightarrow> (string \<times> json) list \<Rightarrow> string \<Rightarrow> int \<Rightarrow> int \<Rightarrow> nvat_error + attestation_claims" where
  "verified_claims from_iso data nonce collected_at max_age =
     bindE (nvat_list (map_of data ''claims'')) (\<lambda>claims.
     bindE (nvat_require (1 \<le> length claims \<and> length claims \<le> 8) Evidence_Invalid) (\<lambda>_.
     bindE (nvat_require (case map_of data ''detached_eat'' of Some (JArr vs) \<Rightarrow> vs \<noteq> [] | _ \<Rightarrow> False) Evidence_Invalid) (\<lambda>_.
     bindE (mapE (claim_expiries from_iso nonce) claims) (\<lambda>expiries.
       let collateral_expiry = min_list (concat expiries) in
     bindE (raises (revocation_result_new \<lparr>rv_status = Rev_Good, rv_checked_at = collected_at,
              rv_next_update = min (collected_at + max_age) collateral_expiry\<rparr>)) (\<lambda>revocation.
     raises (attestation_claims_new
       \<lparr>ac_evidence_format = nvat_evidence_format, ac_nonce = nonce, ac_gpu_class = ''h100'', ac_gpu_count = int (length claims),
        ac_measurement_digests = [nvat_policy_digest], ac_device_chain_valid = True, ac_host_chain_valid = False,
        ac_revocation = revocation, ac_issued_at = collected_at, ac_collateral_expires_at = collateral_expiry\<rparr>))))))"

section \<open>The backend and the provider\<close>

text \<open>The evidence file: its path, a failing \<open>chmod\<close>, or another error of the file system.\<close>

datatype staging = Staged string | Chmod_Fails | Staging_Raises

definition attest_command :: "nvat_settings \<Rightarrow> string \<Rightarrow> string \<Rightarrow> string list" where
  "attest_command s evidence_path nonce =
     [nv_executable s, ''attest'', ''--device'', ''gpu'', ''--verifier'', ''local'', ''--gpu-evidence-source'', ''file'',
      ''--gpu-evidence-file'', evidence_path, ''--nonce'', nonce, ''--format'', ''json'', ''--log-level'', ''off'']"

definition nvat_verify ::
  "nvat_settings \<Rightarrow> nvat_runner \<Rightarrow> staging \<Rightarrow> (string \<Rightarrow> iso_result) \<Rightarrow> evidence_bundle \<Rightarrow> string \<Rightarrow> nvat_error + attestation_claims" where
  "nvat_verify s runner staging from_iso b nonce =
     (if \<not> nv_enabled s then Inl (Nvat_Failure Provider_Unavailable)
      else if eb_evidence_format b \<noteq> nvat_evidence_format then Inl (Nvat_Failure Format_Unsupported)
      else case staging of
             Staging_Raises \<Rightarrow> Inl Nvat_Raises
           | Chmod_Fails \<Rightarrow> Inl (Nvat_Failure Provider_Unavailable)
           | Staged p \<Rightarrow>
               bindE (runner (attest_command s p nonce) (nv_timeout_seconds s)) (\<lambda>outcome.
               bindE (successful_json outcome) (\<lambda>data.
               verified_claims from_iso data nonce (eb_collected_at b) (nv_collateral_max_age s))))"

text \<open>The backend that \<open>attestation_verify\<close> calls.\<close>

definition nvat_backend ::
  "nvat_settings \<Rightarrow> nvat_runner \<Rightarrow> (evidence_bundle \<Rightarrow> staging) \<Rightarrow> (string \<Rightarrow> iso_result) \<Rightarrow> attestation_backend" where
  "nvat_backend s runner staging from_iso b nonce =
     (case nvat_verify s runner (staging b) from_iso b nonce of
        Inl (Nvat_Failure reason) \<Rightarrow> Backend_Failure reason
      | Inl Nvat_Raises \<Rightarrow> Backend_Raises
      | Inr c \<Rightarrow> Backend_Claims c)"

definition collect_command :: "nvat_settings \<Rightarrow> string \<Rightarrow> string list" where
  "collect_command s nonce =
     [nv_executable s, ''collect-evidence'', ''--device'', ''gpu'', ''--nonce'', nonce, ''--format'', ''json'',
      ''--log-level'', ''off'']"

definition collected_evidence :: "string \<Rightarrow> json \<Rightarrow> nvat_error + unit" where
  "collected_evidence nonce item =
     bindE (nvat_mapping (Some item)) (\<lambda>e. all_pass
       [nvat_require (map_of e ''nonce'' = Some (JStr nonce)
           \<and> (case map_of e ''evidence'' of Some (JStr _) \<Rightarrow> True | _ \<Rightarrow> False)) Nonce_Mismatch,
        nvat_require (case map_of e ''certificate'' of Some (JStr _) \<Rightarrow> True | _ \<Rightarrow> False) Evidence_Invalid,
        nvat_require (case map_of e ''arch'' of Some (JStr s) \<Rightarrow> fold_case s = ''hopper'' | _ \<Rightarrow> False) Gpu_Class_Mismatch])"

text \<open>\<open>repr\<close> of a float is the text that \<open>json.dumps\<close> writes for it.\<close>

fun with_floats :: "(string \<Rightarrow> string) \<Rightarrow> json \<Rightarrow> json" where
  "with_floats repr (JFloat s) = JFloat (repr s)"
| "with_floats repr (JArr vs) = JArr (map (with_floats repr) vs)"
| "with_floats repr (JObj kvs) = JObj (map (map_prod id (with_floats repr)) kvs)"
| "with_floats repr v = v"

definition nvat_collect ::
  "nvat_settings \<Rightarrow> nvat_runner \<Rightarrow> (string \<Rightarrow> string) \<Rightarrow> int \<Rightarrow> attestation_request \<Rightarrow> nvat_error + evidence_bundle" where
  "nvat_collect s runner repr now r =
     (if \<not> nv_enabled s then Inl (Nvat_Failure Provider_Unavailable)
      else let nonce = bound_nonce r in
        bindE (runner (collect_command s nonce) (nv_timeout_seconds s)) (\<lambda>outcome.
        bindE (successful_json outcome) (\<lambda>data.
        bindE (nvat_list (map_of data ''evidences'')) (\<lambda>evidences.
        bindE (nvat_require (1 \<le> length evidences \<and> length evidences \<le> 8) Evidence_Invalid) (\<lambda>_.
        bindE (all_pass (map (collected_evidence nonce) evidences)) (\<lambda>_.
        raises (evidence_bundle_new
          \<lparr>eb_evidence_format = nvat_evidence_format, eb_payload = json_dumps True (with_floats repr (JObj data)),
           eb_collected_at = now\<rparr>)))))))"

section \<open>Collateral\<close>

datatype collateral_error =
    Collateral_Digest | Collateral_Size | Collateral_Expiry | Collateral_Mismatch
  | Cache_Bound | Collateral_Expired | Cache_Full

record public_collateral =
  pc_digest :: string
  pc_payload :: bytes
  pc_expires_at :: int

definition public_collateral_new :: "public_collateral \<Rightarrow> collateral_error + public_collateral" where
  "public_collateral_new c = passes
     [require (take 7 (pc_digest c) = ''sha256:'' \<and> length (pc_digest c) = 71) Collateral_Digest,
      require (1 \<le> length (pc_payload c) \<and> length (pc_payload c) \<le> max_collateral_bytes) Collateral_Size,
      require (\<not> pc_expires_at c < 0) Collateral_Expiry,
      require (sha256_id (pc_payload c) = pc_digest c) Collateral_Mismatch] c"

record collateral_cache =
  ca_max_entries :: int
  ca_values :: "(string \<times> public_collateral) list"

definition collateral_cache_new :: "int \<Rightarrow> collateral_error + collateral_cache" where
  "collateral_cache_new n = guarded [(in_range 1 256 n, Cache_Bound)] \<lparr>ca_max_entries = n, ca_values = []\<rparr>"

definition collateral_purge :: "int \<Rightarrow> collateral_cache \<Rightarrow> collateral_cache" where
  "collateral_purge now c = c\<lparr>ca_values := filter (\<lambda>(k, v). \<not> pc_expires_at v \<le> now) (ca_values c)\<rparr>"

definition collateral_put :: "collateral_cache \<Rightarrow> public_collateral \<Rightarrow> int \<Rightarrow> collateral_cache \<times> (collateral_error + unit)" where
  "collateral_put c v now =
     (if pc_expires_at v \<le> now then (c, Inl Collateral_Expired)
      else let c = collateral_purge now c in
        if map_of (ca_values c) (pc_digest v) = None \<and> int (length (ca_values c)) \<ge> ca_max_entries c then (c, Inl Cache_Full)
        else (c\<lparr>ca_values := AList.update (pc_digest v) v (ca_values c)\<rparr>, Inr ()))"

definition collateral_get :: "collateral_cache \<Rightarrow> string \<Rightarrow> int \<Rightarrow> collateral_cache \<times> public_collateral option" where
  "collateral_get c digest now = (let c = collateral_purge now c in (c, map_of (ca_values c) digest))"

section \<open>What the appraisal establishes\<close>

text \<open>A certificate chain that is valid, not revoked, and expires at \<open>t\<close>; a device with its three.\<close>

definition certificate_good :: "(string \<Rightarrow> iso_result) \<Rightarrow> (string \<times> json) list \<Rightarrow> string \<Rightarrow> int \<Rightarrow> bool" where
  "certificate_good from_iso claim name t \<longleftrightarrow>
     (\<exists>certificate s. map_of claim name = Some (JObj certificate)
        \<and> map_of certificate ''x-nvidia-cert-status'' = Some (JStr ''valid'')
        \<and> map_of certificate ''x-nvidia-cert-ocsp-status'' = Some (JStr ''good'')
        \<and> map_of certificate ''x-nvidia-cert-expiration-date'' = Some (JStr s)
        \<and> from_iso (utc_offset s) = Iso_Seconds t \<and> 0 \<le> t)"

definition device_attested :: "(string \<Rightarrow> iso_result) \<Rightarrow> string \<Rightarrow> json \<Rightarrow> int list \<Rightarrow> bool" where
  "device_attested from_iso nonce v ts \<longleftrightarrow>
     (\<exists>claim. v = JObj claim
        \<and> map_of claim ''x-nvidia-device-type'' = Some (JStr ''gpu'')
        \<and> map_of claim ''x-nvidia-gpu-claims-version'' = Some (JStr nvat_claims_version)
        \<and> map_of claim ''eat_nonce'' = Some (JStr nonce)
        \<and> map_of claim ''measres'' \<in> {Some (JStr ''success''), Some (JStr ''Success'')}
        \<and> map_of claim ''x-nvidia-mismatch-measurement-records'' \<in> {None, Some JNull, Some (JArr [])}
        \<and> (\<forall>name \<in> set required_true_claims. map_of claim name = Some (JBool True))
        \<and> map_of claim ''secboot'' = Some (JBool True) \<and> map_of claim ''dbgstat'' = Some (JStr ''disabled'')
        \<and> is_h100_model (map_of claim ''hwmodel'')
        \<and> list_all2 (certificate_good from_iso claim) certificate_claims ts)"

lemma nvat_require_Inr [simp]: "nvat_require ok reason = Inr u \<longleftrightarrow> ok"
  by (simp add: nvat_require_def)

lemma raises_Inr [simp]: "raises r = Inr x \<longleftrightarrow> r = Inr x"
  by (simp add: raises_def)

lemma nvat_mapping_Inr [simp]: "nvat_mapping v = Inr kvs \<longleftrightarrow> v = Some (JObj kvs)"
  by (auto simp: nvat_mapping_def split: option.splits json.splits)

lemma nvat_list_Inr [simp]: "nvat_list v = Inr vs \<longleftrightarrow> v = Some (JArr vs)"
  by (auto simp: nvat_list_def split: option.splits json.splits)

lemma iso8601_epoch_Inr [simp]: "iso8601_epoch from_iso s = Inr t \<longleftrightarrow> from_iso (utc_offset s) = Iso_Seconds t \<and> 0 \<le> t"
  by (auto simp: iso8601_epoch_def split: iso_result.splits if_splits)

lemma text_case_Inr:
  "(case v of Some (JStr s) \<Rightarrow> f s | _ \<Rightarrow> Inl e) = Inr t \<longleftrightarrow> (\<exists>s. v = Some (JStr s) \<and> f s = Inr t)"
  by (auto split: option.splits json.splits)

lemma certificate_expiry_Inr: "certificate_expiry from_iso claim name = Inr t \<longleftrightarrow> certificate_good from_iso claim name t"
  unfolding certificate_expiry_def certificate_good_def Let_def bindE_Inr_iff text_case_Inr nvat_require_Inr nvat_mapping_Inr iso8601_epoch_Inr
  by auto

lemma measurement_result_Inr [simp]:
  "measurement_result v = Inr u \<longleftrightarrow> v = Some (JStr ''success'') \<or> v = Some (JStr ''Success'')"
  by (auto simp: measurement_result_def split: option.splits json.splits)

lemma is_h100_model_iff:
  "is_h100_model v \<longleftrightarrow>
     (\<exists>s. v = Some (JStr s) \<and> (contains_text ''gh100'' (fold_case s) \<or> contains_text ''h100'' (fold_case s)))"
  by (auto simp: is_h100_model_def split: option.splits json.splits)

lemma claim_expiries_Inr: "claim_expiries from_iso nonce v = Inr ts \<longleftrightarrow> device_attested from_iso nonce v ts"
proof (cases v)
  case (JObj claim)
  show ?thesis
    unfolding JObj claim_expiries_def device_attested_def
    by (simp add: mapE_Inr_list_all2 certificate_expiry_Inr list_all_iff)
qed (simp_all add: claim_expiries_def device_attested_def)

lemma successful_json_Inr:
  "successful_json r = Inr data \<longleftrightarrow>
     nr_returncode r = 0 \<and> nr_stdout r \<noteq> [] \<and> length (nr_stdout r) \<le> max_cli_output_bytes
   \<and> json_loads_bytes default_hooks (nr_stdout r) = Inr (JObj data) \<and> json_eq_zero (map_of data ''result_code'')"
  by (auto simp: successful_json_def split: sum.splits json_error.splits)

text \<open>Exactly when claims come out, and which.\<close>

definition nvat_claims :: "string \<Rightarrow> nat \<Rightarrow> int \<Rightarrow> int \<Rightarrow> int \<Rightarrow> attestation_claims" where
  "nvat_claims nonce n collected_at next_update expiry =
     \<lparr>ac_evidence_format = nvat_evidence_format, ac_nonce = nonce, ac_gpu_class = ''h100'', ac_gpu_count = int n,
      ac_measurement_digests = [nvat_policy_digest], ac_device_chain_valid = True, ac_host_chain_valid = False,
      ac_revocation = \<lparr>rv_status = Rev_Good, rv_checked_at = collected_at, rv_next_update = next_update\<rparr>,
      ac_issued_at = collected_at, ac_collateral_expires_at = expiry\<rparr>"

lemma nvat_claims_new:
  "attestation_claims_new (nvat_claims nonce n t u e) = Inr c \<longleftrightarrow>
     c = nvat_claims nonce n t u e \<and> is_hex64 nonce \<and> 1 \<le> n \<and> n \<le> 8 \<and> in_range 0 max_int64 t \<and> in_range 0 max_int64 e"
  by (auto simp: attestation_claims_new_def nvat_claims_def nvat_evidence_format_def nvat_policy_digest_def is_dotted_code_def
      char_class_defs in_range_def)

lemma verified_claims_Inr:
  "verified_claims from_iso data nonce t age = Inr c \<longleftrightarrow>
     (\<exists>claims ess eat e. map_of data ''claims'' = Some (JArr claims) \<and> 1 \<le> length claims \<and> length claims \<le> 8
        \<and> map_of data ''detached_eat'' = Some (JArr eat) \<and> eat \<noteq> []
        \<and> list_all2 (device_attested from_iso nonce) claims ess \<and> e = min_list (concat ess)
        \<and> in_range 0 max_int64 t \<and> in_range 0 max_int64 (min (t + age) e) \<and> t < min (t + age) e \<and> in_range 0 max_int64 e
        \<and> is_hex64 nonce \<and> c = nvat_claims nonce (length claims) t (min (t + age) e) e)"
proof -
  have eat: "(case map_of data ''detached_eat'' of Some (JArr vs) \<Rightarrow> vs \<noteq> [] | _ \<Rightarrow> False) \<longleftrightarrow>
      (\<exists>eat. map_of data ''detached_eat'' = Some (JArr eat) \<and> eat \<noteq> [])"
    by (auto split: option.splits json.splits)
  have new: "raises (attestation_claims_new
       \<lparr>ac_evidence_format = nvat_evidence_format, ac_nonce = nonce, ac_gpu_class = ''h100'', ac_gpu_count = int n,
        ac_measurement_digests = [nvat_policy_digest], ac_device_chain_valid = True, ac_host_chain_valid = False,
        ac_revocation = \<lparr>rv_status = Rev_Good, rv_checked_at = t, rv_next_update = u\<rparr>, ac_issued_at = t, ac_collateral_expires_at = e\<rparr>) = Inr c
    \<longleftrightarrow> c = nvat_claims nonce n t u e \<and> is_hex64 nonce \<and> 1 \<le> n \<and> n \<le> 8 \<and> in_range 0 max_int64 t \<and> in_range 0 max_int64 e" for n u e
    using nvat_claims_new [of nonce n t u e c] by (simp add: nvat_claims_def)
  show ?thesis
    unfolding verified_claims_def Let_def bindE_Inr_iff eat nvat_require_Inr nvat_list_Inr mapE_Inr_list_all2 claim_expiries_Inr
    by (simp add: revocation_result_new_def new [unfolded raises_Inr] conj_assoc cong: conj_cong) (auto simp del: min_less_iff_conj)
qed

lemma nvat_backend_claims:
  assumes "nvat_backend s runner staging from_iso b nonce = Backend_Claims c"
  obtains path outcome data where "nv_enabled s" "staging b = Staged path"
    "runner (attest_command s path nonce) (nv_timeout_seconds s) = Inr outcome" "successful_json outcome = Inr data"
    "verified_claims from_iso data nonce (eb_collected_at b) (nv_collateral_max_age s) = Inr c"
proof -
  from assms have "nvat_verify s runner (staging b) from_iso b nonce = Inr c"
    by (auto simp: nvat_backend_def split: sum.splits nvat_error.splits)
  then show ?thesis
    by (cases "staging b") (auto simp: nvat_verify_def intro: that split: if_splits)
qed

lemma attestation_accepted_claims:
  assumes "attestation_verify backend r b p now = Inr v" "vx_accepted v"
  obtains c where "backend b (bound_nonce r) = Backend_Claims c" "claims_reason r b p now c = Verified"
    "vx_tier v = Some (if ac_host_chain_valid c then Tier_A else Tier_B)" "vx_gpu_count v = ac_gpu_count c"
  using assms
  by (auto simp: attestation_verify_def verifier_result_new_def dest: attestation_rejected_not_accepted
      split: if_splits backend_outcome.splits)

lemma claims_verified_current:
  assumes "claims_reason r b p now c = Verified"
  shows "now \<le> ac_collateral_expires_at c" "\<not> ac_host_chain_valid c \<Longrightarrow> at_minimum_tier p \<noteq> Tier_A"
  using assms by (auto simp: claims_reason_def not_less split: if_splits)

lemma device_expiries: "device_attested from_iso nonce v ts \<Longrightarrow> length ts = 3"
  by (auto simp: device_attested_def certificate_claims_def list_all2_Cons1)

lemma min_list_le: "x \<in> set xs \<Longrightarrow> min_list xs \<le> (x :: int)"
proof -
  assume "x \<in> set xs"
  moreover from this have "xs \<noteq> []" by auto
  ultimately show ?thesis by (simp add: min_list_Min)
qed

text \<open>
  Claims whose collateral had expired when the evidence was collected are no decision of the
  adapter: the construction of the revocation result raises.
\<close>

lemma expired_collateral_raises:
  assumes "map_of data ''claims'' = Some (JArr claims)" "1 \<le> length claims" "length claims \<le> 8"
    "map_of data ''detached_eat'' = Some (JArr eat)" "eat \<noteq> []" "list_all2 (device_attested from_iso nonce) claims ess"
    "min_list (concat ess) \<le> t"
  shows "verified_claims from_iso data nonce t age = Inl Nvat_Raises"
proof -
  have "mapE (claim_expiries from_iso nonce) claims = Inr ess"
    using assms(6) by (simp add: mapE_Inr_list_all2 claim_expiries_Inr)
  moreover have "\<exists>e. revocation_result_new \<lparr>rv_status = Rev_Good, rv_checked_at = t, rv_next_update = min (t + age) (min_list (concat ess))\<rparr> = Inl e"
    using assms(7) by (cases "revocation_result_new \<lparr>rv_status = Rev_Good, rv_checked_at = t, rv_next_update = min (t + age) (min_list (concat ess))\<rparr>")
      (auto simp: revocation_result_new_def)
  ultimately show ?thesis
    using assms(1-5) by (auto simp: verified_claims_def nvat_list_def nvat_require_def require_def raises_def)
qed

section \<open>The cache\<close>

datatype cache_call = Cache_Put public_collateral int | Cache_Get string int

datatype cache_answer = Put_Answer "collateral_error + unit" | Get_Answer "public_collateral option"

text \<open>Calls on the cache; a call of \<open>put\<close> first constructs its collateral.\<close>

fun cache_step :: "collateral_cache \<Rightarrow> cache_call \<Rightarrow> collateral_cache \<times> cache_answer" where
  "cache_step c (Cache_Put v now) =
     (case public_collateral_new v of
        Inl e \<Rightarrow> (c, Put_Answer (Inl e))
      | Inr v \<Rightarrow> (case collateral_put c v now of (c', r) \<Rightarrow> (c', Put_Answer r)))"
| "cache_step c (Cache_Get d now) = (case collateral_get c d now of (c', r) \<Rightarrow> (c', Get_Answer r))"

definition cache_ok :: "int \<Rightarrow> collateral_cache \<Rightarrow> bool" where
  "cache_ok n c \<longleftrightarrow> ca_max_entries c = n \<and> int (length (ca_values c)) \<le> n \<and> distinct (map fst (ca_values c))
     \<and> (\<forall>(k, v) \<in> set (ca_values c). pc_digest v = k \<and> public_collateral_new v = Inr v)"

lemma cache_purge_ok: "cache_ok n c \<Longrightarrow> cache_ok n (collateral_purge now c)"
  by (auto simp: cache_ok_def collateral_purge_def distinct_map_filter intro: order_trans [OF of_nat_mono [OF length_filter_le]])

lemma purged_fresh: "(k, v) \<in> set (ca_values (collateral_purge now c)) \<Longrightarrow> now < pc_expires_at v"
  by (auto simp: collateral_purge_def)

lemma cache_put_ok:
  assumes "cache_ok n c" "public_collateral_new v = Inr v"
  shows "cache_ok n (fst (collateral_put c v now))"
proof -
  have ok: "cache_ok n (collateral_purge now c)" by (rule cache_purge_ok [OF assms(1)])
  let ?vs = "ca_values (collateral_purge now c)"
  have "cache_ok n ((collateral_purge now c)\<lparr>ca_values := AList.update (pc_digest v) v ?vs\<rparr>)"
    if "map_of ?vs (pc_digest v) \<noteq> None \<or> int (length ?vs) < ca_max_entries (collateral_purge now c)"
    using ok assms(2) that
    by (auto simp: cache_ok_def set_update_distinct length_update map_of_eq_None_iff distinct_update)
  with assms(1) ok show ?thesis by (auto simp: collateral_put_def Let_def)
qed

lemma collateral_new_same: "public_collateral_new v = Inr w \<Longrightarrow> w = v"
  by (simp add: public_collateral_new_def)

lemma cache_step_ok: "cache_ok n c \<Longrightarrow> cache_ok n (fst (cache_step c x))"
proof (cases x)
  case (Cache_Put v now)
  assume ok: "cache_ok n c"
  show ?thesis
  proof (cases "public_collateral_new v")
    case (Inr w)
    then have "w = v" by (simp add: public_collateral_new_def)
    with cache_put_ok [OF ok, of v now] Inr show ?thesis by (simp add: Cache_Put case_prod_beta)
  qed (use ok in \<open>simp add: Cache_Put\<close>)
next
  case (Cache_Get d now)
  assume "cache_ok n c"
  then show ?thesis by (simp add: Cache_Get collateral_get_def Let_def cache_purge_ok)
qed

interpretation cache: machine cache_step "cache_ok n" for n
  by unfold_locales (rule cache_step_ok)

text \<open>The cache holds \<open>v\<close>, fresh or not.\<close>

definition held :: "public_collateral \<Rightarrow> collateral_cache \<Rightarrow> bool" where
  "held v c \<longleftrightarrow> map_of (ca_values c) (pc_digest v) = Some v"

text \<open>A call before \<open>v\<close> expires that does not put something else under its digest.\<close>

definition undisturbing :: "public_collateral \<Rightarrow> cache_call \<Rightarrow> bool" where
  "undisturbing v x =
     (case x of
        Cache_Put w now \<Rightarrow> now < pc_expires_at v \<and> (pc_digest w = pc_digest v \<longrightarrow> w = v)
      | Cache_Get d now \<Rightarrow> now < pc_expires_at v)"

lemma map_of_filter_distinct:
  "distinct (map fst xs) \<Longrightarrow> map_of (filter P xs) k = Some v \<longleftrightarrow> map_of xs k = Some v \<and> P (k, v)"
  by (auto simp: distinct_map_filter dest: map_of_SomeD intro!: map_of_is_SomeI)

lemma purge_held: "cache_ok n c \<Longrightarrow> held v (collateral_purge now c) \<longleftrightarrow> held v c \<and> now < pc_expires_at v"
  by (auto simp: held_def collateral_purge_def cache_ok_def map_of_filter_distinct)

lemma get_held: "cache_ok n c \<Longrightarrow> snd (collateral_get c (pc_digest v) now) = Some v \<longleftrightarrow> held v c \<and> now < pc_expires_at v"
  using purge_held [of n c v now] by (simp add: collateral_get_def Let_def held_def)

lemma put_held:
  assumes "cache_ok n c"
  shows "snd (collateral_put c v now) = Inr () \<Longrightarrow> held v (fst (collateral_put c v now))"
    and "held u c \<Longrightarrow> now < pc_expires_at u \<Longrightarrow> pc_digest v = pc_digest u \<longrightarrow> v = u \<Longrightarrow> held u (fst (collateral_put c v now))"
proof -
  show "snd (collateral_put c v now) = Inr () \<Longrightarrow> held v (fst (collateral_put c v now))"
    by (auto simp: collateral_put_def Let_def held_def update_conv' split: if_splits)
  assume "held u c" "now < pc_expires_at u" "pc_digest v = pc_digest u \<longrightarrow> v = u"
  with purge_held [OF assms, of u now] show "held u (fst (collateral_put c v now))"
    by (auto simp: collateral_put_def Let_def held_def update_conv')
qed

lemma put_step:
  "cache_step c (Cache_Put v now) =
     (if public_collateral_new v = Inr v then apsnd Put_Answer (collateral_put c v now)
      else (c, Put_Answer (Inl (projl (public_collateral_new v)))))"
  by (cases "public_collateral_new v") (auto dest: collateral_new_same simp: case_prod_beta apsnd_def map_prod_def)

lemma step_held: "cache_ok n c \<Longrightarrow> held v c \<Longrightarrow> undisturbing v x \<Longrightarrow> held v (fst (cache_step c x))"
  by (cases x) (auto simp: put_step undisturbing_def put_held(2) purge_held collateral_get_def Let_def simp del: cache_step.simps(1))

text \<open>When a call of \<open>put\<close> succeeds.\<close>

lemma put_succeeds_iff:
  assumes "cache_ok n c"
  shows "snd (cache_step c (Cache_Put v now)) = Put_Answer (Inr ()) \<longleftrightarrow>
     public_collateral_new v = Inr v \<and> now < pc_expires_at v
     \<and> (let fresh = filter (\<lambda>(d, w). now < pc_expires_at w) (ca_values c) in
          pc_digest v \<in> fst ` set fresh \<or> int (length fresh) < n)"
proof -
  have "ca_values (collateral_purge now c) = filter (\<lambda>(d, w). now < pc_expires_at w) (ca_values c)"
    by (simp add: collateral_purge_def not_le case_prod_beta)
  moreover have "ca_max_entries (collateral_purge now c) = n" using assms by (simp add: collateral_purge_def cache_ok_def)
  ultimately show ?thesis
    by (simp add: put_step collateral_put_def Let_def map_of_eq_None_iff not_le del: cache_step.simps(1))
qed

section \<open>Properties\<close>

lemma nvat_attestation_accepted:
  assumes "attestation_verify (nvat_backend s runner staging from_iso) r b p now = Inr v" "vx_accepted v"
  shows "vx_tier v = Some Tier_B \<and> at_minimum_tier p \<noteq> Tier_A
     \<and> (\<exists>path outcome data claims ess. staging b = Staged path
          \<and> runner (attest_command s path (bound_nonce r)) (nv_timeout_seconds s) = Inr outcome
          \<and> nr_returncode outcome = 0 \<and> json_loads_bytes default_hooks (nr_stdout outcome) = Inr (JObj data)
          \<and> map_of data ''claims'' = Some (JArr claims) \<and> vx_gpu_count v = int (length claims) \<and> 1 \<le> length claims
          \<and> list_all2 (device_attested from_iso (bound_nonce r)) claims ess
          \<and> (\<forall>ts \<in> set ess. \<forall>t \<in> set ts. now \<le> t))"
proof -
  obtain c where c: "nvat_backend s runner staging from_iso b (bound_nonce r) = Backend_Claims c" "claims_reason r b p now c = Verified"
    "vx_tier v = Some (if ac_host_chain_valid c then Tier_A else Tier_B)" "vx_gpu_count v = ac_gpu_count c"
    by (rule attestation_accepted_claims [OF assms])
  obtain path outcome data where run: "staging b = Staged path" "runner (attest_command s path (bound_nonce r)) (nv_timeout_seconds s) = Inr outcome"
    "successful_json outcome = Inr data"
    "verified_claims from_iso data (bound_nonce r) (eb_collected_at b) (nv_collateral_max_age s) = Inr c"
    by (rule nvat_backend_claims [OF c(1)])
  from run(4) obtain claims ess where claims: "map_of data ''claims'' = Some (JArr claims)" "1 \<le> length claims"
    "list_all2 (device_attested from_iso (bound_nonce r)) claims ess"
    "c = nvat_claims (bound_nonce r) (length claims) (eb_collected_at b)
       (min (eb_collected_at b + nv_collateral_max_age s) (min_list (concat ess))) (min_list (concat ess))"
    by (auto simp: verified_claims_Inr)
  have "now \<le> min_list (concat ess)" using claims_verified_current(1) [OF c(2)] claims(4) by (simp add: nvat_claims_def)
  then have "\<forall>ts \<in> set ess. \<forall>t \<in> set ts. now \<le> t" using min_list_le [of _ "concat ess"] by force
  moreover have "\<not> ac_host_chain_valid c" "ac_gpu_count c = int (length claims)" using claims(4) by (simp_all add: nvat_claims_def)
  moreover from this have "at_minimum_tier p \<noteq> Tier_A" using claims_verified_current(2) [OF c(2)] by blast
  ultimately show ?thesis
    using run(1,2,3) c(3,4) claims(1-3) by (auto simp: successful_json_Inr)
qed

text \<open>
  C21: what an attestation accepted through the NVIDIA backend rests on.  The program \<open>nvattest\<close> ran
  on the staged evidence with the nonce bound to the request and succeeded; each of the claims it
  printed is of an H100 whose measurements, reports and reference manifests were verified for that
  very nonce, in secure boot with debugging disabled, with valid, unrevoked certificates that have
  not expired; the count is the number of these claims.  The tier is B, so a policy that asks for
  tier A accepts nothing from this backend.
\<close>

theorem nvat_attestation_sound:
  assumes "attestation_verify (nvat_backend s runner staging from_iso) r b p now = Inr v" "vx_accepted v"
  shows "vx_tier v = Some Tier_B \<and> at_minimum_tier p \<noteq> Tier_A
     \<and> (\<exists>path outcome data claims ess. staging b = Staged path
          \<and> runner (attest_command s path (bound_nonce r)) (nv_timeout_seconds s) = Inr outcome
          \<and> nr_returncode outcome = 0 \<and> json_loads_bytes default_hooks (nr_stdout outcome) = Inr (JObj data)
          \<and> map_of data ''claims'' = Some (JArr claims) \<and> vx_gpu_count v = int (length claims) \<and> 1 \<le> length claims
          \<and> list_all2 (device_attested from_iso (bound_nonce r)) claims ess
          \<and> (\<forall>ts \<in> set ess. \<forall>t \<in> set ts. now \<le> t))"
  by (rule nvat_attestation_accepted [OF assms])

text \<open>An output of the program for one device.\<close>

definition sample_certificate :: json where
  "sample_certificate = JObj [(''x-nvidia-cert-status'', JStr ''valid''), (''x-nvidia-cert-ocsp-status'', JStr ''good''),
     (''x-nvidia-cert-expiration-date'', JStr ''2030-01-01T00:00:00Z'')]"

definition sample_members :: "string \<Rightarrow> (string \<times> json) list" where
  "sample_members nonce =
     [(''x-nvidia-device-type'', JStr ''gpu''), (''x-nvidia-gpu-claims-version'', JStr ''3.0''), (''eat_nonce'', JStr nonce),
      (''measres'', JStr ''success''), (''secboot'', JBool True), (''dbgstat'', JStr ''disabled''), (''hwmodel'', JStr ''GH100 A01'')]
     @ map (\<lambda>k. (k, JBool True)) required_true_claims @ map (\<lambda>k. (k, sample_certificate)) certificate_claims"

definition sample_output :: "string \<Rightarrow> json" where
  "sample_output nonce = JObj
     [(''claims'', JArr [JObj (sample_members nonce)]), (''detached_eat'', JArr [JNull]), (''result_code'', JInt 0)]"

definition sample_settings :: nvat_settings where
  "sample_settings = \<lparr>nv_enabled = True, nv_executable = ''/usr/bin/nvattest'', nv_timeout_seconds = 60, nv_collateral_max_age = 3600\<rparr>"

definition sample_runner :: "string \<Rightarrow> nvat_runner" where
  "sample_runner nonce argv timeout = Inr \<lparr>nr_returncode = 0, nr_stdout = json_dumps True (sample_output nonce), nr_stderr = []\<rparr>"

definition sample_nvat_policy :: attestation_policy where
  "sample_nvat_policy = \<lparr>at_accepted_formats = [nvat_evidence_format], at_accepted_gpu_classes = [''h100''],
     at_reference_measurements = [\<lparr>rm_digest = nvat_policy_digest, rm_expires_at = 500\<rparr>], at_minimum_tier = Tier_B, at_max_age_seconds = 60\<rparr>"

definition sample_nvat_evidence :: evidence_bundle where
  "sample_nvat_evidence = \<lparr>eb_evidence_format = nvat_evidence_format, eb_payload = [2], eb_collected_at = 110\<rparr>"

lemma map_of_json_sort:
  assumes "distinct (map fst kvs)"
  shows "map_of (sort_key fst (map (map_prod id json_sort) kvs)) k = map_option json_sort (map_of kvs k)"
proof -
  have "map_of (map (map_prod id json_sort) kvs) k = map_option json_sort (map_of kvs k)" by (induction kvs) auto
  then show ?thesis using assms by (simp add: map_of_sort_key_fst)
qed

lemma sample_members_distinct: "distinct (map fst (sample_members nonce))"
  by (simp add: sample_members_def required_true_claims_def certificate_claims_def)

lemma sample_certificate_sort: "json_sort sample_certificate = JObj [(''x-nvidia-cert-expiration-date'', JStr ''2030-01-01T00:00:00Z''),
    (''x-nvidia-cert-ocsp-status'', JStr ''good''), (''x-nvidia-cert-status'', JStr ''valid'')]"
  by (simp add: sample_certificate_def)

lemma map_of_const: "map_of (map (\<lambda>k. (k, x)) ks) k = (if k \<in> set ks then Some x else None)"
  by (induction ks) auto

lemma sample_lookups:
  "map_of (sample_members nonce) ''x-nvidia-device-type'' = Some (JStr ''gpu'')"
  "map_of (sample_members nonce) ''x-nvidia-gpu-claims-version'' = Some (JStr ''3.0'')"
  "map_of (sample_members nonce) ''eat_nonce'' = Some (JStr nonce)"
  "map_of (sample_members nonce) ''measres'' = Some (JStr ''success'')"
  "map_of (sample_members nonce) ''secboot'' = Some (JBool True)"
  "map_of (sample_members nonce) ''dbgstat'' = Some (JStr ''disabled'')"
  "map_of (sample_members nonce) ''hwmodel'' = Some (JStr ''GH100 A01'')"
  by (simp_all add: sample_members_def)

lemma sample_lookup_lists:
  "map_of (sample_members nonce) ''x-nvidia-mismatch-measurement-records'' = None"
  "k \<in> set required_true_claims \<Longrightarrow> map_of (sample_members nonce) k = Some (JBool True)"
  "k \<in> set certificate_claims \<Longrightarrow> map_of (sample_members nonce) k = Some sample_certificate"
proof -
  let ?own = "[''x-nvidia-device-type'', ''x-nvidia-gpu-claims-version'', ''eat_nonce'', ''measres'', ''secboot'', ''dbgstat'', ''hwmodel'']"
  have "list_all (\<lambda>k. k \<notin> set ?own) (required_true_claims @ certificate_claims)"
    "list_all (\<lambda>k. k \<notin> set required_true_claims) certificate_claims"
    "''x-nvidia-mismatch-measurement-records'' \<notin> set (required_true_claims @ certificate_claims)"
    by code_simp+
  then show "map_of (sample_members nonce) ''x-nvidia-mismatch-measurement-records'' = None"
    "k \<in> set required_true_claims \<Longrightarrow> map_of (sample_members nonce) k = Some (JBool True)"
    "k \<in> set certificate_claims \<Longrightarrow> map_of (sample_members nonce) k = Some sample_certificate"
    by (auto simp: sample_members_def map_of_const map_add_def list_all_iff split: option.splits)
qed

lemma sample_device:
  "device_attested (\<lambda>_. Iso_Seconds 400) nonce (json_sort (JObj (sample_members nonce))) [400, 400, 400]"
proof -
  have get: "map_of (sort_key fst (map (map_prod id json_sort) (sample_members nonce))) k = map_option json_sort (map_of (sample_members nonce) k)" for k
    by (rule map_of_json_sort [OF sample_members_distinct])
  have "is_h100_model (Some (JStr ''GH100 A01''))" by code_simp
  moreover have "certificate_good (\<lambda>_. Iso_Seconds 400) (sort_key fst (map (map_prod id json_sort) (sample_members nonce))) k 400"
    if "k \<in> set certificate_claims" for k
    by (simp add: certificate_good_def get sample_lookup_lists(3) [OF that] sample_certificate_sort)
  then have "list_all2 (certificate_good (\<lambda>_. Iso_Seconds 400) (sort_key fst (map (map_prod id json_sort) (sample_members nonce))))
      certificate_claims (replicate (length certificate_claims) 400)"
    by (simp add: list_all2_conv_all_nth)
  then have "list_all2 (certificate_good (\<lambda>_. Iso_Seconds 400) (sort_key fst (map (map_prod id json_sort) (sample_members nonce))))
      certificate_claims [400, 400, 400]"
    by (simp add: certificate_claims_def numeral_3_eq_3)
  ultimately show ?thesis
    by (simp add: device_attested_def get sample_lookups sample_lookup_lists nvat_claims_version_def)
qed

lemma sample_output_loads:
  "json_loads_bytes default_hooks (json_dumps True (sample_output nonce)) = Inr (json_sort (sample_output nonce))"
proof -
  have "json_plain sample_certificate" by (simp add: sample_certificate_def)
  then have "\<forall>kv \<in> set (sample_members nonce). json_plain (snd kv)" by (auto simp: sample_members_def)
  then have "json_plain (JObj (sample_members nonce))" by (simp only: json_plain.simps sample_members_distinct simp_thms)
  then have plain: "json_plain (json_sort (sample_output nonce))" by (simp add: sample_output_def del: json_plain.simps(3)) simp
  obtain kvs where kvs: "json_sort (sample_output nonce) = JObj kvs" "kvs \<noteq> []" by (simp add: sample_output_def)
  with default_json.loads_bytes [OF kvs(1) _ kvs(2)] plain show ?thesis by simp
qed

lemma sample_output_length:
  assumes "is_hex64 nonce"
  shows "json_dumps True (sample_output nonce) \<noteq> []" "length (json_dumps True (sample_output nonce)) \<le> max_cli_output_bytes"
proof -
  show "json_dumps True (sample_output nonce) \<noteq> []"
    by (simp add: json_dumps_def sample_output_def utf8_encode_def utf8_char_def)
  have "length nonce = 64" using assms by (simp add: is_hex64_def match_class_def)
  then have "json_size (sample_output nonce) \<le> 20000"
    by (simp add: sample_output_def sample_members_def required_true_claims_def certificate_claims_def sample_certificate_def show_int_def show_nat_0)
  then show "length (json_dumps True (sample_output nonce)) \<le> max_cli_output_bytes"
    using length_json_dumps_le [of True "sample_output nonce"] by (simp add: max_cli_output_bytes_def)
qed

lemma sample_backend_claims:
  assumes "is_hex64 nonce"
  shows "nvat_backend sample_settings (sample_runner nonce) (\<lambda>_. Staged ''/tmp/e'') (\<lambda>_. Iso_Seconds 400) sample_nvat_evidence nonce =
     Backend_Claims (nvat_claims nonce 1 110 400 400)"
proof -
  let ?data = "[(''claims'', JArr [json_sort (JObj (sample_members nonce))]), (''detached_eat'', JArr [JNull]), (''result_code'', JInt 0)]"
  have sorted: "json_sort (sample_output nonce) = JObj ?data" by (simp add: sample_output_def)
  have "verified_claims (\<lambda>_. Iso_Seconds 400) ?data nonce 110 3600 = Inr (nvat_claims nonce 1 110 400 400)"
    unfolding verified_claims_Inr
    by (intro exI [of _ "[json_sort (JObj (sample_members nonce))]"] exI [of _ "[[400, 400, 400]]"] exI [of _ "[JNull]"] exI [of _ 400])
      (use sample_device assms in \<open>simp add: in_range_def del: json_sort.simps\<close>)
  moreover have "successful_json \<lparr>nr_returncode = 0, nr_stdout = json_dumps True (sample_output nonce), nr_stderr = []\<rparr> = Inr ?data"
    using sample_output_loads sorted sample_output_length [OF assms] by (simp add: successful_json_Inr json_eq_zero_def)
  ultimately show ?thesis
    by (simp add: nvat_backend_def nvat_verify_def sample_settings_def sample_runner_def sample_nvat_evidence_def)
qed

text \<open>A request for an H100, attested until second 400.\<close>

definition sample_appraisal :: attestation_backend where
  "sample_appraisal = nvat_backend sample_settings (sample_runner (bound_nonce sample_request)) (\<lambda>_. Staged ''/tmp/e'') (\<lambda>_. Iso_Seconds 400)"

lemma sample_appraised:
  "attestation_verify sample_appraisal sample_request sample_nvat_evidence sample_nvat_policy 120 =
     Inr \<lparr>vx_accepted = True, vx_tier = Some Tier_B, vx_reason = Verified, vx_evidence_digest = sha256_id [2],
       vx_gpu_class = Some ''h100'', vx_gpu_count = 1\<rparr>"
proof -
  have nonce: "is_hex64 (bound_nonce sample_request)" by (simp add: bound_nonce_def)
  have request: "ar_issued_at sample_request = 100" "ar_expires_at sample_request = 200" "ar_expected_gpu_class sample_request = ''h100''"
    by (simp_all add: sample_request_def)
  have evidence: "eb_evidence_format sample_nvat_evidence = nvat_evidence_format" "eb_collected_at sample_nvat_evidence = 110"
    "evidence_bundle_digest sample_nvat_evidence = sha256_id [2]"
    by (simp_all add: sample_nvat_evidence_def evidence_bundle_digest_def)
  have "claims_reason sample_request sample_nvat_evidence sample_nvat_policy 120 (nvat_claims (bound_nonce sample_request) 1 110 400 400) = Verified"
    by (simp add: claims_reason_def request evidence sample_nvat_policy_def nvat_claims_def measurement_trusted_def trusted_measurements_def)
  moreover have "in_window sample_request sample_nvat_evidence sample_nvat_policy 120" "nvat_evidence_format \<in> set (at_accepted_formats sample_nvat_policy)"
    by (simp_all add: in_window_def request evidence sample_nvat_policy_def)
  ultimately show ?thesis
    unfolding sample_appraisal_def
    by (subst attestation_verify_in_window)
      (simp_all add: sample_backend_claims [OF nonce] in_range_def evidence nvat_claims_def verifier_result_new_def is_dotted_code_def char_class_defs)
qed

theorem nvat_attestation_sound_witness:
  "\<exists>v outcome data claims. attestation_verify sample_appraisal sample_request sample_nvat_evidence sample_nvat_policy 120 = Inr v
     \<and> vx_accepted v \<and> vx_tier v = Some Tier_B
     \<and> sample_runner (bound_nonce sample_request) (attest_command sample_settings ''/tmp/e'' (bound_nonce sample_request)) 60 = Inr outcome
     \<and> json_loads_bytes default_hooks (nr_stdout outcome) = Inr (JObj data) \<and> map_of data ''claims'' = Some (JArr claims)
     \<and> vx_gpu_count v = int (length claims)"
proof -
  obtain v where v: "attestation_verify sample_appraisal sample_request sample_nvat_evidence sample_nvat_policy 120 = Inr v" "vx_accepted v"
    using sample_appraised by auto
  from nvat_attestation_sound [OF v [unfolded sample_appraisal_def]] v show ?thesis
    by (auto simp: sample_settings_def)
qed

text \<open>
  C38: what the cache returns and keeps.  Whatever calls were made, a hit has the requested digest,
  which is the digest of its payload, and has not expired, and the cache is within its bound.  A
  \<open>put\<close> succeeds exactly for well-formed, unexpired collateral that replaces a fresh entry or for
  which fewer than the bound are fresh.  What was put successfully is found until it expires, whatever calls
  lie between, as long as none of them is made at a time at which it has expired or puts other
  collateral under the same digest: no other entry evicts it.
\<close>

theorem collateral_cache_sound:
  assumes "collateral_cache_new n = Inr c0" "c = run cache_step c0 calls"
  shows "int (length (ca_values c)) \<le> n
     \<and> (\<forall>d now v. snd (collateral_get c d now) = Some v \<longrightarrow>
          pc_digest v = d \<and> sha256_id (pc_payload v) = d \<and> now < pc_expires_at v)
     \<and> (\<forall>v now. snd (cache_step c (Cache_Put v now)) = Put_Answer (Inr ()) \<longleftrightarrow>
          public_collateral_new v = Inr v \<and> now < pc_expires_at v
          \<and> (let fresh = filter (\<lambda>(d, w). now < pc_expires_at w) (ca_values c) in
               pc_digest v \<in> fst ` set fresh \<or> int (length fresh) < n))
     \<and> (\<forall>v now between later. snd (cache_step c (Cache_Put v now)) = Put_Answer (Inr ())
            \<and> list_all (undisturbing v) between \<and> later < pc_expires_at v \<longrightarrow>
          snd (collateral_get (run cache_step (fst (cache_step c (Cache_Put v now))) between) (pc_digest v) later) = Some v)"
proof -
  have "cache_ok n c0" using assms(1) by (auto simp: collateral_cache_new_def cache_ok_def in_range_def)
  then have ok: "cache_ok n c" unfolding assms(2) by (rule cache.run_inv)
  have hit: "pc_digest v = d \<and> sha256_id (pc_payload v) = d \<and> now < pc_expires_at v"
    if "snd (collateral_get c d now) = Some v" for d now v
  proof -
    have "(d, v) \<in> set (ca_values (collateral_purge now c))"
      using that by (auto simp: collateral_get_def Let_def dest: map_of_SomeD)
    with purged_fresh [OF this] cache_purge_ok [OF ok, of now] show ?thesis
      by (auto simp: cache_ok_def public_collateral_new_def simp del: sha256_id_eq_iff)
  qed
  have put: "snd (collateral_get (run cache_step (fst (cache_step c (Cache_Put v now))) between) (pc_digest v) later) = Some v"
    if "snd (cache_step c (Cache_Put v now)) = Put_Answer (Inr ())" "list_all (undisturbing v) between" "later < pc_expires_at v"
    for v now between later
  proof -
    note step = cache_step_ok [OF ok, of "Cache_Put v now"]
    have "held v (fst (cache_step c (Cache_Put v now)))"
      using that(1) put_held(1) [OF ok, of v now] by (auto simp: put_step simp del: cache_step.simps(1) split: if_splits)
    then have "held v (run cache_step (fst (cache_step c (Cache_Put v now))) between)"
      using that(2) by (intro cache.run_keeps [where P = "undisturbing v" and Q = "held v", OF step_held step]) (auto simp: list_all_iff)
    with get_held [OF cache.run_inv [OF step]] that(3) show ?thesis by blast
  qed
  from ok hit put put_succeeds_iff [OF ok] show ?thesis by (auto simp: cache_ok_def)
qed

text \<open>A cache with one entry: a refused \<open>put\<close>, a repeated one and a miss leave it.\<close>

definition sample_collateral :: public_collateral where
  "sample_collateral = \<lparr>pc_digest = sha256_id [1], pc_payload = [1], pc_expires_at = 9\<rparr>"

lemma sample_collateral_ok: "public_collateral_new sample_collateral = Inr sample_collateral" "length (pc_digest sample_collateral) = 71"
proof -
  have "take 7 (sha256_id [1]) = ''sha256:''" "length (sha256_id [1]) = 71"
    using is_digest_plain [OF is_digest_sha256_id, of "[1]"] by (simp_all add: sha256_id_def digest_text_def)
  then show "public_collateral_new sample_collateral = Inr sample_collateral" "length (pc_digest sample_collateral) = 71"
    by (simp_all add: sample_collateral_def public_collateral_new_def max_collateral_bytes_def)
qed

theorem collateral_cache_sound_witness:
  "snd (collateral_get (run cache_step (fst (cache_step \<lparr>ca_max_entries = 1, ca_values = []\<rparr> (Cache_Put sample_collateral 5)))
     [Cache_Put \<lparr>pc_digest = ''other'', pc_payload = [2], pc_expires_at = 30\<rparr> 6, Cache_Put sample_collateral 7, Cache_Get ''other'' 8])
     (pc_digest sample_collateral) 8)
   = Some sample_collateral"
proof -
  have new: "collateral_cache_new 1 = Inr \<lparr>ca_max_entries = 1, ca_values = []\<rparr>"
    by (simp add: collateral_cache_new_def guarded_def in_range_def)
  let ?between = "[Cache_Put \<lparr>pc_digest = ''other'', pc_payload = [2], pc_expires_at = 30\<rparr> 6, Cache_Put sample_collateral 7, Cache_Get ''other'' 8]"
  have expires: "pc_expires_at sample_collateral = 9" by (simp add: sample_collateral_def)
  note sound = collateral_cache_sound [OF new refl, of "[]", unfolded run.simps]
  have "snd (cache_step \<lparr>ca_max_entries = 1, ca_values = []\<rparr> (Cache_Put sample_collateral 5)) = Put_Answer (Inr ())"
    by (simp add: sample_collateral_ok collateral_put_def collateral_purge_def expires)
  moreover have "''other'' \<noteq> pc_digest sample_collateral"
  proof
    assume "''other'' = pc_digest sample_collateral"
    then have "length ''other'' = 71" by (simp only: sample_collateral_ok(2))
    then show False by simp
  qed
  then have "list_all (undisturbing sample_collateral) ?between" by (simp add: undisturbing_def expires)
  ultimately show ?thesis
    using sound [THEN conjunct2, THEN conjunct2, THEN conjunct2, rule_format, of sample_collateral 5 ?between 8]
    by (simp only: expires simp_thms)
qed

end
