(* ===== verification/Redaction.thy ===== *)
theory Redaction
  imports Config "HOL-Library.Sublist"
begin

text \<open>
  Log redaction, \<open>src/gpuforge/redaction.py\<close>: the removal of configured secrets and the two
  substitutions by regular expressions.  \<open>substitute\<close> is the loop of \<open>re.sub\<close> and \<open>str.replace\<close>;
  each expression is a function that matches at the start of a text.  The expressions need no
  backtracking: what follows each repetition is outside its character class.
\<close>

section \<open>Substitution\<close>

definition redacted :: string where
  "redacted = ''<redacted>''"

text \<open>
  A match consumes the first character and \<open>n\<close> more, and is replaced by a text; \<open>starts\<close> tells from
  the character before whether a match may start.
\<close>

type_synonym matcher = "string \<Rightarrow> (nat \<times> string) option"

function substitute :: "(char option \<Rightarrow> bool) \<Rightarrow> matcher \<Rightarrow> char option \<Rightarrow> string \<Rightarrow> string" where
  "substitute starts m prev [] = []"
| "substitute starts m prev (c # cs) =
     (case if starts prev then m (c # cs) else None of
        None \<Rightarrow> c # substitute starts m (Some c) cs
      | Some (n, out) \<Rightarrow> out @ substitute starts m (Some (List.last (c # take n cs))) (drop n cs))"
  by pat_completeness auto
termination by (relation "measure (\<lambda>(_, _, _, s). length s)") auto

text \<open>\<open>text.replace(value, "<redacted>")\<close>\<close>

definition match_value :: "string \<Rightarrow> matcher" where
  "match_value v s = (if v \<noteq> [] \<and> take (length v) s = v then Some (length v - 1, redacted) else None)"

definition replace_value :: "string \<Rightarrow> string \<Rightarrow> string" where
  "replace_value v s = substitute (\<lambda>_. True) (match_value v) None s"

section \<open>The expressions\<close>

text \<open>\<open>\w\<close> and \<open>\s\<close> on Latin-1, and \<open>\b\<close> before a letter.\<close>

definition word_char :: "char \<Rightarrow> bool" where
  "word_char c \<longleftrightarrow> is_alnum c \<or> c = CHR ''_''
     \<or> (let n = of_char c :: nat in n \<in> {170, 178, 179, 181, 185, 186, 188, 189, 190} \<or> 192 \<le> n \<and> n \<noteq> 215 \<and> n \<noteq> 247)"

definition re_space :: "char \<Rightarrow> bool" where
  "re_space c \<longleftrightarrow> is_space c \<or> c = CHR 0x85 \<or> c = CHR 0xA0"

definition word_boundary :: "char option \<Rightarrow> bool" where
  "word_boundary prev \<longleftrightarrow> (case prev of None \<Rightarrow> True | Some c \<Rightarrow> \<not> word_char c)"

definition assignment_keywords :: "string list" where
  "assignment_keywords =
     [''password'', ''passwd'', ''secret'', ''api_key'', ''api-key'', ''apikey'', ''access_token'', ''access-token'', ''accesstoken'',
      ''auth_token'', ''auth-token'', ''authtoken'']"

text \<open>The length of \<open>"[^"]*"\<close>, \<open>'[^']*'\<close> or \<open>[^\s,;]+\<close>, in this order.\<close>

definition quoted_length :: "char \<Rightarrow> string \<Rightarrow> nat option" where
  "quoted_length q s =
     (if take 1 s = [q] \<and> q \<in> set (drop 1 s) then Some (length (takeWhile (\<lambda>c. c \<noteq> q) (drop 1 s)) + 2) else None)"

definition value_length :: "string \<Rightarrow> nat option" where
  "value_length s =
     (case quoted_length CHR 0x22 s of
        Some n \<Rightarrow> Some n
      | None \<Rightarrow>
          (case quoted_length CHR 0x27 s of
             Some n \<Rightarrow> Some n
           | None \<Rightarrow>
               let n = length (takeWhile (\<lambda>c. \<not> re_space c \<and> c \<noteq> CHR '','' \<and> c \<noteq> CHR '';'') s)
               in if n = 0 then None else Some n))"

definition match_assignment :: matcher where
  "match_assignment s =
     (case List.find (\<lambda>k. map fold_char (take (length k) s) = k) assignment_keywords of
        None \<Rightarrow> None
      | Some k \<Rightarrow>
          let r = drop (length k) s; sp1 = length (takeWhile re_space r); r1 = drop sp1 r
          in if take 1 r1 \<noteq> '':'' \<and> take 1 r1 \<noteq> ''='' then None
             else let r2 = drop 1 r1; sp2 = length (takeWhile re_space r2); kept = length k + sp1 + 1 + sp2
               in case value_length (drop sp2 r2) of
                    None \<Rightarrow> None
                  | Some n \<Rightarrow> Some (kept + n - 1, take kept s @ redacted))"

definition bearer_char :: "char \<Rightarrow> bool" where
  "bearer_char c \<longleftrightarrow> is_alnum c \<or> c \<in> set ''._~+/=-''"

definition match_bearer :: matcher where
  "match_bearer s =
     (let r = drop 6 s; sp = length (takeWhile re_space r); n = length (takeWhile bearer_char (drop sp r))
      in if map fold_char (take 6 s) = ''bearer'' \<and> sp \<noteq> 0 \<and> n \<noteq> 0 then Some (6 + sp + n - 1, ''Bearer '' @ redacted) else None)"

definition redact_sensitive_text :: "string \<Rightarrow> runtime_secrets \<Rightarrow> string" where
  "redact_sensitive_text s secrets =
     substitute word_boundary match_bearer None
       (substitute word_boundary match_assignment None (fold replace_value (secrets_values secrets) s))"

text \<open>\<open>SecretRedactingFormatter.format\<close>, given what the formatter of the library makes of the record.\<close>

definition formatter_format :: "('r \<Rightarrow> string) \<Rightarrow> runtime_secrets \<Rightarrow> 'r \<Rightarrow> string" where
  "formatter_format formatted secrets r = redact_sensitive_text (formatted r) secrets"

section \<open>What survives\<close>

text \<open>
  A text that cannot arise from the replacement itself: it has no angle bracket, is no part of the
  word or of \<open>Bearer\<close>, and where a beginning of \<open>Bearer\<close> ends it, a letter, digit or underscore stands
  before, after which the expression for bearer tokens cannot match.
\<close>

definition distinguishable :: "string \<Rightarrow> bool" where
  "distinguishable u \<longleftrightarrow> CHR ''<'' \<notin> set u \<and> CHR ''>'' \<notin> set u \<and> \<not> sublist u ''redacted'' \<and> \<not> sublist u ''Bearer ''
     \<and> (\<forall>k \<in> {1..7}. suffix (take k ''Bearer '') u \<longrightarrow> k < length u \<and> word_char (u ! (length u - Suc k)))"

text \<open>
  A replacement whose own text shows nothing of \<open>u\<close> that was not at its place: not \<open>u\<close> itself, and
  not its end \<open>w\<close> when the rest of \<open>u\<close> stands before.
\<close>

definition clean_match :: "string \<Rightarrow> (char option \<Rightarrow> bool) \<Rightarrow> matcher \<Rightarrow> bool" where
  "clean_match u starts m \<longleftrightarrow>
     (\<forall>prev s n out. starts prev \<longrightarrow> m s = Some (n, out) \<longrightarrow>
        (\<exists>kept. out = kept @ redacted \<and> (sublist u kept \<longrightarrow> sublist u s)
           \<and> (\<forall>a w. u = a @ w \<longrightarrow> (a \<noteq> [] \<longrightarrow> prev = Some (List.last a)) \<longrightarrow> prefix w kept \<longrightarrow> prefix w s)))"

lemma prefix_before: "prefix w (a @ c # b) \<Longrightarrow> c \<notin> set w \<Longrightarrow> prefix w a"
  by (induction a arbitrary: w) (auto simp: prefix_Cons)

lemma sublist_around: "sublist w (a @ c # b) \<Longrightarrow> c \<notin> set w \<Longrightarrow> sublist w a \<or> sublist w b"
proof (induction a)
  case Nil
  then show ?case by (cases w) (auto simp: sublist_Cons_right)
next
  case (Cons x a)
  then show ?case using prefix_before [of w "x # a" c b] by (auto simp: sublist_Cons_right)
qed

lemma substitute_prefix:
  assumes "clean_match u starts m" "CHR ''<'' \<notin> set u" "u = a @ w" "a \<noteq> [] \<longrightarrow> prev = Some (List.last a)"
    and "prefix w (substitute starts m prev s)"
  shows "prefix w s"
  using assms
proof (induction starts m prev s arbitrary: a w rule: substitute.induct)
  case (2 starts m prev c cs)
  show ?case
  proof (cases "if starts prev then m (c # cs) else None")
    case None
    with 2(7) have "prefix w (c # substitute starts m (Some c) cs)" by simp
    then consider "w = []" | w' where "w = c # w'" "prefix w' (substitute starts m (Some c) cs)" by (auto simp: prefix_Cons)
    then show ?thesis
    proof cases
      case (2 w')
      with "2.IH"(1) [OF None \<open>clean_match u starts m\<close> \<open>CHR ''<'' \<notin> set u\<close>, of "a @ [c]" w'] \<open>u = a @ w\<close> show ?thesis by simp
    qed simp
  next
    case (Some r)
    then obtain n out where r: "m (c # cs) = Some (n, out)" "r = (n, out)" "starts prev"
      by (cases r) (auto split: if_splits)
    from 2(3) [unfolded clean_match_def, rule_format, OF r(3,1)] obtain kept where k: "out = kept @ redacted"
      "\<forall>a w. u = a @ w \<longrightarrow> (a \<noteq> [] \<longrightarrow> prev = Some (List.last a)) \<longrightarrow> prefix w kept \<longrightarrow> prefix w (c # cs)" by blast
    from 2(4,5) have "CHR ''<'' \<notin> set w" by auto
    with 2(7) r k(1) have "prefix w kept"
      by (intro prefix_before [of w kept "CHR ''<''"]) (auto simp: redacted_def)
    with k(2) 2(5,6) show ?thesis by blast
  qed
qed simp

lemma substitute_sublist:
  assumes "clean_match u starts m" "distinguishable u" "sublist u (substitute starts m prev s)"
  shows "sublist u s"
  using assms
proof (induction starts m prev s rule: substitute.induct)
  case (2 starts m prev c cs)
  note u = 2(4) [unfolded distinguishable_def]
  show ?case
  proof (cases "if starts prev then m (c # cs) else None")
    case None
    then have eq: "substitute starts m prev (c # cs) = c # substitute starts m (Some c) cs" by simp
    with 2(5) have "prefix u (c # substitute starts m (Some c) cs) \<or> sublist u (substitute starts m (Some c) cs)"
      by (simp only: sublist_Cons_right)
    then show ?thesis
    proof
      assume "prefix u (c # substitute starts m (Some c) cs)"
      then have "prefix u (substitute starts m prev (c # cs))" by (simp only: eq)
      from substitute_prefix [OF 2(3) _ _ _ this, of "[]"] u have "prefix u (c # cs)" by simp
      then show ?thesis by (rule prefix_imp_sublist)
    next
      assume "sublist u (substitute starts m (Some c) cs)"
      then have "sublist u cs" by (rule 2(1) [OF None 2(3) 2(4)])
      then show ?thesis by (simp add: sublist_Cons_right)
    qed
  next
    case (Some r)
    then obtain n out where r: "m (c # cs) = Some (n, out)" "r = (n, out)" "starts prev"
      by (cases r) (auto split: if_splits)
    let ?rest = "substitute starts m (Some (List.last (c # take n cs))) (drop n cs)"
    from 2(3) [unfolded clean_match_def, rule_format, OF r(3,1)] obtain kept
      where k: "out = kept @ redacted" "sublist u kept \<longrightarrow> sublist u (c # cs)" by blast
    from 2(5) r k(1) have "sublist u (kept @ CHR ''<'' # (''redacted'' @ CHR ''>'' # ?rest))" by (simp add: redacted_def)
    from sublist_around [OF this] u have "sublist u kept \<or> sublist u (''redacted'' @ CHR ''>'' # ?rest)" by blast
    moreover have "sublist u (''redacted'' @ CHR ''>'' # ?rest) \<Longrightarrow> sublist u ?rest"
      using sublist_around [of u "''redacted''" "CHR ''>''" ?rest] u by blast
    moreover have "sublist u ?rest \<Longrightarrow> sublist u (drop n cs)" using 2(2) [OF Some r(2) [symmetric] 2(3) 2(4)] by simp
    moreover have "sublist (drop n cs) (c # cs)" by (simp add: sublist_Cons_right)
    ultimately show ?thesis using k(2) by (meson sublist_order.order_trans)
  qed
qed simp

lemma value_clean: "clean_match u starts (match_value v)"
  by (auto simp: clean_match_def match_value_def)

lemma replace_value_removes:
  assumes "distinguishable v" "v \<noteq> []"
  shows "\<not> sublist v (replace_value v s)"
proof -
  have "\<not> sublist v (substitute starts m prev s)" if "m = match_value v" "starts = (\<lambda>_. True)" for starts m prev
    using that
  proof (induction starts m prev s rule: substitute.induct)
    case (2 starts m prev c cs)
    note v = assms(1) [unfolded distinguishable_def]
    show ?case
    proof (cases "m (c # cs)")
      case None
      with 2(3,4) have neq: "\<not> prefix v (c # cs)"
        using assms(2) by (auto simp: match_value_def elim!: prefixE split: if_splits)
      have eq: "substitute starts m prev (c # cs) = c # substitute starts m (Some c) cs" using None by simp
      have "\<not> prefix v (c # substitute starts m (Some c) cs)"
        using substitute_prefix [of v starts m "[]" v prev "c # cs"] v neq 2(3) value_clean [of v starts v] unfolding eq by auto
      moreover have "\<not> sublist v (substitute starts m (Some c) cs)" using 2(1) [OF _ 2(3,4)] None 2(4) by simp
      ultimately show ?thesis unfolding eq by (subst sublist_Cons_right) blast
    next
      case (Some r)
      with 2(3) obtain n where r: "m (c # cs) = Some (n, redacted)" "r = (n, redacted)"
        by (auto simp: match_value_def split: if_splits)
      let ?rest = "substitute starts m (Some (List.last (c # take n cs))) (drop n cs)"
      have "\<not> sublist v ?rest" using 2(2) [OF _ r(2) [symmetric] 2(3,4)] r 2(4) by simp
      moreover have "substitute starts m prev (c # cs) = [] @ CHR ''<'' # (''redacted'' @ CHR ''>'' # ?rest)"
        using r 2(4) by (simp add: redacted_def)
      moreover have "\<not> sublist v []" using assms(2) by simp
      ultimately show ?thesis
        using sublist_around [of v "[]" "CHR ''<''" "''redacted'' @ CHR ''>'' # ?rest"]
          sublist_around [of v "''redacted''" "CHR ''>''" ?rest] v by (auto simp only:)
    qed
  qed (use assms(2) in simp)
  then show ?thesis by (simp add: replace_value_def)
qed

lemma assignment_clean: "clean_match u starts match_assignment"
  unfolding clean_match_def
proof (intro allI impI)
  fix prev s n out
  assume "match_assignment s = Some (n, out)"
  then obtain k where k: "out = take k s @ redacted"
    by (auto simp: match_assignment_def Let_def split: option.splits if_splits)
  have "sublist (take k s) s" "prefix (take k s) s"
    by (simp_all add: sublist_take take_is_prefix)
  with k show "\<exists>kept. out = kept @ redacted \<and> (sublist u kept \<longrightarrow> sublist u s)
      \<and> (\<forall>a w. u = a @ w \<longrightarrow> (a \<noteq> [] \<longrightarrow> prev = Some (List.last a)) \<longrightarrow> prefix w kept \<longrightarrow> prefix w s)"
    by (auto intro!: exI [of _ "take k s"] intro: sublist_order.order_trans prefix_order.order_trans)
qed

lemma bearer_clean:
  assumes "distinguishable u"
  shows "clean_match u word_boundary match_bearer"
proof -
  note u = assms [unfolded distinguishable_def]
  have "prefix w s"
    if "u = a @ w" "a \<noteq> [] \<longrightarrow> prev = Some (List.last a)" "word_boundary prev" "prefix w ''Bearer ''" for a w prev s
  proof (cases "w = []")
    case False
    from that(4) have w: "w = take (length w) ''Bearer ''" by (auto elim!: prefixE)
    from that(4) have "length w \<le> 7" using prefix_length_le by fastforce
    with False have "length w \<in> {1..7}" by (cases w) auto
    moreover have "suffix (take (length w) ''Bearer '') u" using that(1) w by (auto simp: suffix_def)
    ultimately have "length w < length u" "word_char (u ! (length u - Suc (length w)))" using u by blast+
    then have "a \<noteq> []" "word_char (List.last a)" using that(1) by (auto simp: nth_append last_conv_nth)
    with that(2,3) have False by (simp add: word_boundary_def)
    then show ?thesis ..
  qed simp
  moreover have "\<not> sublist u ''Bearer ''" using u by blast
  moreover have "out = ''Bearer '' @ redacted" if "match_bearer s = Some (n, out)" for s n out
    using that by (auto simp: match_bearer_def Let_def simp del: append.simps split: if_splits)
  ultimately show ?thesis unfolding clean_match_def by blast
qed

lemma fold_values_sublist:
  "distinguishable u \<Longrightarrow> sublist u (fold replace_value vs s) \<Longrightarrow> sublist u s"
proof (induction vs arbitrary: s)
  case (Cons v vs)
  then have "sublist u (replace_value v s)" by simp
  with Cons.prems(1) show ?case
    unfolding replace_value_def by (rule substitute_sublist [OF value_clean])
qed simp

lemma fold_values_removes:
  "distinguishable u \<Longrightarrow> u \<noteq> [] \<Longrightarrow> u \<in> set vs \<Longrightarrow> \<not> sublist u (fold replace_value vs s)"
proof (induction vs arbitrary: s)
  case (Cons v vs)
  show ?case
  proof (cases "u = v")
    case True
    with Cons.prems show ?thesis using fold_values_sublist [of u vs "replace_value v s"] replace_value_removes [of u s] by auto
  next
    case False
    with Cons show ?thesis by simp
  qed
qed simp

lemma redaction_sublist:
  assumes "distinguishable u" "sublist u (redact_sensitive_text s secrets)"
  shows "sublist u (fold replace_value (secrets_values secrets) s)"
proof -
  from assms(2) have "sublist u (substitute word_boundary match_assignment None (fold replace_value (secrets_values secrets) s))"
    unfolding redact_sensitive_text_def by (rule substitute_sublist [OF bearer_clean [OF assms(1)] assms(1)])
  then show ?thesis by (rule substitute_sublist [OF assignment_clean assms(1)])
qed

text \<open>Tokens of letters, digits and underscores are distinguishable unless they are very short.\<close>

lemma token_distinguishable:
  assumes "list_all word_char u" "9 \<le> length u"
  shows "distinguishable u"
proof -
  have "\<not> sublist u ''redacted''" "\<not> sublist u ''Bearer ''" using assms(2) by (auto dest!: sublist_length_le)
  moreover have "x \<notin> set u" if "\<not> word_char x" for x using assms(1) that by (auto simp: list_all_iff)
  then have "CHR ''<'' \<notin> set u" "CHR ''>'' \<notin> set u" by (simp_all add: word_char_def char_class_defs)
  moreover have "k < length u \<and> word_char (u ! (length u - Suc k))" if "k \<in> {1..7}" for k
    using that assms by (auto simp: list_all_length)
  ultimately show ?thesis by (simp add: distinguishable_def)
qed

text \<open>
  C36: configured secrets do not reach the log.  No formatted record contains the value of a
  configured secret that is distinguishable, whatever the message says and however the replacements
  for other secrets, assignments and bearer tokens join its parts.  A secret is distinguishable
  unless it has an angle bracket, is a part of the words \<open>redacted\<close> or \<open>Bearer\<close>, or ends in a
  beginning of \<open>Bearer\<close> that follows neither a letter nor a digit nor an underscore: so are all tokens of at least nine
  letters, digits and underscores (\<open>token_distinguishable\<close>).  Of other secrets it is not claimed:
  the redaction can spell them (\<open>bearer_rebuilds_secret\<close>).
\<close>

theorem configured_secrets_redacted:
  assumes "u \<in> set (secrets_values secrets)" "distinguishable u"
  shows "\<not> sublist u (formatter_format formatted secrets r)"
proof -
  from assms(1) have "u \<noteq> []" by (auto simp: secrets_values_def)
  with assms show ?thesis unfolding formatter_format_def using redaction_sublist fold_values_removes by blast
qed

theorem configured_secrets_redacted_witness:
  "\<not> sublist ''hunter2_0123'' (formatter_format (\<lambda>s. ''token '' @ s @ '' sent'')
     \<lparr>rs_artifact_access_token = Some ''hunter2_0123'', rs_attestation_access_token = None\<rparr> ''hunter2_0123'')"
proof (rule configured_secrets_redacted)
  show "''hunter2_0123'' \<in> set (secrets_values \<lparr>rs_artifact_access_token = Some ''hunter2_0123'', rs_attestation_access_token = None\<rparr>)"
    by (simp add: secrets_values_def)
  show "distinguishable ''hunter2_0123''"
    by (rule token_distinguishable) (simp_all add: word_char_def char_class_defs)
qed

lemma redaction_samples:
  "substitute word_boundary match_assignment None ''a api-key = b, x'' = ''a api-key = <redacted>, x''"
  "substitute word_boundary match_bearer None ''bearer a.b; xbearer u'' = ''Bearer <redacted>; xbearer u''"
  by code_simp+

text \<open>
  A secret that is not distinguishable can be spelled by a replacement.  And the claim is about whole
  secrets: when one configured secret
  begins with another, the replacement of the shorter one leaves the rest of the longer one.
\<close>

lemma bearer_rebuilds_secret:
  "redact_sensitive_text ''tok.bearer x'' \<lparr>rs_artifact_access_token = Some ''tok.B'', rs_attestation_access_token = None\<rparr>
     = ''tok.'' @ ''Bearer <redacted>''"
  by code_simp

lemma longer_secret_leaves_tail:
  "redact_sensitive_text ''key abcdef'' \<lparr>rs_artifact_access_token = Some ''abc'', rs_attestation_access_token = Some ''abcdef''\<rparr>
     = ''key <redacted>def''"
  by code_simp

end
