(* ===== verification/Arguments.thy ===== *)
theory Arguments
  imports Config
begin

text \<open>
  The options that \<open>build_parser\<close> of \<open>src/gpuforge/cli.py\<close> declares and the values they take.  The
  occurrences of options in a command line, in their order and with their texts, are those
  \<open>argparse\<close> recognises; conversion, choices, repetition, defaults and required options are modelled.
  Command lines are ASCII.
\<close>

section \<open>Values\<close>

datatype option_kind =
    Text_Option
  | Integer_Option
  | Path_Option
  | Choice_Option "string list"
  | Repeated_Path
  | Flag_Option

datatype option_value =
    Text_Value string
  | Int_Value int
  | Path_Value path
  | Paths_Value "path list"
  | Flag_Value bool

record option_spec =
  os_name :: string
  os_kind :: option_kind
  os_required :: bool
  os_default :: "option_value option"

type_synonym namespace = "(string \<times> option_value) list"

type_synonym occurrences = "(string \<times> string) list"

text \<open>\<open>int(text)\<close>\<close>

definition c_space :: "char \<Rightarrow> bool" where
  "c_space c \<longleftrightarrow> (let n = of_char c :: nat in 9 \<le> n \<and> n \<le> 13 \<or> n = 32)"

definition python_int :: "string \<Rightarrow> int option" where
  "python_int s =
     (let t = rev (dropWhile c_space (rev (dropWhile c_space s)));
          digits = split_on CHR ''_'' (if take 1 t \<in> {''-'', ''+''} then drop 1 t else t)
      in if list_all (\<lambda>g. g \<noteq> [] \<and> list_all is_digit g) digits \<and> length (concat digits) \<le> max_str_digits
         then Some ((if take 1 t = ''-'' then - 1 else 1) * int (nat_of_digits (concat digits))) else None)"

fun convert_option :: "option_kind \<Rightarrow> string \<Rightarrow> option_value option" where
  "convert_option Text_Option s = Some (Text_Value s)"
| "convert_option Integer_Option s = map_option Int_Value (python_int s)"
| "convert_option Path_Option s = Some (Path_Value (path_of s))"
| "convert_option (Choice_Option cs) s = (if s \<in> set cs then Some (Text_Value s) else None)"
| "convert_option Repeated_Path s = Some (Paths_Value [path_of s])"
| "convert_option Flag_Option s = Some (Flag_Value True)"

section \<open>Parsing\<close>

datatype usage_error =
    Invalid_Option_Value string
  | Missing_Options "string list"
  | Unrecognized_Option string

text \<open>A value replaces the one before it, but for \<open>action="append"\<close>.\<close>

fun store_value :: "option_value option \<Rightarrow> option_value \<Rightarrow> option_value" where
  "store_value (Some (Paths_Value ps)) (Paths_Value qs) = Paths_Value (ps @ qs)"
| "store_value _ v = v"

fun take_occurrences :: "option_spec list \<Rightarrow> namespace \<Rightarrow> occurrences \<Rightarrow> usage_error + namespace" where
  "take_occurrences specs ns [] = Inr ns"
| "take_occurrences specs ns ((name, s) # occs) =
     (case find (\<lambda>opt. os_name opt = name) specs of
        None \<Rightarrow> take_occurrences specs ns occs
      | Some opt \<Rightarrow>
          (case convert_option (os_kind opt) s of
             None \<Rightarrow> Inl (Invalid_Option_Value name)
           | Some v \<Rightarrow> take_occurrences specs (AList.update name (store_value (map_of ns name) v) ns) occs))"

definition option_defaults :: "option_spec list \<Rightarrow> namespace" where
  "option_defaults specs = List.map_filter (\<lambda>opt. map_option (Pair (os_name opt)) (os_default opt)) specs"

definition missing_options :: "option_spec list \<Rightarrow> occurrences \<Rightarrow> string list" where
  "missing_options specs occs = map os_name (filter (\<lambda>opt. os_required opt \<and> os_name opt \<notin> fst ` set occs) specs)"

definition parse_options :: "option_spec list \<Rightarrow> occurrences \<Rightarrow> usage_error + namespace" where
  "parse_options specs occs =
     bindE (take_occurrences specs (option_defaults specs) occs) (\<lambda>ns.
     if missing_options specs occs \<noteq> [] then Inl (Missing_Options (missing_options specs occs))
     else case find (\<lambda>(name, _). name \<notin> set (map os_name specs)) occs of
            Some (name, _) \<Rightarrow> Inl (Unrecognized_Option name)
          | None \<Rightarrow> Inr ns)"

section \<open>The declared options\<close>

definition required_option :: "string \<Rightarrow> option_kind \<Rightarrow> option_spec" where
  "required_option name k = \<lparr>os_name = name, os_kind = k, os_required = True, os_default = None\<rparr>"

definition default_option :: "string \<Rightarrow> option_kind \<Rightarrow> option_value \<Rightarrow> option_spec" where
  "default_option name k v = \<lparr>os_name = name, os_kind = k, os_required = False, os_default = Some v\<rparr>"

definition role_options :: "option_spec list" where
  "role_options =
     [required_option ''--config'' Path_Option,
      default_option ''--check-config'' Flag_Option (Flag_Value False)]"

definition package_options :: "option_spec list" where
  "package_options =
     [required_option ''--root'' Path_Option,
      required_option ''--entrypoint'' Path_Option,
      required_option ''--input'' Repeated_Path,
      required_option ''--container'' Text_Option,
      required_option ''--job-id'' Text_Option,
      default_option ''--framework'' Text_Option (Text_Value ''pytorch''),
      required_option ''--current-block'' Integer_Option,
      required_option ''--expires-at-block'' Integer_Option,
      default_option ''--lease-seconds'' Integer_Option (Int_Value 3600),
      default_option ''--gpu-count'' Integer_Option (Int_Value 1),
      default_option ''--gpu-memory-mb'' Integer_Option (Int_Value 81920),
      default_option ''--cpu-cores'' Integer_Option (Int_Value 16),
      default_option ''--memory-mb'' Integer_Option (Int_Value 131072),
      default_option ''--max-runtime-seconds'' Integer_Option (Int_Value 3600),
      default_option ''--network-policy'' (Choice_Option (map fst network_policies)) (Text_Value (network_value Net_Deny)),
      default_option ''--minimum-evidence-tier'' (Choice_Option (map fst tiers)) (Text_Value (tier_value Tier_C)),
      default_option ''--challenge-kind'' Text_Option (Text_Value ''gradient_slice''),
      default_option ''--checkpoint-interval-steps'' Integer_Option (Int_Value 100),
      required_option ''--wallet-name'' Text_Option,
      required_option ''--hotkey-name'' Text_Option,
      required_option ''--output'' Path_Option]"

section \<open>Attributes\<close>

text \<open>
  The attributes of a namespace by their kinds.  \<open>parsed_value\<close> shows that parsing gives every
  declared option a value of its kind, so the last equation of each is not used.
\<close>

definition text_of :: "namespace \<Rightarrow> string \<Rightarrow> string" where
  "text_of ns name = (case map_of ns name of Some (Text_Value s) \<Rightarrow> s | _ \<Rightarrow> [])"

definition int_of_option :: "namespace \<Rightarrow> string \<Rightarrow> int" where
  "int_of_option ns name = (case map_of ns name of Some (Int_Value i) \<Rightarrow> i | _ \<Rightarrow> 0)"

definition path_of_option :: "namespace \<Rightarrow> string \<Rightarrow> path" where
  "path_of_option ns name = (case map_of ns name of Some (Path_Value p) \<Rightarrow> p | _ \<Rightarrow> path_of [])"

definition paths_of :: "namespace \<Rightarrow> string \<Rightarrow> path list" where
  "paths_of ns name = (case map_of ns name of Some (Paths_Value ps) \<Rightarrow> ps | _ \<Rightarrow> [])"

definition flag_of :: "namespace \<Rightarrow> string \<Rightarrow> bool" where
  "flag_of ns name = (case map_of ns name of Some (Flag_Value b) \<Rightarrow> b | _ \<Rightarrow> False)"

fun value_of_kind :: "option_kind \<Rightarrow> option_value \<Rightarrow> bool" where
  "value_of_kind Text_Option (Text_Value _) = True"
| "value_of_kind Integer_Option (Int_Value _) = True"
| "value_of_kind Path_Option (Path_Value _) = True"
| "value_of_kind (Choice_Option cs) (Text_Value s) = (s \<in> set cs)"
| "value_of_kind Repeated_Path (Paths_Value ps) = (ps \<noteq> [])"
| "value_of_kind Flag_Option (Flag_Value _) = True"
| "value_of_kind _ _ = False"

definition specs_ok :: "option_spec list \<Rightarrow> bool" where
  "specs_ok specs \<longleftrightarrow> distinct (map os_name specs)
     \<and> list_all (\<lambda>opt. case os_default opt of None \<Rightarrow> os_required opt | Some v \<Rightarrow> value_of_kind (os_kind opt) v) specs"

definition namespace_ok :: "option_spec list \<Rightarrow> namespace \<Rightarrow> bool" where
  "namespace_ok specs ns \<longleftrightarrow> (\<forall>opt \<in> set specs. \<forall>v. map_of ns (os_name opt) = Some v \<longrightarrow> value_of_kind (os_kind opt) v)"

lemma convert_option_kind: "convert_option k s = Some v \<Longrightarrow> value_of_kind k v"
  by (cases k) (auto split: if_splits)

lemma store_value_kind:
  "value_of_kind k v \<Longrightarrow> (\<forall>u. old = Some u \<longrightarrow> value_of_kind k u) \<Longrightarrow> value_of_kind k (store_value old v)"
  by (cases "(old, v)" rule: store_value.cases; cases k) auto

lemma find_spec:
  assumes "distinct (map os_name specs)"
  shows "find (\<lambda>opt. os_name opt = name) specs = Some opt \<longleftrightarrow> opt \<in> set specs \<and> os_name opt = name"
  using assms by (induction specs) auto

lemma take_occurrences_ok:
  assumes "take_occurrences specs ns occs = Inr ns'" "distinct (map os_name specs)" "namespace_ok specs ns"
  shows "namespace_ok specs ns'" "dom (map_of ns') = dom (map_of ns) \<union> (fst ` set occs \<inter> os_name ` set specs)"
proof -
  have "namespace_ok specs ns' \<and> dom (map_of ns') = dom (map_of ns) \<union> (fst ` set occs \<inter> os_name ` set specs)"
    using assms
  proof (induction specs ns occs rule: take_occurrences.induct)
    case (2 specs ns name s occs)
    show ?case
    proof (cases "find (\<lambda>opt. os_name opt = name) specs")
      case None
      then have "name \<notin> os_name ` set specs" by (auto simp: find_None_iff)
      with 2 None show ?thesis by auto
    next
      case (Some opt)
      with 2(4) have opt: "opt \<in> set specs" "os_name opt = name" by (simp_all add: find_spec)
      with Some 2(3) obtain v where v: "convert_option (os_kind opt) s = Some v"
        "take_occurrences specs (AList.update name (store_value (map_of ns name) v) ns) occs = Inr ns'"
        by (auto split: option.splits)
      have "namespace_ok specs (AList.update name (store_value (map_of ns name) v) ns)"
        using 2(4,5) opt convert_option_kind [OF v(1)] store_value_kind [of "os_kind opt" v "map_of ns name"]
        by (auto simp: namespace_ok_def update_conv' dest: eq_key_imp_eq_value simp: distinct_map inj_on_def)
      from 2(2) [OF Some v(1) v(2) 2(4) this] have ih: "namespace_ok specs ns'"
        "dom (map_of ns') = dom (map_of (AList.update name (store_value (map_of ns name) v) ns)) \<union> (fst ` set occs \<inter> os_name ` set specs)"
        by simp_all
      moreover have "dom (map_of (AList.update name (store_value (map_of ns name) v) ns)) = insert name (dom (map_of ns))"
        by (auto simp: update_conv' split: if_splits)
      ultimately show ?thesis using opt by auto
    qed
  qed auto
  then show "namespace_ok specs ns'" "dom (map_of ns') = dom (map_of ns) \<union> (fst ` set occs \<inter> os_name ` set specs)" by auto
qed

lemma map_of_defaults:
  "distinct (map os_name specs) \<Longrightarrow> opt \<in> set specs \<Longrightarrow> map_of (option_defaults specs) (os_name opt) = os_default opt"
proof (induction specs)
  case (Cons p specs)
  have "map_of (option_defaults specs) name = None" if "name \<notin> set (map os_name specs)" for name specs
    using that by (induction specs) (auto simp: option_defaults_def map_filter_simps split: option.split)
  note none = this
  show ?case
  proof (cases "opt = p")
    case True
    with Cons.prems(1) none [of "os_name p" specs] show ?thesis
      by (auto simp: option_defaults_def map_filter_simps split: option.split)
  next
    case False
    with Cons.prems have "opt \<in> set specs" "os_name opt \<noteq> os_name p" by (simp_all, metis image_eqI)
    with Cons show ?thesis by (auto simp: option_defaults_def map_filter_simps split: option.split)
  qed
qed simp

text \<open>Every declared option of an accepted command line has a value of its kind.\<close>

theorem parsed_value:
  assumes "specs_ok specs" "parse_options specs occs = Inr ns" "opt \<in> set specs"
  shows "\<exists>v. map_of ns (os_name opt) = Some v \<and> value_of_kind (os_kind opt) v"
proof -
  from assms(2) have run: "take_occurrences specs (option_defaults specs) occs = Inr ns" "missing_options specs occs = []"
    by (auto simp: parse_options_def bindE_Inr_iff split: if_splits option.splits)
  have d: "distinct (map os_name specs)" using assms(1) by (simp add: specs_ok_def)
  have kinds: "value_of_kind (os_kind p) v" if "p \<in> set specs" "os_default p = Some v" for p v
    using assms(1) that by (auto simp: specs_ok_def list_all_iff split: option.splits)
  have "namespace_ok specs (option_defaults specs)"
    using kinds by (auto simp: namespace_ok_def map_of_defaults [OF d])
  note ok = take_occurrences_ok [OF run(1) d this]
  have "os_name opt \<in> dom (map_of ns)"
  proof (cases "os_default opt")
    case None
    then have "os_required opt" using assms(1,3) by (auto simp: specs_ok_def list_all_iff split: option.splits)
    with run(2) assms(3) have "os_name opt \<in> fst ` set occs" by (auto simp: missing_options_def filter_empty_conv)
    with assms(3) show ?thesis by (auto simp: ok(2))
  next
    case (Some v)
    with map_of_defaults [OF d assms(3)] show ?thesis by (auto simp: ok(2) domI)
  qed
  with ok(1) assms(3) show ?thesis by (auto simp: namespace_ok_def)
qed

lemma declared_options_ok: "specs_ok role_options" "specs_ok package_options"
  by (simp_all add: specs_ok_def role_options_def package_options_def required_option_def default_option_def network_policies_def tiers_def)

lemma dropWhile_none: "(\<forall>c \<in> set s. \<not> P c) \<Longrightarrow> dropWhile P s = s"
  by (cases s) auto

lemma split_on_single: "d \<notin> set s \<Longrightarrow> split_on d s = [s]"
  by (induction s) auto

lemma python_int_show_int:
  assumes "int_printable i"
  shows "python_int (show_int i) = Some i"
proof -
  let ?n = "nat \<bar>i\<bar>"
  have digits: "\<forall>c \<in> set (show_nat ?n). is_digit c" using show_nat_digits by (auto simp: list_all_iff)
  have plain: "\<not> c_space c \<and> c \<noteq> CHR ''_'' \<and> c \<noteq> CHR ''-'' \<and> c \<noteq> CHR ''+''" if "is_digit c" for c
    using that by (auto simp: is_digit_def c_space_def Let_def less_eq_char_def)
  have len: "length (show_nat ?n) \<le> max_str_digits"
    using assms by (intro length_show_nat) (simp_all add: int_printable_def max_str_digits_pos)
  have shown: "show_int i = (if i < 0 then ''-'' else []) @ show_nat ?n" by (simp add: show_int_def)
  have c_space_minus: "\<not> c_space CHR ''-''" by (simp add: c_space_def)
  have "\<forall>c \<in> set (show_int i). \<not> c_space c"
    using digits plain c_space_minus by (auto simp: shown)
  then have strip: "rev (dropWhile c_space (rev (dropWhile c_space (show_int i)))) = show_int i"
    by (simp add: dropWhile_none)
  have split: "split_on CHR ''_'' (show_nat ?n) = [show_nat ?n]"
    using digits plain by (intro split_on_single) blast
  obtain c cs where "show_nat ?n = c # cs" "c \<noteq> CHR ''-''" "c \<noteq> CHR ''+''"
    using digits plain show_nat_nonempty [of ?n] by (cases "show_nat ?n") auto
  then have sign: "(take 1 (show_int i) = ''-'') = (i < 0)"
    "(if take 1 (show_int i) \<in> {''-'', ''+''} then drop 1 (show_int i) else show_int i) = show_nat ?n"
    by (simp_all add: shown)
  show ?thesis
    unfolding python_int_def strip Let_def sign split using len show_nat_digits [of ?n] by simp
qed

end
