(* ===== verification/Cli.thy ===== *)
theory Cli
  imports Arguments Publisher Sizes
begin

text \<open>
  The command line, \<open>src/gpuforge/cli.py\<close>: the handlers of the commands and their dispatch, with the
  exit code, the text on standard output and the error reported on standard error.  The environment,
  the configuration files, the wallet, the package roots and what becomes of each write are
  arguments.
\<close>

section \<open>Printed objects\<close>

text \<open>\<open>json.dumps(..., indent=2)\<close>\<close>

definition new_line :: "nat \<Rightarrow> string" where
  "new_line n = CHR 0x0A # replicate (2 * n) CHR '' ''"

fun json_pretty :: "nat \<Rightarrow> json \<Rightarrow> string"
  and pretty_elems :: "nat \<Rightarrow> json list \<Rightarrow> string"
  and pretty_members :: "nat \<Rightarrow> (string \<times> json) list \<Rightarrow> string" where
  "json_pretty n (JArr []) = ''[]''"
| "json_pretty n (JArr (v # vs)) = CHR ''['' # pretty_elems (Suc n) (v # vs) @ new_line n @ '']''"
| "json_pretty n (JObj []) = ''{}''"
| "json_pretty n (JObj (kv # kvs)) = CHR ''{'' # pretty_members (Suc n) (kv # kvs) @ new_line n @ ''}''"
| "json_pretty n v = json_text True v"
| "pretty_elems n [] = []"
| "pretty_elems n (v # vs) = new_line n @ json_pretty n v @ (if vs = [] then [] else '','') @ pretty_elems n vs"
| "pretty_members n [] = []"
| "pretty_members n ((k, v) # kvs) =
     new_line n @ quote_text True k @ '': '' @ json_pretty n v @ (if kvs = [] then [] else '','') @ pretty_members n kvs"

text \<open>\<open>print(json.dumps(payload, indent=2, sort_keys=True))\<close>\<close>

definition print_json :: "json \<Rightarrow> string" where
  "print_json v = json_pretty 0 (json_sort v) @ [CHR 0x0A]"

section \<open>Results of commands\<close>

datatype cli_error =
    Network_Operation_Unavailable
  | Cli_Configuration config_error
  | Cli_Packaging packaging_error
  | Cli_Protocol protocol_error
  | Cli_Unknown_Value string
  | Cli_Usage usage_error

record cli_result =
  cr_exit :: int
  cr_out :: string
  cr_error :: "cli_error option"

definition publication_check_unavailable :: int where
  "publication_check_unavailable = 2"

definition cli_failure :: "cli_error \<Rightarrow> cli_result" where
  "cli_failure e = \<lparr>cr_exit = publication_check_unavailable, cr_out = [], cr_error = Some e\<rparr>"


section \<open>The role commands\<close>

definition check_role_configuration :: "bool \<Rightarrow> config_file \<Rightarrow> role \<Rightarrow> (string \<times> string) list \<Rightarrow> cli_result" where
  "check_role_configuration check_config f expected_role environ =
     (if \<not> check_config then cli_failure Network_Operation_Unavailable
      else case settings_from_toml f (Some expected_role) environ of
             Inl e \<Rightarrow> cli_failure (Cli_Configuration e)
           | Inr settings \<Rightarrow>
               \<lparr>cr_exit = 0,
                cr_out = print_json (JObj
                  [(''network_connection_attempted'', JBool False), (''settings'', settings_to_safe_dict settings),
                   (''status'', JStr ''configuration valid'')]),
                cr_error = None\<rparr>)"

section \<open>The publisher command\<close>

record package_args =
  pa_root :: path
  pa_entrypoint :: path
  pa_inputs :: "path list"
  pa_container :: string
  pa_job_id :: string
  pa_framework :: string
  pa_current_block :: int
  pa_expires_at_block :: int
  pa_lease_seconds :: int
  pa_gpu_count :: int
  pa_gpu_memory_mb :: int
  pa_cpu_cores :: int
  pa_memory_mb :: int
  pa_max_runtime_seconds :: int
  pa_network_policy :: string
  pa_minimum_evidence_tier :: string
  pa_challenge_kind :: string
  pa_checkpoint_interval_steps :: int
  pa_wallet_name :: string
  pa_hotkey_name :: string
  pa_output :: path

definition package_args_of :: "namespace \<Rightarrow> package_args" where
  "package_args_of ns =
     \<lparr>pa_root = path_of_option ns ''--root'',
      pa_entrypoint = path_of_option ns ''--entrypoint'',
      pa_inputs = paths_of ns ''--input'',
      pa_container = text_of ns ''--container'',
      pa_job_id = text_of ns ''--job-id'',
      pa_framework = text_of ns ''--framework'',
      pa_current_block = int_of_option ns ''--current-block'',
      pa_expires_at_block = int_of_option ns ''--expires-at-block'',
      pa_lease_seconds = int_of_option ns ''--lease-seconds'',
      pa_gpu_count = int_of_option ns ''--gpu-count'',
      pa_gpu_memory_mb = int_of_option ns ''--gpu-memory-mb'',
      pa_cpu_cores = int_of_option ns ''--cpu-cores'',
      pa_memory_mb = int_of_option ns ''--memory-mb'',
      pa_max_runtime_seconds = int_of_option ns ''--max-runtime-seconds'',
      pa_network_policy = text_of ns ''--network-policy'',
      pa_minimum_evidence_tier = text_of ns ''--minimum-evidence-tier'',
      pa_challenge_kind = text_of ns ''--challenge-kind'',
      pa_checkpoint_interval_steps = int_of_option ns ''--checkpoint-interval-steps'',
      pa_wallet_name = text_of ns ''--wallet-name'',
      pa_hotkey_name = text_of ns ''--hotkey-name'',
      pa_output = path_of_option ns ''--output''\<rparr>"

definition choice_value :: "(string \<times> 'a) list \<Rightarrow> string \<Rightarrow> cli_error + 'a" where
  "choice_value choices s = (case map_of choices s of None \<Rightarrow> Inl (Cli_Unknown_Value s) | Some v \<Rightarrow> Inr v)"

definition package_request_of :: "package_args \<Rightarrow> cli_error + package_request" where
  "package_request_of a =
     bindE (choice_value network_policies (pa_network_policy a)) (\<lambda>np.
     bindE (map_error Cli_Protocol (resource_policy_new
       \<lparr>rp_gpu_count = pa_gpu_count a, rp_gpu_memory_mb = pa_gpu_memory_mb a, rp_cpu_cores = pa_cpu_cores a,
        rp_memory_mb = pa_memory_mb a, rp_max_runtime_seconds = pa_max_runtime_seconds a, rp_network_policy = np\<rparr>)) (\<lambda>resources.
     bindE (choice_value tiers (pa_minimum_evidence_tier a)) (\<lambda>tier.
     bindE (map_error Cli_Protocol (verification_policy_new
       \<lparr>vp_minimum_evidence_tier = tier, vp_challenge_kind = pa_challenge_kind a,
        vp_checkpoint_interval_steps = pa_checkpoint_interval_steps a\<rparr>)) (\<lambda>verification.
     Inr \<lparr>rq_entrypoint = pa_entrypoint a, rq_inputs = pa_inputs a, rq_container_image = pa_container a,
          rq_job_id = pa_job_id a, rq_framework = pa_framework a, rq_resource_policy = resources,
          rq_verification_policy = verification, rq_lease_seconds = pa_lease_seconds a,
          rq_current_block = pa_current_block a, rq_expires_at_block = pa_expires_at_block a\<rparr>))))"

record package_world =
  pw_wallet :: "string \<Rightarrow> string \<Rightarrow> keypair option"
  pw_tree :: "path \<Rightarrow> package_tree"
  pw_io :: write_io
  pw_files :: "path \<Rightarrow> file_pair"

definition build_package :: "package_world \<Rightarrow> package_args \<Rightarrow> cli_error + packaged_job" where
  "build_package w a =
     bindE (map_error Cli_Packaging (load_bittensor_hotkey (pw_wallet w) (pa_wallet_name a) (pa_hotkey_name a))) (\<lambda>signer.
     bindE (package_request_of a) (\<lambda>request.
     map_error Cli_Packaging (package_job (pw_tree w (pa_root a)) request signer)))"

definition package_report :: "packaged_job \<Rightarrow> protocol_error + cli_result" where
  "package_report p =
     bindE (message_digest (Job_Manifest (pk_manifest p))) (\<lambda>digest.
     bindE (package_digest p) (\<lambda>package.
     Inr \<lparr>cr_exit = 0,
          cr_out = print_json (JObj
            [(''input_count'', JInt (int (length (pk_inputs p)))), (''job_id'', JStr (jm_job_id (pk_manifest p))),
             (''manifest_digest'', JStr digest), (''network_connection_attempted'', JBool False),
             (''package_digest'', JStr package), (''status'', JStr ''signed manifest written'')]),
          cr_error = None\<rparr>))"

text \<open>How a command ends: with its result, by an exception that leaves its handler, or killed.\<close>

datatype cli_end = Cli_Exits cli_result | Cli_Escapes cli_error | Cli_Killed

text \<open>\<open>except ValueError\<close> catches every error of the package but the two that \<open>pathlib\<close> raises.\<close>

definition is_value_error :: "cli_error \<Rightarrow> bool" where
  "is_value_error e \<longleftrightarrow> e \<noteq> Cli_Packaging Package_Os_Error \<and> e \<noteq> Cli_Packaging Package_Link_Loop"

definition package_publisher_job :: "package_world \<Rightarrow> package_args \<Rightarrow> (path \<Rightarrow> file_pair) \<times> cli_end" where
  "package_publisher_job w a =
     (case build_package w a of
        Inl e \<Rightarrow> (pw_files w, if is_value_error e then Cli_Exits (cli_failure e) else Cli_Escapes e)
      | Inr p \<Rightarrow>
          (case write_manifest p (pa_output a) (pw_io w) (pw_files w (pa_output a)) of
             (f, Io_Raised e) \<Rightarrow> ((pw_files w)(pa_output a := f), Cli_Exits (cli_failure (Cli_Packaging e)))
           | (f, Io_Killed) \<Rightarrow> ((pw_files w)(pa_output a := f), Cli_Killed)
           | (f, Io_Returned) \<Rightarrow>
               ((pw_files w)(pa_output a := f), case package_report p of Inl e \<Rightarrow> Cli_Escapes (Cli_Protocol e) | Inr r \<Rightarrow> Cli_Exits r)))"

section \<open>Commands\<close>






section \<open>Configuration and environment\<close>

text \<open>The environment decides nothing but the secrets of the settings.\<close>

lemma map_sum_bindE: "map_sum id g (bindE m f) = bindE m (\<lambda>x. map_sum id g (f x))"
  by (cases m) auto

lemma settings_new_secrets:
  "runtime_settings_new (r\<lparr>rt_secrets := s\<rparr>) = map_sum id (\<lambda>r. r\<lparr>rt_secrets := s\<rparr>) (runtime_settings_new r)"
  by (simp add: runtime_settings_new_def passes_def map_sum_bindE)

lemma settings_from_mapping_environ:
  "settings_from_mapping data environ' =
     map_sum id (\<lambda>r. r\<lparr>rt_secrets := secrets_from_environment environ'\<rparr>) (settings_from_mapping data environ)"
  by (simp add: settings_from_mapping_def map_sum_bindE settings_new_secrets [symmetric])

lemma settings_from_toml_environ:
  "settings_from_toml f role environ' =
     map_sum id (\<lambda>r. r\<lparr>rt_secrets := secrets_from_environment environ'\<rparr>) (settings_from_toml f role environ)"
proof (cases f)
  case (Config_File n parsed)
  then show ?thesis
    by (cases parsed; cases "settings_from_mapping (the parsed) environ")
      (simp_all add: settings_from_toml_def settings_from_mapping_environ [of _ environ' environ])
qed (simp add: settings_from_toml_def)

lemma safe_dict_environ:
  assumes "\<forall>name. env_value environ name = None \<longleftrightarrow> env_value environ' name = None" "rt_secrets r = secrets_from_environment environ"
  shows "settings_to_safe_dict (r\<lparr>rt_secrets := secrets_from_environment environ'\<rparr>) = settings_to_safe_dict r"
  using assms by (simp add: settings_to_safe_dict_def settings_safe_mapping_def secrets_to_safe_def secrets_from_environment_def)

lemma settings_from_toml_secrets:
  assumes "settings_from_toml f role environ = Inr r"
  shows "rt_secrets r = secrets_from_environment environ"
  using settings_from_toml_environ [of f role environ environ] assms by (metis map_sum.simps(2) runtime_settings.select_convs(8) runtime_settings.surjective runtime_settings.update_convs(8) sum.inject(2))

text \<open>
  C37: checking a configuration tells nothing about secrets.  Exit code and output of the miner and
  validator commands are the same in any two environments with the same variables set, whatever
  the values of those variables.
\<close>

theorem role_check_hides_secrets:
  assumes "\<forall>name. env_value environ name = None \<longleftrightarrow> env_value environ' name = None"
  shows "check_role_configuration check f role environ' = check_role_configuration check f role environ"
proof (cases "settings_from_toml f (Some role) environ")
  case (Inl e)
  then show ?thesis using settings_from_toml_environ [of f "Some role" environ' environ] by (simp add: check_role_configuration_def)
next
  case (Inr r)
  then show ?thesis
    using settings_from_toml_environ [of f "Some role" environ' environ] safe_dict_environ [OF assms settings_from_toml_secrets [OF Inr]]
    by (simp add: check_role_configuration_def)
qed

definition sample_config :: config_file where
  "sample_config = Config_File 100 (Some (settings_safe_mapping sample_settings))"

lemma sample_config_accepted: "\<exists>r. settings_from_toml sample_config (Some Miner) environ = Inr r"
proof -
  have own: "settings_from_mapping (settings_safe_mapping sample_settings) [] = Inr sample_settings"
    using settings_reload [OF sample_settings_valid, of "[]"] by (simp add: sample_settings_def)
  have "rt_role sample_settings = Miner" by (simp add: sample_settings_def)
  then show ?thesis
    using settings_from_mapping_environ [of "settings_safe_mapping sample_settings" environ "[]", unfolded own]
    by (simp add: settings_from_toml_def sample_config_def max_config_bytes_def)
qed

theorem role_check_hides_secrets_witness:
  "cr_exit (check_role_configuration True sample_config Miner [(''GPUFORGE_ARTIFACT_ACCESS_TOKEN'', ''hunter2'')]) = 0
   \<and> check_role_configuration True sample_config Miner [(''GPUFORGE_ARTIFACT_ACCESS_TOKEN'', ''hunter2'')]
     = check_role_configuration True sample_config Miner [(''GPUFORGE_ARTIFACT_ACCESS_TOKEN'', ''other'')]"
proof
  show "cr_exit (check_role_configuration True sample_config Miner [(''GPUFORGE_ARTIFACT_ACCESS_TOKEN'', ''hunter2'')]) = 0"
    using sample_config_accepted [of "[(''GPUFORGE_ARTIFACT_ACCESS_TOKEN'', ''hunter2'')]"]
    by (auto simp: check_role_configuration_def)
  show "check_role_configuration True sample_config Miner [(''GPUFORGE_ARTIFACT_ACCESS_TOKEN'', ''hunter2'')]
     = check_role_configuration True sample_config Miner [(''GPUFORGE_ARTIFACT_ACCESS_TOKEN'', ''other'')]"
    by (rule role_check_hides_secrets) (simp add: env_value_def)
qed

section \<open>Publishing\<close>










lemma map_error_Inl_origin: "map_error g m = Inl e \<longleftrightarrow> (\<exists>x. m = Inl x \<and> e = g x)"
  by (cases m) auto

text \<open>Only packaging raises something else than a \<open>ValueError\<close>, and only where \<open>pathlib\<close> raises again.\<close>

definition escapes :: "packaging_error + 'a \<Rightarrow> bool" where
  "escapes m \<longleftrightarrow> m = Inl Package_Os_Error \<or> m = Inl Package_Link_Loop"

lemma escapes_simps [simp]:
  "\<not> escapes (Inr x)" "escapes (Inl e) \<longleftrightarrow> e = Package_Os_Error \<or> e = Package_Link_Loop"
  "escapes (require b e) \<longleftrightarrow> \<not> b \<and> (e = Package_Os_Error \<or> e = Package_Link_Loop)"
  "\<not> escapes (map_error Package_Signing n)" "\<not> escapes (map_error Package_Protocol o')"
  by (cases n; cases o'; simp add: escapes_def require_def)+

lemma escapes_bindE [simp]: "escapes (bindE m f) \<longleftrightarrow> escapes m \<or> (\<exists>x. m = Inr x \<and> escapes (f x))"
  by (cases m) (auto simp: escapes_def)



lemma examined_escapes [simp]: "escapes (examined t fails answer) \<longleftrightarrow> fails \<and> pt_reraises t"
  by (simp add: examined_def)




lemma hash_file_escapes [simp]: "\<not> escapes (hash_file t f)"
  by (simp add: hash_file_def split: prod.split)


lemma container_digest_escapes [simp]: "\<not> escapes (container_digest reference)"
  by (simp add: container_digest_def)

lemma signed_escapes [simp]:
  "\<not> escapes (case m of Job_Manifest x \<Rightarrow> Inr (f x) | _ \<Rightarrow> Inl (Package_Signing e))"
  by (cases m) simp_all






section \<open>Command lines\<close>






lemma store_value_simps [simp]:
  "store_value old (Text_Value s) = Text_Value s" "store_value old (Int_Value i) = Int_Value i"
  "store_value old (Path_Value p) = Path_Value p" "store_value None v = v"
  by ((cases old; cases "the old"; simp)+)


lemma option_fields [simp]:
  "os_kind (required_option n k) = k" "os_kind (default_option n k v) = k"
  by (simp_all add: required_option_def default_option_def)




text \<open>The names that \<open>NetworkPolicy(...)\<close> and \<open>EvidenceTier(...)\<close> receive are their members'.\<close>

lemma parsed_names_known:
  assumes "parse_options package_options occs = Inr ns"
  shows "package_request_of (package_args_of ns) \<noteq> Inl (Cli_Unknown_Value s)"
proof -
  have "\<exists>s. map_of ns ''--network-policy'' = Some (Text_Value s) \<and> s \<in> fst ` set network_policies"
    using parsed_value [OF declared_options_ok(2) assms,
        of "default_option ''--network-policy'' (Choice_Option (map fst network_policies)) (Text_Value (network_value Net_Deny))"]
    by (auto simp: package_options_def default_option_def elim!: value_of_kind.elims)
  moreover have "\<exists>s. map_of ns ''--minimum-evidence-tier'' = Some (Text_Value s) \<and> s \<in> fst ` set tiers"
    using parsed_value [OF declared_options_ok(2) assms,
        of "default_option ''--minimum-evidence-tier'' (Choice_Option (map fst tiers)) (Text_Value (tier_value Tier_C))"]
    by (auto simp: package_options_def default_option_def elim!: value_of_kind.elims)
  ultimately obtain np t where "choice_value network_policies (pa_network_policy (package_args_of ns)) = Inr np"
    "choice_value tiers (pa_minimum_evidence_tier (package_args_of ns)) = Inr t"
    by (auto simp: package_args_of_def text_of_def choice_value_def network_policies_def tiers_def)
  then show ?thesis by (auto simp: package_request_of_def bindE_Inl_iff map_error_Inl_origin)
qed

definition sample_package_args :: package_args where
  "sample_package_args = \<lparr>pa_root = path_of ''job'', pa_entrypoint = path_of ''train.py'',
     pa_inputs = [path_of ''train.py'', path_of ''data/a''], pa_container = ''trainer@'' @ digest_text (replicate 64 CHR ''a''),
     pa_job_id = ''job'', pa_framework = ''torch'', pa_current_block = 5, pa_expires_at_block = 100, pa_lease_seconds = 600,
     pa_gpu_count = 1, pa_gpu_memory_mb = 81920, pa_cpu_cores = 8, pa_memory_mb = 65536, pa_max_runtime_seconds = 3600,
     pa_network_policy = ''deny'', pa_minimum_evidence_tier = ''b'', pa_challenge_kind = ''replay'', pa_checkpoint_interval_steps = 10,
     pa_wallet_name = ''wallet'', pa_hotkey_name = ''hotkey'', pa_output = path_of ''out/manifest.json''\<rparr>"

definition working_io :: write_io where
  "working_io = \<lparr>wi_parent = Io_Done, wi_temporary = Io_Done, wi_partial = None, wi_replace = Io_Done, wi_replaced = True\<rparr>"

definition sample_package_world :: package_world where
  "sample_package_world = \<lparr>pw_wallet = (\<lambda>_ _. Some sample_keypair), pw_tree = (\<lambda>_. sample_tree), pw_io = working_io,
     pw_files = (\<lambda>_. \<lparr>fp_temporary = None, fp_destination = None\<rparr>)\<rparr>"


lemma sample_request_of: "package_request_of sample_package_args = Inr sample_package_request"
  by (simp add: package_request_of_def sample_package_args_def sample_package_request_def choice_value_def
      network_policies_def tiers_def resource_policy_new_def verification_policy_new_def in_range_def is_identifier_def
      char_class_defs bounded_text_def is_prohibited_def Let_def is_ascii_def)



text \<open>
  What escapes: on Python before 3.13 a package root that cannot be examined, for instance because
  a component of its name is too long, ends the command with an \<open>OSError\<close>.
\<close>

lemma unexaminable_root_escapes:
  "package_publisher_job
     (sample_package_world\<lparr>pw_tree := (\<lambda>_. sample_tree\<lparr>pt_link_fails := True\<rparr>)\<rparr>) sample_package_args
   = (pw_files sample_package_world, Cli_Escapes (Cli_Packaging Package_Os_Error))"
proof -
  have "safe_root (sample_tree\<lparr>pt_link_fails := True\<rparr>) = Inl Package_Os_Error"
    by (simp add: safe_root_def examined_def sample_tree_def)
  then have "package_job (sample_tree\<lparr>pt_link_fails := True\<rparr>) sample_package_request sample_keypair = Inl Package_Os_Error"
    by (simp add: package_job_def sample_package_request_def max_inputs_def require_def)
  then show ?thesis
    by (simp add: package_publisher_job_def build_package_def sample_request_of load_bittensor_hotkey_def sample_package_world_def is_value_error_def)
      (simp add: sample_package_args_def)
qed

end
