(* ===== verification/Spec2Isabelle.thy ===== *)
theory Spec2Isabelle
  imports Hashing_Vectors Durability Validation Challenge Correctness Runner Capability Sandbox Config Artifacts Publisher Nvidia Redaction Cli
begin

text \<open>
  A verification library for GPUForge (\<open>src/gpuforge\<close>), a network in which publishers sign
  training jobs, validators lease them to miners, and validators check the evidence of the execution
  before they issue a receipt.

  \<^bold>\<open>The program and its theories.\<close>  Each theory models one file, in the order of its code: its
  dataclasses as records, its enumerations as datatypes, each constructor check as a function
  \<open>..._new\<close> and each operation as a function of the same name.

  \<^item> \<open>Prelude\<close>: errors as values (\<open>bindE\<close>), regular expressions, dictionaries as association
    lists, and the locales \<open>machine\<close>, \<open>progressing_machine\<close>, \<open>one_shot\<close> and \<open>marked_event\<close>, the
    contracts of objects whose methods may raise.
  \<^item> \<open>Hashing\<close> (with the test vectors of \<open>Hashing_Vectors\<close>): \<open>hashlib.sha256\<close>, \<open>hmac.digest\<close>,
    UTF-8, hexadecimal text, big-endian integers.  \<open>Json\<close>: \<open>json.dumps\<close> and \<open>json.loads\<close> with
    their hooks, the detection of UTF-16 and UTF-32 input, the conversion limit on number literals
    and the recursion limit, and the proof that reading inverts writing.  \<open>Texts\<close>: text operations.
  \<^item> \<open>Lease\<close> (\<open>lease.py\<close>): the lease records and the durable \<open>LeaseStore\<close>.
  \<^item> \<open>Replay\<close> (\<open>replay.py\<close>): the bounded durable replay cache.
  \<^item> \<open>Files\<close>, \<open>Durability\<close> (the writing in \<open>lease.py\<close>, \<open>replay.py\<close>, \<open>publisher.py\<close>): the calls on the
    file system by which \<open>AtomicLeaseStateWriter.write\<close>, \<open>ReplayCache._persist\<close> and \<open>write_manifest\<close>
    replace a file, each of which may fail or be interrupted; the contracts \<open>atomic_replacement\<close> and
    \<open>crashable\<close>, and what of the lease store, the replay cache and the authenticator survives a crash.
  \<^item> \<open>Checks\<close>, \<open>Protocol\<close>, \<open>Sizes\<close> (\<open>protocol.py\<close>): the five wire messages, their canonical
    encoding, the strict decoder, the digests and the sizes of encodings.
  \<^item> \<open>Identity\<close> (\<open>identity.py\<close>): signing, signature checks, freshness and \<open>MessageAuthenticator\<close>,
    which calls the replay cache.
  \<^item> \<open>Attestation\<close> (\<open>attestation.py\<close>): the attestation values and the policy verifier.
  \<^item> \<open>Performance\<close> (\<open>performance.py\<close>) and \<open>Baseline\<close> (\<open>baseline.py\<close>): measurement of accepted
    work and the plausibility of its rate.
  \<^item> \<open>Evidence\<close> (\<open>evidence.py\<close>): proof bundles and what binds them to lease and evidence.
  \<^item> \<open>Validation\<close> (\<open>validation.py\<close>): the pipeline from the messages of an execution to a receipt;
    it calls \<open>Protocol\<close>, \<open>Identity\<close>, \<open>Evidence\<close> and takes the results of the other checks.
  \<^item> \<open>Challenge\<close> (\<open>challenge.py\<close>): commit-reveal challenges and their one-time consumption.
  \<^item> \<open>Merkle\<close>, \<open>Decimals\<close>, \<open>Correctness\<close> (\<open>correctness.py\<close>): checkpoint roots, numeric
    tolerances, the generation of correctness challenges and their verification.
  \<^item> \<open>Runner\<close> (\<open>runner.py\<close>): progress events and the supervisor of an untrusted training process.
  \<^item> \<open>Capability\<close> (\<open>capability.py\<close>), \<open>Sandbox\<close> (\<open>sandbox.py\<close>), \<open>Config\<close> (\<open>config.py\<close>): GPU
    inventories and claims, container command lines, runtime settings.
  \<^item> \<open>Artifacts\<close> (\<open>artifacts.py\<close>): references, access grants, the content-addressed local store and
    the verified, resumable transfer \<open>fetch_verified\<close>, whose reader is the contract \<open>artifact_reader\<close>.
  \<^item> \<open>Publisher\<close> (\<open>publisher.py\<close>): the checks of declared files, the packaging and signing of a job.
  \<^item> \<open>Nvidia\<close> (\<open>nvidia_attestation.py\<close>): the backend of \<open>Attestation\<close> that runs \<open>nvattest\<close> and reads
    its claims, and the cache of public collateral.
  \<^item> \<open>Redaction\<close> (\<open>redaction.py\<close>): the removal of secrets from log records.
  \<^item> \<open>Arguments\<close>, \<open>Cli\<close> (\<open>cli.py\<close>): the declared options and their values; the handlers of the
    commands, over \<open>Config\<close> and \<open>Publisher\<close>, and their dispatch.
  \<^item> This theory: the pipeline composed of the modelled components.

  \<^bold>\<open>How the code is represented.\<close>  A Python integer is an \<open>int\<close>, bytes are lists of 8-bit words, a
  text is a \<open>string\<close> whose characters stand for the code points up to U+00FF; the text fields the
  program accepts are ASCII.  A function that may raise returns \<open>Inl\<close> of an error, one constructor
  per message of the source, or \<open>Inr\<close> of its value; a method that changes its object returns the
  object it leaves behind as well, after an exception too.  Exceptions that escape a handler which
  should have caught them are values of their own (\<open>Decode_Escaped\<close>, \<open>Runner_Digit_Limit\<close>,
  \<open>Runner_Recursion\<close>, \<open>Package_Os_Error\<close>, \<open>Package_Link_Loop\<close>).
  What the code does not compute is an argument: the outcome of each call on a file, the keypair, the
  \<open>nvattest\<close> program, the GPU provider, the wallet, random identifiers and nonces, the answers of process,
  clock, token and checkpoint store in each round of the supervisor (\<open>tick\<close>), the depth of nesting
  that the stack leaves to \<open>json.loads\<close> there, and whether the predicates of \<open>pathlib\<close> raise an \<open>OSError\<close>
  or answer \<open>False\<close>, as they do since Python 3.13.  A stream is the list of
  the answers to its reads, a directory tree a map from paths to nodes; the result of \<open>tomllib\<close> and of
  \<open>datetime.fromisoformat\<close> and the options \<open>argparse\<close> recognises are arguments of the code that uses them.  SHA-256 and HMAC are
  concrete, so statements of the form "equal digests, equal contents" name the collision
  (\<open>collide p q\<close>) that is the only alternative.

  \<^bold>\<open>What the lemmas show.\<close>
  \<^item> \<open>Lease\<close>, \<open>Replay\<close>, \<open>Identity\<close>, \<open>Challenge\<close>: state machines over calls, failed writes and
    restarts.  Their invariants are the interpretations of the locales of \<open>Prelude\<close>; from them
    follow the at-most-once properties, the refinement of the lease life cycle and the recovery of
    the state from its file.
  \<^item> \<open>Durability\<close>: the writers replace their file atomically and refine the persistence of \<open>Lease\<close> and
    \<open>Replay\<close>, which know only whether a write succeeded.  A run with crashes amounts to a run with
    restarts (\<open>crash_run\<close>), so the at-most-once properties hold of it too.
  \<^item> \<open>Json\<close>, \<open>Protocol\<close>, \<open>Runner\<close>, \<open>Config\<close>: round trips.  Canonical encodings are unique: bytes
    decode to a value exactly when they are its encoding.
  \<^item> \<open>Protocol\<close>, \<open>Evidence\<close>, \<open>Merkle\<close>, \<open>Challenge\<close>: binding.  Digests, signing bytes and roots
    determine what they commit to, up to explicit collisions.
  \<^item> \<open>Attestation\<close>, \<open>Validation\<close>, \<open>Correctness\<close>, \<open>Performance\<close>: decisions.  Exactly when each
    check accepts, and that it otherwise fails with one of its own codes.
  \<^item> \<open>Decimals\<close>: the rounding error of the tolerance test.  \<open>Correctness\<close>: rejection sampling is
    unbiased and ends.  \<open>Runner\<close>: every outcome certifies the frames it consumed, every run ends
    within the grace frames after its deadline, and failures terminate the process, but for the two
    exceptions of \<open>json.loads\<close> that the supervisor does not catch.
  \<^item> \<open>Capability\<close>, \<open>Sandbox\<close>, \<open>Config\<close>: what an accepted inventory, command or configuration
    guarantees.  \<open>Sandbox\<close>: a process is over when its run is, and its kept output is bounded.
  \<^item> \<open>Artifacts\<close>: a stored file keeps the digest that names it; a destination is published only
    with the size and digest of its reference, and otherwise left alone; interrupted transfers resume
    and recover.  The local store is a reader in the sense of \<open>artifact_reader\<close>.
  \<^item> \<open>Publisher\<close>, \<open>Cli\<close>: what a package commits to, and that the publisher command either leaves a
    manifest every reader decodes and verifies or leaves its output alone, even when it is killed, and
    that the only exception that can escape it, one of \<open>pathlib\<close>, does so before anything is written; every
    request can be made by a command line, and options mean what they say.
  \<^item> \<open>Nvidia\<close>: what a successful run of the verifier has to say before its evidence is accepted, and
    the collateral cache: its bound, its hits, when it accepts collateral and how long it keeps it.
  \<^item> \<open>Config\<close>, \<open>Redaction\<close>, \<open>Cli\<close>: secrets reach neither the printed configuration nor, if the
    redaction itself cannot spell them (\<open>distinguishable\<close>), the log.
  \<^item> This theory: the conditions of all components that an accepted receipt rests on.

  \<^bold>\<open>Recursion and bounds.\<close>  The JSON parser recurses on fuel, \<open>2 * length s + 1\<close>, which
  \<open>json_loads_no_fuel_error\<close> proves sufficient.  \<open>merkle_root\<close> and \<open>sample_loop\<close> terminate by
  measures, the latter because its counter has 64 bits.  The supervisor's loop consumes a list of
  rounds and is still running (\<open>None\<close>) when it has used them up; \<open>run_stops_after_deadline\<close> bounds
  how many it can use.  Decimal arithmetic is that of the default context, 28 digits, half to even.

  \<^bold>\<open>Not modelled.\<close>  The recursion limit of \<open>json.loads\<close> outside the supervisor of \<open>Runner\<close>: the strict
  decoder of \<open>Protocol\<close> answers it as malformed input, which nested input that deep is refused as
  anyway, and the other callers take it as not reached; text beyond U+00FF; the failure to stat or read an existing state
  file, on which the constructors of the lease store and the replay cache raise; values of types the annotations exclude, which the source's \<open>isinstance\<close> tests
  refuse; what a process of the operating system does, of which the runners see the exit, the output
  and the timeout; which options a command line contains, which \<open>argparse\<close> recognises; \<open>generate_nonce\<close> and the other
  draws of random bytes, which only call the library.
\<close>

section \<open>An accepted receipt\<close>

lemma accepted_gates:
  assumes "inputs_ok i hotkey" "fits (Execution_Evidence (vi_evidence i))" "validate_execution i hotkey v n = Inr r" "vr_accepted r"
  shows "first_failure i v n = Inr None \<and> (\<exists>d. r = receipt_of i hotkey d None)"
proof -
  obtain d where d: "message_digest (Execution_Evidence (vi_evidence i)) = Inr d" "is_digest d"
    using fits_digest [OF assms(2)] by blast
  obtain reason where reason: "first_failure i v n = Inr reason" "issue_receipt i hotkey reason = Inr r"
    using assms(3) by (auto simp: validate_execution_def)
  with issue_receipt_ok [OF assms(1) d reason(1)] assms(4) have "reason = None" "r = receipt_of i hotkey d reason"
    by (auto simp: receipt_of_def)
  with reason(1) show ?thesis by blast
qed

lemma baseline_passes:
  assumes "assess_baseline profile x family gpu_class version reviewed mig \<in> {Plausible, Slow_Review}"
  shows "\<not> mig \<and> reviewed \<and> (\<exists>bp. profile = Some bp \<and> bp_version bp = version \<and> bp_gpu_class bp = gpu_class
     \<and> bp_gpu_count bp = px_gpu_count x \<and> px_rate_milli_units_per_second x \<le> bp_upper bp)"
  using assms by (auto simp: assess_baseline_def split: if_splits option.splits)

lemma consumed_once:
  assumes "is_ok (snd (verify_and_consume cv c rv jd nonce acc blk))"
  shows "co_commitment_digest c \<notin> set (cv_consumed cv)
     \<and> co_commitment_digest c \<in> set (cv_consumed (fst (verify_and_consume cv c rv jd nonce acc blk)))"
  using assms by (auto simp: verify_and_consume_def split: sum.splits if_splits)

text \<open>
  C4: what an accepted receipt rests on.  Let a validator fill its inputs with the modelled
  components: the NVIDIA verifier's result for the attestation, the measurement of the run, its
  comparison with a baseline, the consumption of the challenge and the correctness check as the two
  callables.  If the receipt is accepted, the units it grants are those of the active batches of a
  run that meets the performance policy, at a rate within a reviewed baseline; its tier is B, earned
  by claims of \<open>nvattest\<close> that all verified for the nonce bound to the request, as many as the run
  has GPUs; the challenge had not been used and now is; and the training values agreed.
\<close>

theorem accepted_receipt_backed:
  assumes "inputs_ok i hotkey" "fits (Execution_Evidence (vi_evidence i))" "validate_execution i hotkey v n = Inr r" "vr_accepted r"
    and "attestation_verify (nvat_backend s runner staging from_iso) q b p now = Inr (vi_attestation i)"
    and "performance_measure policy done_run = Inr (vi_performance i)"
    and "vi_plausibility i = assess_baseline profile (vi_performance i) family gpu_class version reviewed mig"
    and "vi_challenge_check i = Some (is_ok (snd (verify_and_consume cv c rv jd nonce acc blk)))"
    and "vi_correctness_check i = Some (is_ok (correctness_verify tolerances ch expected observed))"
  shows "run_accepted policy done_run \<and> vr_verified_work_units r = run_units policy (pr_intervals done_run)
     \<and> reviewed \<and> (\<exists>bp. profile = Some bp \<and> px_rate_milli_units_per_second (vi_performance i) \<le> bp_upper bp)
     \<and> vr_confidence_tier r = Some Tier_B
     \<and> (\<exists>path outcome data claims ess. runner (attest_command s path (bound_nonce q)) (nv_timeout_seconds s) = Inr outcome
          \<and> json_loads_bytes default_hooks (nr_stdout outcome) = Inr (JObj data) \<and> map_of data ''claims'' = Some (JArr claims)
          \<and> int (length claims) = pp_gpu_count policy \<and> list_all2 (device_attested from_iso (bound_nonce q)) claims ess)
     \<and> co_commitment_digest c \<notin> set (cv_consumed cv)
     \<and> co_commitment_digest c \<in> set (cv_consumed (fst (verify_and_consume cv c rv jd nonce acc blk)))
     \<and> is_ok (correctness_verify tolerances ch expected observed)"
proof -
  obtain d where gates: "first_failure i v n = Inr None" and r: "r = receipt_of i hotkey d None"
    using accepted_gates [OF assms(1-4)] by blast
  then have bound: "attestation_sufficient i" "checked_failure i = None"
    by (simp_all add: first_failure_None bound_failure_None)
  then have checked: "vi_challenge_check i = Some True" "vi_correctness_check i = Some True"
      "vi_plausibility i \<in> {Plausible, Slow_Review}"
    by (simp_all add: checked_failure_None)
  have att: "vx_accepted (vi_attestation i)" "vx_gpu_count (vi_attestation i) = px_gpu_count (vi_performance i)"
    using bound(1) by (simp_all add: attestation_sufficient_def)
  note nvat = nvat_attestation_accepted [OF assms(5) att(1)]
  have perf: "run_accepted policy done_run" "vi_performance i = run_result policy done_run"
    using assms(6) by (simp_all add: performance_measure_Inr)
  then have "vr_verified_work_units r = run_units policy (pr_intervals done_run)" "px_gpu_count (vi_performance i) = pp_gpu_count policy"
    by (simp_all add: r receipt_of_def run_result_def Let_def)
  moreover have "vr_confidence_tier r = Some Tier_B" using nvat by (simp add: r receipt_of_def)
  moreover have "is_ok (snd (verify_and_consume cv c rv jd nonce acc blk))" "is_ok (correctness_verify tolerances ch expected observed)"
    using checked(1,2) assms(8,9) by simp_all
  moreover note consumed_once [OF this(1)]
  moreover note baseline_passes [OF checked(3) [unfolded assms(7)]]
  ultimately show ?thesis using perf(1) nvat att(2) by metis
qed

text \<open>Such a receipt: the sample messages, one attested H100, and the sample run on a slower clock.\<close>

definition slow_run :: performance_run where
  "slow_run = sample_run\<lparr>pr_validator_observed_ns := 2000000,
     pr_intervals := [sample_interval 0 Warmup 100000 200000 1 1, sample_interval 1 Active 200000 500000 2 4,
       sample_interval 2 Checkpoint 550000 600000 0 0, sample_interval 3 Active 600000 1000000 5 6]\<rparr>"

definition slow_policy :: performance_policy where
  "slow_policy = sample_performance_policy\<lparr>pp_maximum_interval_ns := 500000, pp_maximum_active_ns := 10000000,
     pp_maximum_checkpoint_ns := 100000, pp_maximum_validator_observed_ns := 10000000\<rparr>"

definition slow_result :: performance_result where
  "slow_result = run_result slow_policy slow_run"

lemma slow_run_measured: "performance_measure slow_policy slow_run = Inr slow_result"
  "px_accepted_units slow_result = 400" "px_active_ns slow_result = 750000" "px_gpu_count slow_result = 1"
  "assess_baseline (Some sample_profile) slow_result ''lora'' ''h100_sxm'' 1 True False = Plausible"
proof -
  have "\<exists>x. performance_measure slow_policy slow_run = Inr x \<and> px_accepted_units x = 400 \<and> px_active_ns x = 750000 \<and> px_gpu_count x = 1
      \<and> assess_baseline (Some sample_profile) x ''lora'' ''h100_sxm'' 1 True False = Plausible"
    by (simp add: performance_measure_def slow_policy_def slow_run_def sample_performance_policy_def sample_run_def sample_interval_def
        measure_start_def measure_interval_def duration_ns_def completed_steps_def Let_def measure_finish_def perf_units_def
        assess_baseline_def sample_profile_def h100_classes_def)
  then show "performance_measure slow_policy slow_run = Inr slow_result"
    "px_accepted_units slow_result = 400" "px_active_ns slow_result = 750000" "px_gpu_count slow_result = 1"
    "assess_baseline (Some sample_profile) slow_result ''lora'' ''h100_sxm'' 1 True False = Plausible"
    by (auto simp: performance_measure_Inr slow_result_def)
qed

lemma sample_values_agree:
  "is_ok (correctness_verify Correctness.sample_policy Correctness.sample_challenge (sample_run_bundle (Finite 25 (- 1))) (sample_run_bundle (Finite 2502 (- 3))))"
proof -
  have "\<exists>res. correctness_verify Correctness.sample_policy Correctness.sample_challenge (sample_run_bundle (Finite 25 (- 1))) (sample_run_bundle (Finite 2502 (- 3))) = Inr res"
    unfolding correctness_verify_Inr [OF sample_run_bundle_valid sample_run_bundle_valid, OF sample_decimals(1) sample_decimals(2)]
    by (simp add: sample_run_bundle_def Correctness.sample_challenge_def Correctness.sample_request_def Correctness.sample_policy_def proof_kinds_def
        probe_agrees_def sample_tolerance_accepts)
  then show ?thesis by auto
qed

definition backed_inputs :: validation_inputs where
  "backed_inputs = sample_inputs\<lparr>
     vi_attestation := \<lparr>vx_accepted = True, vx_tier = Some Tier_B, vx_reason = Verified, vx_evidence_digest = sha256_id [2],
       vx_gpu_class = Some ''h100'', vx_gpu_count = 1\<rparr>,
     vi_performance := slow_result\<rparr>"

lemma backed_inputs_ok: "inputs_ok backed_inputs ''validator''" "fits (Execution_Evidence (vi_evidence backed_inputs))"
  using sample_inputs_ok by (simp_all add: inputs_ok_def backed_inputs_def slow_run_measured)

lemma backed_receipt:
  "\<exists>r. validate_execution backed_inputs ''validator'' (\<lambda>h p s. Inr True) 64 = Inr r \<and> vr_accepted r"
proof -
  obtain d where d: "message_digest (Execution_Evidence (vi_evidence backed_inputs)) = Inr d" "is_digest d"
    using fits_digest [OF backed_inputs_ok(2)] by blast
  have "schema_valid backed_inputs"
    using backed_inputs_ok bundle_ok_schema by (simp add: schema_valid_def inputs_ok_def fits_def)
  moreover have "verify_signatures backed_inputs (\<lambda>h p s. Inr True) = Inr ()"
    using sample_signatures by (simp add: verify_signatures_def backed_inputs_def)
  moreover have "bound_failure backed_inputs 64 = Inr None"
    using bound_verifies sample_manifest_digest(1) slow_run_measured
    by (simp add: bound_failure_None checked_failure_None evidence_fresh_def attestation_sufficient_def measurement_agrees_def backed_inputs_def
        sample_inputs_def bound_evidence_def sample_evidence_message_def bound_lease_def Evidence.sample_lease_def sample_work_lease_def
        Validation.sample_manifest_def sample_blob_def)
  ultimately have accepted: "first_failure backed_inputs (\<lambda>h p s. Inr True) 64 = Inr None" by (simp add: first_failure_None)
  note issue_receipt_ok [OF backed_inputs_ok(1) d accepted]
  with accepted show ?thesis by (simp add: validate_execution_def receipt_of_def)
qed

theorem accepted_receipt_backed_witness:
  "\<exists>r data claims. validate_execution backed_inputs ''validator'' (\<lambda>h p s. Inr True) 64 = Inr r \<and> vr_accepted r
     \<and> vr_verified_work_units r = run_units slow_policy (pr_intervals slow_run) \<and> vr_confidence_tier r = Some Tier_B
     \<and> map_of data ''claims'' = Some (JArr claims) \<and> int (length claims) = pp_gpu_count slow_policy"
proof -
  obtain r where r: "validate_execution backed_inputs ''validator'' (\<lambda>h p s. Inr True) 64 = Inr r" "vr_accepted r"
    using backed_receipt by blast
  have att: "attestation_verify sample_appraisal Attestation.sample_request sample_nvat_evidence sample_nvat_policy 120 = Inr (vi_attestation backed_inputs)"
    using sample_appraised by (simp add: backed_inputs_def)
  have perf: "performance_measure slow_policy slow_run = Inr (vi_performance backed_inputs)"
    using slow_run_measured by (simp add: backed_inputs_def)
  have base: "vi_plausibility backed_inputs = assess_baseline (Some sample_profile) (vi_performance backed_inputs) ''lora'' ''h100_sxm'' 1 True False"
    using slow_run_measured by (simp add: backed_inputs_def sample_inputs_def)
  obtain rv where rv: "snd (challenge_step \<lparr>cv_max_consumed = 2, cv_consumed = []\<rparr> (sample_call rv)) = Inr ()"
    using sample_reveal_ok by (metis snd_conv)
  then have chal: "vi_challenge_check backed_inputs = Some (is_ok (snd (verify_and_consume \<lparr>cv_max_consumed = 2, cv_consumed = []\<rparr>
      (cl_commitment (sample_call rv)) (cl_reveal (sample_call rv)) (cl_job_digest (sample_call rv)) (cl_lease_nonce (sample_call rv))
      (cl_accepted (sample_call rv)) (cl_current_block (sample_call rv)))))"
    by (simp add: backed_inputs_def sample_inputs_def challenge_step_def)
  have corr: "vi_correctness_check backed_inputs = Some (is_ok (correctness_verify Correctness.sample_policy Correctness.sample_challenge
      (sample_run_bundle (Finite 25 (- 1))) (sample_run_bundle (Finite 2502 (- 3)))))"
    using sample_values_agree by (simp add: backed_inputs_def sample_inputs_def)
  from accepted_receipt_backed [OF backed_inputs_ok r att [unfolded sample_appraisal_def] perf base chal corr] r
  show ?thesis by blast
qed

end
